(* ===== verification/Prelude.thy ===== *)
theory Prelude
  imports Main "HOL-Library.Word"
begin

unbundle bit_operations_syntax

text \<open>
  Shared vocabulary of the development: the names of the machine types of the C sources, the
  result type of the operations that can go wrong, the memory cells of a heap block, and the
  generic lemmas on lists, arithmetic and words that the component theories share.

  An operation of the C code that can touch memory it does not own, read an indeterminate value,
  convert a double outside the range of \<open>int\<close>, loop forever, or throw a Blade exception returns
  a value of type \<open>'a res\<close>; each of these outcomes is a constructor of \<open>b_error\<close>.
\<close>

section \<open>Machine types\<close>

type_synonym byte = "8 word"
type_synonym uint16 = "16 word"
type_synonym uint32 = "32 word"
type_synonym uint64 = "64 word"

text \<open>A \<open>double\<close> is kept as its IEEE-754 bit pattern, an address as the value of the pointer.\<close>

type_synonym double = "64 word"
type_synonym addr = "64 word"

section \<open>Results\<close>

datatype b_error =
    OutOfBounds            \<comment> \<open>an access outside the memory block\<close>
  | Uninitialised          \<comment> \<open>the use of a cell that was never written\<close>
  | NullPointer            \<comment> \<open>a null or dangling pointer is followed\<close>
  | DoubleFree             \<comment> \<open>an object is released a second time\<close>
  | InvalidCast            \<comment> \<open>a double that has no \<open>int\<close> value is converted\<close>
  | DivisionByZero         \<comment> \<open>an integer is divided by zero\<close>
  | Overflow               \<comment> \<open>a signed integer leaves the range of its type\<close>
  | Divergence             \<comment> \<open>the loop of the source does not end\<close>
  | Thrown string          \<comment> \<open>a Blade exception, by its format string\<close>

type_synonym 'a res = "b_error + 'a"

definition bindR :: "'a res \<Rightarrow> ('a \<Rightarrow> 'b res) \<Rightarrow> 'b res" where
  "bindR m f = (case m of Inl e \<Rightarrow> Inl e | Inr x \<Rightarrow> f x)"

definition is_ok :: "'a res \<Rightarrow> bool" where
  "is_ok m = (case m of Inl _ \<Rightarrow> False | Inr _ \<Rightarrow> True)"

lemma bindR_simps [simp]:
  "bindR (Inl e) f = Inl e"
  "bindR (Inr x) f = f x"
  by (simp_all add: bindR_def)

lemma is_ok_simps [simp]: "is_ok (Inr x)" "\<not> is_ok (Inl e)"
  by (simp_all add: is_ok_def)

lemma bindR_Inr_iff: "bindR m f = Inr y \<longleftrightarrow> (\<exists>x. m = Inr x \<and> f x = Inr y)"
  by (cases m) auto

lemma bindR_InrE:
  assumes "bindR m f = Inr y"
  obtains x where "m = Inr x" and "f x = Inr y"
  using assms by (auto simp: bindR_Inr_iff)

lemma bindR_assoc: "bindR (bindR m f) g = bindR m (\<lambda>x. bindR (f x) g)"
  by (cases m) auto

text \<open>The results of a loop body for each element in turn, stopping at the first error.\<close>

fun mapR :: "('a \<Rightarrow> 'b res) \<Rightarrow> 'a list \<Rightarrow> 'b list res" where
  "mapR f [] = Inr []"
| "mapR f (x # xs) = bindR (f x) (\<lambda>y. bindR (mapR f xs) (\<lambda>ys. Inr (y # ys)))"

lemma mapR_Inr: "(\<And>x. x \<in> set xs \<Longrightarrow> f x = Inr (g x)) \<Longrightarrow> mapR f xs = Inr (map g xs)"
  by (induction xs) auto

text \<open>A loop that threads a state through its body, stopping at the first error.\<close>

fun foldR :: "('s \<Rightarrow> 'a \<Rightarrow> 's res) \<Rightarrow> 's \<Rightarrow> 'a list \<Rightarrow> 's res" where
  "foldR f s [] = Inr s"
| "foldR f s (x # xs) = bindR (f s x) (\<lambda>s'. foldR f s' xs)"

lemma foldR_append: "foldR f s (xs @ ys) = bindR (foldR f s xs) (\<lambda>s'. foldR f s' ys)"
  by (induction xs arbitrary: s) (auto simp: bindR_assoc)

lemma foldR_map: "foldR f s (map g xs) = foldR (\<lambda>s x. f s (g x)) s xs"
  by (induction xs arbitrary: s) auto

lemma foldR_concat: "foldR f s (concat (map g xs)) = foldR (\<lambda>s x. foldR f s (g x)) s xs"
  by (induction xs arbitrary: s) (auto simp: foldR_append)

lemma foldR_cong [fundef_cong]:
  "xs = ys \<Longrightarrow> s = t \<Longrightarrow> (\<And>s x. x \<in> set ys \<Longrightarrow> f s x = g s x) \<Longrightarrow> foldR f s xs = foldR g t ys"
proof (induction xs arbitrary: s t ys)
  case (Cons x xs)
  then show ?case by (auto simp: bindR_def split: sum.splits)
qed auto

section \<open>Memory cells\<close>

text \<open>
  A block of memory is the list of its cells; \<open>None\<close> is a cell that was allocated and never
  written. \<open>cell_get\<close> is an rvalue use of the cell, \<open>cell_copy\<close> the assignment
  \<open>p[i] = p[j]\<close> (which moves an indeterminate value without using it), \<open>cell_set\<close> a store.
\<close>

type_synonym 'a cells = "'a option list"

definition cell_get :: "'a cells \<Rightarrow> int \<Rightarrow> 'a res" where
  "cell_get cs i =
     (if i < 0 \<or> int (length cs) \<le> i then Inl OutOfBounds
      else (case cs ! nat i of None \<Rightarrow> Inl Uninitialised | Some x \<Rightarrow> Inr x))"

definition cell_set :: "'a cells \<Rightarrow> int \<Rightarrow> 'a \<Rightarrow> 'a cells res" where
  "cell_set cs i x =
     (if i < 0 \<or> int (length cs) \<le> i then Inl OutOfBounds else Inr (cs[nat i := Some x]))"

definition cell_copy :: "'a cells \<Rightarrow> int \<Rightarrow> int \<Rightarrow> 'a cells res" where
  "cell_copy cs i j =
     (if i < 0 \<or> int (length cs) \<le> i \<or> j < 0 \<or> int (length cs) \<le> j then Inl OutOfBounds
      else Inr (cs[nat i := cs ! nat j]))"

text \<open>\<open>realloc\<close>: the common prefix is kept, new cells are indeterminate.\<close>

definition cells_resize :: "'a cells \<Rightarrow> nat \<Rightarrow> 'a cells" where
  "cells_resize cs n = take n cs @ replicate (n - length cs) None"

lemma length_cells_resize [simp]: "length (cells_resize cs n) = n"
  by (simp add: cells_resize_def)

lemma take_cells_resize: "m \<le> n \<Longrightarrow> m \<le> length cs \<Longrightarrow> take m (cells_resize cs n) = take m cs"
  by (simp add: cells_resize_def)

lemma nth_cells_resize: "i < n \<Longrightarrow> i < length cs \<Longrightarrow> cells_resize cs n ! i = cs ! i"
  by (simp add: cells_resize_def nth_append)

lemma cell_get_nat [simp]:
  "cell_get cs (int i) =
     (if length cs \<le> i then Inl OutOfBounds
      else (case cs ! i of None \<Rightarrow> Inl Uninitialised | Some x \<Rightarrow> Inr x))"
  by (simp add: cell_get_def)

lemma cell_set_nat [simp]:
  "cell_set cs (int i) x = (if length cs \<le> i then Inl OutOfBounds else Inr (cs[i := Some x]))"
  by (simp add: cell_set_def)

lemma cell_copy_nat [simp]:
  "cell_copy cs (int i) (int j) =
     (if length cs \<le> i \<or> length cs \<le> j then Inl OutOfBounds else Inr (cs[i := cs ! j]))"
  by (auto simp add: cell_copy_def)

section \<open>Capacities\<close>

text \<open>\<open>GROW_CAPACITY\<close> of \<open>memory.h\<close>, on a capacity that is not negative.\<close>

definition GROW_CAPACITY :: "nat \<Rightarrow> nat" where
  "GROW_CAPACITY c = (if c < 4 then 4 else c * 2)"

lemma GROW_CAPACITY_gt: "c < GROW_CAPACITY c"
  by (simp add: GROW_CAPACITY_def)

lemma GROW_CAPACITY_ge4: "4 \<le> GROW_CAPACITY c"
  by (simp add: GROW_CAPACITY_def)

section \<open>Lists\<close>

lemma take_list_update_snoc:
  "n < length xs \<Longrightarrow> take (Suc n) (xs[n := x]) = take n xs @ [x]"
  by (simp add: take_Suc_conv_app_nth)

lemma filter_eq_length_iff: "length (filter P xs) = length xs \<longleftrightarrow> (\<forall>x \<in> set xs. P x)"
  by (induction xs) (auto, metis Suc_n_not_le_n length_filter_le)

lemma length_filter_less_ex:
  "length (filter P xs) < length xs \<Longrightarrow> \<exists>i < length xs. \<not> P (xs ! i)"
  by (metis filter_eq_length_iff in_set_conv_nth less_irrefl_nat)

lemma length_filter_update:
  assumes "i < length xs"
  shows "length (filter P (xs[i := x])) + (if P (xs ! i) then 1 else 0) =
         length (filter P xs) + (if P x then 1 else 0)"
  using assms
proof (induction xs arbitrary: i)
  case Nil
  then show ?case by simp
next
  case (Cons y ys)
  show ?case
  proof (cases i)
    case 0
    then show ?thesis by simp
  next
    case (Suc j)
    with Cons.prems have "j < length ys" by simp
    from Cons.IH [OF this] Suc show ?thesis by simp
  qed
qed

section \<open>Arithmetic and words\<close>

text \<open>Masking with a power of two minus one is the remainder.\<close>

lemma nat_and_mask: "(n::nat) AND (2 ^ k - 1) = n mod 2 ^ k"
  by (simp add: take_bit_eq_mod [symmetric] take_bit_eq_mask mask_eq_exp_minus_1)

lemma unat_and_mask:
  fixes w :: "'a::len word"
  assumes "k < LENGTH('a)"
  shows "unat (w AND (of_nat (2 ^ k - 1))) = unat w mod 2 ^ k"
proof -
  have "(of_nat (2 ^ k - 1) :: 'a word) = mask k"
    by (simp add: mask_eq_exp_minus_1)
  then have "w AND of_nat (2 ^ k - 1) = take_bit k w"
    by (simp add: take_bit_eq_mask)
  then have "unat (w AND of_nat (2 ^ k - 1)) = take_bit k (unat w)"
    by (simp only: unsigned_take_bit_eq)
  then show ?thesis
    by (simp only: take_bit_eq_mod)
qed

lemma mod_add_Suc_mod: "(Suc ((a + j) mod c)) mod c = (a + Suc j) mod (c::nat)"
  by (simp add: mod_Suc_eq)

end
