(* ===== verification/Double.thy ===== *)
theory Double
  imports Prelude
begin

text \<open>
  The part of IEEE-754 binary64 that the modelled sources use, on bit patterns: the fields, NaN,
  the comparisons \<open>==\<close>, \<open><\<close> and \<open>>=\<close>, the conversion of an \<open>int\<close> to \<open>double\<close> and the
  truncating conversion of a \<open>double\<close> to \<open>int\<close>. The conversion of an \<open>int\<close> is exact, and
  converting back gives the same integer (\<open>double_int_roundtrip\<close>).
\<close>

section \<open>Fields\<close>

definition dbl_sign :: "double \<Rightarrow> bool" where
  "dbl_sign d = (2 ^ 63 \<le> unat d)"

definition dbl_exp :: "double \<Rightarrow> nat" where
  "dbl_exp d = (unat d div 2 ^ 52) mod 2 ^ 11"

definition dbl_frac :: "double \<Rightarrow> nat" where
  "dbl_frac d = unat d mod 2 ^ 52"

definition dbl_is_nan :: "double \<Rightarrow> bool" where
  "dbl_is_nan d = (dbl_exp d = 2047 \<and> dbl_frac d \<noteq> 0)"

text \<open>The magnitude is the pattern without the sign; both zeros have key 0.\<close>

definition dbl_key :: "double \<Rightarrow> int" where
  "dbl_key d = (if dbl_sign d then - int (unat d mod 2 ^ 63) else int (unat d mod 2 ^ 63))"

section \<open>Comparisons\<close>

definition dbl_eq :: "double \<Rightarrow> double \<Rightarrow> bool" where
  "dbl_eq a b = (\<not> dbl_is_nan a \<and> \<not> dbl_is_nan b \<and> dbl_key a = dbl_key b)"

definition dbl_ge :: "double \<Rightarrow> double \<Rightarrow> bool" where
  "dbl_ge a b = (\<not> dbl_is_nan a \<and> \<not> dbl_is_nan b \<and> dbl_key b \<le> dbl_key a)"

definition dbl_gt :: "double \<Rightarrow> double \<Rightarrow> bool" where
  "dbl_gt a b = (\<not> dbl_is_nan a \<and> \<not> dbl_is_nan b \<and> dbl_key b < dbl_key a)"

lemma dbl_eq_refl: "dbl_eq a a \<longleftrightarrow> \<not> dbl_is_nan a"
  by (simp add: dbl_eq_def)

lemma dbl_eq_sym: "dbl_eq a b \<longleftrightarrow> dbl_eq b a"
  by (auto simp: dbl_eq_def)

lemma dbl_eq_trans: "dbl_eq a b \<Longrightarrow> dbl_eq b c \<Longrightarrow> dbl_eq a c"
  by (auto simp: dbl_eq_def)

lemma unat_lt64: "unat (d :: double) < 2 ^ 64"
  using unsigned_less [of d] by simp

lemma double_eqI:
  assumes "dbl_sign a = dbl_sign b" and "unat a mod 2 ^ 63 = unat b mod 2 ^ 63"
  shows "a = b"
proof -
  have *: "unat d = (if dbl_sign d then 2 ^ 63 else 0) + unat d mod 2 ^ 63" for d :: double
  proof (cases "dbl_sign d")
    case True
    then have le: "2 ^ 63 \<le> unat d" by (simp add: dbl_sign_def)
    then have "unat d mod 2 ^ 63 = (unat d - 2 ^ 63) mod 2 ^ 63"
      by (rule le_mod_geq)
    also have "\<dots> = unat d - 2 ^ 63"
      using unat_lt64 [of d] le by simp
    finally show ?thesis using True le by simp
  next
    case False
    then show ?thesis by (simp add: dbl_sign_def)
  qed
  have "unat a = unat b"
    using * [of a] * [of b] assms by metis
  then show ?thesis by (simp only: word_unat_eq_iff)
qed

text \<open>Equal keys mean equal patterns, but for the two zeros.\<close>

lemma dbl_key_inj:
  assumes "dbl_key a = dbl_key b" and "dbl_key a \<noteq> 0"
  shows "a = b"
proof (rule double_eqI)
  have "unat d mod 2 ^ 63 = nat \<bar>dbl_key d\<bar>" for d
    by (simp add: dbl_key_def)
  then show "unat a mod 2 ^ 63 = unat b mod 2 ^ 63"
    using assms(1) by metis
  have "dbl_sign d \<longleftrightarrow> dbl_key d < 0" if "dbl_key d \<noteq> 0" for d
    using that by (auto simp: dbl_key_def split: if_splits)
  then show "dbl_sign a = dbl_sign b"
    using assms by metis
qed

lemma dbl_key_0: "dbl_key d = 0 \<longleftrightarrow> d = 0 \<or> d = 0x8000000000000000"
proof
  assume k: "dbl_key d = 0"
  then have m: "unat d mod 2 ^ 63 = 0"
    by (auto simp: dbl_key_def split: if_splits)
  show "d = 0 \<or> d = 0x8000000000000000"
  proof (cases "dbl_sign d")
    case True
    have "d = 0x8000000000000000"
      by (rule double_eqI) (use True m in \<open>simp_all add: dbl_sign_def\<close>)
    then show ?thesis ..
  next
    case False
    have "d = 0"
      by (rule double_eqI) (use False m in \<open>simp_all add: dbl_sign_def\<close>)
    then show ?thesis ..
  qed
qed (auto simp: dbl_key_def)

section \<open>Conversions\<close>

text \<open>The position of the leading one.\<close>

fun ilog2 :: "nat \<Rightarrow> nat" where
  "ilog2 n = (if n < 2 then 0 else Suc (ilog2 (n div 2)))"

declare ilog2.simps [simp del]

lemma ilog2_bounds: "0 < n \<Longrightarrow> 2 ^ ilog2 n \<le> n \<and> n < 2 ^ Suc (ilog2 n)"
proof (induction n rule: ilog2.induct)
  case (1 n)
  show ?case
  proof (cases "n < 2")
    case True
    then show ?thesis using 1(2) by (simp add: ilog2.simps [of n])
  next
    case False
    then have "2 ^ ilog2 (n div 2) \<le> n div 2 \<and> n div 2 < 2 ^ Suc (ilog2 (n div 2))"
      using 1(1) by simp
    then show ?thesis
      using False by (simp add: ilog2.simps [of n]) linarith
  qed
qed

definition dbl_pack :: "bool \<Rightarrow> nat \<Rightarrow> nat \<Rightarrow> double" where
  "dbl_pack s e f = word_of_nat ((if s then 2 ^ 63 else 0) + e * 2 ^ 52 + f)"

text \<open>
  \<open>(double) n\<close>, for the integers below \<open>2 ^ 53\<close> in absolute value, which the format represents
  exactly (every C \<open>int\<close> is one of them).
\<close>

definition double_of_int :: "int \<Rightarrow> double" where
  "double_of_int n =
     (if n = 0 then 0
      else (let m = nat \<bar>n\<bar>; e = ilog2 m
            in dbl_pack (n < 0) (1023 + e) (m * 2 ^ (52 - e) - 2 ^ 52)))"

text \<open>
  \<open>(int) d\<close> before the range check: the value is truncated towards zero; an infinity or a NaN has
  no integer value.
\<close>

definition dbl_trunc :: "double \<Rightarrow> int option" where
  "dbl_trunc d =
     (if dbl_exp d = 2047 then None
      else (let m = (if dbl_exp d = 0 then dbl_frac d else 2 ^ 52 + dbl_frac d);
                e = (if dbl_exp d = 0 then 1 else dbl_exp d);
                a = (if 1075 \<le> e then m * 2 ^ (e - 1075) else m div 2 ^ (1075 - e))
            in Some (if dbl_sign d then - int a else int a)))"

text \<open>The conversion to \<open>int\<close> is undefined outside the range of the type.\<close>

definition int_of_double :: "double \<Rightarrow> int res" where
  "int_of_double d =
     (case dbl_trunc d of
        None \<Rightarrow> Inl InvalidCast
      | Some n \<Rightarrow> if - (2 ^ 31) \<le> n \<and> n < 2 ^ 31 then Inr n else Inl InvalidCast)"

lemma dbl_pack_fields:
  assumes "e < 2 ^ 11" and "f < 2 ^ 52"
  shows "dbl_sign (dbl_pack s e f) = s"
    and "dbl_exp (dbl_pack s e f) = e"
    and "dbl_frac (dbl_pack s e f) = f"
    and "unat (dbl_pack s e f) mod 2 ^ 63 = e * 2 ^ 52 + f"
proof -
  have b: "e * 2 ^ 52 + f < 2 ^ 63"
  proof -
    have "e * 2 ^ 52 + f < (e + 1) * 2 ^ 52" using assms(2) by simp
    also have "\<dots> \<le> 2 ^ 11 * 2 ^ 52" using assms(1) by (intro mult_right_mono) auto
    finally show ?thesis by simp
  qed
  have "(if s then 2 ^ 63 else 0) + e * 2 ^ 52 + f < 2 ^ LENGTH(64)"
    using b by (cases s) simp_all
  then have u: "unat (dbl_pack s e f) = (if s then 2 ^ 63 else 0) + e * 2 ^ 52 + f"
    unfolding dbl_pack_def by (simp only: unsigned_of_nat take_bit_nat_eq_self of_nat_id)
  show "dbl_sign (dbl_pack s e f) = s"
    using b u by (simp add: dbl_sign_def)
  have d: "unat (dbl_pack s e f) div 2 ^ 52 = (if s then 2 ^ 11 else 0) + e"
    using assms(2) by (simp add: u) linarith
  show "dbl_exp (dbl_pack s e f) = e"
    unfolding dbl_exp_def d using assms(1) by simp
  show "dbl_frac (dbl_pack s e f) = f"
  proof -
    have "unat (dbl_pack s e f) = ((if s then 2 ^ 11 else 0) + e) * 2 ^ 52 + f"
      unfolding u by (cases s) simp_all
    then have "unat (dbl_pack s e f) mod 2 ^ 52 = f mod 2 ^ 52"
      by (simp only: mod_mult_self3)
    then show ?thesis
      using assms(2) by (simp add: dbl_frac_def)
  qed
  show "unat (dbl_pack s e f) mod 2 ^ 63 = e * 2 ^ 52 + f"
  proof -
    have "(2 ^ 63 + (e * 2 ^ 52 + f)) mod 2 ^ 63 = (e * 2 ^ 52 + f) mod 2 ^ 63"
      by (rule mod_add_self1)
    then show ?thesis
      unfolding u using b by (cases s) (simp_all add: add.assoc)
  qed
qed

lemma double_of_int_fields:
  assumes "n \<noteq> 0" and "\<bar>n\<bar> < 2 ^ 53"
  defines "m \<equiv> nat \<bar>n\<bar>"
  shows "ilog2 m \<le> 52" and "2 ^ 52 \<le> m * 2 ^ (52 - ilog2 m)"
    and "m * 2 ^ (52 - ilog2 m) - 2 ^ 52 < 2 ^ 52"
proof -
  have m: "0 < m" "m < 2 ^ 53" using assms by auto
  note b = ilog2_bounds [OF m(1)]
  have "(2::nat) ^ ilog2 m < 2 ^ 53" using b m(2) by linarith
  then have "ilog2 m < 53" by (rule power_less_imp_less_exp [rotated]) simp
  then show e: "ilog2 m \<le> 52" by simp
  have p: "(2::nat) ^ ilog2 m * 2 ^ (52 - ilog2 m) = 2 ^ 52"
    using e by (simp only: power_add [symmetric]) simp
  show "2 ^ 52 \<le> m * 2 ^ (52 - ilog2 m)"
    using b mult_right_mono [of "2 ^ ilog2 m" m "2 ^ (52 - ilog2 m)"] p by simp
  have "m * 2 ^ (52 - ilog2 m) < (2 ^ Suc (ilog2 m)) * 2 ^ (52 - ilog2 m)"
    using b by (intro mult_strict_right_mono) auto
  also have "\<dots> = 2 * 2 ^ 52" using p by simp
  finally show "m * 2 ^ (52 - ilog2 m) - 2 ^ 52 < 2 ^ 52" by simp
qed

lemma dbl_trunc_of_int:
  assumes "\<bar>n\<bar> < 2 ^ 53"
  shows "dbl_trunc (double_of_int n) = Some n"
proof (cases "n = 0")
  case True
  then show ?thesis
    by (simp add: double_of_int_def dbl_trunc_def dbl_exp_def dbl_frac_def dbl_sign_def)
next
  case False
  define m where "m = nat \<bar>n\<bar>"
  define e where "e = ilog2 m"
  note f = double_of_int_fields [OF False assms, folded m_def, folded e_def]
  have d: "double_of_int n = dbl_pack (n < 0) (1023 + e) (m * 2 ^ (52 - e) - 2 ^ 52)"
    using False by (simp add: double_of_int_def Let_def m_def e_def)
  have e: "1023 + e < 2 ^ 11" using f(1) by simp
  note g = dbl_pack_fields [OF e f(3), of "n < 0", folded d]
  have q: "2 ^ 52 + (m * 2 ^ (52 - e) - 2 ^ 52) = m * 2 ^ (52 - e)"
    using f(2) by simp
  have "(if 1075 \<le> 1023 + e then m * 2 ^ (52 - e) * 2 ^ (1023 + e - 1075)
         else m * 2 ^ (52 - e) div 2 ^ (1075 - (1023 + e))) = m"
  proof (cases "e = 52")
    case True
    then show ?thesis by simp
  next
    case False
    then have "1075 - (1023 + e) = 52 - e" "\<not> 1075 \<le> 1023 + e" using f(1) by auto
    then show ?thesis by simp
  qed
  then have "dbl_trunc (double_of_int n) = Some (if n < 0 then - int m else int m)"
    unfolding dbl_trunc_def g Let_def q using f(1) by (simp add: q)
  then show ?thesis by (simp add: m_def split: if_splits)
qed

lemma double_int_roundtrip:
  assumes "- (2 ^ 31) \<le> n" and "n < 2 ^ 31"
  shows "int_of_double (double_of_int n) = Inr n"
proof -
  have "\<bar>n\<bar> < 2 ^ 53" using assms by (auto simp: abs_if)
  from dbl_trunc_of_int [OF this] assms show ?thesis
    by (simp add: int_of_double_def)
qed

lemma dbl_trunc_not_nan: "dbl_trunc d = Some n \<Longrightarrow> \<not> dbl_is_nan d"
  by (cases "dbl_exp d = 2047") (simp_all add: dbl_is_nan_def dbl_trunc_def)

lemma double_of_int_not_nan: "\<bar>n\<bar> < 2 ^ 53 \<Longrightarrow> \<not> dbl_is_nan (double_of_int n)"
  by (rule dbl_trunc_not_nan) (rule dbl_trunc_of_int)

lemma double_of_int_inj:
  assumes "\<bar>m\<bar> < 2 ^ 53" and "\<bar>n\<bar> < 2 ^ 53" and "double_of_int m = double_of_int n"
  shows "m = n"
  by (metis assms dbl_trunc_of_int option.inject)

end
