(* ===== verification/Object_Types.thy ===== *)
theory Object_Types
  imports Double
begin

text \<open>
  The data of the runtime, as \<open>value.h\<close>, \<open>table.h\<close>, \<open>blob.h\<close> and \<open>object.h\<close> declare it:
  the NaN-boxed value, the growable arrays, the hash table, the bytecode blob, the sixteen kinds of
  heap object and the heap itself, a map from addresses to objects with their mark bit.
\<close>

section \<open>NaN-boxed values\<close>

type_synonym b_value = "64 word"

definition QNAN :: uint64 where "QNAN = 0x7ffc000000000000"
definition SIGN_BIT :: uint64 where "SIGN_BIT = 0x8000000000000000"

definition EMPTY_VAL :: b_value where "EMPTY_VAL = QNAN OR 0"
definition NIL_VAL :: b_value where "NIL_VAL = QNAN OR 1"
definition FALSE_VAL :: b_value where "FALSE_VAL = QNAN OR 2"
definition TRUE_VAL :: b_value where "TRUE_VAL = QNAN OR 3"

definition BOOL_VAL :: "bool \<Rightarrow> b_value" where
  "BOOL_VAL b = (if b then TRUE_VAL else FALSE_VAL)"

definition OBJ_VAL :: "addr \<Rightarrow> b_value" where
  "OBJ_VAL p = (SIGN_BIT OR QNAN OR p)"

definition AS_OBJ :: "b_value \<Rightarrow> addr" where
  "AS_OBJ v = (v AND NOT (SIGN_BIT OR QNAN))"

definition AS_BOOL :: "b_value \<Rightarrow> bool" where
  "AS_BOOL v = (v = TRUE_VAL)"

definition IS_EMPTY :: "b_value \<Rightarrow> bool" where
  "IS_EMPTY v = (v = EMPTY_VAL)"

definition IS_NIL :: "b_value \<Rightarrow> bool" where
  "IS_NIL v = (v = NIL_VAL)"

definition IS_BOOL :: "b_value \<Rightarrow> bool" where
  "IS_BOOL v = ((v OR 1) = TRUE_VAL)"

definition IS_NUMBER :: "b_value \<Rightarrow> bool" where
  "IS_NUMBER v = ((v AND QNAN) \<noteq> QNAN)"

definition IS_OBJ :: "b_value \<Rightarrow> bool" where
  "IS_OBJ v = ((v AND (QNAN OR SIGN_BIT)) = (QNAN OR SIGN_BIT))"

text \<open>A number is stored as the bits of the double.\<close>

definition number_to_value :: "double \<Rightarrow> b_value" where
  "number_to_value d = d"

definition value_to_number :: "b_value \<Rightarrow> double" where
  "value_to_number v = v"

definition integer_to_value :: "int \<Rightarrow> b_value" where
  "integer_to_value n = double_of_int n"

section \<open>Growable arrays and tables\<close>

record b_value_arr =
  va_capacity :: nat
  va_count :: nat
  va_values :: "b_value cells"

record b_byte_arr =
  ba_count :: int
  ba_bytes :: "byte cells"

record b_entry =
  e_key :: b_value
  e_value :: b_value

record b_table =
  t_count :: nat
  t_capacity :: nat
  t_entries :: "b_entry list"

record b_blob =
  bl_count :: nat
  bl_capacity :: nat
  bl_code :: "byte cells"
  bl_lines :: "int cells"
  bl_constants :: b_value_arr

section \<open>Objects\<close>

datatype b_func_type =
  TYPE_FUNCTION | TYPE_METHOD | TYPE_INITIALIZER | TYPE_PRIVATE | TYPE_STATIC | TYPE_SCRIPT

datatype b_obj_type =
    OBJ_STRING | OBJ_RANGE | OBJ_LIST | OBJ_DICT | OBJ_FILE | OBJ_BYTES
  | OBJ_UP_VALUE | OBJ_BOUND_METHOD | OBJ_CLOSURE | OBJ_FUNCTION | OBJ_INSTANCE
  | OBJ_NATIVE | OBJ_CLASS
  | OBJ_MODULE | OBJ_SWITCH | OBJ_PTR

text \<open>The position of a tag in the C enumeration, which \<open>find_max_value\<close> compares.\<close>

fun obj_type_ord :: "b_obj_type \<Rightarrow> nat" where
  "obj_type_ord OBJ_STRING = 0"
| "obj_type_ord OBJ_RANGE = 1"
| "obj_type_ord OBJ_LIST = 2"
| "obj_type_ord OBJ_DICT = 3"
| "obj_type_ord OBJ_FILE = 4"
| "obj_type_ord OBJ_BYTES = 5"
| "obj_type_ord OBJ_UP_VALUE = 6"
| "obj_type_ord OBJ_BOUND_METHOD = 7"
| "obj_type_ord OBJ_CLOSURE = 8"
| "obj_type_ord OBJ_FUNCTION = 9"
| "obj_type_ord OBJ_INSTANCE = 10"
| "obj_type_ord OBJ_NATIVE = 11"
| "obj_type_ord OBJ_CLASS = 12"
| "obj_type_ord OBJ_MODULE = 13"
| "obj_type_ord OBJ_SWITCH = 14"
| "obj_type_ord OBJ_PTR = 15"

record b_obj_string =
  s_length :: nat
  s_utf8_length :: nat
  s_is_ascii :: bool
  s_hash :: uint32
  s_chars :: "byte list"

text \<open>
  The \<open>location\<close> of an up-value points into the VM stack while it is open (here: the index of
  the slot) and at its own \<open>closed\<close> field afterwards (\<open>None\<close>).
\<close>

record b_obj_up_value =
  uv_closed :: b_value
  uv_location :: "nat option"
  uv_next :: "addr option"

record b_obj_module =
  m_imported :: bool
  m_values :: b_table
  m_name :: string
  m_file :: string
  m_preloader :: bool
  m_unloader :: bool
  m_handle :: bool

record b_obj_func =
  f_type :: b_func_type
  f_arity :: int
  f_up_value_count :: nat
  f_is_variadic :: bool
  f_blob :: b_blob
  f_name :: "addr option"
  f_module :: "addr option"

record b_obj_closure =
  c_up_value_count :: nat
  c_function :: addr
  c_up_values :: "addr option list"

record b_obj_class =
  k_initializer :: b_value
  k_properties :: b_table
  k_static_properties :: b_table
  k_methods :: b_table
  k_name :: addr
  k_superclass :: "addr option"

record b_obj_instance =
  i_properties :: b_table
  i_klass :: addr

record b_obj_bound =
  b_receiver :: b_value
  b_method :: addr

record b_obj_native =
  n_type :: b_func_type
  n_name :: string
  n_function :: string

record b_obj_range =
  r_lower :: int
  r_upper :: int
  r_range :: int

record b_obj_dict =
  d_names :: b_value_arr
  d_items :: b_table

record b_obj_file =
  fl_is_open :: bool
  fl_file :: bool
  fl_mode :: addr
  fl_path :: addr

record b_obj_switch =
  sw_default_jump :: int
  sw_exit_jump :: int
  sw_table :: b_table

record b_obj_ptr =
  p_pointer :: addr
  p_name :: string
  p_free_fn :: bool

datatype b_obj =
    OString b_obj_string
  | ORange b_obj_range
  | OList b_value_arr
  | ODict b_obj_dict
  | OFile b_obj_file
  | OBytes b_byte_arr
  | OUpValue b_obj_up_value
  | OBound b_obj_bound
  | OClosure b_obj_closure
  | OFunction b_obj_func
  | OInstance b_obj_instance
  | ONative b_obj_native
  | OClass b_obj_class
  | OModule b_obj_module
  | OSwitch b_obj_switch
  | OPtr b_obj_ptr

fun obj_type :: "b_obj \<Rightarrow> b_obj_type" where
  "obj_type (OString _) = OBJ_STRING"
| "obj_type (ORange _) = OBJ_RANGE"
| "obj_type (OList _) = OBJ_LIST"
| "obj_type (ODict _) = OBJ_DICT"
| "obj_type (OFile _) = OBJ_FILE"
| "obj_type (OBytes _) = OBJ_BYTES"
| "obj_type (OUpValue _) = OBJ_UP_VALUE"
| "obj_type (OBound _) = OBJ_BOUND_METHOD"
| "obj_type (OClosure _) = OBJ_CLOSURE"
| "obj_type (OFunction _) = OBJ_FUNCTION"
| "obj_type (OInstance _) = OBJ_INSTANCE"
| "obj_type (ONative _) = OBJ_NATIVE"
| "obj_type (OClass _) = OBJ_CLASS"
| "obj_type (OModule _) = OBJ_MODULE"
| "obj_type (OSwitch _) = OBJ_SWITCH"
| "obj_type (OPtr _) = OBJ_PTR"

text \<open>The heap: the contents of each live object (the mark bits are kept by the collector).\<close>

type_synonym heap = "addr \<rightharpoonup> b_obj"

definition is_obj_type :: "heap \<Rightarrow> b_value \<Rightarrow> b_obj_type \<Rightarrow> bool" where
  "is_obj_type hp v t =
     (IS_OBJ v \<and> (case hp (AS_OBJ v) of None \<Rightarrow> False | Some ob \<Rightarrow> obj_type ob = t))"

definition IS_STRING :: "heap \<Rightarrow> b_value \<Rightarrow> bool" where
  "IS_STRING hp v = is_obj_type hp v OBJ_STRING"

definition IS_LIST :: "heap \<Rightarrow> b_value \<Rightarrow> bool" where
  "IS_LIST hp v = is_obj_type hp v OBJ_LIST"

definition IS_DICT :: "heap \<Rightarrow> b_value \<Rightarrow> bool" where
  "IS_DICT hp v = is_obj_type hp v OBJ_DICT"

definition IS_FILE :: "heap \<Rightarrow> b_value \<Rightarrow> bool" where
  "IS_FILE hp v = is_obj_type hp v OBJ_FILE"

definition IS_BYTES :: "heap \<Rightarrow> b_value \<Rightarrow> bool" where
  "IS_BYTES hp v = is_obj_type hp v OBJ_BYTES"

section \<open>Tag lemmas\<close>

lemmas val_consts = QNAN_def SIGN_BIT_def EMPTY_VAL_def NIL_VAL_def FALSE_VAL_def TRUE_VAL_def

lemmas val_tests = IS_EMPTY_def IS_NIL_def IS_BOOL_def IS_NUMBER_def IS_OBJ_def

lemma singleton_distinct [simp]:
  "NIL_VAL \<noteq> EMPTY_VAL" "TRUE_VAL \<noteq> EMPTY_VAL" "FALSE_VAL \<noteq> EMPTY_VAL"
  "TRUE_VAL \<noteq> NIL_VAL" "FALSE_VAL \<noteq> NIL_VAL" "TRUE_VAL \<noteq> FALSE_VAL"
  "EMPTY_VAL \<noteq> NIL_VAL" "EMPTY_VAL \<noteq> TRUE_VAL" "EMPTY_VAL \<noteq> FALSE_VAL"
  "NIL_VAL \<noteq> TRUE_VAL" "NIL_VAL \<noteq> FALSE_VAL" "FALSE_VAL \<noteq> TRUE_VAL"
  by (simp_all add: val_consts)

lemma IS_BOOL_iff: "IS_BOOL v \<longleftrightarrow> v = TRUE_VAL \<or> v = FALSE_VAL"
proof
  assume "IS_BOOL v"
  then have or1: "v OR 1 = 0x7ffc000000000003"
    by (simp add: IS_BOOL_def val_consts)
  have "v = (v OR 1) \<or> v = (v OR 1) XOR 1"
  proof (cases "bit v 0")
    case True
    then have "v = (v OR 1)"
      by (intro bit_word_eqI) (auto simp: bit_simps)
    then show ?thesis ..
  next
    case False
    then have "v = (v OR 1) XOR 1"
      by (intro bit_word_eqI) (auto simp: bit_simps intro!: gr0I)
    then show ?thesis ..
  qed
  then show "v = TRUE_VAL \<or> v = FALSE_VAL"
    unfolding or1 by (auto simp: val_consts)
qed (auto simp: IS_BOOL_def val_consts)

lemma singleton_tests [simp]:
  "IS_EMPTY EMPTY_VAL" "\<not> IS_EMPTY NIL_VAL" "\<not> IS_EMPTY (BOOL_VAL b)"
  "IS_NIL NIL_VAL" "\<not> IS_NIL EMPTY_VAL" "\<not> IS_NIL (BOOL_VAL b)"
  "IS_BOOL (BOOL_VAL b)" "\<not> IS_BOOL NIL_VAL" "\<not> IS_BOOL EMPTY_VAL"
  "\<not> IS_NUMBER NIL_VAL" "\<not> IS_NUMBER EMPTY_VAL" "\<not> IS_NUMBER (BOOL_VAL b)"
  "\<not> IS_OBJ NIL_VAL" "\<not> IS_OBJ EMPTY_VAL" "\<not> IS_OBJ (BOOL_VAL b)"
  "AS_BOOL (BOOL_VAL b) = b"
  by (auto simp: val_tests val_consts BOOL_VAL_def AS_BOOL_def)

lemma number_not_singleton:
  assumes "IS_NUMBER v"
  shows "\<not> IS_EMPTY v" "\<not> IS_NIL v" "\<not> IS_BOOL v" "\<not> IS_OBJ v"
proof -
  show "\<not> IS_EMPTY v" "\<not> IS_NIL v" "\<not> IS_BOOL v"
    using assms by (auto simp: IS_BOOL_iff IS_EMPTY_def IS_NIL_def IS_NUMBER_def val_consts)
  show "\<not> IS_OBJ v"
  proof
    assume o: "IS_OBJ v"
    have "v AND QNAN = (v AND (QNAN OR SIGN_BIT)) AND QNAN"
      by (auto simp: bit_eq_iff bit_simps)
    also have "\<dots> = QNAN"
      using o by (simp add: IS_OBJ_def val_consts)
    finally show False
      using assms by (simp add: IS_NUMBER_def)
  qed
qed

text \<open>An address uses none of the tag bits: user-space pointers are below \<open>2 ^ 50\<close>.\<close>

definition addr_ok :: "addr \<Rightarrow> bool" where
  "addr_ok p = (p AND (SIGN_BIT OR QNAN) = 0)"

lemma AS_OBJ_OBJ_VAL:
  assumes "addr_ok p"
  shows "AS_OBJ (OBJ_VAL p) = p"
proof -
  have "AS_OBJ (OBJ_VAL p) = p AND NOT (SIGN_BIT OR QNAN)"
    by (auto simp: AS_OBJ_def OBJ_VAL_def bit_eq_iff bit_simps)
  also have "\<dots> = (p AND NOT (SIGN_BIT OR QNAN)) OR (p AND (SIGN_BIT OR QNAN))"
    using assms by (simp add: addr_ok_def)
  also have "\<dots> = p"
    by (auto simp: bit_eq_iff bit_simps)
  finally show ?thesis .
qed

lemma IS_OBJ_OBJ_VAL [simp]: "IS_OBJ (OBJ_VAL p)"
  by (auto simp: IS_OBJ_def OBJ_VAL_def bit_eq_iff bit_simps)

lemma OBJ_VAL_AS_OBJ:
  assumes "IS_OBJ v"
  shows "OBJ_VAL (AS_OBJ v) = v"
proof -
  have "OBJ_VAL (AS_OBJ v) = (v AND (QNAN OR SIGN_BIT)) OR v OR (QNAN OR SIGN_BIT)"
    by (auto simp: AS_OBJ_def OBJ_VAL_def bit_eq_iff bit_simps)
  also have "\<dots> = v OR (v AND (QNAN OR SIGN_BIT))"
    using assms by (simp add: IS_OBJ_def or.commute or.left_commute or.assoc)
  also have "\<dots> = v"
    by (auto simp: bit_eq_iff bit_simps)
  finally show ?thesis .
qed

lemma addr_ok_AS_OBJ [simp]: "addr_ok (AS_OBJ v)"
  by (auto simp: addr_ok_def AS_OBJ_def bit_eq_iff bit_simps)

lemma OBJ_VAL_inj: "addr_ok p \<Longrightarrow> addr_ok q \<Longrightarrow> OBJ_VAL p = OBJ_VAL q \<Longrightarrow> p = q"
  using AS_OBJ_OBJ_VAL by metis

lemma obj_not_singleton:
  assumes "IS_OBJ v"
  shows "\<not> IS_EMPTY v" "\<not> IS_NIL v" "\<not> IS_BOOL v" "\<not> IS_NUMBER v"
  using assms number_not_singleton(4) [of v]
  by (auto simp: IS_BOOL_iff IS_EMPTY_def IS_NIL_def IS_OBJ_def val_consts)

end
