(* ===== verification/Value.thy ===== *)
theory Value
  imports Object_Types
begin

text \<open>
  \<open>value.c\<close>: the type names of values, equality and hashing. Equality of numbers is IEEE
  equality, of everything else identity of the bit patterns (so two strings are equal when they
  are the same interned object). The lemmas say on which values \<open>values_equal\<close> is an
  equivalence that the hash respects (\<open>key_ok\<close>), which is what the hash table relies on.
\<close>

section \<open>Types\<close>

text \<open>A C string literal as bytes.\<close>

definition cstr :: "string \<Rightarrow> byte list" where
  "cstr s = map of_char s"

text \<open>The text of a string object; \<open>None\<close> for a pointer that is not one.\<close>

definition string_at :: "heap \<Rightarrow> addr \<Rightarrow> b_obj_string option" where
  "string_at hp a = (case hp a of Some (OString s) \<Rightarrow> Some s | _ \<Rightarrow> None)"

definition object_type :: "heap \<Rightarrow> addr \<Rightarrow> byte list option" where
  "object_type hp a =
     (case hp a of
        None \<Rightarrow> None
      | Some (OModule _) \<Rightarrow> Some (cstr ''module'')
      | Some (OBytes _) \<Rightarrow> Some (cstr ''bytes'')
      | Some (ORange _) \<Rightarrow> Some (cstr ''range'')
      | Some (OFile _) \<Rightarrow> Some (cstr ''file'')
      | Some (ODict _) \<Rightarrow> Some (cstr ''dictionary'')
      | Some (OList _) \<Rightarrow> Some (cstr ''list'')
      | Some (OClass _) \<Rightarrow> Some (cstr ''class'')
      | Some (OFunction _) \<Rightarrow> Some (cstr ''function'')
      | Some (ONative _) \<Rightarrow> Some (cstr ''function'')
      | Some (OClosure _) \<Rightarrow> Some (cstr ''function'')
      | Some (OBound _) \<Rightarrow> Some (cstr ''function'')
      | Some (OInstance i) \<Rightarrow>
          (case hp (i_klass i) of
             Some (OClass k) \<Rightarrow> map_option s_chars (string_at hp (k_name k))
           | _ \<Rightarrow> None)
      | Some (OString _) \<Rightarrow> Some (cstr ''string'')
      | Some (OPtr _) \<Rightarrow> Some (cstr ''pointer'')
      | Some (OSwitch _) \<Rightarrow> Some (cstr ''switch'')
      | Some (OUpValue _) \<Rightarrow> Some (cstr ''unknown''))"

definition value_type :: "heap \<Rightarrow> b_value \<Rightarrow> byte list option" where
  "value_type hp v =
     (if IS_EMPTY v then Some (cstr ''empty'')
      else if IS_NIL v then Some (cstr ''nil'')
      else if IS_BOOL v then Some (cstr ''boolean'')
      else if IS_NUMBER v then Some (cstr ''number'')
      else if IS_OBJ v then object_type hp (AS_OBJ v)
      else Some (cstr ''unknown''))"

section \<open>Equality\<close>

definition values_equal :: "b_value \<Rightarrow> b_value \<Rightarrow> bool" where
  "values_equal a b =
     (if IS_NUMBER a \<and> IS_NUMBER b then dbl_eq (value_to_number a) (value_to_number b)
      else a = b)"

section \<open>Hashing\<close>

definition hash_bits :: "uint64 \<Rightarrow> uint32" where
  "hash_bits h0 =
     (let h1 = NOT h0 + push_bit 18 h0;
          h2 = h1 XOR drop_bit 31 h1;
          h3 = h2 * 21;
          h4 = h3 XOR drop_bit 11 h3;
          h5 = h4 + push_bit 6 h4;
          h6 = h5 XOR drop_bit 22 h5
      in ucast (h6 AND 0x3fffffff))"

definition hash_double :: "double \<Rightarrow> uint32" where
  "hash_double d = hash_bits d"

text \<open>
  The loop of \<open>hash_string\<close> (FNV-1a): \<open>char\<close> is signed on the x86 targets, so a byte above
  127 is sign-extended before the exclusive or.
\<close>

definition hash_string :: "byte list \<Rightarrow> uint32" where
  "hash_string key = foldl (\<lambda>h c. (h XOR scast c) * 16777619) 2166136261 key"

text \<open>The initialised bytes of a block.\<close>

definition bytes_text :: "b_byte_arr \<Rightarrow> byte list" where
  "bytes_text b = map (\<lambda>c. case c of None \<Rightarrow> 0 | Some x \<Rightarrow> x) (take (nat (ba_count b)) (ba_bytes b))"

definition hash_object :: "heap \<Rightarrow> addr \<Rightarrow> uint32" where
  "hash_object hp a =
     (case hp a of
        Some (OClass k) \<Rightarrow> (case string_at hp (k_name k) of Some s \<Rightarrow> s_hash s | None \<Rightarrow> 0)
      | Some (OFunction f) \<Rightarrow>
          hash_double (double_of_int (f_arity f)) XOR
          hash_double (double_of_int (int (bl_count (f_blob f))))
      | Some (OString s) \<Rightarrow> s_hash s
      | Some (OBytes b) \<Rightarrow> hash_string (bytes_text b)
      | _ \<Rightarrow> 0)"

definition hash_value :: "heap \<Rightarrow> b_value \<Rightarrow> uint32" where
  "hash_value hp v = (if IS_OBJ v then hash_object hp (AS_OBJ v) else hash_bits v)"

section \<open>Equality and hashing agree on keys\<close>

text \<open>
  The values on which \<open>values_equal\<close> is identity: all but the empty value (which marks unused
  slots), NaN (not equal to itself) and the negative zero (equal to the positive one).
\<close>

definition NEG_ZERO :: b_value where "NEG_ZERO = 0x8000000000000000"

definition key_ok :: "b_value \<Rightarrow> bool" where
  "key_ok v = (\<not> IS_EMPTY v \<and> \<not> (IS_NUMBER v \<and> dbl_is_nan v) \<and> v \<noteq> NEG_ZERO)"

lemma key_ok_not_empty: "key_ok v \<Longrightarrow> \<not> IS_EMPTY v"
  by (simp add: key_ok_def)

lemma values_equal_key_ok:
  assumes "key_ok a" and "key_ok b"
  shows "values_equal a b \<longleftrightarrow> a = b"
proof (cases "IS_NUMBER a \<and> IS_NUMBER b")
  case True
  have "dbl_eq a b \<longleftrightarrow> dbl_key a = dbl_key b"
    using True assms by (auto simp: dbl_eq_def key_ok_def)
  also have "\<dots> \<longleftrightarrow> a = b"
  proof
    assume eq: "dbl_key a = dbl_key b"
    show "a = b"
    proof (cases "dbl_key a = 0")
      case True
      have z: "v = 0" if "dbl_key v = 0" and "key_ok v" for v
        using that(1) [unfolded dbl_key_0] that(2) by (simp add: key_ok_def NEG_ZERO_def)
      from True have "a = 0" by (rule z) (rule assms)
      moreover from True have "b = 0" unfolding eq by (rule z) (rule assms)
      ultimately show ?thesis by simp
    next
      case False
      with eq show ?thesis by (rule dbl_key_inj)
    qed
  qed simp
  finally show ?thesis
    using True by (simp add: values_equal_def value_to_number_def)
next
  case False
  then show ?thesis by (auto simp: values_equal_def)
qed

lemma values_equal_sym: "values_equal a b \<longleftrightarrow> values_equal b a"
  by (auto simp: values_equal_def dbl_eq_sym)

lemma values_equal_trans: "values_equal a b \<Longrightarrow> values_equal b c \<Longrightarrow> values_equal a c"
  by (auto simp: values_equal_def value_to_number_def intro: dbl_eq_trans split: if_splits)

lemma values_equal_refl: "values_equal a a \<longleftrightarrow> \<not> (IS_NUMBER a \<and> dbl_is_nan a)"
  by (auto simp: values_equal_def value_to_number_def dbl_eq_refl)

lemma nil_key_ok [simp]: "key_ok NIL_VAL"
  by (simp add: key_ok_def NEG_ZERO_def val_consts IS_EMPTY_def IS_NUMBER_def)

lemma bool_key_ok [simp]: "key_ok (BOOL_VAL b)"
  by (simp add: key_ok_def NEG_ZERO_def val_consts IS_EMPTY_def IS_NUMBER_def BOOL_VAL_def)

lemma obj_key_ok [simp]: "IS_OBJ v \<Longrightarrow> key_ok v"
  using obj_not_singleton [of v] by (auto simp: key_ok_def NEG_ZERO_def IS_OBJ_def val_consts)

text \<open>The hash function only produces 30 bits for values that are not objects.\<close>

lemma hash_bits_bound: "unat (hash_bits h) < 2 ^ 30"
proof -
  have *: "unat (w AND 0x3fffffff) < 2 ^ 30" for w :: uint64
    using unat_and_mask [of 30 w] by simp
  have "unat (ucast (w AND 0x3fffffff) :: uint32) < 2 ^ 30" for w :: uint64
    using * [of w] by (simp add: unsigned_ucast_eq take_bit_eq_mod)
  then show ?thesis
    unfolding hash_bits_def Let_def by blast
qed

end
