(* ===== verification/Table.thy ===== *)
theory Table
  imports Value
begin

text \<open>
  \<open>table.c\<close>: the open-addressing hash table with linear probing and tombstones that holds
  globals, methods, properties, interned strings and dictionary items. A slot is \<^emph>\<open>pristine\<close>
  (empty key, nil value), a \<^emph>\<open>tombstone\<close> (empty key, any other value) or \<^emph>\<open>live\<close>. \<open>count\<close>
  counts live slots and tombstones.

  The probe loop \<open>for (;;)\<close> is \<open>find_entry_loop\<close> with a number of probes as fuel; running out
  is the error \<open>Divergence\<close>. \<open>find_entry\<close> gives it as many probes as there are slots: after
  that many the index sequence repeats, so the C loop returns within them or never.
\<close>

section \<open>Operations\<close>

definition init_table :: b_table where
  "init_table = \<lparr>t_count = 0, t_capacity = 0, t_entries = []\<rparr>"

text \<open>\<open>free_table\<close> releases the entries and leaves an initialised table.\<close>

definition free_table :: "b_table \<Rightarrow> b_table" where
  "free_table t = init_table"

definition first_index :: "uint32 \<Rightarrow> nat \<Rightarrow> nat" where
  "first_index h capacity = unat (h AND of_nat (capacity - 1))"

definition next_index :: "nat \<Rightarrow> nat \<Rightarrow> nat" where
  "next_index i capacity = unat ((of_nat i + 1 :: uint32) AND of_nat (capacity - 1))"

fun find_entry_loop ::
    "nat \<Rightarrow> b_entry list \<Rightarrow> nat \<Rightarrow> b_value \<Rightarrow> nat \<Rightarrow> nat option \<Rightarrow> nat res" where
  "find_entry_loop 0 entries capacity key index tombstone = Inl Divergence"
| "find_entry_loop (Suc fuel) entries capacity key index tombstone =
     (if length entries \<le> index then Inl OutOfBounds
      else let entry = entries ! index in
        if IS_EMPTY (e_key entry) then
          (if IS_NIL (e_value entry)
           then Inr (case tombstone of None \<Rightarrow> index | Some t \<Rightarrow> t)
           else find_entry_loop fuel entries capacity key (next_index index capacity)
                  (case tombstone of None \<Rightarrow> Some index | Some t \<Rightarrow> Some t))
        else if values_equal key (e_key entry) then Inr index
        else find_entry_loop fuel entries capacity key (next_index index capacity) tombstone)"

definition find_entry :: "heap \<Rightarrow> b_entry list \<Rightarrow> nat \<Rightarrow> b_value \<Rightarrow> nat res" where
  "find_entry hp entries capacity key =
     find_entry_loop capacity entries capacity key
       (first_index (hash_value hp key) capacity) None"

definition table_get :: "heap \<Rightarrow> b_table \<Rightarrow> b_value \<Rightarrow> b_value option res" where
  "table_get hp t key =
     (if t_count t = 0 \<or> t_entries t = [] then Inr None
      else bindR (find_entry hp (t_entries t) (t_capacity t) key)
        (\<lambda>i. let entry = t_entries t ! i in
          if IS_EMPTY (e_key entry) \<or> IS_NIL (e_key entry) then Inr None
          else Inr (Some (e_value entry))))"

definition pristine_entry :: b_entry where
  "pristine_entry = \<lparr>e_key = EMPTY_VAL, e_value = NIL_VAL\<rparr>"

text \<open>The loop of \<open>adjust_capacity\<close> that moves the live entries and counts them.\<close>

fun rehash :: "heap \<Rightarrow> nat \<Rightarrow> b_entry list \<Rightarrow> b_entry list \<Rightarrow> nat \<Rightarrow> (b_entry list \<times> nat) res" where
  "rehash hp capacity [] entries n = Inr (entries, n)"
| "rehash hp capacity (e # old) entries n =
     (if IS_EMPTY (e_key e) then rehash hp capacity old entries n
      else bindR (find_entry hp entries capacity (e_key e))
        (\<lambda>i. rehash hp capacity old (entries[i := e]) (n + 1)))"

definition adjust_capacity :: "heap \<Rightarrow> b_table \<Rightarrow> nat \<Rightarrow> b_table res" where
  "adjust_capacity hp t capacity =
     bindR (rehash hp capacity (t_entries t) (replicate capacity pristine_entry) 0)
       (\<lambda>(entries, n). Inr \<lparr>t_count = n, t_capacity = capacity, t_entries = entries\<rparr>)"

text \<open>
  \<open>count + 1 > capacity * TABLE_MAX_LOAD\<close> with \<open>TABLE_MAX_LOAD = 0.85714286\<close>, as a comparison of
  integers. The C code compares doubles; the capacities are powers of two up to \<open>2 ^ 30\<close>, for
  which the product is never within the rounding error of an integer, so both agree.
\<close>

definition over_load :: "nat \<Rightarrow> nat \<Rightarrow> bool" where
  "over_load n capacity = (capacity * 85714286 < n * 100000000)"

definition table_set :: "heap \<Rightarrow> b_table \<Rightarrow> b_value \<Rightarrow> b_value \<Rightarrow> (b_table \<times> bool) res" where
  "table_set hp t0 key v =
     bindR (if over_load (t_count t0 + 1) (t_capacity t0)
            then adjust_capacity hp t0 (GROW_CAPACITY (t_capacity t0)) else Inr t0)
       (\<lambda>t. bindR (find_entry hp (t_entries t) (t_capacity t) key)
         (\<lambda>i. let entry = t_entries t ! i;
                  is_new = IS_EMPTY (e_key entry)
              in Inr (t\<lparr>t_count := (if is_new \<and> IS_NIL (e_value entry) then t_count t + 1 else t_count t),
                        t_entries := (t_entries t)[i := \<lparr>e_key = key, e_value = v\<rparr>]\<rparr>, is_new)))"

definition table_delete :: "heap \<Rightarrow> b_table \<Rightarrow> b_value \<Rightarrow> (b_table \<times> bool) res" where
  "table_delete hp t key =
     (if t_count t = 0 then Inr (t, False)
      else bindR (find_entry hp (t_entries t) (t_capacity t) key)
        (\<lambda>i. if IS_EMPTY (e_key (t_entries t ! i)) then Inr (t, False)
             else Inr (t\<lparr>t_entries := (t_entries t)[i := \<lparr>e_key = EMPTY_VAL, e_value = BOOL_VAL True\<rparr>]\<rparr>,
                       True)))"

fun table_add_entries :: "heap \<Rightarrow> b_entry list \<Rightarrow> b_table \<Rightarrow> b_table res" where
  "table_add_entries hp [] to = Inr to"
| "table_add_entries hp (e # es) to =
     (if IS_EMPTY (e_key e) then table_add_entries hp es to
      else bindR (table_set hp to (e_key e) (e_value e)) (\<lambda>(to', _). table_add_entries hp es to'))"

definition table_add_all :: "heap \<Rightarrow> b_table \<Rightarrow> b_table \<Rightarrow> b_table res" where
  "table_add_all hp from to = table_add_entries hp (t_entries from) to"

definition table_find_key :: "b_table \<Rightarrow> b_value \<Rightarrow> b_value" where
  "table_find_key t v =
     (case find (\<lambda>e. \<not> IS_NIL (e_key e) \<and> \<not> IS_EMPTY (e_key e) \<and> values_equal (e_value e) v)
        (t_entries t) of
        None \<Rightarrow> NIL_VAL
      | Some e \<Rightarrow> e_key e)"

text \<open>
  \<open>table_find_string\<close>: the probe of the intern table. It stops at the first empty key, tombstones
  included (the test for a pristine slot is commented out in the source).
\<close>

fun find_string_loop ::
    "heap \<Rightarrow> nat \<Rightarrow> b_entry list \<Rightarrow> nat \<Rightarrow> byte list \<Rightarrow> uint32 \<Rightarrow> nat \<Rightarrow> addr option res" where
  "find_string_loop hp 0 entries capacity chars h index = Inl Divergence"
| "find_string_loop hp (Suc fuel) entries capacity chars h index =
     (if length entries \<le> index then Inl OutOfBounds
      else let entry = entries ! index in
        if IS_EMPTY (e_key entry) then Inr None
        else (case string_at hp (AS_OBJ (e_key entry)) of
                None \<Rightarrow> Inl NullPointer
              | Some s \<Rightarrow>
                  if s_length s = length chars \<and> s_hash s = h \<and> take (length chars) (s_chars s) = chars
                  then Inr (Some (AS_OBJ (e_key entry)))
                  else find_string_loop hp fuel entries capacity chars h (next_index index capacity)))"

definition table_find_string :: "heap \<Rightarrow> b_table \<Rightarrow> byte list \<Rightarrow> uint32 \<Rightarrow> addr option res" where
  "table_find_string hp t chars h =
     (if t_count t = 0 then Inr None
      else find_string_loop hp (t_capacity t) (t_entries t) (t_capacity t) chars h
             (first_index h (t_capacity t)))"

text \<open>\<open>table_remove_whites\<close>: the entries whose key object the collector did not mark.\<close>

fun remove_whites_loop :: "heap \<Rightarrow> (addr \<Rightarrow> bool) \<Rightarrow> nat \<Rightarrow> b_table \<Rightarrow> b_table res" where
  "remove_whites_loop hp white 0 t = Inr t"
| "remove_whites_loop hp white (Suc n) t =
     (let k = e_key (t_entries t ! (t_capacity t - Suc n)) in
      if IS_OBJ k \<and> white (AS_OBJ k)
      then bindR (table_delete hp t k) (\<lambda>(t', _). remove_whites_loop hp white n t')
      else remove_whites_loop hp white n t)"

definition table_remove_whites :: "heap \<Rightarrow> (addr \<Rightarrow> bool) \<Rightarrow> b_table \<Rightarrow> b_table res" where
  "table_remove_whites hp white t = remove_whites_loop hp white (t_capacity t) t"

end
