(* ===== verification/Store_Spec.thy ===== *)
theory Store_Spec
  imports Prelude
begin

text \<open>
  The contract of a key-value store as its clients use it: \<open>amap\<close> is the map a store stands for,
  \<open>inv\<close> its invariant, \<open>valid\<close> the keys it accepts, \<open>room s n\<close> that it has space for \<open>n\<close> more
  insertions. A \<open>kv_writer\<close> only inserts, a \<open>kv_store\<close> also looks up and deletes. The hash table
  provides both (\<open>Table_Correct\<close>); the dictionary methods, the module and class tables and the
  intern table use it.
\<close>

text \<open>A run of insertions, as the copying loops of the clients make them.\<close>

fun set_list :: "('t \<Rightarrow> 'k \<Rightarrow> 'v \<Rightarrow> ('t \<times> bool) res) \<Rightarrow> 't \<Rightarrow> ('k \<times> 'v) list \<Rightarrow> 't res" where
  "set_list kset t [] = Inr t"
| "set_list kset t ((k, v) # kvs) = bindR (kset t k v) (\<lambda>(t', _). set_list kset t' kvs)"

locale kv_writer =
  fixes inv :: "'t \<Rightarrow> bool"
    and amap :: "'t \<Rightarrow> 'k \<Rightarrow> 'v option"
    and valid :: "'k \<Rightarrow> bool"
    and room :: "'t \<Rightarrow> nat \<Rightarrow> bool"
    and kset :: "'t \<Rightarrow> 'k \<Rightarrow> 'v \<Rightarrow> ('t \<times> bool) res"
  assumes kset_law: "inv t \<Longrightarrow> valid k \<Longrightarrow> room t (Suc n) \<Longrightarrow>
      \<exists>t'. kset t k v = Inr (t', amap t k = None) \<and> inv t' \<and>
           amap t' = (amap t)(k \<mapsto> v) \<and> room t' n"
begin

text \<open>A run of insertions returns and adds exactly its pairs, later ones winning.\<close>

lemma set_list_law:
  assumes "inv t" and "\<forall>(k, v) \<in> set kvs. valid k" and "room t (length kvs)"
  shows "\<exists>t'. set_list kset t kvs = Inr t' \<and> inv t' \<and> amap t' = amap t ++ map_of (rev kvs)"
  using assms
proof (induction kvs arbitrary: t)
  case Nil
  then show ?case by simp
next
  case (Cons kv kvs)
  obtain k v where kv: "kv = (k, v)" by (cases kv)
  from Cons.prems kv have "valid k" "room t (Suc (length kvs))" by auto
  from kset_law [OF Cons.prems(1) this] obtain t1 where
    t1: "kset t k v = Inr (t1, amap t k = None)" "inv t1" "amap t1 = (amap t)(k \<mapsto> v)"
    "room t1 (length kvs)" by blast
  from Cons.IH [OF t1(2) _ t1(4)] Cons.prems(2) obtain t2 where
    "set_list kset t1 kvs = Inr t2" "inv t2" "amap t2 = amap t1 ++ map_of (rev kvs)" by auto
  then show ?case using t1 by (simp add: kv map_add_upd_left map_add_assoc [symmetric])
qed

end

locale kv_store = kv_writer inv amap valid room kset
  for inv :: "'t \<Rightarrow> bool" and amap :: "'t \<Rightarrow> 'k \<Rightarrow> 'v option" and valid :: "'k \<Rightarrow> bool"
    and room :: "'t \<Rightarrow> nat \<Rightarrow> bool" and kset :: "'t \<Rightarrow> 'k \<Rightarrow> 'v \<Rightarrow> ('t \<times> bool) res" +
  fixes kfind :: "'t \<Rightarrow> 'k \<Rightarrow> 'v option res"
    and kdel :: "'t \<Rightarrow> 'k \<Rightarrow> ('t \<times> bool) res"
  assumes kfind_law: "inv t \<Longrightarrow> valid k \<Longrightarrow> kfind t k = Inr (amap t k)"
    and kdel_law: "inv t \<Longrightarrow> valid k \<Longrightarrow>
      \<exists>t'. kdel t k = Inr (t', amap t k \<noteq> None) \<and> inv t' \<and> amap t' = (amap t)(k := None)"
begin

lemma set_then_find:
  assumes "inv t" and "valid k" and "valid k'" and "room t (Suc n)"
  shows "\<exists>t'. kset t k v = Inr (t', amap t k = None) \<and>
           kfind t' k' = (if k' = k then Inr (Some v) else kfind t k')"
proof -
  from kset_law [OF assms(1,2,4)] obtain t' where
    "kset t k v = Inr (t', amap t k = None)" "inv t'" "amap t' = (amap t)(k \<mapsto> v)" by blast
  then show ?thesis using kfind_law assms by auto
qed

lemma del_then_find:
  assumes "inv t" and "valid k" and "valid k'"
  shows "\<exists>t'. kdel t k = Inr (t', amap t k \<noteq> None) \<and>
           kfind t' k' = (if k' = k then Inr None else kfind t k')"
proof -
  from kdel_law [OF assms(1,2)] obtain t' where
    "kdel t k = Inr (t', amap t k \<noteq> None)" "inv t'" "amap t' = (amap t)(k := None)" by blast
  then show ?thesis using kfind_law assms by auto
qed

end

end
