(* ===== verification/Table_Correct.thy ===== *)
theory Table_Correct
  imports Table Store_Spec
begin

text \<open>
  Correctness of the hash table: the invariant \<open>tbl_inv\<close> (slots reached by unbroken probe paths,
  unique keys, the count of used slots, the load bound), the abstraction \<open>tbl_map\<close> to a partial
  map, and the behaviour of every operation against that map. The probe loop always returns under
  the invariant, because the load bound leaves a pristine slot.
\<close>

section \<open>Slots\<close>

definition pristine :: "b_entry \<Rightarrow> bool" where
  "pristine e = (IS_EMPTY (e_key e) \<and> IS_NIL (e_value e))"

definition live :: "b_entry \<Rightarrow> bool" where
  "live e = (\<not> IS_EMPTY (e_key e))"

lemma pristine_not_live: "pristine e \<Longrightarrow> \<not> live e"
  by (simp add: pristine_def live_def)

lemma pristine_pristine_entry [simp]: "pristine pristine_entry"
  by (simp add: pristine_def pristine_entry_def)

definition slots_map :: "b_entry list \<Rightarrow> b_value \<Rightarrow> b_value option" where
  "slots_map es k =
     map_option e_value (find (\<lambda>e. live e \<and> e_key e = k) es)"

definition tbl_map :: "b_table \<Rightarrow> b_value \<Rightarrow> b_value option" where
  "tbl_map t = slots_map (t_entries t)"

text \<open>The slot of the \<open>j\<close>-th probe for a hash, and for a key.\<close>

definition probe_h :: "uint32 \<Rightarrow> nat \<Rightarrow> nat \<Rightarrow> nat" where
  "probe_h h c j = (unat h + j) mod c"

definition probe :: "heap \<Rightarrow> b_entry list \<Rightarrow> b_value \<Rightarrow> nat \<Rightarrow> nat" where
  "probe hp es k j = probe_h (hash_value hp k) (length es) j"

text \<open>Slot \<open>i\<close> is reached by the probes for \<open>k\<close> without meeting a pristine slot before.\<close>

definition reached :: "heap \<Rightarrow> b_entry list \<Rightarrow> b_value \<Rightarrow> nat \<Rightarrow> bool" where
  "reached hp es k i =
     (\<exists>n < length es. i = probe hp es k n \<and> (\<forall>j < n. \<not> pristine (es ! probe hp es k j)))"

definition unique_keys :: "b_entry list \<Rightarrow> bool" where
  "unique_keys es =
     (\<forall>i < length es. \<forall>j < length es.
        live (es ! i) \<and> live (es ! j) \<and> e_key (es ! i) = e_key (es ! j) \<longrightarrow> i = j)"

definition slots_wf :: "heap \<Rightarrow> b_entry list \<Rightarrow> bool" where
  "slots_wf hp es =
     ((\<exists>k. 2 \<le> k \<and> k \<le> 30 \<and> length es = 2 ^ k) \<and> unique_keys es \<and>
      (\<forall>i < length es. live (es ! i) \<longrightarrow>
         key_ok (e_key (es ! i)) \<and> reached hp es (e_key (es ! i)) i))"

definition used :: "b_entry list \<Rightarrow> nat" where
  "used es = length (filter (\<lambda>e. \<not> pristine e) es)"

definition tbl_inv :: "heap \<Rightarrow> b_table \<Rightarrow> bool" where
  "tbl_inv hp t =
     (t_capacity t = length (t_entries t) \<and> t_count t = used (t_entries t) \<and>
      (t_entries t = [] \<or> slots_wf hp (t_entries t)) \<and>
      t_count t * 100000000 \<le> t_capacity t * 85714286)"

lemma slots_wf_length: "slots_wf hp es \<Longrightarrow> 4 \<le> length es"
proof -
  assume "slots_wf hp es"
  then obtain k where "2 \<le> k" "length es = 2 ^ k" by (auto simp: slots_wf_def)
  moreover from \<open>2 \<le> k\<close> have "(2::nat) ^ 2 \<le> 2 ^ k" by (intro power_increasing) auto
  ultimately show ?thesis by simp
qed

section \<open>Index arithmetic\<close>

lemma first_index_probe_h:
  assumes "m \<le> 30"
  shows "first_index h (2 ^ m) = probe_h h (2 ^ m) 0"
  using assms unat_and_mask [of m h] by (simp add: first_index_def probe_h_def)

lemma next_index_probe_h:
  assumes m: "m \<le> 30"
  shows "next_index (probe_h h (2 ^ m) j) (2 ^ m) = probe_h h (2 ^ m) (Suc j)"
proof -
  let ?p = "probe_h h (2 ^ m) j"
  have "?p < 2 ^ m" by (simp add: probe_h_def)
  also have "\<dots> \<le> (2::nat) ^ 30" using m by (intro power_increasing) auto
  finally have "Suc ?p < 2 ^ LENGTH(32)" by simp
  then have "unat (of_nat (Suc ?p) :: uint32) = Suc ?p"
    by (simp only: unsigned_of_nat take_bit_nat_eq_self of_nat_id)
  moreover have "(of_nat ?p + 1 :: uint32) = of_nat (Suc ?p)" by simp
  ultimately have "next_index ?p (2 ^ m) = Suc ?p mod 2 ^ m"
    unfolding next_index_def using unat_and_mask [of m "of_nat (Suc ?p) :: uint32"] m
    by (simp del: of_nat_Suc)
  then show ?thesis
    by (simp add: probe_h_def mod_add_Suc_mod)
qed

lemma probe_h_lt: "0 < c \<Longrightarrow> probe_h h c j < c"
  by (simp add: probe_h_def)

text \<open>Every slot is probed within one round.\<close>

lemma probe_h_surj:
  assumes "i < c"
  obtains n where "n < c" and "probe_h h c n = i"
proof
  let ?h = "unat h"
  let ?n = "(i + (c - ?h mod c)) mod c"
  show "?n < c" using assms by (intro mod_less_divisor) auto
  have hc: "?h mod c < c" using assms by (intro mod_less_divisor) auto
  have "probe_h h c ?n = (?h mod c + (i + (c - ?h mod c))) mod c"
    unfolding probe_h_def by (simp only: mod_add_left_eq mod_add_right_eq)
  also have "?h mod c + (i + (c - ?h mod c)) = i + c" using hc by simp
  finally show "probe_h h c ?n = i" using assms by simp
qed

lemma first_index_probe:
  assumes "slots_wf hp es"
  shows "first_index (hash_value hp k) (length es) = probe hp es k 0"
proof -
  obtain m where "m \<le> 30" "length es = 2 ^ m" using assms by (auto simp: slots_wf_def)
  then show ?thesis by (simp add: probe_def first_index_probe_h)
qed

lemma next_index_probe:
  assumes "slots_wf hp es"
  shows "next_index (probe hp es k j) (length es) = probe hp es k (Suc j)"
proof -
  obtain m where "m \<le> 30" "length es = 2 ^ m" using assms by (auto simp: slots_wf_def)
  then show ?thesis by (simp add: probe_def next_index_probe_h)
qed

lemma probe_lt: "es \<noteq> [] \<Longrightarrow> probe hp es k j < length es"
  by (simp add: probe_def probe_h_lt)

lemma probe_surj:
  assumes "i < length es"
  obtains n where "n < length es" and "probe hp es k n = i"
  using probe_h_surj [OF assms, of "hash_value hp k"] by (auto simp: probe_def)

section \<open>The probe loop\<close>

text \<open>The loop stops at a pristine slot or at the slot that holds the key.\<close>

definition stops :: "b_entry list \<Rightarrow> b_value \<Rightarrow> nat \<Rightarrow> bool" where
  "stops es k i = (pristine (es ! i) \<or> live (es ! i) \<and> e_key (es ! i) = k)"

lemma find_entry_loop_stops:
  assumes wf: "slots_wf hp es" and k: "key_ok k"
    and no: "\<And>i. j \<le> i \<Longrightarrow> i < j + d \<Longrightarrow> \<not> stops es k (probe hp es k i)"
    and st: "stops es k (probe hp es k (j + d))"
    and fuel: "d < fuel"
  shows "\<exists>r. find_entry_loop fuel es (length es) k (probe hp es k j) tomb = Inr r \<and>
             (live (es ! probe hp es k (j + d)) \<longrightarrow> r = probe hp es k (j + d)) \<and>
             (pristine (es ! probe hp es k (j + d)) \<longrightarrow>
                (case tomb of Some t \<Rightarrow> r = t
                 | None \<Rightarrow> \<exists>q. j \<le> q \<and> q \<le> j + d \<and> r = probe hp es k q \<and> \<not> live (es ! r)))"
  using no st fuel
proof (induction d arbitrary: j fuel tomb)
  case 0
  from wf have ne: "es \<noteq> []" using slots_wf_length by fastforce
  obtain f where f: "fuel = Suc f" using 0 by (cases fuel) auto
  have lt: "probe hp es k j < length es" by (rule probe_lt [OF ne])
  show ?case
  proof (cases "pristine (es ! probe hp es k j)")
    case True
    then have "find_entry_loop fuel es (length es) k (probe hp es k j) tomb =
               Inr (case tomb of None \<Rightarrow> probe hp es k j | Some t \<Rightarrow> t)"
      using lt by (simp add: f pristine_def Let_def)
    with True show ?thesis by (auto dest: pristine_not_live split: option.splits)
  next
    case False
    with 0 have l: "live (es ! probe hp es k j)" "e_key (es ! probe hp es k j) = k"
      by (auto simp: stops_def)
    then have "find_entry_loop fuel es (length es) k (probe hp es k j) tomb = Inr (probe hp es k j)"
      using lt k by (simp add: f live_def Let_def values_equal_key_ok)
    with False show ?thesis by simp
  qed
next
  case (Suc d)
  from wf have ne: "es \<noteq> []" using slots_wf_length by fastforce
  obtain f where f: "fuel = Suc f" "d < f" using Suc.prems by (cases fuel) auto
  let ?e = "es ! probe hp es k j"
  have lt: "probe hp es k j < length es" by (rule probe_lt [OF ne])
  have ns: "\<not> stops es k (probe hp es k j)" using Suc.prems(1) [of j] by simp
  have no': "\<not> stops es k (probe hp es k i)" if "Suc j \<le> i" "i < Suc j + d" for i
    using that Suc.prems(1) [of i] by simp
  have st': "stops es k (probe hp es k (Suc j + d))" using Suc.prems(2) by simp
  note IH = Suc.IH [OF no' st' f(2)]
  note nx = next_index_probe [OF wf, of k j]
  show ?case
  proof (cases "live ?e")
    case True
    with ns have "e_key ?e \<noteq> k" by (simp add: stops_def)
    moreover have "key_ok (e_key ?e)" using wf lt True by (simp add: slots_wf_def)
    ultimately have "\<not> values_equal k (e_key ?e)" using k by (simp add: values_equal_key_ok)
    then have "find_entry_loop fuel es (length es) k (probe hp es k j) tomb =
               find_entry_loop f es (length es) k (probe hp es k (Suc j)) tomb"
      using lt True by (simp add: f nx live_def Let_def)
    with IH [of tomb] show ?thesis
      by (auto split: option.splits) (metis Suc_leD)+
  next
    case False
    define tomb' where "tomb' = (case tomb of None \<Rightarrow> Some (probe hp es k j) | Some t \<Rightarrow> Some t)"
    from False ns have "find_entry_loop fuel es (length es) k (probe hp es k j) tomb =
               find_entry_loop f es (length es) k (probe hp es k (Suc j)) tomb'"
      using lt by (simp add: f nx live_def stops_def pristine_def Let_def tomb'_def)
    moreover from IH [of tomb'] obtain r where
      "find_entry_loop f es (length es) k (probe hp es k (Suc j)) tomb' = Inr r"
      "live (es ! probe hp es k (Suc j + d)) \<longrightarrow> r = probe hp es k (Suc j + d)"
      "pristine (es ! probe hp es k (Suc j + d)) \<longrightarrow>
         (case tomb' of Some t \<Rightarrow> r = t
          | None \<Rightarrow> \<exists>q. Suc j \<le> q \<and> q \<le> Suc j + d \<and> r = probe hp es k q \<and> \<not> live (es ! r))"
      by blast
    ultimately show ?thesis
      using False by (intro exI [of _ r], cases tomb) (auto simp: tomb'_def intro!: exI [of _ j])
  qed
qed

lemma ex_pristine:
  assumes "used es < length es"
  obtains p where "p < length es" and "pristine (es ! p)"
  using length_filter_less_ex [of "\<lambda>e. \<not> pristine e" es] assms by (auto simp: used_def)

lemma reached_empty_slot:
  assumes "\<And>i. i < m \<Longrightarrow> \<not> stops es k (probe hp es k i)" and "m < length es" and "q \<le> m"
  shows "reached hp es k (probe hp es k q)"
  using assms by (auto simp: reached_def stops_def intro!: exI [of _ q])

theorem find_entry_cases:
  assumes wf: "slots_wf hp es" and k: "key_ok k" and room: "used es < length es"
  shows "\<exists>r < length es. find_entry hp es (length es) k = Inr r \<and>
           (if \<exists>i < length es. live (es ! i) \<and> e_key (es ! i) = k
            then live (es ! r) \<and> e_key (es ! r) = k
            else \<not> live (es ! r) \<and> reached hp es k r)"
proof -
  obtain p where p: "p < length es" "pristine (es ! p)" using room by (rule ex_pristine)
  obtain n where n: "n < length es" "probe hp es k n = p" using p(1) by (rule probe_surj)
  define m where "m = (LEAST m. stops es k (probe hp es k m))"
  have "stops es k (probe hp es k n)" using n p by (simp add: stops_def)
  then have st: "stops es k (probe hp es k m)" and mn: "m \<le> n"
    unfolding m_def by (rule LeastI, rule Least_le)
  have no: "\<not> stops es k (probe hp es k i)" if "i < m" for i
    using that not_less_Least unfolding m_def by blast
  have ml: "m < length es" using mn n by simp
  have ne: "es \<noteq> []" using p by auto
  note lt = probe_lt [OF ne, of hp k]
  from find_entry_loop_stops [OF wf k, of 0 m "length es" None] no st ml
  obtain r where r: "find_entry hp es (length es) k = Inr r"
    "live (es ! probe hp es k m) \<Longrightarrow> r = probe hp es k m"
    "pristine (es ! probe hp es k m) \<Longrightarrow>
       \<exists>q \<le> m. r = probe hp es k q \<and> \<not> live (es ! r)"
    by (auto simp: find_entry_def first_index_probe [OF wf])
  show ?thesis
  proof (cases "\<exists>i < length es. live (es ! i) \<and> e_key (es ! i) = k")
    case True
    then obtain i where i: "i < length es" "live (es ! i)" "e_key (es ! i) = k" by blast
    then have "reached hp es k i" using wf by (auto simp: slots_wf_def)
    then obtain n' where n': "i = probe hp es k n'" "\<forall>j < n'. \<not> pristine (es ! probe hp es k j)"
      by (auto simp: reached_def)
    have "stops es k (probe hp es k n')" using i n' by (simp add: stops_def)
    then have "m \<le> n'" unfolding m_def by (rule Least_le)
    then have "\<not> pristine (es ! probe hp es k m)"
      using n' i by (cases "m = n'") (auto dest: pristine_not_live)
    with st have l: "live (es ! probe hp es k m)" "e_key (es ! probe hp es k m) = k"
      by (auto simp: stops_def)
    with r(1,2) lt True show ?thesis by auto
  next
    case False
    with st lt have "pristine (es ! probe hp es k m)" by (auto simp: stops_def)
    with r(3) obtain q where q: "q \<le> m" "r = probe hp es k q" "\<not> live (es ! r)" by blast
    moreover have "reached hp es k r"
      unfolding q(2) using no ml q(1) by (rule reached_empty_slot)
    ultimately show ?thesis using r(1) lt False by auto
  qed
qed

section \<open>The abstract map\<close>

lemma slots_map_Some_iff:
  assumes "unique_keys es"
  shows "slots_map es k = Some v \<longleftrightarrow>
         (\<exists>i < length es. live (es ! i) \<and> e_key (es ! i) = k \<and> e_value (es ! i) = v)"
proof
  assume "slots_map es k = Some v"
  then show "\<exists>i < length es. live (es ! i) \<and> e_key (es ! i) = k \<and> e_value (es ! i) = v"
    by (auto simp: slots_map_def find_Some_iff)
next
  assume "\<exists>i < length es. live (es ! i) \<and> e_key (es ! i) = k \<and> e_value (es ! i) = v"
  then obtain i where i: "i < length es" "live (es ! i)" "e_key (es ! i) = k" "e_value (es ! i) = v"
    by blast
  moreover have "\<forall>j < i. \<not> (live (es ! j) \<and> e_key (es ! j) = k)"
    using assms i unfolding unique_keys_def by (metis less_trans less_irrefl_nat)
  ultimately have "find (\<lambda>e. live e \<and> e_key e = k) es = Some (es ! i)"
    unfolding find_Some_iff by blast
  then show "slots_map es k = Some v" using i by (simp add: slots_map_def)
qed

lemma slots_map_None_iff:
  "slots_map es k = None \<longleftrightarrow> \<not> (\<exists>i < length es. live (es ! i) \<and> e_key (es ! i) = k)"
  by (auto simp: slots_map_def find_None_iff in_set_conv_nth)

lemma slots_map_dom:
  "(\<exists>i < length es. live (es ! i) \<and> e_key (es ! i) = k) \<longleftrightarrow> k \<in> dom (slots_map es)"
  using slots_map_None_iff [of es k] by (auto simp: domIff)

lemma slots_map_Cons:
  "slots_map (e # es) k = (if live e \<and> e_key e = k then Some (e_value e) else slots_map es k)"
  by (simp add: slots_map_def)

lemma slots_map_replicate [simp]: "slots_map (replicate n pristine_entry) = Map.empty"
  by (rule ext) (auto simp: slots_map_None_iff pristine_not_live)

section \<open>Writing a slot\<close>

lemmas slots_wfD = slots_wf_def [THEN iffD1]

lemma reached_update:
  assumes "reached hp es k i" and "\<not> pristine e"
  shows "reached hp (es[r := e]) k i"
proof -
  from assms(1) obtain n where n: "n < length es" "i = probe hp es k n"
    "\<forall>j < n. \<not> pristine (es ! probe hp es k j)"
    by (auto simp: reached_def)
  have pr: "probe hp (es[r := e]) k j = probe hp es k j" for j by (simp add: probe_def)
  have "\<not> pristine (es[r := e] ! probe hp es k j)" if "j < n" for j
    using n that assms(2) by (cases "probe hp es k j = r \<and> r < length es")
      (auto simp: nth_list_update list_update_beyond)
  with n show ?thesis by (auto simp: reached_def pr intro!: exI [of _ n])
qed

lemma slots_wf_update:
  assumes wf: "slots_wf hp es" and r: "r < length es" and np: "\<not> pristine e"
    and key: "live e \<Longrightarrow> key_ok (e_key e) \<and> reached hp es (e_key e) r"
    and fresh: "\<And>i. live e \<Longrightarrow> i < length es \<Longrightarrow> i \<noteq> r \<Longrightarrow> live (es ! i) \<Longrightarrow> e_key (es ! i) \<noteq> e_key e"
  shows "slots_wf hp (es[r := e])"
proof -
  have "i = j" if "i < length es" "j < length es" "live (es[r := e] ! i)" "live (es[r := e] ! j)"
    "e_key (es[r := e] ! i) = e_key (es[r := e] ! j)" for i j
    using that fresh [of i] fresh [of j] slots_wfD [OF wf]
    by (cases "i = r"; cases "j = r") (auto simp: unique_keys_def r)
  then have "unique_keys (es[r := e])"
    by (auto simp: unique_keys_def)
  moreover have "key_ok (e_key (es[r := e] ! i)) \<and> reached hp (es[r := e]) (e_key (es[r := e] ! i)) i"
    if "i < length es" "live (es[r := e] ! i)" for i
    using that wf key reached_update [OF _ np]
    by (cases "i = r") (auto simp: slots_wf_def r)
  ultimately show ?thesis
    using wf by (auto simp: slots_wf_def)
qed

lemma slots_map_update:
  assumes "unique_keys es" and "unique_keys (es[r := e])" and r: "r < length es"
  shows "slots_map (es[r := e]) k =
         (if live e \<and> e_key e = k then Some (e_value e)
          else if live (es ! r) \<and> e_key (es ! r) = k then None else slots_map es k)"
proof -
  have u: "i = r" if "i < length es" "live (es ! i)" "live (es ! r)" "e_key (es ! i) = e_key (es ! r)" for i
    using assms(1) that r by (auto simp: unique_keys_def)
  have "slots_map (es[r := e]) k = Some v \<longleftrightarrow>
        (if live e \<and> e_key e = k then e_value e = v
         else if live (es ! r) \<and> e_key (es ! r) = k then False else slots_map es k = Some v)" for v
  proof (cases "live e \<and> e_key e = k")
    case True
    then have "slots_map (es[r := e]) k = Some (e_value e)"
      unfolding slots_map_Some_iff [OF assms(2)] using r by (auto intro!: exI [of _ r])
    with True show ?thesis by simp
  next
    case False
    then show ?thesis
      unfolding slots_map_Some_iff [OF assms(1)] slots_map_Some_iff [OF assms(2)]
      using r u by (auto simp: nth_list_update) metis+
  qed
  then show ?thesis
    by (metis option.exhaust option.sel option.simps(3))
qed

lemma used_update:
  assumes "r < length es" and "\<not> pristine e"
  shows "used (es[r := e]) = (if pristine (es ! r) then Suc (used es) else used es)"
  using length_filter_update [of r es "\<lambda>e. \<not> pristine e" e] assms
  by (auto simp: used_def split: if_splits)

lemma slots_wf_unique: "slots_wf hp es \<Longrightarrow> unique_keys es"
  by (simp add: slots_wf_def)

text \<open>Storing a key in the slot that \<open>find_entry\<close> returns.\<close>

lemma store_slot:
  fixes v :: b_value
  assumes wf: "slots_wf hp es" and k: "key_ok k" and room: "used es < length es"
  defines "e \<equiv> \<lparr>e_key = k, e_value = v\<rparr>"
  obtains r where "r < length es" and "find_entry hp es (length es) k = Inr r"
    and "slots_wf hp (es[r := e])" and "slots_map (es[r := e]) = (slots_map es)(k \<mapsto> v)"
    and "used (es[r := e]) = (if pristine (es ! r) then Suc (used es) else used es)"
    and "live (es ! r) \<longleftrightarrow> k \<in> dom (slots_map es)"
proof -
  from find_entry_cases [OF wf k room] obtain r where r: "r < length es"
    "find_entry hp es (length es) k = Inr r"
    and c: "if \<exists>i < length es. live (es ! i) \<and> e_key (es ! i) = k
            then live (es ! r) \<and> e_key (es ! r) = k else \<not> live (es ! r) \<and> reached hp es k r"
    by blast
  have e: "live e" "e_key e = k" "e_value e = v" "\<not> pristine e"
    using k by (simp_all add: e_def live_def pristine_def key_ok_not_empty)
  have wf': "slots_wf hp (es[r := e])"
  proof (rule slots_wf_update [OF wf r(1) e(4)])
    show "key_ok (e_key e) \<and> reached hp es (e_key e) r"
      using c wf r k e by (auto simp: slots_wf_def split: if_splits)
    fix i
    assume i: "i < length es" "i \<noteq> r" "live (es ! i)"
    show "e_key (es ! i) \<noteq> e_key e"
    proof
      assume eq: "e_key (es ! i) = e_key e"
      with c e i have "live (es ! r) \<and> e_key (es ! r) = k" by (auto split: if_splits)
      with slots_wf_unique [OF wf] i r e eq show False by (auto simp: unique_keys_def)
    qed
  qed
  have "slots_map (es[r := e]) k' = ((slots_map es)(k \<mapsto> v)) k'" for k'
  proof -
    have "\<not> (live (es ! r) \<and> e_key (es ! r) = k')" if "k \<noteq> k'"
      using that c by (auto split: if_splits)
    then show ?thesis
      using slots_map_update [OF slots_wf_unique [OF wf] slots_wf_unique [OF wf'] r(1), of k'] e
      by auto
  qed
  then have m: "slots_map (es[r := e]) = (slots_map es)(k \<mapsto> v)" by (rule ext)
  have "live (es ! r) \<longleftrightarrow> k \<in> dom (slots_map es)"
    using c unfolding slots_map_dom by (auto split: if_splits)
  from that [OF r wf' m used_update [OF r(1) e(4)] this] show thesis .
qed

section \<open>Growing\<close>

definition live_count :: "b_entry list \<Rightarrow> nat" where
  "live_count es = length (filter live es)"

lemma live_count_le_used: "live_count es \<le> used es"
  unfolding live_count_def used_def
  by (induction es) (auto dest: pristine_not_live)

lemma unique_keys_Cons:
  assumes "unique_keys (e # es)"
  shows "unique_keys es" and "live e \<Longrightarrow> slots_map es (e_key e) = None"
proof -
  show "unique_keys es"
    using assms unfolding unique_keys_def by (metis Suc_mono length_Cons nat.inject nth_Cons_Suc)
  show "slots_map es (e_key e) = None" if "live e"
    unfolding slots_map_None_iff
  proof
    assume "\<exists>i < length es. live (es ! i) \<and> e_key (es ! i) = e_key e"
    then obtain i where i: "i < length es" "live (es ! i)" "e_key (es ! i) = e_key e" by blast
    then have "0 = Suc i"
      using assms that unfolding unique_keys_def
      by (metis Suc_mono length_Cons nth_Cons_0 nth_Cons_Suc zero_less_Suc)
    then show False by simp
  qed
qed

text \<open>
  Moving the live entries \<open>old\<close> into \<open>es\<close>: the loop returns, every slot that was pristine and
  is used now holds one of them, and the map is the union.
\<close>

lemma rehash_correct:
  assumes "slots_wf hp es" and "unique_keys old" and "\<forall>e \<in> set old. live e \<longrightarrow> key_ok (e_key e)"
    and "dom (slots_map old) \<inter> dom (slots_map es) = {}"
    and "\<forall>e \<in> set es. live e \<or> pristine e"
    and "used es + live_count old < length es"
  shows "\<exists>es'. rehash hp (length es) old es n = Inr (es', n + live_count old) \<and>
           length es' = length es \<and> slots_wf hp es' \<and> used es' = used es + live_count old \<and>
           slots_map es' = slots_map es ++ slots_map old"
  using assms
proof (induction old arbitrary: es n)
  case Nil
  then show ?case by (auto simp: live_count_def slots_map_def map_add_def)
next
  case (Cons e old)
  note uq = unique_keys_Cons [OF Cons.prems(2)]
  show ?case
  proof (cases "live e")
    case False
    then have m: "slots_map (e # old) = slots_map old" by (auto simp: slots_map_Cons)
    have "\<exists>es'. rehash hp (length es) old es n = Inr (es', n + live_count old) \<and>
            length es' = length es \<and> slots_wf hp es' \<and> used es' = used es + live_count old \<and>
            slots_map es' = slots_map es ++ slots_map old"
      using Cons.prems False m by (intro Cons.IH uq) (auto simp: live_count_def)
    with False m show ?thesis by (simp add: live_def live_count_def)
  next
    case True
    let ?k = "e_key e"
    have k: "key_ok ?k" using Cons.prems(3) True by simp
    have room: "used es < length es" using Cons.prems(6) by simp
    have e: "e = \<lparr>e_key = ?k, e_value = e_value e\<rparr>" by simp
    from store_slot [OF Cons.prems(1) k room, of "e_value e"] e obtain r where
      r: "r < length es" "find_entry hp es (length es) ?k = Inr r"
      and wf: "slots_wf hp (es[r := e])" and m: "slots_map (es[r := e]) = (slots_map es)(?k \<mapsto> e_value e)"
      and us: "used (es[r := e]) = (if pristine (es ! r) then Suc (used es) else used es)"
      and lv: "live (es ! r) \<longleftrightarrow> ?k \<in> dom (slots_map es)"
      by metis
    have "?k \<in> dom (slots_map (e # old))" using True by (simp add: slots_map_Cons dom_def)
    then have "?k \<notin> dom (slots_map es)" using Cons.prems(4) by blast
    with lv r Cons.prems(5) have "pristine (es ! r)" by auto
    with us have us': "used (es[r := e]) = Suc (used es)" by simp
    have dj: "dom (slots_map old) \<inter> dom (slots_map (es[r := e])) = {}"
    proof -
      have "dom (slots_map (e # old)) = insert ?k (dom (slots_map old))"
        using True by (auto simp: slots_map_Cons split: if_splits)
      moreover have "?k \<notin> dom (slots_map old)" using uq(2) True by auto
      ultimately show ?thesis using Cons.prems(4) unfolding m by auto
    qed
    have al: "\<forall>x \<in> set (es[r := e]). live x \<or> pristine x"
      using Cons.prems(5) True set_update_subset_insert [of es r e] by auto
    have "\<exists>es'. rehash hp (length (es[r := e])) old (es[r := e]) (n + 1) =
                  Inr (es', n + 1 + live_count old) \<and>
            length es' = length (es[r := e]) \<and> slots_wf hp es' \<and>
            used es' = used (es[r := e]) + live_count old \<and>
            slots_map es' = slots_map (es[r := e]) ++ slots_map old"
      using Cons.prems True us' by (intro Cons.IH wf uq dj al) (auto simp: live_count_def)
    moreover have "slots_map (es[r := e]) ++ slots_map old = slots_map es ++ slots_map (e # old)"
      using True uq(2) unfolding m by (auto simp: slots_map_Cons map_add_def fun_eq_iff split: option.splits)
    moreover have "rehash hp (length es) (e # old) es n = rehash hp (length es) old (es[r := e]) (n + 1)"
      using True r by (simp add: live_def)
    ultimately show ?thesis using True us' by (auto simp: live_count_def)
  qed
qed

lemma slots_wf_replicate:
  assumes "2 \<le> k" and "k \<le> 30"
  shows "slots_wf hp (replicate (2 ^ k) pristine_entry)"
  using assms by (auto simp: slots_wf_def unique_keys_def pristine_not_live)

lemma GROW_power: "2 \<le> k \<Longrightarrow> GROW_CAPACITY (2 ^ k) = 2 ^ Suc k"
proof -
  assume "2 \<le> k"
  then have "(2::nat) ^ 2 \<le> 2 ^ k" by (intro power_increasing) auto
  then show ?thesis by (simp add: GROW_CAPACITY_def)
qed

text \<open>The capacity may still double without leaving the range of \<open>int\<close>.\<close>

definition can_grow :: "b_table \<Rightarrow> bool" where
  "can_grow t = (t_capacity t \<le> 2 ^ 29)"

lemma grown_power:
  assumes "tbl_inv hp t" and "can_grow t"
  shows "\<exists>k. 2 \<le> k \<and> k \<le> 30 \<and> GROW_CAPACITY (t_capacity t) = 2 ^ k"
proof (cases "t_entries t = []")
  case True
  then have "GROW_CAPACITY (t_capacity t) = 2 ^ 2" using assms by (simp add: tbl_inv_def GROW_CAPACITY_def)
  then show ?thesis by (intro exI [of _ 2]) simp
next
  case False
  with assms obtain k where k: "2 \<le> k" "t_capacity t = 2 ^ k"
    by (auto simp: tbl_inv_def slots_wf_def)
  with assms have "(2::nat) ^ k \<le> 2 ^ 29" by (simp add: can_grow_def)
  then have "k \<le> 29" by (rule power_le_imp_le_exp [rotated]) simp
  with k show ?thesis by (intro exI [of _ "Suc k"]) (simp add: GROW_power)
qed

lemma adjust_capacity_correct:
  assumes inv: "tbl_inv hp t" and grow: "can_grow t"
  defines "c \<equiv> GROW_CAPACITY (t_capacity t)"
  shows "\<exists>t'. adjust_capacity hp t c = Inr t' \<and> tbl_inv hp t' \<and> tbl_map t' = tbl_map t \<and>
           t_capacity t' = c \<and> t_count t' = live_count (t_entries t) \<and>
           \<not> over_load (t_count t' + 1) c"
proof -
  obtain k where k: "2 \<le> k" "k \<le> 30" "c = 2 ^ k"
    using grown_power [OF inv grow] by (auto simp: c_def)
  let ?old = "t_entries t" and ?new = "replicate c pristine_entry"
  have wf: "slots_wf hp ?new" using slots_wf_replicate [OF k(1,2)] by (simp add: k)
  have old: "unique_keys ?old" "\<forall>e \<in> set ?old. live e \<longrightarrow> key_ok (e_key e)"
    using inv by (auto simp: tbl_inv_def slots_wf_def unique_keys_def in_set_conv_nth)
  have u0: "used ?new = 0" by (simp add: used_def)
  have cap: "4 \<le> t_capacity t \<and> c = 2 * t_capacity t \<or> t_capacity t = 0 \<and> c = 4"
    using inv slots_wf_length [of hp ?old] by (auto simp: tbl_inv_def c_def GROW_CAPACITY_def)
  have cnt: "live_count ?old * 100000000 \<le> t_capacity t * 85714286"
    using inv live_count_le_used [of ?old] by (auto simp: tbl_inv_def)
  have lt: "used ?new + live_count ?old < length ?new"
    using cap cnt u0 by auto
  from rehash_correct [OF wf old _ _ lt, of 0] obtain es' where
    es': "rehash hp c ?old ?new 0 = Inr (es', live_count ?old)" "length es' = c" "slots_wf hp es'"
    "used es' = live_count ?old" "slots_map es' = slots_map ?old"
    using u0 by auto
  let ?t' = "\<lparr>t_count = live_count ?old, t_capacity = c, t_entries = es'\<rparr>"
  have "adjust_capacity hp t c = Inr ?t'" using es' by (simp add: adjust_capacity_def)
  moreover have "tbl_inv hp ?t'" using es' cap cnt by (auto simp: tbl_inv_def)
  moreover have "\<not> over_load (live_count ?old + 1) c" using cap cnt by (auto simp: over_load_def)
  ultimately show ?thesis using es' by (auto simp: tbl_map_def)
qed

section \<open>The operations\<close>

lemma not_over_load_room: "\<not> over_load (n + 1) c \<Longrightarrow> n < c"
  by (simp add: over_load_def)

lemma tbl_inv_slots: "tbl_inv hp t \<Longrightarrow> t_capacity t \<noteq> 0 \<Longrightarrow> slots_wf hp (t_entries t)"
  by (auto simp: tbl_inv_def)

lemma store_correct:
  assumes inv: "tbl_inv hp t" and k: "key_ok k" and nl: "\<not> over_load (t_count t + 1) (t_capacity t)"
  shows "\<exists>r t'. find_entry hp (t_entries t) (t_capacity t) k = Inr r \<and>
           t' = t\<lparr>t_count := (if IS_EMPTY (e_key (t_entries t ! r)) \<and> IS_NIL (e_value (t_entries t ! r))
                             then t_count t + 1 else t_count t),
                   t_entries := (t_entries t)[r := \<lparr>e_key = k, e_value = v\<rparr>]\<rparr> \<and>
           tbl_inv hp t' \<and> tbl_map t' = (tbl_map t)(k \<mapsto> v) \<and>
           (IS_EMPTY (e_key (t_entries t ! r)) \<longleftrightarrow> k \<notin> dom (tbl_map t))"
proof -
  let ?es = "t_entries t"
  have room: "t_count t < t_capacity t" using nl by (rule not_over_load_room)
  then have wf: "slots_wf hp ?es" and eqs: "t_capacity t = length ?es" "t_count t = used ?es"
    using inv by (auto simp: tbl_inv_def)
  have u: "used ?es < length ?es" using room eqs by simp
  obtain r where r: "r < length ?es" "find_entry hp ?es (length ?es) k = Inr r"
    and wf': "slots_wf hp (?es[r := \<lparr>e_key = k, e_value = v\<rparr>])"
    and m: "slots_map (?es[r := \<lparr>e_key = k, e_value = v\<rparr>]) = (slots_map ?es)(k \<mapsto> v)"
    and us: "used (?es[r := \<lparr>e_key = k, e_value = v\<rparr>]) =
             (if pristine (?es ! r) then Suc (used ?es) else used ?es)"
    and lv: "live (?es ! r) \<longleftrightarrow> k \<in> dom (slots_map ?es)"
    by (rule store_slot [OF wf k u])
  define t' where "t' = t\<lparr>t_count := (if IS_EMPTY (e_key (?es ! r)) \<and> IS_NIL (e_value (?es ! r))
                                  then t_count t + 1 else t_count t),
                        t_entries := ?es[r := \<lparr>e_key = k, e_value = v\<rparr>]\<rparr>"
  have "t_count t' = (if pristine (?es ! r) then Suc (used ?es) else used ?es)"
    by (simp add: t'_def pristine_def eqs)
  then have "tbl_inv hp t'"
    using wf' us nl eqs unfolding tbl_inv_def over_load_def by (simp add: t'_def)
  moreover have "tbl_map t' = (tbl_map t)(k \<mapsto> v)" by (simp add: tbl_map_def t'_def m)
  moreover have "IS_EMPTY (e_key (?es ! r)) \<longleftrightarrow> k \<notin> dom (tbl_map t)"
    using lv by (auto simp: tbl_map_def live_def)
  ultimately show ?thesis using r(2) t'_def by (auto simp: eqs(1))
qed

lemma over_load_can_grow:
  "over_load (t_count t + 1) (t_capacity t) \<Longrightarrow> t_count t < 2 ^ 28 \<Longrightarrow> can_grow t"
  by (simp add: over_load_def can_grow_def)

lemma table_set_correct:
  assumes inv: "tbl_inv hp t" and k: "key_ok k" and n: "t_count t < 2 ^ 28"
  shows "\<exists>t'. table_set hp t k v = Inr (t', k \<notin> dom (tbl_map t)) \<and> tbl_inv hp t' \<and>
           tbl_map t' = (tbl_map t)(k \<mapsto> v) \<and> t_count t' \<le> t_count t + 1"
proof -
  define g where "g = (if over_load (t_count t + 1) (t_capacity t)
                       then adjust_capacity hp t (GROW_CAPACITY (t_capacity t)) else Inr t)"
  have "\<exists>t1. g = Inr t1 \<and> tbl_inv hp t1 \<and> tbl_map t1 = tbl_map t \<and> t_count t1 \<le> t_count t \<and>
          \<not> over_load (t_count t1 + 1) (t_capacity t1)"
  proof (cases "over_load (t_count t + 1) (t_capacity t)")
    case True
    then have "can_grow t" using n by (rule over_load_can_grow)
    from adjust_capacity_correct [OF inv this] True inv live_count_le_used [of "t_entries t"]
    show ?thesis by (auto simp: g_def tbl_inv_def)
  next
    case False
    then show ?thesis using inv by (simp add: g_def)
  qed
  then obtain t1 where t1: "g = Inr t1" "tbl_inv hp t1" "tbl_map t1 = tbl_map t"
    "t_count t1 \<le> t_count t" "\<not> over_load (t_count t1 + 1) (t_capacity t1)" by blast
  from store_correct [OF t1(2) k t1(5), of v] obtain r t' where
    r: "find_entry hp (t_entries t1) (t_capacity t1) k = Inr r"
    and t': "t' = t1\<lparr>t_count := (if IS_EMPTY (e_key (t_entries t1 ! r)) \<and> IS_NIL (e_value (t_entries t1 ! r))
                             then t_count t1 + 1 else t_count t1),
                   t_entries := (t_entries t1)[r := \<lparr>e_key = k, e_value = v\<rparr>]\<rparr>"
    and ok: "tbl_inv hp t'" "tbl_map t' = (tbl_map t1)(k \<mapsto> v)"
    "IS_EMPTY (e_key (t_entries t1 ! r)) \<longleftrightarrow> k \<notin> dom (tbl_map t1)" by blast
  have "table_set hp t k v = Inr (t', k \<notin> dom (tbl_map t))"
    using t1 r t' ok(3) unfolding table_set_def g_def [symmetric] by (simp add: Let_def)
  moreover have "t_count t' \<le> t_count t + 1" using t' t1(4) by simp
  ultimately show ?thesis using ok t1(3) by auto
qed

lemma tbl_inv_room:
  assumes "tbl_inv hp t" and "t_entries t \<noteq> []"
  shows "used (t_entries t) < length (t_entries t)"
proof -
  have "0 < length (t_entries t)" using assms(2) by simp
  moreover have "used (t_entries t) * 100000000 \<le> length (t_entries t) * 85714286"
    using assms(1) by (simp add: tbl_inv_def)
  ultimately show ?thesis by linarith
qed

lemma find_entry_tbl:
  assumes inv: "tbl_inv hp t" and k: "key_ok k" and ne: "t_entries t \<noteq> []"
  obtains r where "r < length (t_entries t)"
    and "find_entry hp (t_entries t) (t_capacity t) k = Inr r"
    and "live (t_entries t ! r) \<longleftrightarrow> tbl_map t k \<noteq> None"
    and "live (t_entries t ! r) \<Longrightarrow> e_key (t_entries t ! r) = k \<and> tbl_map t k = Some (e_value (t_entries t ! r))"
proof -
  have wf: "slots_wf hp (t_entries t)" and c: "t_capacity t = length (t_entries t)"
    using inv ne by (auto simp: tbl_inv_def)
  from find_entry_cases [OF wf k tbl_inv_room [OF inv ne]] obtain r where
    r: "r < length (t_entries t)" "find_entry hp (t_entries t) (t_capacity t) k = Inr r"
    and d: "if k \<in> dom (tbl_map t) then live (t_entries t ! r) \<and> e_key (t_entries t ! r) = k
            else \<not> live (t_entries t ! r) \<and> reached hp (t_entries t) k r"
    unfolding slots_map_dom tbl_map_def c by blast
  have v: "tbl_map t k = Some (e_value (t_entries t ! r))"
    if "live (t_entries t ! r)" "e_key (t_entries t ! r) = k"
    unfolding tbl_map_def slots_map_Some_iff [OF slots_wf_unique [OF wf]] using r that by blast
  have l: "live (t_entries t ! r) \<longleftrightarrow> tbl_map t k \<noteq> None"
    using d by (cases "k \<in> dom (tbl_map t)") auto
  have "e_key (t_entries t ! r) = k" if "live (t_entries t ! r)"
    using d that by (cases "k \<in> dom (tbl_map t)") auto
  with that [OF r l] v show thesis by blast
qed

lemma tbl_map_empty_entries: "t_entries t = [] \<Longrightarrow> tbl_map t = Map.empty"
  by (simp add: tbl_map_def slots_map_def fun_eq_iff)

lemma tbl_map_count_0:
  assumes "tbl_inv hp t" and "t_count t = 0"
  shows "tbl_map t = Map.empty"
proof -
  have "live_count (t_entries t) = 0"
    using assms live_count_le_used [of "t_entries t"] by (simp add: tbl_inv_def)
  then have "\<forall>e \<in> set (t_entries t). \<not> live e" by (simp add: live_count_def filter_empty_conv)
  then show ?thesis by (auto simp: tbl_map_def slots_map_def find_None_iff fun_eq_iff)
qed

lemma table_get_correct:
  assumes inv: "tbl_inv hp t" and k: "key_ok k"
  shows "table_get hp t k = Inr (if IS_NIL k then None else tbl_map t k)"
proof (cases "t_count t = 0 \<or> t_entries t = []")
  case True
  then have "tbl_map t = Map.empty" using tbl_map_count_0 [OF inv] tbl_map_empty_entries by blast
  with True show ?thesis by (simp add: table_get_def)
next
  case False
  then have "t_entries t \<noteq> []" by simp
  from find_entry_tbl [OF inv k this] obtain r where
    "find_entry hp (t_entries t) (t_capacity t) k = Inr r"
    "live (t_entries t ! r) \<longleftrightarrow> tbl_map t k \<noteq> None"
    "live (t_entries t ! r) \<Longrightarrow> e_key (t_entries t ! r) = k \<and> tbl_map t k = Some (e_value (t_entries t ! r))"
    by blast
  with False show ?thesis by (auto simp: table_get_def live_def Let_def)
qed

lemma table_delete_correct:
  assumes inv: "tbl_inv hp t" and k: "key_ok k"
  shows "\<exists>t'. table_delete hp t k = Inr (t', k \<in> dom (tbl_map t)) \<and> tbl_inv hp t' \<and>
           tbl_map t' = (tbl_map t)(k := None) \<and> t_count t' = t_count t \<and>
           t_capacity t' = t_capacity t"
proof (cases "t_count t = 0")
  case True
  then show ?thesis
    using inv tbl_map_count_0 [OF inv] by (simp add: table_delete_def)
next
  case False
  then have ne: "t_entries t \<noteq> []" using inv by (auto simp: tbl_inv_def used_def)
  let ?es = "t_entries t" and ?tomb = "\<lparr>e_key = EMPTY_VAL, e_value = BOOL_VAL True\<rparr>"
  from find_entry_tbl [OF inv k ne] obtain r where r: "r < length ?es"
    "find_entry hp ?es (t_capacity t) k = Inr r" "live (?es ! r) \<longleftrightarrow> tbl_map t k \<noteq> None"
    "live (?es ! r) \<Longrightarrow> e_key (?es ! r) = k \<and> tbl_map t k = Some (e_value (?es ! r))"
    by blast
  show ?thesis
  proof (cases "live (?es ! r)")
    case False
    with r \<open>t_count t \<noteq> 0\<close> have "table_delete hp t k = Inr (t, False)" "tbl_map t k = None"
      by (auto simp: table_delete_def live_def)
    moreover from this(2) have "(tbl_map t)(k := None) = tbl_map t" by (simp add: fun_eq_iff)
    ultimately show ?thesis using inv by (simp add: domIff)
  next
    case True
    have tb: "\<not> live ?tomb" "\<not> pristine ?tomb" by (simp_all add: live_def pristine_def)
    have wf: "slots_wf hp ?es" using inv ne by (simp add: tbl_inv_def)
    have wf': "slots_wf hp (?es[r := ?tomb])"
      using slots_wf_update [OF wf r(1) tb(2)] tb(1) by blast
    have "slots_map (?es[r := ?tomb]) k' = ((slots_map ?es)(k := None)) k'" for k'
      using slots_map_update [OF slots_wf_unique [OF wf] slots_wf_unique [OF wf'] r(1), of k']
        tb(1) True r(4) by auto
    then have m: "tbl_map (t\<lparr>t_entries := ?es[r := ?tomb]\<rparr>) = (tbl_map t)(k := None)"
      by (auto simp: tbl_map_def fun_eq_iff)
    have "used (?es[r := ?tomb]) = used ?es"
      using used_update [OF r(1) tb(2)] True by (auto dest: pristine_not_live)
    then have "tbl_inv hp (t\<lparr>t_entries := ?es[r := ?tomb]\<rparr>)"
      using inv wf' by (simp add: tbl_inv_def)
    moreover have "table_delete hp t k = Inr (t\<lparr>t_entries := ?es[r := ?tomb]\<rparr>, True)"
      using True r \<open>t_count t \<noteq> 0\<close> by (simp add: table_delete_def live_def)
    moreover have "k \<in> dom (tbl_map t)" using True r by auto
    ultimately show ?thesis using m by auto
  qed
qed

section \<open>The table is a key-value store\<close>

definition tbl_room :: "b_table \<Rightarrow> nat \<Rightarrow> bool" where
  "tbl_room t n = (t_count t + n \<le> 2 ^ 28)"

definition tbl_key :: "b_value \<Rightarrow> bool" where
  "tbl_key k = (key_ok k \<and> \<not> IS_NIL k)"

text \<open>Every key but NaN, the negative zero and the empty value can be stored, nil cannot be found.\<close>

interpretation tblw: kv_writer "tbl_inv hp" tbl_map key_ok tbl_room "table_set hp" for hp
proof unfold_locales
  fix t k n v
  assume "tbl_inv hp t" "key_ok k" "tbl_room t (Suc n)"
  then show "\<exists>t'. table_set hp t k v = Inr (t', tbl_map t k = None) \<and> tbl_inv hp t' \<and>
           tbl_map t' = (tbl_map t)(k \<mapsto> v) \<and> tbl_room t' n"
    using table_set_correct [of hp t k v] by (fastforce simp: tbl_room_def domIff)
qed

interpretation tbl: kv_store "tbl_inv hp" tbl_map tbl_key tbl_room "table_set hp" "table_get hp" "table_delete hp"
  for hp
proof unfold_locales
  fix t k n v
  assume "tbl_inv hp t" "tbl_key k" "tbl_room t (Suc n)"
  then show "\<exists>t'. table_set hp t k v = Inr (t', tbl_map t k = None) \<and> tbl_inv hp t' \<and>
           tbl_map t' = (tbl_map t)(k \<mapsto> v) \<and> tbl_room t' n"
    by (intro tblw.kset_law) (auto simp: tbl_key_def)
next
  fix t k
  assume "tbl_inv hp t" "tbl_key k"
  then show "table_get hp t k = Inr (tbl_map t k)"
    using table_get_correct by (simp add: tbl_key_def)
next
  fix t k
  assume "tbl_inv hp t" "tbl_key k"
  then show "\<exists>t'. table_delete hp t k = Inr (t', tbl_map t k \<noteq> None) \<and> tbl_inv hp t' \<and>
           tbl_map t' = (tbl_map t)(k := None)"
    using table_delete_correct [of hp t k] by (auto simp: tbl_key_def domIff)
qed

lemma tbl_inv_init [simp]: "tbl_inv hp init_table"
  by (simp add: tbl_inv_def init_table_def used_def)

lemma tbl_map_init [simp]: "tbl_map init_table = Map.empty"
  by (simp add: tbl_map_empty_entries init_table_def)

end
