(* ===== verification/Value_Arr.thy ===== *)
theory Value_Arr
  imports Object_Types
begin

text \<open>
  The growable arrays: \<open>b_value_arr\<close> and \<open>b_byte_arr\<close> of \<open>value.c\<close>, the bytecode blob of
  \<open>blob.c\<close>, and the two element-moving loops the container methods are built from
  (\<open>p[i + 1] = p[i]\<close> downwards, \<open>p[i] = p[i + 1]\<close> upwards). \<open>varr_list\<close> is the sequence a value
  array stands for, \<open>varr_inv\<close> its invariant.
\<close>

section \<open>Element moves\<close>

text \<open>\<open>n\<close> iterations of \<open>values[i + 1] = values[i]; i--\<close>.\<close>

fun shift_up :: "'a cells \<Rightarrow> int \<Rightarrow> nat \<Rightarrow> 'a cells res" where
  "shift_up cs i 0 = Inr cs"
| "shift_up cs i (Suc n) = bindR (cell_copy cs (i + 1) i) (\<lambda>cs'. shift_up cs' (i - 1) n)"

text \<open>\<open>n\<close> iterations of \<open>values[i] = values[i + 1]; i++\<close>.\<close>

fun shift_down :: "'a cells \<Rightarrow> int \<Rightarrow> nat \<Rightarrow> 'a cells res" where
  "shift_down cs i 0 = Inr cs"
| "shift_down cs i (Suc n) = bindR (cell_copy cs i (i + 1)) (\<lambda>cs'. shift_down cs' (i + 1) n)"

text \<open>\<open>n\<close> iterations of \<open>values[i] = nil; i++\<close>.\<close>

fun fill_nil :: "b_value cells \<Rightarrow> int \<Rightarrow> nat \<Rightarrow> b_value cells res" where
  "fill_nil cs i 0 = Inr cs"
| "fill_nil cs i (Suc n) = bindR (cell_set cs i NIL_VAL) (\<lambda>cs'. fill_nil cs' (i + 1) n)"

section \<open>Value arrays\<close>

definition init_value_arr :: b_value_arr where
  "init_value_arr = \<lparr>va_capacity = 0, va_count = 0, va_values = []\<rparr>"

definition free_value_arr :: "b_value_arr \<Rightarrow> b_value_arr" where
  "free_value_arr a = init_value_arr"

definition grow_arr :: "b_value_arr \<Rightarrow> nat \<Rightarrow> b_value_arr" where
  "grow_arr a c = a\<lparr>va_capacity := c, va_values := cells_resize (va_values a) c\<rparr>"

definition write_value_arr :: "b_value_arr \<Rightarrow> b_value \<Rightarrow> b_value_arr res" where
  "write_value_arr a0 v =
     (let a = (if va_capacity a0 < va_count a0 + 1
               then grow_arr a0 (GROW_CAPACITY (va_capacity a0)) else a0)
      in bindR (cell_set (va_values a) (int (va_count a)) v)
           (\<lambda>cs. Inr (a\<lparr>va_values := cs, va_count := va_count a + 1\<rparr>)))"

definition insert_value_arr :: "b_value_arr \<Rightarrow> b_value \<Rightarrow> int \<Rightarrow> b_value_arr res" where
  "insert_value_arr a0 v index =
     (let a = (if int (va_capacity a0) \<le> index then grow_arr a0 (GROW_CAPACITY (nat index))
               else if va_capacity a0 < va_count a0 + 2
               then grow_arr a0 (GROW_CAPACITY (va_capacity a0)) else a0)
      in bindR (if index \<le> int (va_count a)
                then bindR (shift_up (va_values a) (int (va_count a) - 1) (nat (int (va_count a) - index)))
                       (\<lambda>cs. Inr (cs, va_count a))
                else bindR (fill_nil (va_values a) (int (va_count a)) (nat (index - int (va_count a))))
                       (\<lambda>cs. Inr (cs, va_count a + nat (index - int (va_count a)))))
           (\<lambda>(cs, n). bindR (cell_set cs index v)
             (\<lambda>cs'. Inr (a\<lparr>va_values := cs', va_count := n + 1\<rparr>))))"

section \<open>Byte arrays\<close>

text \<open>\<open>calloc\<close>: the bytes are zero. A negative length leaves a null block.\<close>

definition init_byte_arr :: "int \<Rightarrow> b_byte_arr" where
  "init_byte_arr n = \<lparr>ba_count = n, ba_bytes = replicate (nat n) (Some 0)\<rparr>"

definition free_byte_arr :: "b_byte_arr \<Rightarrow> b_byte_arr" where
  "free_byte_arr a = (if 0 < ba_count a then \<lparr>ba_count = 0, ba_bytes = []\<rparr> else a)"

section \<open>Blobs\<close>

definition init_blob :: b_blob where
  "init_blob = \<lparr>bl_count = 0, bl_capacity = 0, bl_code = [], bl_lines = [],
                bl_constants = init_value_arr\<rparr>"

definition write_blob :: "b_blob \<Rightarrow> byte \<Rightarrow> int \<Rightarrow> b_blob res" where
  "write_blob b0 byt line =
     (let b = (if bl_capacity b0 < bl_count b0 + 1
               then (let c = GROW_CAPACITY (bl_capacity b0)
                     in b0\<lparr>bl_capacity := c, bl_code := cells_resize (bl_code b0) c,
                           bl_lines := cells_resize (bl_lines b0) c\<rparr>)
               else b0)
      in bindR (cell_set (bl_code b) (int (bl_count b)) byt)
           (\<lambda>code. bindR (cell_set (bl_lines b) (int (bl_count b)) line)
             (\<lambda>lines. Inr (b\<lparr>bl_code := code, bl_lines := lines, bl_count := bl_count b + 1\<rparr>))))"

definition free_blob :: "b_blob \<Rightarrow> b_blob" where
  "free_blob b = init_blob"

text \<open>\<open>add_constant\<close> returns the index of the new constant.\<close>

definition add_constant :: "b_blob \<Rightarrow> b_value \<Rightarrow> (b_blob \<times> nat) res" where
  "add_constant b v =
     bindR (write_value_arr (bl_constants b) v)
       (\<lambda>cs. Inr (b\<lparr>bl_constants := cs\<rparr>, va_count cs - 1))"

section \<open>Invariant and abstraction\<close>

definition varr_inv :: "b_value_arr \<Rightarrow> bool" where
  "varr_inv a =
     (length (va_values a) = va_capacity a \<and> va_count a \<le> va_capacity a \<and>
      (\<forall>c \<in> set (take (va_count a) (va_values a)). c \<noteq> None))"

definition varr_list :: "b_value_arr \<Rightarrow> b_value list" where
  "varr_list a = map the (take (va_count a) (va_values a))"

text \<open>The array that holds exactly the sequence \<open>xs\<close> in a block of capacity \<open>c\<close>.\<close>

definition varr_of :: "nat \<Rightarrow> b_value list \<Rightarrow> b_value_arr" where
  "varr_of c xs = \<lparr>va_capacity = c, va_count = length xs,
                   va_values = map Some xs @ replicate (c - length xs) None\<rparr>"

definition cells_hold :: "'a cells \<Rightarrow> 'a list \<Rightarrow> bool" where
  "cells_hold cs xs = (length xs \<le> length cs \<and> take (length xs) cs = map Some xs)"

lemma varr_inv_hold:
  "varr_inv a \<longleftrightarrow> length (va_values a) = va_capacity a \<and>
                   va_count a = length (varr_list a) \<and> cells_hold (va_values a) (varr_list a)"
proof
  assume inv: "varr_inv a"
  then have len: "length (varr_list a) = va_count a" by (auto simp: varr_inv_def varr_list_def)
  have "map Some (varr_list a) = take (va_count a) (va_values a)"
    unfolding varr_list_def map_map
    by (rule map_idI) (use inv in \<open>auto simp: varr_inv_def\<close>)
  then show "length (va_values a) = va_capacity a \<and>
             va_count a = length (varr_list a) \<and> cells_hold (va_values a) (varr_list a)"
    using inv len by (simp add: cells_hold_def varr_inv_def)
next
  assume "length (va_values a) = va_capacity a \<and>
          va_count a = length (varr_list a) \<and> cells_hold (va_values a) (varr_list a)"
  then have "take (va_count a) (va_values a) = map Some (varr_list a)"
    and "length (va_values a) = va_capacity a" and "va_count a \<le> va_capacity a"
    by (auto simp: cells_hold_def)
  then show "varr_inv a" by (auto simp: varr_inv_def)
qed

lemma varr_invI:
  assumes "length (va_values a) = va_capacity a" and "va_count a = length xs"
    and "cells_hold (va_values a) xs"
  shows "varr_inv a" and "varr_list a = xs"
proof -
  have t: "take (va_count a) (va_values a) = map Some xs"
    using assms by (simp add: cells_hold_def)
  show "varr_list a = xs" by (simp add: varr_list_def t comp_def)
  show "varr_inv a" using assms unfolding varr_inv_def t by (auto simp: cells_hold_def)
qed

lemma cells_hold_nth: "cells_hold cs xs \<Longrightarrow> i < length xs \<Longrightarrow> cs ! i = Some (xs ! i)"
  unfolding cells_hold_def by (metis nth_map nth_take)

lemma cells_hold_iff:
  "cells_hold cs xs \<longleftrightarrow> length xs \<le> length cs \<and> (\<forall>i < length xs. cs ! i = Some (xs ! i))"
  by (auto simp: cells_hold_nth) (auto simp: cells_hold_def list_eq_iff_nth_eq)

lemma varr_get:
  assumes "varr_inv a" and "i < va_count a"
  shows "cell_get (va_values a) (int i) = Inr (varr_list a ! i)"
  using assms by (auto simp: varr_inv_hold cells_hold_iff)

lemma varr_list_length [simp]: "varr_inv a \<Longrightarrow> length (varr_list a) = va_count a"
  by (simp add: varr_inv_hold)

lemma varr_invD:
  assumes "varr_inv a"
  shows "length (va_values a) = va_capacity a" and "length (varr_list a) = va_count a"
    and "va_count a \<le> va_capacity a" and "cells_hold (va_values a) (varr_list a)"
  using assms by (simp add: varr_inv_def, simp, simp add: varr_inv_def)
    (rule varr_inv_hold [THEN iffD1, OF assms, THEN conjunct2, THEN conjunct2])

lemma init_value_arr_ok [simp]: "varr_inv init_value_arr" "varr_list init_value_arr = []"
  by (simp_all add: varr_inv_def varr_list_def init_value_arr_def)

lemma varr_of_ok:
  assumes "length xs \<le> c"
  shows "varr_inv (varr_of c xs)" and "varr_list (varr_of c xs) = xs"
  using assms by (auto simp: varr_of_def varr_inv_def varr_list_def comp_def)

section \<open>Appending\<close>

lemma cells_hold_resize: "cells_hold cs xs \<Longrightarrow> length xs \<le> c \<Longrightarrow> cells_hold (cells_resize cs c) xs"
  by (auto simp: cells_hold_def take_cells_resize)

lemma cells_hold_snoc:
  "cells_hold cs xs \<Longrightarrow> length xs < length cs \<Longrightarrow> cells_hold (cs[length xs := Some x]) (xs @ [x])"
  by (auto simp: cells_hold_iff nth_append nth_list_update)

lemma write_value_arr_correct:
  assumes "varr_inv a"
  shows "\<exists>a'. write_value_arr a v = Inr a' \<and> varr_inv a' \<and> varr_list a' = varr_list a @ [v] \<and>
           va_count a' = va_count a + 1"
proof -
  define b where "b = (if va_capacity a < va_count a + 1
                       then grow_arr a (GROW_CAPACITY (va_capacity a)) else a)"
  note h = varr_invD [OF assms]
  have b: "length (va_values b) = va_capacity b" "va_count b = length (varr_list a)"
    "cells_hold (va_values b) (varr_list a)" "length (varr_list a) < length (va_values b)"
    using h GROW_CAPACITY_gt [of "va_capacity a"]
    by (simp_all add: b_def grow_arr_def cells_hold_resize)
  let ?a' = "b\<lparr>va_values := (va_values b)[length (varr_list a) := Some v], va_count := va_count b + 1\<rparr>"
  have "write_value_arr a v = Inr ?a'"
    unfolding write_value_arr_def unfolding b_def [symmetric] using b by (simp add: Let_def)
  moreover have "varr_inv ?a'" "varr_list ?a' = varr_list a @ [v]"
    using varr_invI [of ?a' "varr_list a @ [v]"] b cells_hold_snoc [OF b(3,4)] by simp_all
  ultimately show ?thesis using b(2) h by auto
qed

section \<open>The moves\<close>

lemma shift_up_correct:
  assumes "n \<le> length xs" and "cells_hold cs xs" and "length xs < length cs"
  shows "\<exists>cs'. shift_up cs (int (length xs) - 1) n = Inr cs' \<and> length cs' = length cs \<and>
           (\<forall>i < length cs. cs' ! i = (if length xs - n < i \<and> i \<le> length xs then cs ! (i - 1) else cs ! i))"
proof -
  have "\<exists>cs'. shift_up cs (int m - 1) n = Inr cs' \<and> length cs' = length cs \<and>
           (\<forall>i < length cs. cs' ! i = (if m - n < i \<and> i \<le> m then cs ! (i - 1) else cs ! i))"
    if "n \<le> m" "m < length cs" for m
    using that
  proof (induction n arbitrary: m cs)
    case 0
    then show ?case by auto
  next
    case (Suc n)
    then obtain p where p: "m = Suc p" by (cases m) auto
    have c: "cell_copy cs (int m - 1 + 1) (int m - 1) = Inr (cs[m := cs ! p])"
      using Suc.prems cell_copy_nat [of cs m p] by (simp add: p add.commute)
    from Suc.IH [of p "cs[m := cs ! p]"] Suc.prems p obtain cs' where
      cs': "shift_up (cs[m := cs ! p]) (int p - 1) n = Inr cs'" "length cs' = length cs"
      "\<forall>i < length cs. cs' ! i = (if p - n < i \<and> i \<le> p then cs[m := cs ! p] ! (i - 1)
                                 else cs[m := cs ! p] ! i)" by auto
    have "cs' ! i = (if m - Suc n < i \<and> i \<le> m then cs ! (i - 1) else cs ! i)" if "i < length cs" for i
      using cs'(3) [rule_format, OF that] that p Suc.prems by (auto simp: nth_list_update)
    then show ?case using c cs' p by (intro exI [of _ cs']) simp
  qed
  from this [of "length xs"] assms show ?thesis by blast
qed

text \<open>Moving down reads the cell just behind the last element: it must exist.\<close>

lemma shift_down_correct:
  assumes "i + n < length cs"
  shows "\<exists>cs'. shift_down cs (int i) n = Inr cs' \<and> length cs' = length cs \<and>
           (\<forall>j < length cs. cs' ! j = (if i \<le> j \<and> j < i + n then cs ! (j + 1) else cs ! j))"
  using assms
proof (induction n arbitrary: i cs)
  case 0
  then show ?case by auto
next
  case (Suc n)
  have c: "cell_copy cs (int i) (int i + 1) = Inr (cs[i := cs ! Suc i])"
    using Suc.prems cell_copy_nat [of cs i "Suc i"] by (simp add: add.commute)
  from Suc.IH [of "Suc i" "cs[i := cs ! Suc i]"] Suc.prems obtain cs' where
    cs': "shift_down (cs[i := cs ! Suc i]) (int (Suc i)) n = Inr cs'" "length cs' = length cs"
    "\<forall>j < length cs. cs' ! j = (if Suc i \<le> j \<and> j < Suc i + n then cs[i := cs ! Suc i] ! (j + 1)
                               else cs[i := cs ! Suc i] ! j)" by auto
  have "cs' ! j = (if i \<le> j \<and> j < i + Suc n then cs ! (j + 1) else cs ! j)" if "j < length cs" for j
    using cs'(3) [rule_format, OF that] that Suc.prems by (auto simp: nth_list_update)
  then show ?case using c cs' by (intro exI [of _ cs']) (simp add: add.commute)
qed

lemma shift_down_overrun:
  assumes "i \<le> length cs" and "length cs < i + n + 1" and "0 < n"
  shows "shift_down cs (int i) n = Inl OutOfBounds"
  using assms
proof (induction n arbitrary: i cs)
  case 0
  then show ?case by simp
next
  case (Suc n)
  show ?case
  proof (cases "Suc i < length cs")
    case True
    then have c: "cell_copy cs (int i) (int i + 1) = Inr (cs[i := cs ! Suc i])"
      using cell_copy_nat [of cs i "Suc i"] by (simp add: add.commute)
    have "shift_down (cs[i := cs ! Suc i]) (int (Suc i)) n = Inl OutOfBounds"
      using True Suc.prems by (intro Suc.IH) auto
    then show ?thesis using c by (simp add: add.commute)
  next
    case False
    then have "cell_copy cs (int i) (int i + 1) = Inl OutOfBounds"
      using cell_copy_nat [of cs i "Suc i"] by (simp add: add.commute)
    then show ?thesis by simp
  qed
qed

lemma fill_nil_correct:
  assumes "i + n \<le> length cs"
  shows "\<exists>cs'. fill_nil cs (int i) n = Inr cs' \<and> length cs' = length cs \<and>
           (\<forall>j < length cs. cs' ! j = (if i \<le> j \<and> j < i + n then Some NIL_VAL else cs ! j))"
  using assms
proof (induction n arbitrary: i cs)
  case 0
  then show ?case by auto
next
  case (Suc n)
  have c: "cell_set cs (int i) NIL_VAL = Inr (cs[i := Some NIL_VAL])"
    using Suc.prems by simp
  from Suc.IH [of "Suc i" "cs[i := Some NIL_VAL]"] Suc.prems obtain cs' where
    cs': "fill_nil (cs[i := Some NIL_VAL]) (int (Suc i)) n = Inr cs'" "length cs' = length cs"
    "\<forall>j < length cs. cs' ! j = (if Suc i \<le> j \<and> j < Suc i + n then Some NIL_VAL
                               else cs[i := Some NIL_VAL] ! j)" by auto
  have "cs' ! j = (if i \<le> j \<and> j < i + Suc n then Some NIL_VAL else cs ! j)" if "j < length cs" for j
    using cs'(3) [rule_format, OF that] that Suc.prems by (auto simp: nth_list_update)
  then show ?case using c cs' by (intro exI [of _ cs']) (simp add: add.commute)
qed

section \<open>Inserting\<close>

text \<open>The sequence after an insertion: elements move up, a gap is filled with nil.\<close>

definition list_insert_at :: "'a \<Rightarrow> nat \<Rightarrow> 'a \<Rightarrow> 'a list \<Rightarrow> 'a list" where
  "list_insert_at gap i x xs =
     (if i \<le> length xs then take i xs @ x # drop i xs
      else xs @ replicate (i - length xs) gap @ [x])"

lemma length_list_insert_at: "length (list_insert_at g i x xs) = max i (length xs) + 1"
  by (simp add: list_insert_at_def)

lemma nth_list_insert_at:
  "j < max i (length xs) + 1 \<Longrightarrow>
   list_insert_at g i x xs ! j =
     (if j = i then x else if j < i then (if j < length xs then xs ! j else g) else xs ! (j - 1))"
  by (auto simp: list_insert_at_def nth_append nth_Cons')

lemma insert_value_arr_correct:
  assumes inv: "varr_inv a"
  shows "\<exists>a'. insert_value_arr a v (int i) = Inr a' \<and> varr_inv a' \<and>
           varr_list a' = list_insert_at NIL_VAL i v (varr_list a)"
proof -
  let ?xs = "varr_list a"
  define b where "b = (if int (va_capacity a) \<le> int i then grow_arr a (GROW_CAPACITY (nat (int i)))
               else if va_capacity a < va_count a + 2
               then grow_arr a (GROW_CAPACITY (va_capacity a)) else a)"
  note h = varr_invD [OF inv]
  have b: "length (va_values b) = va_capacity b" "va_count b = length ?xs"
    "cells_hold (va_values b) ?xs" "length ?xs < length (va_values b)" "i < length (va_values b)"
    using h GROW_CAPACITY_gt [of i] GROW_CAPACITY_gt [of "va_capacity a"]
    by (auto simp: b_def grow_arr_def intro!: cells_hold_resize)
  define m where "m = max i (length ?xs)"
  obtain cs where cs: "(if int i \<le> int (va_count b)
                then bindR (shift_up (va_values b) (int (va_count b) - 1) (nat (int (va_count b) - int i)))
                       (\<lambda>cs. Inr (cs, va_count b))
                else bindR (fill_nil (va_values b) (int (va_count b)) (nat (int i - int (va_count b))))
                       (\<lambda>cs. Inr (cs, va_count b + nat (int i - int (va_count b))))) = Inr (cs, m)"
    "length cs = length (va_values b)"
    "\<forall>j \<le> m. j \<noteq> i \<longrightarrow> cs ! j = Some (list_insert_at NIL_VAL i v ?xs ! j)"
  proof (cases "i \<le> length ?xs")
    case True
    then have n: "nat (int (va_count b) - int i) = length ?xs - i" by (simp add: b(2) nat_diff_distrib')
    from shift_up_correct [of "length ?xs - i" ?xs, OF _ b(3,4)] obtain cs where
      c: "shift_up (va_values b) (int (length ?xs) - 1) (length ?xs - i) = Inr cs"
      "length cs = length (va_values b)"
      "\<forall>j < length (va_values b). cs ! j = (if length ?xs - (length ?xs - i) < j \<and> j \<le> length ?xs
          then va_values b ! (j - 1) else va_values b ! j)"
      by auto
    have "cs ! j = Some (list_insert_at NIL_VAL i v ?xs ! j)" if "j \<le> m" "j \<noteq> i" for j
    proof -
      from that True b(4) have "j < length (va_values b)" by (simp add: m_def)
      with c(3) show ?thesis
        using that True cells_hold_nth [OF b(3)] by (auto simp: nth_list_insert_at m_def)
    qed
    then show thesis using c True n b(2) by (intro that [of cs]) (auto simp: m_def)
  next
    case False
    then have n: "nat (int i - int (va_count b)) = i - length ?xs" by (simp add: b(2) nat_diff_distrib')
    from fill_nil_correct [of "length ?xs" "i - length ?xs" "va_values b"] False b(5) obtain cs where
      c: "fill_nil (va_values b) (int (length ?xs)) (i - length ?xs) = Inr cs"
      "length cs = length (va_values b)"
      "\<forall>j < length (va_values b). cs ! j = (if length ?xs \<le> j \<and> j < i then Some NIL_VAL else va_values b ! j)"
      by auto
    have "cs ! j = Some (list_insert_at NIL_VAL i v ?xs ! j)" if "j \<le> m" "j \<noteq> i" for j
    proof -
      from that False b(5) have "j < length (va_values b)" by (simp add: m_def)
      with c(3) show ?thesis
        using that False cells_hold_nth [OF b(3)] by (auto simp: nth_list_insert_at m_def)
    qed
    then show thesis using c False n b(2) by (intro that [of cs]) (auto simp: m_def)
  qed
  let ?a' = "b\<lparr>va_values := cs[i := Some v], va_count := m + 1\<rparr>"
  have "insert_value_arr a v (int i) = Inr ?a'"
    using cs(2) b(5) unfolding insert_value_arr_def Let_def b_def [symmetric] cs(1) by simp
  moreover have "cells_hold (cs[i := Some v]) (list_insert_at NIL_VAL i v ?xs)"
    using cs(2,3) b(4,5)
    by (auto simp: cells_hold_iff length_list_insert_at nth_list_insert_at nth_list_update m_def)
  then have "varr_inv ?a'" "varr_list ?a' = list_insert_at NIL_VAL i v ?xs"
    by - (rule varr_invI; use cs(2) b(1) in \<open>simp add: length_list_insert_at m_def\<close>)+
  ultimately show ?thesis by blast
qed

text \<open>A negative index writes in front of the block.\<close>

lemma insert_value_arr_negative:
  assumes "index < 0"
  shows "\<not> is_ok (insert_value_arr a v index)"
proof
  assume ok: "is_ok (insert_value_arr a v index)"
  have bad: "cell_set cs index v = Inl OutOfBounds" for cs :: "b_value cells"
    using assms by (simp add: cell_set_def)
  from ok show False
    unfolding insert_value_arr_def Let_def is_ok_def bindR_def bad
    by (auto split: sum.splits)
qed

section \<open>Blobs\<close>

definition blob_inv :: "b_blob \<Rightarrow> bool" where
  "blob_inv b =
     (length (bl_code b) = bl_capacity b \<and> length (bl_lines b) = bl_capacity b \<and>
      bl_count b \<le> bl_capacity b \<and> (\<forall>i < bl_count b. bl_code b ! i \<noteq> None \<and> bl_lines b ! i \<noteq> None) \<and>
      varr_inv (bl_constants b))"

definition blob_code :: "b_blob \<Rightarrow> byte list" where
  "blob_code b = map the (take (bl_count b) (bl_code b))"

definition blob_lines :: "b_blob \<Rightarrow> int list" where
  "blob_lines b = map the (take (bl_count b) (bl_lines b))"

lemma blob_inv_init [simp]: "blob_inv init_blob"
  by (simp add: blob_inv_def init_blob_def)

lemma write_blob_correct:
  assumes inv: "blob_inv b"
  shows "\<exists>b'. write_blob b byt line = Inr b' \<and> blob_inv b' \<and> blob_code b' = blob_code b @ [byt] \<and>
           blob_lines b' = blob_lines b @ [line] \<and> bl_constants b' = bl_constants b \<and>
           bl_count b' = bl_count b + 1"
proof -
  define d where "d = (if bl_capacity b < bl_count b + 1
               then (let c = GROW_CAPACITY (bl_capacity b)
                     in b\<lparr>bl_capacity := c, bl_code := cells_resize (bl_code b) c,
                           bl_lines := cells_resize (bl_lines b) c\<rparr>)
               else b)"
  let ?n = "bl_count b"
  note gt = GROW_CAPACITY_gt [of "bl_capacity b"]
  have d: "bl_count d = ?n" "bl_constants d = bl_constants b" "?n < bl_capacity d"
    "length (bl_code d) = bl_capacity d" "length (bl_lines d) = bl_capacity d"
    "take ?n (bl_code d) = take ?n (bl_code b)" "take ?n (bl_lines d) = take ?n (bl_lines b)"
    using inv gt by (auto simp: d_def blob_inv_def Let_def take_cells_resize)
  have nth: "bl_code d ! i = bl_code b ! i" "bl_lines d ! i = bl_lines b ! i" if "i < ?n" for i
    using that d(6,7) by (metis nth_take)+
  let ?b' = "d\<lparr>bl_code := (bl_code d)[?n := Some byt], bl_lines := (bl_lines d)[?n := Some line],
               bl_count := ?n + 1\<rparr>"
  have "write_blob b byt line = Inr ?b'"
    unfolding write_blob_def unfolding d_def [symmetric] using d by (simp add: Let_def)
  moreover have "blob_inv ?b'"
    using inv d nth unfolding blob_inv_def by (auto simp: nth_list_update less_Suc_eq)
  moreover have "blob_code ?b' = blob_code b @ [byt]" "blob_lines ?b' = blob_lines b @ [line]"
    using d by (simp_all add: blob_code_def blob_lines_def take_list_update_snoc)
  ultimately show ?thesis using d by auto
qed

lemma add_constant_correct:
  assumes "blob_inv b"
  shows "\<exists>b'. add_constant b v = Inr (b', va_count (bl_constants b)) \<and> blob_inv b' \<and>
           varr_list (bl_constants b') = varr_list (bl_constants b) @ [v] \<and>
           bl_code b' = bl_code b \<and> bl_count b' = bl_count b"
proof -
  from assms have "varr_inv (bl_constants b)" by (simp add: blob_inv_def)
  from write_value_arr_correct [OF this, of v] assms show ?thesis
    by (auto simp: add_constant_def blob_inv_def)
qed

end
