(* ===== verification/Heap_State.thy ===== *)
theory Heap_State
  imports Table_Correct Value_Arr
begin

text \<open>
  The heap as the native methods see it: allocation of objects (\<open>new_list\<close>, \<open>new_dict\<close>,
  \<open>new_bytes\<close>), access to an object through a pointer, the argument checks of \<open>native.h\<close>, and
  the dictionary primitives of \<open>vm.c\<close>.

  A native method takes the state, the address of its receiver (\<open>METHOD_OBJECT\<close>) and its
  arguments, and returns the new state with the value it leaves in \<open>args[-1]\<close>; an exception is
  \<open>Inl (Thrown msg)\<close>. Addresses come from a counter that never reuses one; an allocation inside
  a method does not run the collector (the collector is modelled in \<open>Memory\<close>). \<open>hs_strings\<close> is the
  table of interned strings (\<open>vm->strings\<close>).
\<close>

section \<open>State\<close>

record hstate =
  hs_heap :: heap
  hs_next :: addr
  hs_strings :: b_table

definition alloc_obj :: "hstate \<Rightarrow> b_obj \<Rightarrow> hstate \<times> addr" where
  "alloc_obj hs ob =
     (hs\<lparr>hs_heap := (hs_heap hs)(hs_next hs \<mapsto> ob), hs_next := hs_next hs + 32\<rparr>, hs_next hs)"

definition put_obj :: "hstate \<Rightarrow> addr \<Rightarrow> b_obj \<Rightarrow> hstate" where
  "put_obj hs a ob = hs\<lparr>hs_heap := (hs_heap hs)(a \<mapsto> ob)\<rparr>"

definition list_at :: "hstate \<Rightarrow> addr \<Rightarrow> b_value_arr res" where
  "list_at hs a = (case hs_heap hs a of Some (OList l) \<Rightarrow> Inr l | _ \<Rightarrow> Inl NullPointer)"

definition dict_at :: "hstate \<Rightarrow> addr \<Rightarrow> b_obj_dict res" where
  "dict_at hs a = (case hs_heap hs a of Some (ODict d) \<Rightarrow> Inr d | _ \<Rightarrow> Inl NullPointer)"

definition bytes_at :: "hstate \<Rightarrow> addr \<Rightarrow> b_byte_arr res" where
  "bytes_at hs a = (case hs_heap hs a of Some (OBytes b) \<Rightarrow> Inr b | _ \<Rightarrow> Inl NullPointer)"

definition range_at :: "hstate \<Rightarrow> addr \<Rightarrow> b_obj_range res" where
  "range_at hs a = (case hs_heap hs a of Some (ORange r) \<Rightarrow> Inr r | _ \<Rightarrow> Inl NullPointer)"

text \<open>The fresh addresses of a state: the counter has not been handed out and is a valid pointer.\<close>

definition fresh_ok :: "hstate \<Rightarrow> bool" where
  "fresh_ok hs = (hs_heap hs (hs_next hs) = None \<and> addr_ok (hs_next hs))"

section \<open>Constructors\<close>

definition new_list :: "hstate \<Rightarrow> hstate \<times> addr" where
  "new_list hs = alloc_obj hs (OList init_value_arr)"

definition new_range :: "hstate \<Rightarrow> int \<Rightarrow> int \<Rightarrow> hstate \<times> addr" where
  "new_range hs lower upper =
     alloc_obj hs (ORange \<lparr>r_lower = lower, r_upper = upper,
                           r_range = (if lower < upper then upper - lower else lower - upper)\<rparr>)"

definition new_bytes :: "hstate \<Rightarrow> int \<Rightarrow> hstate \<times> addr" where
  "new_bytes hs n = alloc_obj hs (OBytes (init_byte_arr n))"

definition new_dict :: "hstate \<Rightarrow> hstate \<times> addr" where
  "new_dict hs = alloc_obj hs (ODict \<lparr>d_names = init_value_arr, d_items = init_table\<rparr>)"

definition new_switch :: "hstate \<Rightarrow> hstate \<times> addr" where
  "new_switch hs =
     alloc_obj hs (OSwitch \<lparr>sw_default_jump = -1, sw_exit_jump = -1, sw_table = init_table\<rparr>)"

definition new_module :: "hstate \<Rightarrow> string \<Rightarrow> string \<Rightarrow> hstate \<times> addr" where
  "new_module hs name file =
     alloc_obj hs (OModule \<lparr>m_imported = False, m_values = init_table, m_name = name, m_file = file,
                            m_preloader = False, m_unloader = False, m_handle = False\<rparr>)"

definition new_class :: "hstate \<Rightarrow> addr \<Rightarrow> hstate \<times> addr" where
  "new_class hs name =
     alloc_obj hs (OClass \<lparr>k_initializer = EMPTY_VAL, k_properties = init_table,
                           k_static_properties = init_table, k_methods = init_table,
                           k_name = name, k_superclass = None\<rparr>)"

definition new_function :: "hstate \<Rightarrow> addr option \<Rightarrow> b_func_type \<Rightarrow> hstate \<times> addr" where
  "new_function hs module type =
     alloc_obj hs (OFunction \<lparr>f_type = type, f_arity = 0, f_up_value_count = 0,
                              f_is_variadic = False, f_blob = init_blob, f_name = None,
                              f_module = module\<rparr>)"

definition new_bound_method :: "hstate \<Rightarrow> b_value \<Rightarrow> addr \<Rightarrow> hstate \<times> addr" where
  "new_bound_method hs receiver method =
     alloc_obj hs (OBound \<lparr>b_receiver = receiver, b_method = method\<rparr>)"

text \<open>A native function is named by its C function.\<close>

definition new_native :: "hstate \<Rightarrow> string \<Rightarrow> string \<Rightarrow> hstate \<times> addr" where
  "new_native hs function name =
     alloc_obj hs (ONative \<lparr>n_type = TYPE_FUNCTION, n_name = name, n_function = function\<rparr>)"

text \<open>\<open>new_closure\<close> copies the number of up-values of the function and starts with none captured.\<close>

definition new_closure :: "hstate \<Rightarrow> addr \<Rightarrow> (hstate \<times> addr) res" where
  "new_closure hs fn =
     (case hs_heap hs fn of
        Some (OFunction f) \<Rightarrow>
          Inr (alloc_obj hs (OClosure \<lparr>c_up_value_count = f_up_value_count f, c_function = fn,
                                       c_up_values = replicate (f_up_value_count f) None\<rparr>))
      | _ \<Rightarrow> Inl NullPointer)"

definition new_up_value :: "hstate \<Rightarrow> nat \<Rightarrow> hstate \<times> addr" where
  "new_up_value hs slot =
     alloc_obj hs (OUpValue \<lparr>uv_closed = NIL_VAL, uv_location = Some slot, uv_next = None\<rparr>)"

section \<open>Loops over value arrays\<close>

text \<open>Reading \<open>values[0]\<close> to \<open>values[count - 1]\<close> in order.\<close>

definition arr_read :: "b_value_arr \<Rightarrow> b_value list res" where
  "arr_read a = mapR (\<lambda>i. cell_get (va_values a) (int i)) [0..<va_count a]"

text \<open>Appending values one after the other.\<close>

fun write_all :: "b_value_arr \<Rightarrow> b_value list \<Rightarrow> b_value_arr res" where
  "write_all a [] = Inr a"
| "write_all a (v # vs) = bindR (write_value_arr a v) (\<lambda>a'. write_all a' vs)"

text \<open>A new list object filled by a \<open>write_list\<close> loop.\<close>

definition new_list_of :: "hstate \<Rightarrow> b_value list \<Rightarrow> (hstate \<times> addr) res" where
  "new_list_of hs vs = bindR (write_all init_value_arr vs) (\<lambda>a. Inr (alloc_obj hs (OList a)))"

section \<open>Argument checks\<close>

definition ENFORCE_ARG_COUNT :: "string \<Rightarrow> nat \<Rightarrow> b_value list \<Rightarrow> 'a res \<Rightarrow> 'a res" where
  "ENFORCE_ARG_COUNT name d args k =
     (if length args \<noteq> d then Inl (Thrown (name @ ''() expects %d arguments, %d given'')) else k)"

definition ENFORCE_ARG_RANGE :: "string \<Rightarrow> nat \<Rightarrow> nat \<Rightarrow> b_value list \<Rightarrow> 'a res \<Rightarrow> 'a res" where
  "ENFORCE_ARG_RANGE name low up args k =
     (if length args < low \<or> up < length args
      then Inl (Thrown (name @ ''() expects between %d and %d arguments, %d given'')) else k)"

definition ENFORCE_ARG_TYPE ::
    "string \<Rightarrow> nat \<Rightarrow> string \<Rightarrow> (b_value \<Rightarrow> bool) \<Rightarrow> b_value list \<Rightarrow> 'a res \<Rightarrow> 'a res" where
  "ENFORCE_ARG_TYPE name i tname type args k =
     (if \<not> type (args ! i)
      then Inl (Thrown (name @ ''() expects argument %d as '' @ tname @ '', %s given'')) else k)"

definition EXCLUDE_ARG_TYPE ::
    "string \<Rightarrow> (b_value \<Rightarrow> bool) \<Rightarrow> nat \<Rightarrow> b_value list \<Rightarrow> 'a res \<Rightarrow> 'a res" where
  "EXCLUDE_ARG_TYPE name type i args k =
     (if type (args ! i) then Inl (Thrown ''invalid type %s() as argument %d in %s()'') else k)"

section \<open>Dictionary primitives\<close>

definition dict_add_entry :: "heap \<Rightarrow> b_obj_dict \<Rightarrow> b_value \<Rightarrow> b_value \<Rightarrow> b_obj_dict res" where
  "dict_add_entry hp d key v =
     bindR (write_value_arr (d_names d) key)
       (\<lambda>names. bindR (table_set hp (d_items d) key v)
         (\<lambda>(items, _). Inr \<lparr>d_names = names, d_items = items\<rparr>))"

definition dict_get_entry :: "heap \<Rightarrow> b_obj_dict \<Rightarrow> b_value \<Rightarrow> b_value option res" where
  "dict_get_entry hp d key = table_get hp (d_items d) key"

text \<open>The key is appended to the names when no name equals it; the result says if it was new.\<close>

definition dict_set_entry :: "heap \<Rightarrow> b_obj_dict \<Rightarrow> b_value \<Rightarrow> b_value \<Rightarrow> (b_obj_dict \<times> bool) res" where
  "dict_set_entry hp d key v =
     bindR (arr_read (d_names d))
       (\<lambda>ns. bindR (if \<exists>n \<in> set ns. values_equal n key then Inr (d_names d)
                    else write_value_arr (d_names d) key)
         (\<lambda>names. bindR (table_set hp (d_items d) key v)
           (\<lambda>(items, is_new). Inr (\<lparr>d_names = names, d_items = items\<rparr>, is_new))))"

section \<open>Lemmas\<close>

lemma arr_read_correct [simp]:
  assumes "varr_inv a"
  shows "arr_read a = Inr (varr_list a)"
proof -
  have "arr_read a = Inr (map (\<lambda>i. varr_list a ! i) [0..<va_count a])"
    unfolding arr_read_def by (rule mapR_Inr) (simp add: varr_get assms del: cell_get_nat)
  also have "map (\<lambda>i. varr_list a ! i) [0..<va_count a] = varr_list a"
    using map_nth [of "varr_list a"] assms by simp
  finally show ?thesis .
qed

lemma write_all_correct:
  assumes "varr_inv a"
  shows "\<exists>a'. write_all a vs = Inr a' \<and> varr_inv a' \<and> varr_list a' = varr_list a @ vs"
  using assms
proof (induction vs arbitrary: a)
  case Nil
  then show ?case by simp
next
  case (Cons v vs)
  from write_value_arr_correct [OF Cons.prems, of v] obtain b where
    b: "write_value_arr a v = Inr b" "varr_inv b" "varr_list b = varr_list a @ [v]" by blast
  from Cons.IH [OF b(2)] b show ?case by auto
qed

lemma new_list_of_correct:
  "\<exists>l. new_list_of hs vs = Inr (alloc_obj hs (OList l)) \<and> varr_inv l \<and> varr_list l = vs"
  using write_all_correct [OF init_value_arr_ok(1), of vs] by (auto simp: new_list_of_def)

lemma alloc_obj_simps [simp]:
  "hs_heap (fst (alloc_obj hs ob)) = (hs_heap hs)(hs_next hs \<mapsto> ob)"
  "snd (alloc_obj hs ob) = hs_next hs"
  "hs_next (fst (alloc_obj hs ob)) = hs_next hs + 32"
  by (simp_all add: alloc_obj_def)

lemma put_obj_simps [simp]:
  "hs_heap (put_obj hs a ob) = (hs_heap hs)(a \<mapsto> ob)" "hs_next (put_obj hs a ob) = hs_next hs"
  by (simp_all add: put_obj_def)

lemma put_put [simp]: "put_obj (put_obj hs a x) a y = put_obj hs a y"
  by (simp add: put_obj_def)

lemmas obj_at_defs = list_at_def dict_at_def bytes_at_def range_at_def

lemma at_iffs:
  "list_at hs a = Inr l \<longleftrightarrow> hs_heap hs a = Some (OList l)"
  "dict_at hs a = Inr d \<longleftrightarrow> hs_heap hs a = Some (ODict d)"
  "bytes_at hs a = Inr b \<longleftrightarrow> hs_heap hs a = Some (OBytes b)"
  "range_at hs a = Inr r \<longleftrightarrow> hs_heap hs a = Some (ORange r)"
  by (auto simp: obj_at_defs split: option.splits b_obj.splits)

lemma at_put [simp]:
  "list_at (put_obj hs a (OList l)) a = Inr l"
  "dict_at (put_obj hs a (ODict d)) a = Inr d"
  "bytes_at (put_obj hs a (OBytes b)) a = Inr b"
  "range_at (put_obj hs a (ORange r)) a = Inr r"
  "c \<noteq> a \<Longrightarrow> list_at (put_obj hs a ob) c = list_at hs c"
  by (simp_all add: obj_at_defs)

lemmas enforce_defs =
  ENFORCE_ARG_COUNT_def ENFORCE_ARG_RANGE_def ENFORCE_ARG_TYPE_def EXCLUDE_ARG_TYPE_def

end
