(* ===== verification/VM_State.thy ===== *)
theory VM_State
  imports Heap_State
begin

text \<open>
  The state of the virtual machine: \<open>struct s_vm\<close> of \<open>vm.h\<close> with the heap it owns. The array
  \<open>stack\<close> up to \<open>stack_top\<close> is a list (the top last). The arrays \<open>frames\<close> and \<open>handlers\<close> are whole
  lists beside their counters, because the code leaves old contents behind a lowered counter and
  uses them again. The linked list of all objects is the list of their addresses, and the mark bits
  are kept beside the heap. The chain of compilers under construction contributes the functions it
  builds. What the program prints on standard
  output is collected in \<open>vm_out\<close>. Sizes of allocations, the command line and the debugging flags
  are left out.
\<close>

record b_exception_frame =
  ef_address :: uint16
  ef_finally_address :: uint16
  ef_klass :: "addr option"

record b_call_frame =
  cf_closure :: addr
  cf_ip :: nat
  cf_slots :: nat
  cf_handlers_count :: int
  cf_handlers :: "b_exception_frame list"

record b_vm =
  vm_frames :: "b_call_frame list"
  vm_frame_count :: nat
  vm_stack :: "b_value list"
  vm_open_up_values :: "addr option"
  vm_objects :: "addr list"
  vm_compiler_functions :: "addr option list"
  vm_exception_class :: "addr option"
  vm_gray :: "addr list"
  vm_gc_protected :: nat
  vm_modules :: b_table
  vm_strings :: b_table
  vm_globals :: b_table
  vm_methods_string :: b_table
  vm_methods_list :: b_table
  vm_methods_dict :: b_table
  vm_methods_file :: b_table
  vm_methods_bytes :: b_table
  vm_methods_range :: b_table
  vm_mark_value :: bool
  vm_is_repl :: bool
  vm_out :: "byte list"
  vm_heap :: heap
  vm_next :: addr
  vm_mark :: "addr \<Rightarrow> bool"

end
