(* ===== verification/List_Methods.thy ===== *)
theory List_Methods
  imports Heap_State
begin

text \<open>
  \<open>list.c\<close>: the native methods of Blade lists, one definition per \<open>DECLARE_LIST_METHOD\<close>
  (\<open>sort\<close> is in \<open>Sort\<close>). \<open>self\<close> is the receiver, \<open>args\<close> the arguments. The methods that remove
  elements move the tail down with a loop that also reads the cell behind the last element, so
  they run out of the block when the array is full.
\<close>

definition number_val :: "int \<Rightarrow> b_value" where
  "number_val n = number_to_value (double_of_int n)"

definition as_int :: "b_value \<Rightarrow> int res" where
  "as_int v = int_of_double (value_to_number v)"

definition write_list :: "hstate \<Rightarrow> addr \<Rightarrow> b_value \<Rightarrow> hstate res" where
  "write_list hs a v =
     bindR (list_at hs a) (\<lambda>l. bindR (write_value_arr l v) (\<lambda>l'. Inr (put_obj hs a (OList l'))))"

text \<open>\<open>copy_list\<close> ignores its \<open>start\<close> and \<open>length\<close> parameters and copies every item.\<close>

definition copy_list :: "hstate \<Rightarrow> addr \<Rightarrow> int \<Rightarrow> int \<Rightarrow> (hstate \<times> addr) res" where
  "copy_list hs a start len = bindR (list_at hs a) (\<lambda>l. bindR (arr_read l) (new_list_of hs))"

definition list_length :: "hstate \<Rightarrow> addr \<Rightarrow> b_value list \<Rightarrow> (hstate \<times> b_value) res" where
  "list_length hs self args =
     ENFORCE_ARG_COUNT ''length'' 0 args
       (bindR (list_at hs self) (\<lambda>l. Inr (hs, number_val (int (va_count l)))))"

definition list_append :: "hstate \<Rightarrow> addr \<Rightarrow> b_value list \<Rightarrow> (hstate \<times> b_value) res" where
  "list_append hs self args =
     ENFORCE_ARG_COUNT ''append'' 1 args
       (bindR (write_list hs self (args ! 0)) (\<lambda>hs'. Inr (hs', EMPTY_VAL)))"

definition list_clear :: "hstate \<Rightarrow> addr \<Rightarrow> b_value list \<Rightarrow> (hstate \<times> b_value) res" where
  "list_clear hs self args =
     ENFORCE_ARG_COUNT ''clear'' 0 args
       (bindR (list_at hs self) (\<lambda>l. Inr (put_obj hs self (OList (free_value_arr l)), EMPTY_VAL)))"

definition list_clone :: "hstate \<Rightarrow> addr \<Rightarrow> b_value list \<Rightarrow> (hstate \<times> b_value) res" where
  "list_clone hs self args =
     ENFORCE_ARG_COUNT ''clone'' 0 args
       (bindR (list_at hs self)
         (\<lambda>l. bindR (copy_list hs self 0 (int (va_count l))) (\<lambda>(hs', p). Inr (hs', OBJ_VAL p))))"

definition list_count :: "hstate \<Rightarrow> addr \<Rightarrow> b_value list \<Rightarrow> (hstate \<times> b_value) res" where
  "list_count hs self args =
     ENFORCE_ARG_COUNT ''count'' 1 args
       (bindR (list_at hs self) (\<lambda>l. bindR (arr_read l)
         (\<lambda>xs. Inr (hs, number_val (int (length (filter (\<lambda>x. values_equal x (args ! 0)) xs)))))))"

text \<open>
  \<open>extend\<close> re-reads the length of the argument in every iteration; extending a list by itself
  makes both grow together.
\<close>

fun extend_loop :: "nat \<Rightarrow> hstate \<Rightarrow> addr \<Rightarrow> addr \<Rightarrow> nat \<Rightarrow> hstate res" where
  "extend_loop 0 hs a b i = Inl Divergence"
| "extend_loop (Suc fuel) hs a b i =
     bindR (list_at hs b)
       (\<lambda>l2. if i < va_count l2
             then bindR (cell_get (va_values l2) (int i))
               (\<lambda>v. bindR (write_list hs a v) (\<lambda>hs'. extend_loop fuel hs' a b (i + 1)))
             else Inr hs)"

definition list_extend :: "nat \<Rightarrow> hstate \<Rightarrow> addr \<Rightarrow> b_value list \<Rightarrow> (hstate \<times> b_value) res" where
  "list_extend fuel hs self args =
     ENFORCE_ARG_COUNT ''extend'' 1 args
       (ENFORCE_ARG_TYPE ''extend'' 0 ''list'' (IS_LIST (hs_heap hs)) args
         (bindR (extend_loop fuel hs self (AS_OBJ (args ! 0)) 0) (\<lambda>hs'. Inr (hs', EMPTY_VAL))))"

fun index_of_from :: "nat \<Rightarrow> b_value list \<Rightarrow> b_value \<Rightarrow> int" where
  "index_of_from i [] v = -1"
| "index_of_from i (x # xs) v = (if values_equal x v then int i else index_of_from (i + 1) xs v)"

definition list_index_of :: "hstate \<Rightarrow> addr \<Rightarrow> b_value list \<Rightarrow> (hstate \<times> b_value) res" where
  "list_index_of hs self args =
     ENFORCE_ARG_COUNT ''index_of'' 1 args
       (bindR (list_at hs self) (\<lambda>l. bindR (arr_read l)
         (\<lambda>xs. Inr (hs, number_val (index_of_from 0 xs (args ! 0))))))"

definition list_insert :: "hstate \<Rightarrow> addr \<Rightarrow> b_value list \<Rightarrow> (hstate \<times> b_value) res" where
  "list_insert hs self args =
     ENFORCE_ARG_COUNT ''insert'' 2 args
       (ENFORCE_ARG_TYPE ''insert'' 1 ''number'' IS_NUMBER args
         (bindR (list_at hs self) (\<lambda>l. bindR (as_int (args ! 1))
           (\<lambda>index. bindR (insert_value_arr l (args ! 0) index)
             (\<lambda>l'. Inr (put_obj hs self (OList l'), EMPTY_VAL))))))"

definition list_pop :: "hstate \<Rightarrow> addr \<Rightarrow> b_value list \<Rightarrow> (hstate \<times> b_value) res" where
  "list_pop hs self args =
     ENFORCE_ARG_COUNT ''pop'' 0 args
       (bindR (list_at hs self)
         (\<lambda>l. if 0 < va_count l
              then bindR (cell_get (va_values l) (int (va_count l) - 1))
                (\<lambda>v. Inr (put_obj hs self (OList (l\<lparr>va_count := va_count l - 1\<rparr>)), v))
              else Inr (hs, NIL_VAL)))"

text \<open>
  One round of the outer loop of \<open>shift\<close>: the first value is taken, the rest moves down by
  \<open>count\<close> iterations.
\<close>

fun shift_loop :: "nat \<Rightarrow> b_value_arr \<Rightarrow> b_value list \<Rightarrow> (b_value_arr \<times> b_value list) res" where
  "shift_loop 0 l taken = Inr (l, taken)"
| "shift_loop (Suc n) l taken =
     bindR (cell_get (va_values l) 0)
       (\<lambda>v. bindR (shift_down (va_values l) 0 (va_count l))
         (\<lambda>cs. shift_loop n (l\<lparr>va_values := cs, va_count := va_count l - 1\<rparr>) (taken @ [v])))"

definition list_shift :: "hstate \<Rightarrow> addr \<Rightarrow> b_value list \<Rightarrow> (hstate \<times> b_value) res" where
  "list_shift hs self args =
     ENFORCE_ARG_RANGE ''shift'' 0 1 args
       (bindR (if length args = 1
               then ENFORCE_ARG_TYPE ''shift'' 0 ''number'' IS_NUMBER args (as_int (args ! 0))
               else Inr 1)
         (\<lambda>cnt. bindR (list_at hs self)
           (\<lambda>l. if int (va_count l) \<le> cnt \<or> va_count l = 1
                then Inr (put_obj hs self (OList (l\<lparr>va_count := 0\<rparr>)), NIL_VAL)
                else if 0 < cnt
                then bindR (shift_loop (nat cnt) l [])
                  (\<lambda>(l', taken).
                     let hs' = put_obj hs self (OList l')
                     in if cnt = 1 then Inr (hs', taken ! 0)
                        else bindR (new_list_of hs' taken) (\<lambda>(hs'', p). Inr (hs'', OBJ_VAL p)))
                else Inr (hs, NIL_VAL))))"

definition list_remove_at :: "hstate \<Rightarrow> addr \<Rightarrow> b_value list \<Rightarrow> (hstate \<times> b_value) res" where
  "list_remove_at hs self args =
     ENFORCE_ARG_COUNT ''remove_at'' 1 args
       (ENFORCE_ARG_TYPE ''remove_at'' 0 ''number'' IS_NUMBER args
         (bindR (list_at hs self) (\<lambda>l. bindR (as_int (args ! 0))
           (\<lambda>index. if index < 0 \<or> int (va_count l) \<le> index
                    then Inl (Thrown ''list index %d out of range at remove_at()'')
                    else bindR (cell_get (va_values l) index)
                      (\<lambda>v. bindR (shift_down (va_values l) index (nat (int (va_count l) - index)))
                        (\<lambda>cs. Inr (put_obj hs self
                                     (OList (l\<lparr>va_values := cs, va_count := va_count l - 1\<rparr>)), v)))))))"

definition list_remove :: "hstate \<Rightarrow> addr \<Rightarrow> b_value list \<Rightarrow> (hstate \<times> b_value) res" where
  "list_remove hs self args =
     ENFORCE_ARG_COUNT ''remove'' 1 args
       (bindR (list_at hs self) (\<lambda>l. bindR (arr_read l)
         (\<lambda>xs. let index = index_of_from 0 xs (args ! 0)
               in if index \<noteq> -1
                  then bindR (shift_down (va_values l) index (nat (int (va_count l) - index)))
                    (\<lambda>cs. Inr (put_obj hs self
                                 (OList (l\<lparr>va_values := cs, va_count := va_count l - 1\<rparr>)), EMPTY_VAL))
                  else Inr (hs, EMPTY_VAL))))"

definition list_reverse :: "hstate \<Rightarrow> addr \<Rightarrow> b_value list \<Rightarrow> (hstate \<times> b_value) res" where
  "list_reverse hs self args =
     ENFORCE_ARG_COUNT ''reverse'' 0 args
       (bindR (list_at hs self)
         (\<lambda>l. bindR (mapR (\<lambda>i. cell_get (va_values l) (int i)) (rev [0..<va_count l]))
           (\<lambda>xs. bindR (new_list_of hs xs) (\<lambda>(hs', p). Inr (hs', OBJ_VAL p)))))"

definition list_contains :: "hstate \<Rightarrow> addr \<Rightarrow> b_value list \<Rightarrow> (hstate \<times> b_value) res" where
  "list_contains hs self args =
     ENFORCE_ARG_COUNT ''contains'' 1 args
       (bindR (list_at hs self) (\<lambda>l. bindR (arr_read l)
         (\<lambda>xs. Inr (hs, BOOL_VAL (\<exists>x \<in> set xs. values_equal (args ! 0) x)))))"

text \<open>\<open>n\<close> iterations of \<open>values[dst++] = values[src++]\<close>, the loop of \<open>delete\<close>.\<close>

fun move_cells :: "'a cells \<Rightarrow> int \<Rightarrow> int \<Rightarrow> nat \<Rightarrow> 'a cells res" where
  "move_cells cs dst src 0 = Inr cs"
| "move_cells cs dst src (Suc n) =
     bindR (cell_copy cs dst src) (\<lambda>cs'. move_cells cs' (dst + 1) (src + 1) n)"

definition list_delete :: "hstate \<Rightarrow> addr \<Rightarrow> b_value list \<Rightarrow> (hstate \<times> b_value) res" where
  "list_delete hs self args =
     ENFORCE_ARG_RANGE ''delete'' 1 2 args
       (ENFORCE_ARG_TYPE ''delete'' 0 ''number'' IS_NUMBER args
         (bindR (as_int (args ! 0))
           (\<lambda>lower. bindR (if length args = 2
                           then ENFORCE_ARG_TYPE ''delete'' 1 ''number'' IS_NUMBER args (as_int (args ! 1))
                           else Inr lower)
             (\<lambda>upper. bindR (list_at hs self)
               (\<lambda>l. if lower < 0 \<or> int (va_count l) \<le> lower
                    then Inl (Thrown ''list index %d out of range at delete()'')
                    else if upper < lower \<or> int (va_count l) \<le> upper
                    then Inl (Thrown ''invalid upper limit %d at delete()'')
                    else bindR (move_cells (va_values l) lower (upper + 1) (nat (int (va_count l) - upper)))
                      (\<lambda>cs. Inr (put_obj hs self
                                   (OList (l\<lparr>va_values := cs,
                                             va_count := nat (int (va_count l) - (upper - lower + 1))\<rparr>)),
                                 number_val (upper - lower + 1))))))))"

definition list_first :: "hstate \<Rightarrow> addr \<Rightarrow> b_value list \<Rightarrow> (hstate \<times> b_value) res" where
  "list_first hs self args =
     ENFORCE_ARG_COUNT ''first'' 0 args
       (bindR (list_at hs self)
         (\<lambda>l. if 0 < va_count l then bindR (cell_get (va_values l) 0) (\<lambda>v. Inr (hs, v))
              else Inr (hs, NIL_VAL)))"

definition list_last :: "hstate \<Rightarrow> addr \<Rightarrow> b_value list \<Rightarrow> (hstate \<times> b_value) res" where
  "list_last hs self args =
     ENFORCE_ARG_COUNT ''last'' 0 args
       (bindR (list_at hs self)
         (\<lambda>l. if 0 < va_count l
              then bindR (cell_get (va_values l) (int (va_count l) - 1)) (\<lambda>v. Inr (hs, v))
              else Inr (hs, NIL_VAL)))"

definition list_is_empty :: "hstate \<Rightarrow> addr \<Rightarrow> b_value list \<Rightarrow> (hstate \<times> b_value) res" where
  "list_is_empty hs self args =
     ENFORCE_ARG_COUNT ''is_empty'' 0 args
       (bindR (list_at hs self) (\<lambda>l. Inr (hs, BOOL_VAL (va_count l = 0))))"

definition list_take :: "hstate \<Rightarrow> addr \<Rightarrow> b_value list \<Rightarrow> (hstate \<times> b_value) res" where
  "list_take hs self args =
     ENFORCE_ARG_COUNT ''take'' 1 args
       (ENFORCE_ARG_TYPE ''take'' 0 ''number'' IS_NUMBER args
         (bindR (list_at hs self) (\<lambda>l. bindR (as_int (args ! 0))
           (\<lambda>c0. let c = (if c0 < 0 then int (va_count l) + c0 else c0)
                 in if int (va_count l) < c
                    then bindR (copy_list hs self 0 (int (va_count l))) (\<lambda>(hs', p). Inr (hs', OBJ_VAL p))
                    else bindR (copy_list hs self 0 c) (\<lambda>(hs', p). Inr (hs', OBJ_VAL p))))))"

definition list_get :: "hstate \<Rightarrow> addr \<Rightarrow> b_value list \<Rightarrow> (hstate \<times> b_value) res" where
  "list_get hs self args =
     ENFORCE_ARG_COUNT ''get'' 1 args
       (ENFORCE_ARG_TYPE ''get'' 0 ''number'' IS_NUMBER args
         (bindR (list_at hs self) (\<lambda>l. bindR (as_int (args ! 0))
           (\<lambda>index. if index < 0 \<or> int (va_count l) \<le> index
                    then Inl (Thrown ''list index %d out of range at get()'')
                    else bindR (cell_get (va_values l) index) (\<lambda>v. Inr (hs, v))))))"

definition list_compact :: "hstate \<Rightarrow> addr \<Rightarrow> b_value list \<Rightarrow> (hstate \<times> b_value) res" where
  "list_compact hs self args =
     ENFORCE_ARG_COUNT ''compact'' 0 args
       (bindR (list_at hs self) (\<lambda>l. bindR (arr_read l)
         (\<lambda>xs. bindR (new_list_of hs (filter (\<lambda>x. \<not> values_equal x NIL_VAL) xs))
           (\<lambda>(hs', p). Inr (hs', OBJ_VAL p)))))"

fun unique_loop :: "b_value list \<Rightarrow> b_value list \<Rightarrow> b_value list" where
  "unique_loop acc [] = acc"
| "unique_loop acc (x # xs) =
     (if \<exists>y \<in> set acc. values_equal y x then unique_loop acc xs else unique_loop (acc @ [x]) xs)"

definition list_unique :: "hstate \<Rightarrow> addr \<Rightarrow> b_value list \<Rightarrow> (hstate \<times> b_value) res" where
  "list_unique hs self args =
     ENFORCE_ARG_COUNT ''unique'' 0 args
       (bindR (list_at hs self) (\<lambda>l. bindR (arr_read l)
         (\<lambda>xs. bindR (new_list_of hs (unique_loop [] xs)) (\<lambda>(hs', p). Inr (hs', OBJ_VAL p)))))"

text \<open>The row of \<open>zip\<close> for index \<open>i\<close>: the own item, then the item of every argument or nil.\<close>

definition zip_row :: "b_value_arr list \<Rightarrow> nat \<Rightarrow> b_value \<Rightarrow> b_value list res" where
  "zip_row ls i x =
     bindR (mapR (\<lambda>l. if i < va_count l then cell_get (va_values l) (int i) else Inr NIL_VAL) ls)
       (\<lambda>ys. Inr (x # ys))"

fun zip_rows :: "hstate \<Rightarrow> b_value_arr list \<Rightarrow> nat \<Rightarrow> b_value list \<Rightarrow> (hstate \<times> b_value list) res" where
  "zip_rows hs ls i [] = Inr (hs, [])"
| "zip_rows hs ls i (x # xs) =
     bindR (zip_row ls i x) (\<lambda>row. bindR (new_list_of hs row)
       (\<lambda>(hs', p). bindR (zip_rows hs' ls (i + 1) xs) (\<lambda>(hs'', ps). Inr (hs'', OBJ_VAL p # ps))))"

definition list_zip :: "hstate \<Rightarrow> addr \<Rightarrow> b_value list \<Rightarrow> (hstate \<times> b_value) res" where
  "list_zip hs self args =
     (if \<not> list_all (IS_LIST (hs_heap hs)) args
      then Inl (Thrown ''zip() expects argument %d as list, %s given'')
      else bindR (list_at hs self) (\<lambda>l. bindR (arr_read l)
        (\<lambda>xs. bindR (mapR (\<lambda>v. list_at hs (AS_OBJ v)) args)
          (\<lambda>ls. bindR (zip_rows hs ls 0 xs)
            (\<lambda>(hs', rows). bindR (new_list_of hs' rows) (\<lambda>(hs'', p). Inr (hs'', OBJ_VAL p)))))))"

fun to_dict_loop :: "heap \<Rightarrow> b_obj_dict \<Rightarrow> nat \<Rightarrow> b_value list \<Rightarrow> b_obj_dict res" where
  "to_dict_loop hp d i [] = Inr d"
| "to_dict_loop hp d i (x # xs) =
     bindR (dict_set_entry hp d (number_val (int i)) x) (\<lambda>(d', _). to_dict_loop hp d' (i + 1) xs)"

definition list_to_dict :: "hstate \<Rightarrow> addr \<Rightarrow> b_value list \<Rightarrow> (hstate \<times> b_value) res" where
  "list_to_dict hs self args =
     ENFORCE_ARG_COUNT ''to_dict'' 0 args
       (bindR (list_at hs self) (\<lambda>l. bindR (arr_read l)
         (\<lambda>xs. bindR (to_dict_loop (hs_heap hs) \<lparr>d_names = init_value_arr, d_items = init_table\<rparr> 0 xs)
           (\<lambda>d. let (hs', p) = alloc_obj hs (ODict d) in Inr (hs', OBJ_VAL p)))))"

definition list_iter :: "hstate \<Rightarrow> addr \<Rightarrow> b_value list \<Rightarrow> (hstate \<times> b_value) res" where
  "list_iter hs self args =
     ENFORCE_ARG_COUNT ''__iter__'' 1 args
       (ENFORCE_ARG_TYPE ''__iter__'' 0 ''number'' IS_NUMBER args
         (bindR (list_at hs self) (\<lambda>l. bindR (as_int (args ! 0))
           (\<lambda>index. if -1 < index \<and> index < int (va_count l)
                    then bindR (cell_get (va_values l) index) (\<lambda>v. Inr (hs, v))
                    else Inr (hs, NIL_VAL)))))"

definition list_itern :: "hstate \<Rightarrow> addr \<Rightarrow> b_value list \<Rightarrow> (hstate \<times> b_value) res" where
  "list_itern hs self args =
     ENFORCE_ARG_COUNT ''__itern__'' 1 args
       (bindR (list_at hs self)
         (\<lambda>l. if IS_NIL (args ! 0)
              then (if va_count l = 0 then Inr (hs, BOOL_VAL False) else Inr (hs, number_val 0))
              else if \<not> IS_NUMBER (args ! 0) then Inl (Thrown ''lists are numerically indexed'')
              else bindR (as_int (args ! 0))
                (\<lambda>index. if index < int (va_count l) - 1 then Inr (hs, number_val (index + 1))
                         else Inr (hs, NIL_VAL))))"

end
