(* ===== verification/Util_UTF8.thy ===== *)
theory Util_UTF8
  imports Prelude
begin

text \<open>
  \<open>util.c\<close>: encoding and decoding of code points as UTF-8, counting and indexing of code points in
  a byte string. A C string is the list of its bytes in front of the terminating zero.
\<close>

section \<open>Operations\<close>

definition utf8_number_bytes :: "int \<Rightarrow> int" where
  "utf8_number_bytes v =
     (if v < 0 then -1
      else if v \<le> 0x7f then 1
      else if v \<le> 0x7ff then 2
      else if v \<le> 0xffff then 3
      else if v \<le> 0x10ffff then 4
      else 0)"

text \<open>
  The bytes that \<open>utf8_encode\<close> stores in front of the zero; the conversion of the argument to
  \<open>int\<close> makes values from \<open>2 ^ 31\<close> on negative.
\<close>

definition cont_byte :: "uint32 \<Rightarrow> byte" where
  "cont_byte code = ucast (0x80 OR (code AND 0x3F))"

definition utf8_encode :: "uint32 \<Rightarrow> byte list" where
  "utf8_encode code =
     (if 0 < utf8_number_bytes (sint code)
      then if code \<le> 0x7F then [ucast (code AND 0x7F)]
        else if code \<le> 0x7FF
        then [ucast (0xC0 OR (drop_bit 6 code AND 0x1F)), cont_byte code]
        else if code \<le> 0xFFFF
        then [ucast (0xE0 OR (drop_bit 6 (drop_bit 6 code) AND 0xF)), cont_byte (drop_bit 6 code), cont_byte code]
        else if code \<le> 0x10FFFF
        then [ucast (0xF0 OR (drop_bit 6 (drop_bit 6 (drop_bit 6 code)) AND 0x7)),
              cont_byte (drop_bit 6 (drop_bit 6 code)), cont_byte (drop_bit 6 code), cont_byte code]
        else [0xBD, 0xBF, 0xEF]
      else [])"

definition utf8_decode_num_bytes :: "byte \<Rightarrow> int" where
  "utf8_decode_num_bytes b =
     (if b AND 0xc0 = 0x80 then 0
      else if b AND 0xf8 = 0xf0 then 4
      else if b AND 0xf0 = 0xe0 then 3
      else if b AND 0xe0 = 0xc0 then 2
      else 1)"

definition byte_at :: "byte list \<Rightarrow> nat \<Rightarrow> byte res" where
  "byte_at bs i = (if i < length bs then Inr (bs ! i) else Inl OutOfBounds)"

text \<open>The loop over the continuation bytes, from position \<open>i\<close>.\<close>

fun decode_loop :: "byte list \<Rightarrow> nat \<Rightarrow> nat \<Rightarrow> int \<Rightarrow> int res" where
  "decode_loop bs i 0 v = Inr v"
| "decode_loop bs i (Suc remaining) v =
     bindR (byte_at bs (i + 1))
       (\<lambda>b. if b AND 0xc0 \<noteq> 0x80 then Inr (-1)
            else decode_loop bs (i + 1) remaining (push_bit 6 v OR uint (b AND 0x3f)))"

definition utf8_decode :: "byte list \<Rightarrow> uint32 \<Rightarrow> int res" where
  "utf8_decode bs len =
     bindR (byte_at bs 0)
       (\<lambda>b. if b \<le> 0x7f then Inr (uint b)
            else
              let lead = (if b AND 0xe0 = 0xc0 then Some (uint (b AND 0x1f), 1)
                          else if b AND 0xf0 = 0xe0 then Some (uint (b AND 0x0f), 2)
                          else if b AND 0xf8 = 0xf0 then Some (uint (b AND 0x07), 3)
                          else None)
              in case lead of
                   None \<Rightarrow> Inr (-1)
                 | Some (v, remaining) \<Rightarrow>
                     if unat (len - 1) < remaining then Inr (-1) else decode_loop bs 0 remaining v)"

definition append_strings :: "byte list \<Rightarrow> byte list option \<Rightarrow> byte list" where
  "append_strings old new_str = (case new_str of None \<Rightarrow> old | Some n \<Rightarrow> old @ n)"

text \<open>Bytes that begin a code point.\<close>

definition is_lead :: "byte \<Rightarrow> bool" where
  "is_lead b = (b AND 0xC0 \<noteq> 0x80)"

fun utf8len :: "byte list \<Rightarrow> nat" where
  "utf8len [] = 0"
| "utf8len (b # bs) = (if is_lead b then Suc (utf8len bs) else utf8len bs)"

text \<open>The loop of \<open>utf8index\<close>: \<open>off\<close> is the distance from the beginning, \<open>pos\<close> already incremented.\<close>

fun utf8index_loop :: "byte list \<Rightarrow> nat \<Rightarrow> int \<Rightarrow> nat option" where
  "utf8index_loop [] off pos = None"
| "utf8index_loop (b # bs) off pos =
     (let pos' = (if is_lead b then pos - 1 else pos)
      in if pos' = 0 then Some off else utf8index_loop bs (off + 1) pos')"

definition utf8index :: "byte list \<Rightarrow> int \<Rightarrow> nat option" where
  "utf8index s pos = utf8index_loop s 0 (pos + 1)"

definition utf8slice :: "byte list \<Rightarrow> int \<Rightarrow> int \<Rightarrow> int \<times> int" where
  "utf8slice s start stop =
     (case utf8index s start of Some p \<Rightarrow> int p | None \<Rightarrow> -1,
      case utf8index s stop of Some p \<Rightarrow> int p | None \<Rightarrow> int (length s))"

section \<open>Bytes\<close>

lemma ucast_lead:
  "ucast (0x80 OR (c AND 0x3F) :: uint32) = (0x80 OR (ucast c AND 0x3F) :: byte)"
  "ucast (0xC0 OR (c AND 0x1F) :: uint32) = (0xC0 OR (ucast c AND 0x1F) :: byte)"
  "ucast (0xE0 OR (c AND 0x0F) :: uint32) = (0xE0 OR (ucast c AND 0x0F) :: byte)"
  "ucast (0xF0 OR (c AND 0x07) :: uint32) = (0xF0 OR (ucast c AND 0x07) :: byte)"
  by (simp_all add: unsigned_or_eq unsigned_and_eq)

lemma cont_byte_tests [simp]:
  "cont_byte c AND 0xC0 = 0x80" "cont_byte c AND 0x3F = ucast c AND 0x3F"
  by (simp_all add: cont_byte_def ucast_lead bit.conj_disj_distrib2 and.assoc)

lemma lead_tests:
  fixes x :: byte
  shows "(0xC0 OR (x AND 0x1F)) AND 0xE0 = 0xC0" "(0xC0 OR (x AND 0x1F)) AND 0x1F = x AND 0x1F"
    "(0xE0 OR (x AND 0x0F)) AND 0xF0 = 0xE0" "(0xE0 OR (x AND 0x0F)) AND 0x0F = x AND 0x0F"
    "(0xF0 OR (x AND 0x07)) AND 0xF8 = 0xF0" "(0xF0 OR (x AND 0x07)) AND 0x07 = x AND 0x07"
    "(0xE0 OR (x AND 0x0F)) AND 0xE0 = 0xE0" "(0xF0 OR (x AND 0x07)) AND 0xE0 = 0xE0"
    "(0xF0 OR (x AND 0x07)) AND 0xF0 = 0xF0"
  by (simp_all add: bit.conj_disj_distrib2 and.assoc)

lemma ascii_class:
  fixes b :: byte
  assumes "b \<le> 0x7f"
  shows "b AND 0x80 = 0"
proof -
  have "unat b < 2 ^ 7" using assms by (simp add: word_le_nat_alt)
  then have "take_bit 7 b = b" by (simp add: word_unat_eq_iff unsigned_take_bit_eq take_bit_nat_eq_self)
  then have "b = b AND 0x7f" by (simp add: take_bit_eq_mask mask_eq_exp_minus_1)
  then have "b AND 0x80 = b AND (0x7f AND 0x80)" by (metis and.assoc)
  then show ?thesis by simp
qed

lemma ascii_byte:
  fixes b :: byte
  assumes "b AND 0x80 = 0x80"
  shows "\<not> b \<le> 0x7f"
  using assms ascii_class by auto

lemma lead_not_ascii:
  fixes x :: byte
  shows "\<not> (0xC0 OR (x AND 0x1F)) \<le> 0x7f" "\<not> (0xE0 OR (x AND 0x0F)) \<le> 0x7f" "\<not> (0xF0 OR (x AND 0x07)) \<le> 0x7f"
  by (rule ascii_byte, simp add: bit.conj_disj_distrib2 and.assoc)+

lemma uint_and_mask: "uint (w AND mask k) = uint w mod 2 ^ k" for w :: "'a::len word"
  by (simp only: take_bit_eq_mask [symmetric] unsigned_take_bit_eq) (simp add: take_bit_eq_mod)

lemma uint_ucast_bits:
  fixes c :: uint32
  shows "uint (ucast c AND 0x3F :: byte) = uint c mod 64" "uint (ucast c AND 0x1F :: byte) = uint c mod 32"
    "uint (ucast c AND 0x0F :: byte) = uint c mod 16" "uint (ucast c AND 0x07 :: byte) = uint c mod 8"
    "uint (ucast (c AND 0x7F) :: byte) = uint c mod 128"
proof -
  have k: "uint (ucast c AND mask k :: byte) = uint c mod 2 ^ k" if "k \<le> 8" for k
  proof -
    have "(2::int) ^ k dvd 2 ^ 8" using that by (rule le_imp_power_dvd)
    then show ?thesis by (simp add: uint_and_mask unsigned_ucast_eq take_bit_eq_mod mod_mod_cancel)
  qed
  show "uint (ucast c AND 0x3F :: byte) = uint c mod 64" "uint (ucast c AND 0x1F :: byte) = uint c mod 32"
    "uint (ucast c AND 0x0F :: byte) = uint c mod 16" "uint (ucast c AND 0x07 :: byte) = uint c mod 8"
    using k [of 6] k [of 5] k [of 4] k [of 3] by (simp_all add: mask_eq_exp_minus_1)
  show "uint (ucast (c AND 0x7F) :: byte) = uint c mod 128"
    using k [of 7] by (simp add: mask_eq_exp_minus_1 unsigned_and_eq)
qed

lemma push_or: "0 \<le> x \<Longrightarrow> x < 64 \<Longrightarrow> push_bit 6 v OR x = v * 64 + x" for v x :: int
proof -
  assume x: "0 \<le> x" "x < 64"
  then have t: "take_bit 6 x = x" by (simp add: take_bit_eq_mod)
  have "push_bit 6 v AND take_bit 6 x = 0" by (intro bit_eqI) (auto simp: bit_simps)
  then have "push_bit 6 v + take_bit 6 x = push_bit 6 v OR take_bit 6 x" by (rule disjunctive_add_eq_or)
  then show ?thesis unfolding t by (simp add: push_bit_eq_mult)
qed

lemma uint_drop6: "uint (drop_bit 6 c) = uint c div 64" for c :: uint32
  by (simp add: drop_bit_eq_div uint_div_distrib)

section \<open>Round trip\<close>

text \<open>The valid code points as the code bounds them (surrogates are not excluded).\<close>

definition code_point :: "uint32 \<Rightarrow> bool" where
  "code_point code = (code \<le> 0x10FFFF)"

lemma sint_code_point:
  assumes "code_point code"
  shows "sint code = uint code"
proof -
  have "uint code < 2 ^ 31" "- (2 ^ 31) \<le> uint code"
    using assms order_trans [OF _ uint_ge_0 [of code], of "- (2 ^ 31)"] by (simp_all add: code_point_def word_le_def)
  then show ?thesis by (simp add: sint_uint signed_take_bit_int_eq_self)
qed

lemma encode_count: "code_point code \<Longrightarrow> 0 < utf8_number_bytes (sint code)"
  unfolding sint_code_point by (simp add: utf8_number_bytes_def code_point_def word_le_def)

lemma cont_value: "uint (ucast c AND 0x3F :: byte) = uint c mod 64" for c :: uint32
  by (rule uint_ucast_bits(1))

lemma mod_split:
  fixes n :: int
  assumes "0 \<le> n"
  shows "n < 2048 \<Longrightarrow> n div 64 mod 32 * 64 + n mod 64 = n"
    and "n < 65536 \<Longrightarrow> (n div 64 div 64 mod 16 * 64 + n div 64 mod 64) * 64 + n mod 64 = n"
    and "n < 2097152 \<Longrightarrow>
      ((n div 64 div 64 div 64 mod 8 * 64 + n div 64 div 64 mod 64) * 64 + n div 64 mod 64) * 64 + n mod 64 = n"
proof -
  define a where "a = n div 64"
  define b where "b = a div 64"
  define c where "c = b div 64"
  have e: "a * 64 + n mod 64 = n" "b * 64 + a mod 64 = a" "c * 64 + b mod 64 = b"
    by (simp_all add: a_def b_def c_def)
  have p: "0 \<le> a" "0 \<le> b" "0 \<le> c" "0 \<le> n mod 64" "0 \<le> a mod 64" "0 \<le> b mod 64"
    using assms by (simp_all add: a_def b_def c_def pos_imp_zdiv_nonneg_iff)
  have "a < 32" if "n < 2048" using e p that by linarith
  moreover have "b < 16" if "n < 65536" using e p that by linarith
  moreover have "c < 8" if "n < 2097152" using e p that by linarith
  ultimately show "n < 2048 \<Longrightarrow> n div 64 mod 32 * 64 + n mod 64 = n"
    and "n < 65536 \<Longrightarrow> (n div 64 div 64 mod 16 * 64 + n div 64 mod 64) * 64 + n mod 64 = n"
    and "n < 2097152 \<Longrightarrow>
      ((n div 64 div 64 div 64 mod 8 * 64 + n div 64 div 64 mod 64) * 64 + n div 64 mod 64) * 64 + n mod 64 = n"
    using e p by (simp_all flip: a_def b_def c_def)
qed

lemma utf8_encode_cases:
  assumes "code_point code"
  shows "utf8_encode code =
     (if code \<le> 0x7F then [ucast (code AND 0x7F)]
      else if code \<le> 0x7FF then [0xC0 OR (ucast (drop_bit 6 code) AND 0x1F), cont_byte code]
      else if code \<le> 0xFFFF
      then [0xE0 OR (ucast (drop_bit 6 (drop_bit 6 code)) AND 0xF), cont_byte (drop_bit 6 code), cont_byte code]
      else [0xF0 OR (ucast (drop_bit 6 (drop_bit 6 (drop_bit 6 code))) AND 0x7),
            cont_byte (drop_bit 6 (drop_bit 6 code)), cont_byte (drop_bit 6 code), cont_byte code])"
  using encode_count [OF assms] assms by (simp add: utf8_encode_def ucast_lead code_point_def)

text \<open>The classes of lead bytes exclude each other.\<close>

lemma byte_class_mask:
  fixes y :: byte
  assumes "y AND m = v" and "m AND k = k"
  shows "y AND k = v AND k"
  using assms by (metis and.assoc)

lemma byte_classes:
  fixes y :: byte
  shows "y AND 0xE0 = 0xC0 \<Longrightarrow> y AND 0xC0 \<noteq> 0x80 \<and> y AND 0xF8 \<noteq> 0xF0 \<and> y AND 0xF0 \<noteq> 0xE0"
    and "y AND 0xF0 = 0xE0 \<Longrightarrow> y AND 0xC0 \<noteq> 0x80 \<and> y AND 0xF8 \<noteq> 0xF0 \<and> y AND 0xE0 \<noteq> 0xC0"
    and "y AND 0xF8 = 0xF0 \<Longrightarrow> y AND 0xC0 \<noteq> 0x80 \<and> y AND 0xF0 \<noteq> 0xE0 \<and> y AND 0xE0 \<noteq> 0xC0"
  using byte_class_mask [of y "0xE0" _ "0xC0"] byte_class_mask [of y "0xF0" _ "0xC0"] byte_class_mask [of y "0xF8" _ "0xC0"]
    byte_class_mask [of y "0xF8" _ "0xE0"] byte_class_mask [of y "0xF0" _ "0xE0"] byte_class_mask [of y "0xF8" _ "0xF0"]
  by auto

lemma code_point_bounds:
  assumes "code_point code"
  shows "0 \<le> uint code" "uint code \<le> 0x10FFFF" "code \<le> 0x7F \<longleftrightarrow> uint code \<le> 0x7F"
    "code \<le> 0x7FF \<longleftrightarrow> uint code \<le> 0x7FF" "code \<le> 0xFFFF \<longleftrightarrow> uint code \<le> 0xFFFF"
  using assms by (simp_all add: code_point_def word_le_def)

lemma length_utf8_encode: "code_point code \<Longrightarrow> int (length (utf8_encode code)) = utf8_number_bytes (uint code)"
  using code_point_bounds [of code] by (simp add: utf8_encode_cases utf8_number_bytes_def)

lemma decode_cont:
  "i + 1 < length bs \<Longrightarrow> bs ! (i + 1) = cont_byte a \<Longrightarrow>
   decode_loop bs i (Suc n) v = decode_loop bs (i + 1) n (v * 64 + uint a mod 64)"
  by (simp add: byte_at_def cont_value push_or)

lemma lead_class_ascii:
  fixes y :: byte
  shows "y AND 0xE0 = 0xC0 \<Longrightarrow> \<not> y \<le> 0x7f" "y AND 0xF0 = 0xE0 \<Longrightarrow> \<not> y \<le> 0x7f" "y AND 0xF8 = 0xF0 \<Longrightarrow> \<not> y \<le> 0x7f"
  using byte_class_mask [of y "0xE0" "0xC0" "0x80"] byte_class_mask [of y "0xF0" "0xE0" "0x80"]
    byte_class_mask [of y "0xF8" "0xF0" "0x80"] by (auto intro!: ascii_byte)

lemma decode_two:
  assumes "y AND 0xE0 = 0xC0"
  shows "utf8_decode [y, cont_byte a] 2 = Inr (uint (y AND 0x1f) * 64 + uint a mod 64)"
  using assms lead_class_ascii(1) [OF assms] decode_cont [of 0 "[y, cont_byte a]" a 0]
  by (simp add: utf8_decode_def byte_at_def)

lemma decode_three:
  assumes "y AND 0xF0 = 0xE0"
  shows "utf8_decode [y, cont_byte b, cont_byte a] 3 =
         Inr ((uint (y AND 0x0f) * 64 + uint b mod 64) * 64 + uint a mod 64)"
proof -
  let ?bs = "[y, cont_byte b, cont_byte a]"
  have "utf8_decode ?bs 3 = decode_loop ?bs 0 (Suc (Suc 0)) (uint (y AND 0x0f))"
    using assms byte_classes(2) [OF assms] lead_class_ascii(2) [OF assms]
    by (simp add: utf8_decode_def byte_at_def numeral_2_eq_2 [symmetric] del: decode_loop.simps)
  then show ?thesis using decode_cont [of 0 ?bs b "Suc 0"] decode_cont [of 1 ?bs a 0] by simp
qed

lemma decode_four:
  assumes "y AND 0xF8 = 0xF0"
  shows "utf8_decode [y, cont_byte c, cont_byte b, cont_byte a] 4 =
         Inr (((uint (y AND 0x07) * 64 + uint c mod 64) * 64 + uint b mod 64) * 64 + uint a mod 64)"
proof -
  let ?bs = "[y, cont_byte c, cont_byte b, cont_byte a]"
  have "utf8_decode ?bs 4 = decode_loop ?bs 0 (Suc (Suc (Suc 0))) (uint (y AND 0x07))"
    using assms byte_classes(3) [OF assms] lead_class_ascii(3) [OF assms]
    by (simp add: utf8_decode_def byte_at_def numeral_3_eq_3 [symmetric] del: decode_loop.simps)
  then show ?thesis
    using decode_cont [of 0 ?bs c "Suc (Suc 0)"] decode_cont [of 1 ?bs b "Suc 0"] decode_cont [of 2 ?bs a 0]
    by (simp add: numeral_2_eq_2 del: decode_loop.simps(2))
qed

lemma encode_form:
  assumes "code_point code"
  obtains (one) "uint code \<le> 0x7F" and "utf8_encode code = [ucast (code AND 0x7F)]"
  | (two) y where "\<not> uint code \<le> 0x7F" and "uint code \<le> 0x7FF" and "utf8_encode code = [y, cont_byte code]"
      and "y AND 0xE0 = 0xC0" and "uint (y AND 0x1F) = uint code div 64 mod 32"
  | (three) y where "\<not> uint code \<le> 0x7FF" and "uint code \<le> 0xFFFF"
      and "utf8_encode code = [y, cont_byte (drop_bit 6 code), cont_byte code]"
      and "y AND 0xF0 = 0xE0" and "uint (y AND 0x0F) = uint code div 64 div 64 mod 16"
  | (four) y where "\<not> uint code \<le> 0xFFFF"
      and "utf8_encode code = [y, cont_byte (drop_bit 6 (drop_bit 6 code)), cont_byte (drop_bit 6 code), cont_byte code]"
      and "y AND 0xF8 = 0xF0" and "uint (y AND 0x07) = uint code div 64 div 64 div 64 mod 8"
proof -
  note b = code_point_bounds [OF assms] and e = utf8_encode_cases [OF assms]
  note vals = lead_tests uint_ucast_bits uint_drop6
  consider "uint code \<le> 0x7F" | "\<not> uint code \<le> 0x7F" "uint code \<le> 0x7FF"
    | "\<not> uint code \<le> 0x7FF" "uint code \<le> 0xFFFF" | "\<not> uint code \<le> 0xFFFF" by linarith
  then show ?thesis
  proof cases
    case 1
    then show ?thesis using b e by (intro one) auto
  next
    case 2
    then show ?thesis using b e by (intro two [of "0xC0 OR (ucast (drop_bit 6 code) AND 0x1F)"]) (simp_all add: vals)
  next
    case 3
    then show ?thesis
      using b e by (intro three [of "0xE0 OR (ucast (drop_bit 6 (drop_bit 6 code)) AND 0x0F)"])
        (simp_all add: vals del: drop_bit_drop_bit)
  next
    case 4
    then show ?thesis
      using b e by (intro four [of "0xF0 OR (ucast (drop_bit 6 (drop_bit 6 (drop_bit 6 code))) AND 0x07)"])
        (simp_all add: vals del: drop_bit_drop_bit)
  qed
qed

lemma decode_encode:
  assumes "code_point code"
  shows "utf8_decode (utf8_encode code) (of_nat (length (utf8_encode code))) = Inr (uint code)"
proof -
  note split = mod_split [OF uint_ge_0 [of code]]
  from assms show ?thesis
  proof (cases rule: encode_form)
    case one
    then have "uint (ucast (code AND 0x7F) :: byte) = uint code" by (simp add: uint_ucast_bits)
    then show ?thesis using one by (simp add: utf8_decode_def byte_at_def word_le_def)
  next
    case (two y)
    then show ?thesis using split(1) by (simp add: decode_two)
  next
    case (three y)
    then show ?thesis using split(2) by (simp add: decode_three uint_drop6)
  next
    case (four y)
    then show ?thesis
      using split(3) code_point_bounds(2) [OF assms] by (simp add: decode_four uint_drop6 del: drop_bit_drop_bit)
  qed
qed

lemma lead_encode:
  assumes "code_point code"
  shows "utf8_decode_num_bytes (hd (utf8_encode code)) = utf8_number_bytes (uint code)"
  using assms
proof (cases rule: encode_form)
  case one
  define y :: byte where "y = ucast (code AND 0x7F)"
  have "y \<le> 0x7f" using one(1) by (simp add: y_def word_le_def uint_ucast_bits)
  then have "utf8_decode_num_bytes y = 1"
    using ascii_class [of y] byte_class_mask [of y "0xE0" "0xC0" "0x80"] byte_class_mask [of y "0xF0" "0xE0" "0x80"]
      byte_class_mask [of y "0xF8" "0xF0" "0x80"] byte_class_mask [of y "0xC0" "0x80" "0x80"]
    by (auto simp: utf8_decode_num_bytes_def)
  then show ?thesis using one by (simp add: utf8_number_bytes_def y_def)
next
  case (two y)
  then show ?thesis using byte_classes(1) [OF two(4)] by (simp add: utf8_number_bytes_def utf8_decode_num_bytes_def)
next
  case (three y)
  then show ?thesis using byte_classes(2) [OF three(4)] by (simp add: utf8_number_bytes_def utf8_decode_num_bytes_def)
next
  case (four y)
  then show ?thesis
    using byte_classes(3) [OF four(3)] code_point_bounds(2) [OF assms]
    by (simp add: utf8_number_bytes_def utf8_decode_num_bytes_def)
qed

text \<open>
  Encoding a code point and decoding the bytes gives the code point back; the number of bytes is
  the one \<open>utf8_number_bytes\<close> announces, and the first byte announces it too.
\<close>

lemma utf8_roundtrip:
  assumes "code_point code"
  shows "utf8_decode (utf8_encode code) (of_nat (length (utf8_encode code))) = Inr (uint code) \<and>
         int (length (utf8_encode code)) = utf8_number_bytes (uint code) \<and>
         utf8_decode_num_bytes (hd (utf8_encode code)) = utf8_number_bytes (uint code)"
  using decode_encode [OF assms] length_utf8_encode [OF assms] lead_encode [OF assms] by simp

lemma utf8_roundtrip_instance:
  "utf8_decode (utf8_encode 0x20AC) (of_nat (length (utf8_encode 0x20AC))) = Inr 0x20AC"
  using utf8_roundtrip [of "0x20AC"] by (simp add: code_point_def)

section \<open>Counting and indexing code points\<close>

text \<open>The bytes of an encoded code point: one that begins it, then continuation bytes.\<close>

lemma encode_leads:
  assumes "code_point code"
  shows "\<exists>y cs. utf8_encode code = y # cs \<and> is_lead y \<and> list_all (\<lambda>b. \<not> is_lead b) cs"
  using assms
proof (cases rule: encode_form)
  case one
  define y :: byte where "y = ucast (code AND 0x7F)"
  have "y \<le> 0x7f" using one(1) by (simp add: y_def word_le_def uint_ucast_bits)
  then have "is_lead y" using ascii_class [of y] byte_class_mask [of y "0xC0" "0x80" "0x80"] by (auto simp: is_lead_def)
  then show ?thesis using one by (simp add: y_def)
next
  case (two y)
  then show ?thesis using byte_classes(1) [OF two(4)] by (simp add: is_lead_def)
next
  case (three y)
  then show ?thesis using byte_classes(2) [OF three(4)] by (simp add: is_lead_def)
next
  case (four y)
  then show ?thesis using byte_classes(3) [OF four(3)] by (simp add: is_lead_def)
qed

lemma utf8len_append: "utf8len (a @ b) = utf8len a + utf8len b"
  by (induction a) auto

lemma utf8len_cont: "list_all (\<lambda>b. \<not> is_lead b) cs \<Longrightarrow> utf8len cs = 0"
  by (induction cs) auto

definition utf8_text :: "uint32 list \<Rightarrow> byte list" where
  "utf8_text cs = concat (map utf8_encode cs)"

lemma utf8_text_split: "utf8_text cs = utf8_text (take k cs) @ utf8_text (drop k cs)"
  by (simp add: utf8_text_def flip: concat_append map_append)

lemma utf8len_text: "list_all code_point cs \<Longrightarrow> utf8len (utf8_text cs) = length cs"
proof (induction cs)
  case (Cons c cs)
  then show ?case
    using encode_leads [of c] by (auto simp: utf8_text_def utf8len_append utf8len_cont)
qed (simp add: utf8_text_def)

lemma index_cont:
  assumes "list_all (\<lambda>b. \<not> is_lead b) cs" and "pos \<noteq> 0"
  shows "utf8index_loop (cs @ rest) off pos = utf8index_loop rest (off + length cs) pos"
  using assms by (induction cs arbitrary: off) (auto simp: Let_def)

lemma index_text:
  assumes "list_all code_point cs"
  shows "utf8index_loop (utf8_text cs) off (int n + 1) =
         (if n < length cs then Some (off + length (utf8_text (take n cs))) else None)"
  using assms
proof (induction cs arbitrary: off n)
  case Nil
  then show ?case by (simp add: utf8_text_def)
next
  case (Cons c cs)
  then obtain y ys where y: "utf8_encode c = y # ys" "is_lead y" "list_all (\<lambda>b. \<not> is_lead b) ys"
    using encode_leads [of c] by auto
  have t: "utf8_text (c # cs) = y # ys @ utf8_text cs" by (simp add: utf8_text_def y)
  show ?case
  proof (cases n)
    case 0
    then show ?thesis using y by (simp add: t) (simp add: utf8_text_def)
  next
    case (Suc m)
    have "utf8index_loop (utf8_text (c # cs)) off (int n + 1) = utf8index_loop (ys @ utf8_text cs) (off + 1) (int m + 1)"
      using Suc y by (simp add: t add.commute)
    also have "\<dots> = utf8index_loop (utf8_text cs) (off + 1 + length ys) (int m + 1)"
      using y(3) by (rule index_cont) simp
    also have "\<dots> = (if m < length cs then Some (off + 1 + length ys + length (utf8_text (take m cs))) else None)"
      using Cons by simp
    finally show ?thesis using Suc y by (simp add: utf8_text_def)
  qed
qed



end
