(* ===== verification/Table_Props.thy ===== *)
theory Table_Props
  imports Table_Correct
begin

text \<open>
  What clients of the hash table rely on, over the table's own operations: insertion, deletion and
  bulk insertion act on the map a table stands for, the sweep of the intern table removes exactly
  the unmarked keys, and the inputs for which the code departs from that (nil keys, the two zeros,
  interned strings behind a tombstone).
\<close>

section \<open>Updates and lookups\<close>

text \<open>
  C1: Setting a key always returns, keeps the table's invariant, tells whether the key was new, and
  changes the map at that key only; a lookup of any key afterwards finds the new value or what it
  found before.
\<close>

theorem table_set_refines:
  assumes "tbl_inv hp t" and "tbl_key k" and "tbl_key k'" and "tbl_room t (Suc n)"
  shows "\<exists>t'. table_set hp t k v = Inr (t', tbl_map t k = None) \<and> tbl_inv hp t' \<and> tbl_room t' n \<and>
           tbl_map t' = (tbl_map t)(k \<mapsto> v) \<and>
           table_get hp t' k' = (if k' = k then Inr (Some v) else table_get hp t k')"
proof -
  from tbl.kset_law [OF assms(1,2,4)] obtain t' where
    t': "table_set hp t k v = Inr (t', tbl_map t k = None)" "tbl_inv hp t'"
    "tbl_map t' = (tbl_map t)(k \<mapsto> v)" "tbl_room t' n" by blast
  with tbl.kfind_law [OF t'(2) assms(3)] tbl.kfind_law [OF assms(1,3)] show ?thesis by auto
qed

lemma sample_key [simp]: "tbl_key TRUE_VAL" "tbl_key FALSE_VAL"
  by (simp_all add: tbl_key_def key_ok_def NEG_ZERO_def val_tests val_consts)

lemma tbl_room_init [simp]: "n \<le> 2 ^ 28 \<Longrightarrow> tbl_room init_table n"
  by (simp add: tbl_room_def init_table_def)

lemma one_entry:
  obtains t where "table_set Map.empty init_table TRUE_VAL NIL_VAL = Inr (t, True)"
    and "tbl_inv Map.empty t" and "tbl_map t = [TRUE_VAL \<mapsto> NIL_VAL]" and "t_count t \<le> 1"
proof -
  have "key_ok TRUE_VAL" using sample_key by (simp add: tbl_key_def)
  from table_set_correct [OF tbl_inv_init this, of Map.empty NIL_VAL] that show ?thesis
    by (auto simp: init_table_def [THEN arg_cong, of t_count])
qed

theorem table_set_refines_witness:
  "\<exists>t'. table_set Map.empty init_table TRUE_VAL NIL_VAL = Inr (t', True) \<and>
     table_get Map.empty t' TRUE_VAL = Inr (Some NIL_VAL)"
  using table_set_refines [of Map.empty init_table TRUE_VAL TRUE_VAL 0 NIL_VAL] by auto

text \<open>
  C3: Deleting a key always returns, tells whether the key was there, keeps the invariant (the slot
  becomes a tombstone, so every other key stays reachable) and removes that key only.
\<close>

theorem table_delete_refines:
  assumes "tbl_inv hp t" and "tbl_key k" and "tbl_key k'"
  shows "\<exists>t'. table_delete hp t k = Inr (t', tbl_map t k \<noteq> None) \<and> tbl_inv hp t' \<and>
           tbl_map t' = (tbl_map t)(k := None) \<and>
           table_get hp t' k' = (if k' = k then Inr None else table_get hp t k')"
proof -
  from tbl.kdel_law [OF assms(1,2)] obtain t' where
    t': "table_delete hp t k = Inr (t', tbl_map t k \<noteq> None)" "tbl_inv hp t'"
    "tbl_map t' = (tbl_map t)(k := None)" by blast
  with tbl.kfind_law [OF t'(2) assms(3)] tbl.kfind_law [OF assms(1,3)] show ?thesis by auto
qed

theorem table_delete_refines_witness:
  "\<exists>t t'. table_set Map.empty init_table TRUE_VAL NIL_VAL = Inr (t, True) \<and>
     table_delete Map.empty t TRUE_VAL = Inr (t', True) \<and> table_get Map.empty t' TRUE_VAL = Inr None"
proof -
  obtain t where t: "table_set Map.empty init_table TRUE_VAL NIL_VAL = Inr (t, True)"
    "tbl_inv Map.empty t" "tbl_map t = [TRUE_VAL \<mapsto> NIL_VAL]" by (rule one_entry)
  with table_delete_refines [OF t(2), of TRUE_VAL TRUE_VAL] show ?thesis by auto
qed

section \<open>Bulk operations\<close>

definition live_pairs :: "b_entry list \<Rightarrow> (b_value \<times> b_value) list" where
  "live_pairs es = map (\<lambda>e. (e_key e, e_value e)) (filter live es)"

lemma live_pairs_simps [simp]:
  "live_pairs [] = []"
  "live_pairs (e # es) = (if live e then (e_key e, e_value e) # live_pairs es else live_pairs es)"
  by (simp_all add: live_pairs_def)

lemma length_live_pairs [simp]: "length (live_pairs es) = live_count es"
  by (simp add: live_pairs_def live_count_def)

lemma map_of_live_pairs: "map_of (live_pairs es) = slots_map es"
proof
  show "map_of (live_pairs es) k = slots_map es k" for k
    by (induction es) (auto simp: slots_map_Cons slots_map_def)
qed

lemma distinct_live_pairs: "unique_keys es \<Longrightarrow> distinct (map fst (live_pairs es))"
proof (induction es)
  case (Cons e es)
  note u = unique_keys_Cons [OF Cons.prems]
  have "live e \<Longrightarrow> e_key e \<notin> fst ` set (live_pairs es)"
    using u(2) by (simp add: map_of_live_pairs [symmetric] map_of_eq_None_iff)
  with Cons.IH u(1) show ?case by auto
qed simp

lemma table_add_entries_set_list:
  "table_add_entries hp es to = set_list (table_set hp) to (live_pairs es)"
  by (induction es arbitrary: to) (auto simp: live_def bindR_def split: sum.splits)

lemma tbl_inv_unique: "tbl_inv hp t \<Longrightarrow> unique_keys (t_entries t)"
  by (auto simp: tbl_inv_def slots_wf_def unique_keys_def)

lemma tbl_inv_keys: "tbl_inv hp t \<Longrightarrow> e \<in> set (t_entries t) \<Longrightarrow> live e \<Longrightarrow> key_ok (e_key e)"
  by (auto simp: tbl_inv_def slots_wf_def in_set_conv_nth)

lemma table_add_all_correct:
  assumes "tbl_inv hp from" and "tbl_inv hp to" and "tbl_room to (live_count (t_entries from))"
  shows "\<exists>to'. table_add_all hp from to = Inr to' \<and> tbl_inv hp to' \<and>
           tbl_map to' = tbl_map to ++ tbl_map from"
proof -
  have k: "\<forall>(k, v) \<in> set (live_pairs (t_entries from)). key_ok k"
    using tbl_inv_keys [OF assms(1)] by (auto simp: live_pairs_def)
  have "map_of (rev (live_pairs (t_entries from))) = tbl_map from"
    using distinct_live_pairs [OF tbl_inv_unique [OF assms(1)]]
    using map_of_inject_set [of "rev (live_pairs (t_entries from))" "live_pairs (t_entries from)"]
    by (simp add: rev_map [symmetric] tbl_map_def map_of_live_pairs)
  with tblw.set_list_law [OF assms(2) k] assms(3) show ?thesis
    by (simp add: table_add_all_def table_add_entries_set_list)
qed

text \<open>
  Adding all entries of one table to another returns and gives the union of both maps, in which
  the entries of the source win.
\<close>

lemma table_add_all_union:
  assumes "tbl_inv hp from" and "tbl_inv hp to" and "tbl_room to (live_count (t_entries from))"
  shows "\<exists>to'. table_add_all hp from to = Inr to' \<and> tbl_inv hp to' \<and>
           tbl_map to' = tbl_map to ++ tbl_map from"
  using assms by (rule table_add_all_correct)

lemma table_add_all_union_instance:
  "\<exists>t to'. table_set Map.empty init_table TRUE_VAL NIL_VAL = Inr (t, True) \<and>
     table_add_all Map.empty t t = Inr to' \<and> tbl_map to' = [TRUE_VAL \<mapsto> NIL_VAL]"
proof -
  obtain t where t: "table_set Map.empty init_table TRUE_VAL NIL_VAL = Inr (t, True)"
    "tbl_inv Map.empty t" "tbl_map t = [TRUE_VAL \<mapsto> NIL_VAL]" "t_count t \<le> 1" by (rule one_entry)
  have "live_count (t_entries t) \<le> 1"
    using live_count_le_used [of "t_entries t"] t(2,4) by (simp add: tbl_inv_def)
  then have "tbl_room t (live_count (t_entries t))" using t(4) by (simp add: tbl_room_def)
  with table_add_all_union [OF t(2,2)] t show ?thesis by auto
qed

section \<open>Sweeping the weak table\<close>

definition white_key :: "(addr \<Rightarrow> bool) \<Rightarrow> b_value \<Rightarrow> bool" where
  "white_key white k = (IS_OBJ k \<and> white (AS_OBJ k))"

lemma table_delete_slots:
  assumes "table_delete hp t k = Inr (t', b)" and "i < length (t_entries t)"
  shows "length (t_entries t') = length (t_entries t) \<and>
         (t_entries t' ! i = t_entries t ! i \<or> \<not> live (t_entries t' ! i))"
  using assms
  by (auto simp: table_delete_def live_def bindR_def split: if_splits sum.splits)
    (metis b_entry.select_convs(1) nth_list_update_eq nth_list_update_neq singleton_tests(1))

text \<open>The slots in front of position \<open>p\<close> hold no white key.\<close>

definition swept :: "(addr \<Rightarrow> bool) \<Rightarrow> b_entry list \<Rightarrow> nat \<Rightarrow> bool" where
  "swept white es p = (\<forall>i < p. i < length es \<longrightarrow> live (es ! i) \<longrightarrow> \<not> white_key white (e_key (es ! i)))"

lemma swept_delete:
  assumes s: "swept white (t_entries t) p" and p: "p < length (t_entries t)"
    and d: "table_delete hp t (e_key (t_entries t ! p)) = Inr (t', b)"
    and gone: "tbl_map t' (e_key (t_entries t ! p)) = None"
  shows "swept white (t_entries t') (Suc p)"
proof -
  note slots = table_delete_slots [OF d]
  have len: "length (t_entries t') = length (t_entries t)" using slots [OF p] by simp
  have "\<not> live (t_entries t' ! p)"
    using gone slots [OF p] p len by (auto simp: tbl_map_def slots_map_None_iff)
  moreover have "\<not> white_key white (e_key (t_entries t' ! i))" if "i < p" "live (t_entries t' ! i)" for i
    using s slots [of i] that p by (auto simp: swept_def)
  ultimately show ?thesis by (auto simp: swept_def less_Suc_eq)
qed

lemma remove_whites_loop_correct:
  assumes "tbl_inv hp t" and "n \<le> t_capacity t" and "swept white (t_entries t) (t_capacity t - n)"
  shows "\<exists>t'. remove_whites_loop hp white n t = Inr t' \<and> tbl_inv hp t' \<and>
           tbl_map t' = (\<lambda>k. if white_key white k then None else tbl_map t k)"
  using assms
proof (induction n arbitrary: t)
  case 0
  then have "tbl_map t k = None" if "white_key white k" for k
    using that by (auto simp: swept_def tbl_map_def slots_map_None_iff tbl_inv_def)
  with 0 show ?case by (auto simp: fun_eq_iff)
next
  case (Suc n)
  let ?p = "t_capacity t - Suc n"
  let ?k = "e_key (t_entries t ! ?p)"
  have cap: "t_capacity t = length (t_entries t)" using Suc.prems(1) by (simp add: tbl_inv_def)
  have p: "?p < length (t_entries t)" "Suc ?p = t_capacity t - n" using Suc.prems(2) cap by auto
  show ?case
  proof (cases "white_key white ?k")
    case True
    then have "key_ok ?k" by (simp add: white_key_def)
    from table_delete_correct [OF Suc.prems(1) this] obtain t1 where
      t1: "table_delete hp t ?k = Inr (t1, ?k \<in> dom (tbl_map t))" "tbl_inv hp t1"
      "tbl_map t1 = (tbl_map t)(?k := None)" "t_capacity t1 = t_capacity t" by blast
    have "swept white (t_entries t1) (t_capacity t1 - n)"
      using swept_delete [OF Suc.prems(3) p(1) t1(1)] t1(3,4) p(2) by simp
    from Suc.IH [OF t1(2) _ this] t1(4) Suc.prems(2) obtain t2 where
      "remove_whites_loop hp white n t1 = Inr t2" "tbl_inv hp t2"
      "tbl_map t2 = (\<lambda>k. if white_key white k then None else tbl_map t1 k)" by auto
    with t1 True show ?thesis by (auto simp: Let_def white_key_def fun_eq_iff)
  next
    case False
    then have "swept white (t_entries t) (t_capacity t - n)"
      using Suc.prems(3) unfolding p(2) [symmetric] by (auto simp: swept_def less_Suc_eq)
    from Suc.IH [OF Suc.prems(1) _ this] Suc.prems(2) False show ?thesis
      by (auto simp: Let_def white_key_def)
  qed
qed

lemma table_remove_whites_map:
  assumes "tbl_inv hp t"
  shows "\<exists>t'. table_remove_whites hp white t = Inr t' \<and> tbl_inv hp t' \<and>
           tbl_map t' = (\<lambda>k. if white_key white k then None else tbl_map t k)"
  using remove_whites_loop_correct [OF assms, of "t_capacity t" white]
  by (simp add: table_remove_whites_def swept_def)

text \<open>
  C4: The sweep of the intern table removes every string the collector left white and keeps the
  others with their entries.
\<close>

theorem table_remove_whites_correct:
  assumes "tbl_inv hp t"
  shows "\<exists>t'. table_remove_whites hp white t = Inr t' \<and> tbl_inv hp t' \<and>
           tbl_map t' = (\<lambda>k. if IS_OBJ k \<and> white (AS_OBJ k) then None else tbl_map t k)"
  using table_remove_whites_map [OF assms, of white] by (simp add: white_key_def)

theorem table_remove_whites_correct_witness:
  "\<exists>t t'. table_set Map.empty init_table TRUE_VAL NIL_VAL = Inr (t, True) \<and>
     table_remove_whites Map.empty (\<lambda>_. True) t = Inr t' \<and> tbl_map t' TRUE_VAL = Some NIL_VAL"
proof -
  obtain t where t: "table_set Map.empty init_table TRUE_VAL NIL_VAL = Inr (t, True)"
    "tbl_inv Map.empty t" "tbl_map t = [TRUE_VAL \<mapsto> NIL_VAL]" by (rule one_entry)
  have "\<not> IS_OBJ TRUE_VAL" by (simp add: IS_OBJ_def val_consts)
  with table_remove_whites_correct [OF t(2), of "\<lambda>_. True"] t show ?thesis by auto
qed

section \<open>Keys the code loses\<close>

text \<open>
  A value stored under nil is kept by the table but never found by a lookup.
\<close>

lemma table_nil_key_not_found:
  assumes "tbl_inv hp t" and "tbl_room t (Suc n)"
  shows "\<exists>t'. table_set hp t NIL_VAL v = Inr (t', tbl_map t NIL_VAL = None) \<and>
           tbl_map t' NIL_VAL = Some v \<and> table_get hp t' NIL_VAL = Inr None"
proof -
  from tblw.kset_law [OF assms(1) nil_key_ok assms(2)] obtain t' where
    t': "table_set hp t NIL_VAL v = Inr (t', tbl_map t NIL_VAL = None)" "tbl_inv hp t'"
    "tbl_map t' = (tbl_map t)(NIL_VAL \<mapsto> v)" by blast
  with table_get_correct [OF t'(2) nil_key_ok] show ?thesis by auto
qed

lemma table_nil_key_not_found_instance:
  "\<exists>t'. table_set Map.empty init_table NIL_VAL TRUE_VAL = Inr (t', True) \<and>
     table_get Map.empty t' NIL_VAL = Inr None"
  using table_nil_key_not_found [of Map.empty init_table 0 TRUE_VAL] by auto

text \<open>One probe of the loops with a literal number of probes, for the evaluation of examples.\<close>

lemmas find_entry_loop_numeral [simp] =
  find_entry_loop.simps(2) [of "pred_numeral n" for n, folded numeral_eq_Suc]

lemmas find_string_loop_numeral [simp] =
  find_string_loop.simps(2) [of hp "pred_numeral n" for hp n, folded numeral_eq_Suc]

text \<open>The table that results from storing a value under the number zero in an empty table.\<close>

definition zero_table :: "b_value \<Rightarrow> b_table" where
  "zero_table v = \<lparr>t_count = 1, t_capacity = 4,
     t_entries = [pristine_entry, pristine_entry, pristine_entry, \<lparr>e_key = 0, e_value = v\<rparr>]\<rparr>"

lemma zero_hash: "hash_value hp 0 = 720020139" "hash_value hp NEG_ZERO = 360010069"
  by (simp_all add: hash_value_def IS_OBJ_def NEG_ZERO_def val_consts) code_simp+

lemma zero_tests: "\<not> IS_EMPTY 0" "\<not> IS_NIL 0" "\<not> IS_OBJ 0" "values_equal 0 0" "values_equal NEG_ZERO 0"
  by (auto simp: values_equal_refl values_equal_def IS_NUMBER_def IS_EMPTY_def IS_NIL_def IS_OBJ_def val_consts
      NEG_ZERO_def value_to_number_def dbl_eq_def dbl_key_def dbl_sign_def dbl_is_nan_def dbl_exp_def dbl_frac_def)

lemma zero_table_set: "table_set hp init_table 0 v = Inr (zero_table v, True)"
  by (simp add: zero_table_def table_set_def init_table_def over_load_def GROW_CAPACITY_def adjust_capacity_def
      find_entry_def zero_hash first_index_def pristine_entry_def) (simp add: numeral_eq_Suc)

lemma zero_table_get:
  "table_get hp (zero_table v) 0 = Inr (Some v)" "table_get hp (zero_table v) NEG_ZERO = Inr None"
  by (simp_all add: zero_table_def zero_hash zero_tests table_get_def find_entry_def first_index_def pristine_entry_def)

text \<open>
  The two zeros are equal values with different hashes: what is stored under one is not found
  under the other, although the stored key equals it.
\<close>

lemma table_signed_zero_lost:
  "values_equal NEG_ZERO 0 \<and> hash_value hp NEG_ZERO \<noteq> hash_value hp 0 \<and>
   (\<exists>t. table_set hp init_table 0 TRUE_VAL = Inr (t, True) \<and> table_get hp t 0 = Inr (Some TRUE_VAL) \<and>
        table_get hp t NEG_ZERO = Inr None)"
  by (simp add: zero_tests zero_hash zero_table_set zero_table_get)

section \<open>Interned strings\<close>

text \<open>The text of the string object a key refers to.\<close>

definition key_text :: "heap \<Rightarrow> b_value \<Rightarrow> byte list option" where
  "key_text hp k = (if IS_OBJ k then map_option s_chars (string_at hp (AS_OBJ k)) else None)"

definition string_ok :: "b_obj_string \<Rightarrow> bool" where
  "string_ok s = (s_length s = length (s_chars s) \<and> s_hash s = hash_string (s_chars s))"

text \<open>A table of interned strings: its keys are well-formed string objects.\<close>

definition intern_ok :: "heap \<Rightarrow> b_table \<Rightarrow> bool" where
  "intern_ok hp t =
     (tbl_inv hp t \<and>
      (\<forall>e \<in> set (t_entries t). live e \<longrightarrow>
         IS_OBJ (e_key e) \<and> (\<exists>s. string_at hp (AS_OBJ (e_key e)) = Some s \<and> string_ok s)))"

definition no_tombstones :: "b_table \<Rightarrow> bool" where
  "no_tombstones t = (\<forall>e \<in> set (t_entries t). live e \<or> pristine e)"

lemma find_string_loop_stops:
  assumes wf: "m \<le> 30" "length es = 2 ^ m"
    and keys: "\<And>e. e \<in> set es \<Longrightarrow> live e \<Longrightarrow> IS_OBJ (e_key e) \<and> (\<exists>s. string_at hp (AS_OBJ (e_key e)) = Some s \<and> string_ok s)"
    and no: "\<And>i. j \<le> i \<Longrightarrow> i < j + d \<Longrightarrow>
               live (es ! probe_h h (2 ^ m) i) \<and> key_text hp (e_key (es ! probe_h h (2 ^ m) i)) \<noteq> Some cs"
    and st: "\<not> live (es ! probe_h h (2 ^ m) (j + d)) \<or> key_text hp (e_key (es ! probe_h h (2 ^ m) (j + d))) = Some cs"
    and fuel: "d < fuel" and h: "h = hash_string cs"
  shows "find_string_loop hp fuel es (length es) cs h (probe_h h (2 ^ m) j) =
           Inr (if live (es ! probe_h h (2 ^ m) (j + d)) then Some (AS_OBJ (e_key (es ! probe_h h (2 ^ m) (j + d))))
                else None)"
  using no st fuel
proof (induction d arbitrary: j fuel)
  case 0
  obtain f where f: "fuel = Suc f" using 0 by (cases fuel) auto
  let ?e = "es ! probe_h h (2 ^ m) j"
  have lt: "probe_h h (2 ^ m) j < length es" by (simp add: wf probe_h_lt)
  show ?case
  proof (cases "live ?e")
    case True
    with keys [of ?e] lt obtain s where s: "IS_OBJ (e_key ?e)" "string_at hp (AS_OBJ (e_key ?e)) = Some s" "string_ok s"
      by auto
    with True 0 have "s_chars s = cs" by (simp add: key_text_def)
    with True s lt show ?thesis by (simp add: f h live_def string_ok_def)
  next
    case False
    with lt show ?thesis by (simp add: f live_def)
  qed
next
  case (Suc d)
  obtain f where f: "fuel = Suc f" "d < f" using Suc.prems by (cases fuel) auto
  let ?e = "es ! probe_h h (2 ^ m) j"
  have lt: "probe_h h (2 ^ m) j < length es" by (simp add: wf probe_h_lt)
  have ns: "live ?e" "key_text hp (e_key ?e) \<noteq> Some cs" using Suc.prems(1) [of j] by auto
  with keys [of ?e] lt obtain s where s: "IS_OBJ (e_key ?e)" "string_at hp (AS_OBJ (e_key ?e)) = Some s" "string_ok s"
    by auto
  with ns have "s_chars s \<noteq> cs" by (simp add: key_text_def)
  then have "find_string_loop hp fuel es (length es) cs h (probe_h h (2 ^ m) j) =
             find_string_loop hp f es (length es) cs h (probe_h h (2 ^ m) (Suc j))"
    using ns s lt by (auto simp: f live_def string_ok_def wf next_index_probe_h)
  moreover have "find_string_loop hp f es (length es) cs h (probe_h h (2 ^ m) (Suc j)) =
     Inr (if live (es ! probe_h h (2 ^ m) (Suc j + d)) then Some (AS_OBJ (e_key (es ! probe_h h (2 ^ m) (Suc j + d))))
          else None)"
    using Suc.prems f(2) by (intro Suc.IH) auto
  ultimately show ?case by simp
qed

lemma find_string_stop:
  assumes wf: "m \<le> 30" "length es = 2 ^ m" and room: "used es < length es"
    and keys: "\<And>e. e \<in> set es \<Longrightarrow> live e \<Longrightarrow> IS_OBJ (e_key e) \<and> (\<exists>s. string_at hp (AS_OBJ (e_key e)) = Some s \<and> string_ok s)"
    and h: "h = hash_string cs"
  obtains n where "n < 2 ^ m" and "\<forall>i < n. key_text hp (e_key (es ! probe_h h (2 ^ m) i)) \<noteq> Some cs"
    and "\<not> live (es ! probe_h h (2 ^ m) n) \<or> key_text hp (e_key (es ! probe_h h (2 ^ m) n)) = Some cs"
    and "find_string_loop hp (length es) es (length es) cs h (first_index h (length es)) =
           Inr (if live (es ! probe_h h (2 ^ m) n) then Some (AS_OBJ (e_key (es ! probe_h h (2 ^ m) n))) else None)"
proof -
  define St where "St i = (\<not> live (es ! probe_h h (2 ^ m) i) \<or> key_text hp (e_key (es ! probe_h h (2 ^ m) i)) = Some cs)" for i
  obtain p where p: "p < length es" "pristine (es ! p)" using room by (rule ex_pristine)
  obtain q where q: "q < 2 ^ m" "probe_h h (2 ^ m) q = p" using p(1) wf by (metis probe_h_surj)
  define n where "n = (LEAST n. St n)"
  have "St q" using q p pristine_not_live by (simp add: St_def)
  then have n: "St n" "n \<le> q" unfolding n_def by (rule LeastI, rule Least_le)
  have no: "\<not> St i" if "i < n" for i using that not_less_Least unfolding n_def by blast
  show ?thesis
  proof (rule that [of n])
    show "find_string_loop hp (length es) es (length es) cs h (first_index h (length es)) =
           Inr (if live (es ! probe_h h (2 ^ m) n) then Some (AS_OBJ (e_key (es ! probe_h h (2 ^ m) n))) else None)"
      using find_string_loop_stops [OF wf keys, of 0 n h cs "length es"] n no q wf h
      by (simp add: first_index_probe_h St_def)
  qed (use n no q in \<open>auto simp: St_def\<close>)
qed

lemma table_find_string_result:
  assumes ok: "intern_ok hp t" and nt: "no_tombstones t"
  shows "\<exists>r. table_find_string hp t cs (hash_string cs) = Inr r \<and>
           (case r of
              Some a \<Rightarrow> tbl_map t (OBJ_VAL a) \<noteq> None \<and> key_text hp (OBJ_VAL a) = Some cs
            | None \<Rightarrow> \<forall>k. tbl_map t k \<noteq> None \<longrightarrow> key_text hp k \<noteq> Some cs)"
proof (cases "t_entries t = []")
  case True
  with ok show ?thesis
    by (auto simp: intern_ok_def tbl_inv_def table_find_string_def used_def tbl_map_def slots_map_def)
next
  case False
  let ?es = "t_entries t" and ?h = "hash_string cs"
  have inv: "tbl_inv hp t" using ok by (simp add: intern_ok_def)
  with False have wf: "slots_wf hp ?es" and cap: "t_capacity t = length ?es" by (auto simp: tbl_inv_def)
  then obtain m where m: "m \<le> 30" "length ?es = 2 ^ m" by (auto simp: slots_wf_def)
  have keys: "IS_OBJ (e_key e) \<and> (\<exists>s. string_at hp (AS_OBJ (e_key e)) = Some s \<and> string_ok s)"
    if "e \<in> set ?es" "live e" for e using ok that by (auto simp: intern_ok_def)
  obtain n where n: "n < 2 ^ m"
    "\<forall>i < n. key_text hp (e_key (?es ! probe_h ?h (2 ^ m) i)) \<noteq> Some cs"
    "\<not> live (?es ! probe_h ?h (2 ^ m) n) \<or> key_text hp (e_key (?es ! probe_h ?h (2 ^ m) n)) = Some cs"
    "find_string_loop hp (length ?es) ?es (length ?es) cs ?h (first_index ?h (length ?es)) =
     Inr (if live (?es ! probe_h ?h (2 ^ m) n) then Some (AS_OBJ (e_key (?es ! probe_h ?h (2 ^ m) n))) else None)"
    by (rule find_string_stop [OF m tbl_inv_room [OF inv False] keys refl, of cs])
  let ?e = "?es ! probe_h ?h (2 ^ m) n"
  have lt: "probe_h ?h (2 ^ m) i < length ?es" for i by (simp add: m probe_h_lt)
  have dm: "tbl_map t k \<noteq> None \<longleftrightarrow> (\<exists>i < length ?es. live (?es ! i) \<and> e_key (?es ! i) = k)" for k
    unfolding tbl_map_def slots_map_None_iff by auto
  have none: "key_text hp (e_key (?es ! i)) \<noteq> Some cs" if "\<not> live ?e" "i < length ?es" "live (?es ! i)" for i
  proof
    assume tx: "key_text hp (e_key (?es ! i)) = Some cs"
    with keys [of "?es ! i"] that have "hash_value hp (e_key (?es ! i)) = ?h"
      by (auto simp: key_text_def hash_value_def hash_object_def string_at_def string_ok_def split: option.splits b_obj.splits)
    moreover have "reached hp ?es (e_key (?es ! i)) i" using wf that by (auto simp: slots_wf_def)
    ultimately obtain n' where n': "i = probe_h ?h (2 ^ m) n'" "\<forall>j < n'. \<not> pristine (?es ! probe_h ?h (2 ^ m) j)"
      by (auto simp: reached_def probe_def m)
    moreover have "pristine ?e" using nt that(1) lt by (auto simp: no_tombstones_def)
    ultimately have "n' \<le> n" by (meson not_le)
    with n(2) tx n' that show False by (cases "n' = n") auto
  qed
  have c0: "t_count t = 0 \<Longrightarrow> \<not> live ?e"
    using inv tbl_map_count_0 [OF inv] dm [of "e_key ?e"] lt by auto
  show ?thesis
  proof (cases "live ?e")
    case True
    with keys [of ?e] lt have o: "OBJ_VAL (AS_OBJ (e_key ?e)) = e_key ?e" by (auto intro: OBJ_VAL_AS_OBJ)
    show ?thesis
      using True n(3,4) c0 dm [of "e_key ?e"] lt cap o by (auto simp: table_find_string_def)
  next
    case False
    then have "table_find_string hp t cs ?h = Inr None"
      using n(4) cap by (simp add: table_find_string_def)
    with none [OF False] dm show ?thesis by auto
  qed
qed

text \<open>
  In a table of interned strings without tombstones, the lookup of a text with its hash returns
  the string object that has this text, and nothing exactly when no key has it.
\<close>

lemma table_find_string_correct:
  assumes ok: "intern_ok hp t" and nt: "no_tombstones t"
  shows "\<exists>r. table_find_string hp t cs (hash_string cs) = Inr r \<and>
           (case r of
              Some a \<Rightarrow> tbl_map t (OBJ_VAL a) \<noteq> None \<and> key_text hp (OBJ_VAL a) = Some cs
            | None \<Rightarrow> \<forall>k. tbl_map t k \<noteq> None \<longrightarrow> key_text hp k \<noteq> Some cs)"
  using assms by (rule table_find_string_result)

text \<open>Two one-letter strings whose first slot is the same in a table of four slots.\<close>

definition letter :: "byte \<Rightarrow> b_obj_string" where
  "letter c = \<lparr>s_length = 1, s_utf8_length = 1, s_is_ascii = True, s_hash = hash_string [c], s_chars = [c]\<rparr>"

definition letters :: heap where
  "letters = [16 \<mapsto> OString (letter 97), 32 \<mapsto> OString (letter 101)]"

definition letters_table :: b_table where
  "letters_table = \<lparr>t_count = 2, t_capacity = 4,
     t_entries = [\<lparr>e_key = OBJ_VAL 16, e_value = NIL_VAL\<rparr>, \<lparr>e_key = OBJ_VAL 32, e_value = NIL_VAL\<rparr>,
                  pristine_entry, pristine_entry]\<rparr>"

lemma letter_hashes [simp]: "hash_string [97] = 3826002220" "hash_string [101] = 3758891744"
  by code_simp+

lemma letters_at [simp]:
  "AS_OBJ (OBJ_VAL 16) = 16" "AS_OBJ (OBJ_VAL 32) = 32" "OBJ_VAL 16 \<noteq> OBJ_VAL 32" "OBJ_VAL 32 \<noteq> OBJ_VAL 16"
  "letters 16 = Some (OString (letter 97))" "letters 32 = Some (OString (letter 101))"
  by (simp_all add: letters_def AS_OBJ_def OBJ_VAL_def val_consts)

lemma letters_hash [simp]:
  "hash_value letters (OBJ_VAL 16) = 3826002220" "hash_value letters (OBJ_VAL 32) = 3758891744"
  by (simp_all add: hash_value_def hash_object_def letter_def)

lemma letters_key_tests [simp]:
  "\<not> IS_EMPTY (OBJ_VAL p)" "\<not> IS_NIL (OBJ_VAL p)" "tbl_key (OBJ_VAL p)"
  "values_equal (OBJ_VAL p) (OBJ_VAL q) \<longleftrightarrow> OBJ_VAL p = OBJ_VAL q"
  using obj_not_singleton [of "OBJ_VAL p"] by (simp_all add: tbl_key_def values_equal_key_ok)

lemmas table_eval = table_set_def over_load_def GROW_CAPACITY_def adjust_capacity_def find_entry_def
  first_index_def next_index_def

lemma letters_first:
  "table_set letters init_table (OBJ_VAL 16) NIL_VAL =
   Inr (\<lparr>t_count = 1, t_capacity = 4, t_entries = [\<lparr>e_key = OBJ_VAL 16, e_value = NIL_VAL\<rparr>,
         pristine_entry, pristine_entry, pristine_entry]\<rparr>, True)"
  by (simp add: init_table_def table_eval pristine_entry_def) (simp add: numeral_eq_Suc)

lemma letters_second:
  "table_set letters \<lparr>t_count = 1, t_capacity = 4, t_entries = [\<lparr>e_key = OBJ_VAL 16, e_value = NIL_VAL\<rparr>,
         pristine_entry, pristine_entry, pristine_entry]\<rparr> (OBJ_VAL 32) NIL_VAL = Inr (letters_table, True)"
  by (simp add: letters_table_def table_eval pristine_entry_def Let_def)

lemma letters_table_inv: "tbl_inv letters letters_table"
proof -
  have k: "key_ok (OBJ_VAL 16)" "key_ok (OBJ_VAL 32)" by simp_all
  from table_set_correct [OF tbl_inv_init k(1), of letters NIL_VAL] letters_first
  have "tbl_inv letters \<lparr>t_count = 1, t_capacity = 4, t_entries = [\<lparr>e_key = OBJ_VAL 16, e_value = NIL_VAL\<rparr>,
         pristine_entry, pristine_entry, pristine_entry]\<rparr>" by (auto simp: init_table_def [THEN arg_cong, of t_count])
  from table_set_correct [OF this k(2), of NIL_VAL] letters_second show ?thesis by auto
qed

lemma table_find_string_correct_instance:
  "\<exists>r. table_find_string letters letters_table [101] (hash_string [101]) = Inr (Some r) \<and>
     key_text letters (OBJ_VAL r) = Some [101]"
proof -
  have ok: "intern_ok letters letters_table"
    using letters_table_inv
    by (auto simp: intern_ok_def letters_table_def live_def string_at_def string_ok_def pristine_entry_def)
      (simp_all add: letter_def)
  have nt: "no_tombstones letters_table"
    by (simp add: no_tombstones_def letters_table_def live_def)
  have m: "tbl_map letters_table (OBJ_VAL 32) \<noteq> None"
    by (simp add: tbl_map_def slots_map_Cons letters_table_def live_def)
  have k: "key_text letters (OBJ_VAL 32) = Some [101]"
    by (simp add: key_text_def string_at_def letter_def)
  from table_find_string_correct [OF ok nt, of "[101]"] obtain r where
    r: "table_find_string letters letters_table [101] (hash_string [101]) = Inr r"
    "case r of Some a \<Rightarrow> tbl_map letters_table (OBJ_VAL a) \<noteq> None \<and> key_text letters (OBJ_VAL a) = Some [101]
     | None \<Rightarrow> \<forall>k. tbl_map letters_table k \<noteq> None \<longrightarrow> key_text letters k \<noteq> Some [101]" by blast
  with m k show ?thesis by (cases r) auto
qed

text \<open>
  Behind a tombstone an interned string is not found any more although the table still maps it:
  interning its text again makes a second object, so that equal texts compare as different values.
\<close>

lemma table_find_string_tombstone:
  "\<exists>t. table_find_string letters letters_table [101] (hash_string [101]) = Inr (Some 32) \<and>
       table_delete letters letters_table (OBJ_VAL 16) = Inr (t, True) \<and>
       table_get letters t (OBJ_VAL 32) = Inr (Some NIL_VAL) \<and>
       table_find_string letters t [101] (hash_string [101]) = Inr None"
proof -
  let ?t = "letters_table\<lparr>t_entries := [\<lparr>e_key = EMPTY_VAL, e_value = BOOL_VAL True\<rparr>,
     \<lparr>e_key = OBJ_VAL 32, e_value = NIL_VAL\<rparr>, pristine_entry, pristine_entry]\<rparr>"
  have "table_find_string letters letters_table [101] (hash_string [101]) = Inr (Some 32)"
    by (simp add: table_find_string_def letters_table_def table_eval string_at_def letter_def)
  moreover have "table_delete letters letters_table (OBJ_VAL 16) = Inr (?t, True)"
    by (simp add: table_delete_def letters_table_def table_eval)
  moreover have "table_get letters ?t (OBJ_VAL 32) = Inr (Some NIL_VAL)"
    by (simp add: table_get_def letters_table_def table_eval)
  moreover have "table_find_string letters ?t [101] (hash_string [101]) = Inr None"
    by (simp add: table_find_string_def letters_table_def table_eval)
  ultimately show ?thesis by blast
qed

end
