(* ===== verification/Strings.thy ===== *)
theory Strings
  imports Heap_State Util_UTF8 Table_Props
begin

text \<open>
  String objects (\<open>object.c\<close>): \<open>allocate_string\<close>, \<open>take_string\<close> and \<open>copy_string\<close> keep every text
  once in the table of interned strings, so that the comparison of pointers in \<open>values_equal\<close>
  compares texts. The characters of a C string are the bytes before the terminating zero; a text
  with a zero byte inside keeps its length, but \<open>utf8len\<close> stops at the zero.
\<close>

section \<open>Operations\<close>

definition c_string :: "byte list \<Rightarrow> byte list" where
  "c_string chars = takeWhile (\<lambda>b. b \<noteq> 0) chars"

definition string_object :: "byte list \<Rightarrow> uint32 \<Rightarrow> b_obj_string" where
  "string_object chars h =
     \<lparr>s_length = length chars, s_utf8_length = utf8len (c_string chars), s_is_ascii = False,
      s_hash = h, s_chars = chars\<rparr>"

definition allocate_string :: "hstate \<Rightarrow> byte list \<Rightarrow> uint32 \<Rightarrow> (hstate \<times> addr) res" where
  "allocate_string hs chars h =
     (let (hs1, a) = alloc_obj hs (OString (string_object chars h))
      in bindR (table_set (hs_heap hs1) (hs_strings hs1) (OBJ_VAL a) NIL_VAL)
           (\<lambda>(strings, _). Inr (hs1\<lparr>hs_strings := strings\<rparr>, a)))"

text \<open>\<open>take_string\<close> owns the characters, \<open>copy_string\<close> copies them: both give the same object.\<close>

definition take_string :: "hstate \<Rightarrow> byte list \<Rightarrow> (hstate \<times> addr) res" where
  "take_string hs chars =
     (let h = hash_string chars
      in bindR (table_find_string (hs_heap hs) (hs_strings hs) chars h)
           (\<lambda>interned. case interned of
              Some a \<Rightarrow> Inr (hs, a)
            | None \<Rightarrow> allocate_string hs chars h))"

definition copy_string :: "hstate \<Rightarrow> byte list \<Rightarrow> (hstate \<times> addr) res" where
  "copy_string hs chars =
     (let h = hash_string chars
      in bindR (table_find_string (hs_heap hs) (hs_strings hs) chars h)
           (\<lambda>interned. case interned of
              Some a \<Rightarrow> Inr (hs, a)
            | None \<Rightarrow> allocate_string hs chars h))"

lemma take_copy_string: "take_string hs chars = copy_string hs chars"
  by (simp add: take_string_def copy_string_def)

section \<open>Invariant\<close>

text \<open>Every text is interned once.\<close>

definition texts_once :: "heap \<Rightarrow> b_table \<Rightarrow> bool" where
  "texts_once hp t =
     (\<forall>k k' cs. tbl_map t k \<noteq> None \<and> tbl_map t k' \<noteq> None \<and>
        key_text hp k = Some cs \<and> key_text hp k' = Some cs \<longrightarrow> k = k')"

definition strings_inv :: "hstate \<Rightarrow> bool" where
  "strings_inv hs =
     (intern_ok (hs_heap hs) (hs_strings hs) \<and> no_tombstones (hs_strings hs) \<and>
      texts_once (hs_heap hs) (hs_strings hs))"

definition text_at :: "hstate \<Rightarrow> addr \<Rightarrow> byte list option" where
  "text_at hs a = map_option s_chars (string_at (hs_heap hs) a)"

definition interned :: "hstate \<Rightarrow> addr \<Rightarrow> bool" where
  "interned hs a = (tbl_map (hs_strings hs) (OBJ_VAL a) \<noteq> None)"

text \<open>The invariant of a table only depends on the hashes of the keys it holds.\<close>

lemma reached_hash: "hash_value hp k = hash_value hp' k \<Longrightarrow> reached hp es k i = reached hp' es k i"
  by (simp add: reached_def probe_def)

lemma tbl_inv_hash_on:
  assumes "\<forall>e \<in> set (t_entries t). live e \<longrightarrow> hash_value hp (e_key e) = hash_value hp' (e_key e)"
    and "tbl_inv hp t"
  shows "tbl_inv hp' t"
proof -
  have "reached hp' (t_entries t) (e_key (t_entries t ! i)) i"
    if "i < length (t_entries t)" "live (t_entries t ! i)" "reached hp (t_entries t) (e_key (t_entries t ! i)) i" for i
    using assms(1) that reached_hash [of hp "e_key (t_entries t ! i)" hp'] by simp
  with assms(2) show ?thesis by (auto simp: tbl_inv_def slots_wf_def)
qed

lemma rehash_no_tombstones:
  assumes "rehash hp c old es n = Inr (es', n')" and "\<forall>e \<in> set es. live e \<or> pristine e"
  shows "\<forall>e \<in> set es'. live e \<or> pristine e"
  using assms
proof (induction old arbitrary: es n)
  case (Cons e old)
  show ?case
  proof (cases "IS_EMPTY (e_key e)")
    case True
    with Cons show ?thesis by auto
  next
    case False
    with Cons.prems obtain i where i: "rehash hp c old (es[i := e]) (n + 1) = Inr (es', n')"
      by (auto simp: bindR_Inr_iff)
    have "\<forall>x \<in> set (es[i := e]). live x \<or> pristine x"
      using Cons.prems(2) False set_update_subset_insert [of es i e] by (auto simp: live_def)
    with Cons.IH [OF i] show ?thesis by blast
  qed
qed auto

lemma table_set_no_tombstones:
  assumes "table_set hp t k v = Inr (t', b)" and "no_tombstones t" and "\<not> IS_EMPTY k"
  shows "no_tombstones t'"
proof -
  from assms(1) obtain t1 i where
    t1: "(if over_load (t_count t + 1) (t_capacity t)
          then adjust_capacity hp t (GROW_CAPACITY (t_capacity t)) else Inr t) = Inr t1"
    and e: "t_entries t' = (t_entries t1)[i := \<lparr>e_key = k, e_value = v\<rparr>]"
    by (auto simp: table_set_def bindR_Inr_iff Let_def)
  have "no_tombstones t1"
    using t1 assms(2) rehash_no_tombstones
    by (fastforce simp: adjust_capacity_def bindR_Inr_iff no_tombstones_def split: if_splits)
  then show ?thesis
    using e assms(3) set_update_subset_insert [of "t_entries t1" i "\<lparr>e_key = k, e_value = v\<rparr>"]
    by (auto simp: no_tombstones_def live_def)
qed

lemma live_tbl_map: "e \<in> set (t_entries t) \<Longrightarrow> live e \<Longrightarrow> tbl_map t (e_key e) \<noteq> None"
  unfolding tbl_map_def slots_map_None_iff by (auto simp: in_set_conv_nth)

lemma tbl_map_live: "tbl_map t k \<noteq> None \<Longrightarrow> \<exists>e \<in> set (t_entries t). live e \<and> e_key e = k"
  unfolding tbl_map_def slots_map_None_iff by auto

lemma intern_ok_iff:
  "intern_ok hp t \<longleftrightarrow> tbl_inv hp t \<and>
     (\<forall>k. tbl_map t k \<noteq> None \<longrightarrow> IS_OBJ k \<and> (\<exists>s. string_at hp (AS_OBJ k) = Some s \<and> string_ok s))"
proof -
  have "(\<forall>e \<in> set (t_entries t). live e \<longrightarrow> P (e_key e)) \<longleftrightarrow> (\<forall>k. tbl_map t k \<noteq> None \<longrightarrow> P k)" for P
    using live_tbl_map [of _ t] tbl_map_live [of t] by blast
  then show ?thesis unfolding intern_ok_def by (rule arg_cong)
qed

lemma find_string_loop_addr_ok:
  "find_string_loop hp fuel es c cs h i = Inr (Some a) \<Longrightarrow> addr_ok a"
  by (induction hp fuel es c cs h i rule: find_string_loop.induct)
    (auto simp: Let_def split: if_splits option.splits)

lemma find_string_addr_ok: "table_find_string hp t cs h = Inr (Some a) \<Longrightarrow> addr_ok a"
  by (auto simp: table_find_string_def find_string_loop_addr_ok split: if_splits)

section \<open>A new string\<close>

lemma string_at_alloc [simp]:
  "string_at (hp(a \<mapsto> OString s)) c = (if c = a then Some s else string_at hp c)"
  by (simp add: string_at_def)

lemma string_at_fresh [simp]: "hp a = None \<Longrightarrow> string_at hp a = None"
  by (simp add: string_at_def)

lemma key_text_alloc:
  assumes "hp a = None" and "key_text hp k = Some cs"
  shows "key_text (hp(a \<mapsto> OString s)) k = Some cs"
  using assms by (auto simp: key_text_def split: if_splits)

lemma hash_string_key:
  assumes "IS_OBJ k" and "string_at hp (AS_OBJ k) = Some s"
  shows "hash_value hp k = s_hash s"
  using assms by (auto simp: hash_value_def hash_object_def string_at_def split: option.splits b_obj.splits)

lemma intern_ok_alloc:
  assumes ok: "intern_ok hp t" and fresh: "hp a = None"
  shows "intern_ok (hp(a \<mapsto> OString s)) t"
proof -
  have keys: "IS_OBJ k \<and> (\<exists>s. string_at hp (AS_OBJ k) = Some s \<and> string_ok s)" if "tbl_map t k \<noteq> None" for k
    using ok that by (auto simp: intern_ok_iff)
  have str: "string_at (hp(a \<mapsto> OString s)) (AS_OBJ k) = string_at hp (AS_OBJ k)" if "tbl_map t k \<noteq> None" for k
    using keys [OF that] fresh by auto
  have "hash_value hp (e_key e) = hash_value (hp(a \<mapsto> OString s)) (e_key e)"
    if "e \<in> set (t_entries t)" "live e" for e
  proof -
    note m = live_tbl_map [OF that]
    from keys [OF m] obtain s' where s': "IS_OBJ (e_key e)" "string_at hp (AS_OBJ (e_key e)) = Some s'" by blast
    have "string_at (hp(a \<mapsto> OString s)) (AS_OBJ (e_key e)) = Some s'" unfolding str [OF m] by (rule s')
    from hash_string_key [OF s'(1) this] hash_string_key [OF s'] show ?thesis by simp
  qed
  then have "\<forall>e \<in> set (t_entries t). live e \<longrightarrow> hash_value hp (e_key e) = hash_value (hp(a \<mapsto> OString s)) (e_key e)"
    by blast
  moreover have "tbl_inv hp t" using ok unfolding intern_ok_def by (rule conjunct1)
  ultimately have inv: "tbl_inv (hp(a \<mapsto> OString s)) t" by (rule tbl_inv_hash_on)
  show ?thesis
    unfolding intern_ok_iff
  proof (intro conjI allI impI)
    fix k assume k: "tbl_map t k \<noteq> None"
    show "IS_OBJ k" "\<exists>s'. string_at (hp(a \<mapsto> OString s)) (AS_OBJ k) = Some s' \<and> string_ok s'"
      using keys [OF k] unfolding str [OF k] by blast+
  qed (rule inv)
qed

lemma strings_keyE:
  assumes "intern_ok hp t" and "tbl_map t k \<noteq> None"
  obtains s where "IS_OBJ k" and "string_at hp (AS_OBJ k) = Some s" and "string_ok s"
    and "key_text hp k = Some (s_chars s)"
  using assms that by (auto simp: intern_ok_iff key_text_def)

lemma allocate_string_correct:
  assumes inv: "strings_inv hs" and fresh: "fresh_ok hs" and room: "tbl_room (hs_strings hs) (Suc n)"
    and new: "\<forall>k. tbl_map (hs_strings hs) k \<noteq> None \<longrightarrow> key_text (hs_heap hs) k \<noteq> Some cs"
  shows "\<exists>hs'. allocate_string hs cs (hash_string cs) = Inr (hs', hs_next hs) \<and> strings_inv hs' \<and>
           hs_heap hs' = (hs_heap hs)(hs_next hs \<mapsto> OString (string_object cs (hash_string cs))) \<and>
           hs_next hs' = hs_next hs + 32 \<and> tbl_room (hs_strings hs') n \<and>
           tbl_map (hs_strings hs') = (tbl_map (hs_strings hs))(OBJ_VAL (hs_next hs) \<mapsto> NIL_VAL)"
proof -
  let ?a = "hs_next hs" and ?s = "string_object cs (hash_string cs)" and ?t = "hs_strings hs"
  let ?hp = "(hs_heap hs)(?a \<mapsto> OString ?s)"
  from fresh have a: "hs_heap hs ?a = None" "AS_OBJ (OBJ_VAL ?a) = ?a"
    by (auto simp: fresh_ok_def AS_OBJ_OBJ_VAL)
  from inv have ok: "intern_ok (hs_heap hs) ?t" by (simp add: strings_inv_def)
  note ok' = intern_ok_alloc [where a = ?a and s = ?s, OF ok a(1)]
  then have "tbl_inv ?hp ?t" by (simp add: intern_ok_def)
  from tblw.kset_law [OF this _ room, of "OBJ_VAL ?a" NIL_VAL] obtain t' where
    t': "table_set ?hp ?t (OBJ_VAL ?a) NIL_VAL = Inr (t', tbl_map ?t (OBJ_VAL ?a) = None)" "tbl_inv ?hp t'"
    "tbl_map t' = (tbl_map ?t)(OBJ_VAL ?a \<mapsto> NIL_VAL)" "tbl_room t' n" by auto
  have tx: "key_text ?hp (OBJ_VAL ?a) = Some cs" by (simp add: key_text_def a string_object_def)
  have "intern_ok ?hp t'"
    using ok' t' a by (auto simp: intern_ok_iff string_ok_def string_object_def)
  moreover have "no_tombstones t'"
    using table_set_no_tombstones [OF t'(1)] inv obj_not_singleton(1) [of "OBJ_VAL ?a"]
    by (simp add: strings_inv_def)
  moreover have "texts_once ?hp t'"
  proof -
    have old: "key_text ?hp k = key_text (hs_heap hs) k" if "tbl_map ?t k \<noteq> None" for k
      using that by (rule strings_keyE [OF ok]) (use a(1) in \<open>auto simp: key_text_def\<close>)
    have "k = k'" if m: "tbl_map t' k \<noteq> None" "tbl_map t' k' \<noteq> None" and x: "key_text ?hp k = Some ds"
      "key_text ?hp k' = Some ds" for k k' ds
    proof (cases "k = OBJ_VAL ?a \<or> k' = OBJ_VAL ?a")
      case True
      then have "ds = cs" using tx x by auto
      then have "k = OBJ_VAL ?a" "k' = OBJ_VAL ?a" using m x new old t'(3) by (metis fun_upd_other)+
      then show ?thesis by simp
    next
      case False
      then have "tbl_map ?t k \<noteq> None" "tbl_map ?t k' \<noteq> None" using m t'(3) by auto
      with x old inv show ?thesis unfolding strings_inv_def texts_once_def by metis
    qed
    then show ?thesis unfolding texts_once_def by blast
  qed
  ultimately have "strings_inv (hs\<lparr>hs_heap := ?hp, hs_next := ?a + 32, hs_strings := t'\<rparr>)"
    by (simp add: strings_inv_def)
  with t' show ?thesis
    by (simp add: allocate_string_def alloc_obj_def)
qed

text \<open>What a client of \<open>copy_string\<close> gets.\<close>

definition string_copied :: "hstate \<Rightarrow> byte list \<Rightarrow> hstate \<Rightarrow> addr \<Rightarrow> bool" where
  "string_copied hs cs hs' a =
     (strings_inv hs' \<and> text_at hs' a = Some cs \<and> interned hs' a \<and> addr_ok a \<and>
      (\<forall>c. hs_heap hs c \<noteq> None \<longrightarrow> hs_heap hs' c = hs_heap hs c) \<and>
      (\<forall>c. interned hs c \<longrightarrow> interned hs' c))"

lemma copy_string_found:
  assumes "strings_inv hs" and "interned hs a" and "text_at hs a = Some cs" and "addr_ok a"
  shows "copy_string hs cs = Inr (hs, a)"
proof -
  from assms(1) have i: "intern_ok (hs_heap hs) (hs_strings hs)" "no_tombstones (hs_strings hs)"
    "texts_once (hs_heap hs) (hs_strings hs)" by (auto simp: strings_inv_def)
  have k: "tbl_map (hs_strings hs) (OBJ_VAL a) \<noteq> None" "key_text (hs_heap hs) (OBJ_VAL a) = Some cs"
    using assms by (auto simp: interned_def text_at_def key_text_def AS_OBJ_OBJ_VAL)
  from table_find_string_result [OF i(1,2), of cs] obtain r where
    r: "table_find_string (hs_heap hs) (hs_strings hs) cs (hash_string cs) = Inr r"
    and c: "case r of Some c \<Rightarrow> tbl_map (hs_strings hs) (OBJ_VAL c) \<noteq> None \<and> key_text (hs_heap hs) (OBJ_VAL c) = Some cs
            | None \<Rightarrow> \<forall>k. tbl_map (hs_strings hs) k \<noteq> None \<longrightarrow> key_text (hs_heap hs) k \<noteq> Some cs" by blast
  from c k obtain b where b: "r = Some b" "tbl_map (hs_strings hs) (OBJ_VAL b) \<noteq> None"
    "key_text (hs_heap hs) (OBJ_VAL b) = Some cs" by (cases r) auto
  with i(3) k have e: "OBJ_VAL b = OBJ_VAL a" unfolding texts_once_def by blast
  have "addr_ok b" by (rule find_string_addr_ok) (rule r [unfolded b(1)])
  from OBJ_VAL_inj [OF this assms(4) e] r b(1) show ?thesis by (simp add: copy_string_def)
qed

lemma copy_string_result:
  assumes inv: "strings_inv hs" and fresh: "fresh_ok hs" and room: "tbl_room (hs_strings hs) (Suc n)"
  shows "\<exists>hs' a. copy_string hs cs = Inr (hs', a) \<and> string_copied hs cs hs' a \<and>
           (hs' = hs \<or> hs_next hs' = hs_next hs + 32) \<and> tbl_room (hs_strings hs') n"
proof -
  from inv have i: "intern_ok (hs_heap hs) (hs_strings hs)" "no_tombstones (hs_strings hs)"
    by (auto simp: strings_inv_def)
  from table_find_string_result [OF i, of cs] obtain r where
    r: "table_find_string (hs_heap hs) (hs_strings hs) cs (hash_string cs) = Inr r"
    and c: "case r of Some c \<Rightarrow> tbl_map (hs_strings hs) (OBJ_VAL c) \<noteq> None \<and> key_text (hs_heap hs) (OBJ_VAL c) = Some cs
            | None \<Rightarrow> \<forall>k. tbl_map (hs_strings hs) k \<noteq> None \<longrightarrow> key_text (hs_heap hs) k \<noteq> Some cs" by blast
  show ?thesis
  proof (cases r)
    case (Some a)
    then have "addr_ok a" using r by (auto intro: find_string_addr_ok)
    with Some c inv have "string_copied hs cs hs a"
      by (auto simp: string_copied_def text_at_def interned_def key_text_def AS_OBJ_OBJ_VAL)
    moreover have "tbl_room (hs_strings hs) n" using room by (simp add: tbl_room_def)
    ultimately show ?thesis using Some r by (auto simp: copy_string_def)
  next
    case None
    with c allocate_string_correct [OF inv fresh room, of cs] obtain hs' where
      hs': "allocate_string hs cs (hash_string cs) = Inr (hs', hs_next hs)" "strings_inv hs'"
      "hs_heap hs' = (hs_heap hs)(hs_next hs \<mapsto> OString (string_object cs (hash_string cs)))"
      "hs_next hs' = hs_next hs + 32" "tbl_room (hs_strings hs') n"
      "tbl_map (hs_strings hs') = (tbl_map (hs_strings hs))(OBJ_VAL (hs_next hs) \<mapsto> NIL_VAL)" by auto
    have "string_copied hs cs hs' (hs_next hs)"
      using fresh hs' by (auto simp: string_copied_def interned_def text_at_def fresh_ok_def string_object_def)
    with hs' None r show ?thesis by (auto simp: copy_string_def)
  qed
qed

lemma copy_string_fresh:
  assumes "copy_string hs cs = Inr (hs', a)" and "hs_heap hs c = None" and "c \<noteq> hs_next hs"
  shows "hs_heap hs' c = None"
  using assms
  by (auto simp: copy_string_def allocate_string_def alloc_obj_def bindR_Inr_iff Let_def split: option.splits)


definition no_strings :: hstate where
  "no_strings = \<lparr>hs_heap = Map.empty, hs_next = 16, hs_strings = init_table\<rparr>"


end
