(* ===== verification/Bytes_Methods.thy ===== *)
theory Bytes_Methods
  imports List_Methods Strings
begin

text \<open>
  \<open>bytes.c\<close>: the \<open>bytes\<close> function and the native methods of byte arrays, one definition per
  \<open>DECLARE_BYTES_METHOD\<close>. A byte array has a count and a block; methods that shorten it only lower
  the count, methods that grow it reallocate the block to the new count. When a method throws after
  it has grown the block, the count and the bytes below it are as before the call.
\<close>

section \<open>Memory functions\<close>

text \<open>\<open>memcpy(dst + off, src + soff, n)\<close>; indeterminate bytes are copied as such.\<close>

definition memcpy :: "byte cells \<Rightarrow> int \<Rightarrow> byte cells \<Rightarrow> int \<Rightarrow> nat \<Rightarrow> byte cells res" where
  "memcpy dst off src soff n =
     (if off < 0 \<or> soff < 0 \<or> int (length dst) < off + int n \<or> int (length src) < soff + int n
      then Inl OutOfBounds
      else Inr (take (nat off) dst @ take n (drop (nat soff) src) @ drop (nat off + n) dst))"

text \<open>\<open>memcmp(a + i, b + j, n) == 0\<close>, reading no further than the first difference.\<close>

fun memcmp_eq :: "byte cells \<Rightarrow> int \<Rightarrow> byte cells \<Rightarrow> int \<Rightarrow> nat \<Rightarrow> bool res" where
  "memcmp_eq a i b j 0 = Inr True"
| "memcmp_eq a i b j (Suc n) =
     bindR (cell_get a i) (\<lambda>x. bindR (cell_get b j)
       (\<lambda>y. if x = y then memcmp_eq a (i + 1) b (j + 1) n else Inr False))"

text \<open>\<open>GROW_ARRAY\<close> to \<open>n\<close> bytes; with size zero \<open>reallocate\<close> releases the block and returns null.\<close>

definition grow_bytes :: "byte cells \<Rightarrow> int \<Rightarrow> byte cells" where
  "grow_bytes cs n = cells_resize cs (nat n)"

text \<open>\<open>(unsigned char) d\<close> is undefined when the truncated value is not a byte.\<close>

definition byte_of_double :: "double \<Rightarrow> byte res" where
  "byte_of_double d =
     (case dbl_trunc d of
        None \<Rightarrow> Inl InvalidCast
      | Some n \<Rightarrow> if 0 \<le> n \<and> n < 256 then Inr (word_of_int n) else Inl InvalidCast)"

definition byte_val :: "byte \<Rightarrow> b_value" where
  "byte_val c = number_val (uint c)"

text \<open>The bytes \<open>0\<close> to \<open>count - 1\<close> in order.\<close>

definition bytes_read :: "b_byte_arr \<Rightarrow> byte list res" where
  "bytes_read b = mapR (\<lambda>i. cell_get (ba_bytes b) (int i)) [0..<nat (ba_count b)]"

text \<open>\<open>copy_bytes\<close> of \<open>object.c\<close>, on the source bytes from \<open>soff\<close>.\<close>

definition copy_bytes :: "hstate \<Rightarrow> byte cells \<Rightarrow> int \<Rightarrow> int \<Rightarrow> (hstate \<times> addr) res" where
  "copy_bytes hs src soff n =
     (let b = init_byte_arr n
      in bindR (memcpy (ba_bytes b) 0 src soff (nat n))
           (\<lambda>cs. Inr (alloc_obj hs (OBytes (b\<lparr>ba_bytes := cs\<rparr>)))))"

section \<open>Creation\<close>

definition list_byte :: "b_value \<Rightarrow> byte res" where
  "list_byte v = (if IS_NUMBER v then byte_of_double (value_to_number v) else Inr 0)"

definition bytes_native :: "hstate \<Rightarrow> b_value list \<Rightarrow> (hstate \<times> b_value) res" where
  "bytes_native hs args =
     ENFORCE_ARG_COUNT ''bytes'' 1 args
       (if IS_NUMBER (args ! 0)
        then bindR (as_int (args ! 0)) (\<lambda>n. let (hs', p) = new_bytes hs n in Inr (hs', OBJ_VAL p))
        else if IS_LIST (hs_heap hs) (args ! 0)
        then bindR (list_at hs (AS_OBJ (args ! 0))) (\<lambda>l. bindR (arr_read l) (\<lambda>xs.
               bindR (mapR list_byte xs)
                 (\<lambda>bs. let (hs', p) = alloc_obj hs (OBytes \<lparr>ba_count = int (va_count l), ba_bytes = map Some bs\<rparr>)
                       in Inr (hs', OBJ_VAL p))))
        else Inl (Thrown ''expected bytes size or bytes list as argument''))"

definition bytes_length :: "hstate \<Rightarrow> addr \<Rightarrow> b_value list \<Rightarrow> (hstate \<times> b_value) res" where
  "bytes_length hs self args =
     ENFORCE_ARG_COUNT ''length'' 0 args
       (bindR (bytes_at hs self) (\<lambda>b. Inr (hs, number_val (ba_count b))))"

section \<open>Growing\<close>

definition valid_byte :: "b_value \<Rightarrow> byte res" where
  "valid_byte v =
     bindR (as_int v) (\<lambda>n. if n < 0 \<or> 255 < n then Inl (Thrown ''invalid byte. bytes range from 0 to 255'')
                           else Inr (word_of_int n))"

text \<open>The loop of \<open>append\<close> over the items of a list.\<close>

fun append_loop :: "byte cells \<Rightarrow> int \<Rightarrow> b_value list \<Rightarrow> byte cells res" where
  "append_loop cs i [] = Inr cs"
| "append_loop cs i (v # vs) =
     (if \<not> IS_NUMBER v then Inl (Thrown ''bytes lists can only contain numbers'')
      else bindR (valid_byte v) (\<lambda>c. bindR (cell_set cs i c) (\<lambda>cs'. append_loop cs' (i + 1) vs)))"

definition bytes_append :: "hstate \<Rightarrow> addr \<Rightarrow> b_value list \<Rightarrow> (hstate \<times> b_value) res" where
  "bytes_append hs self args =
     ENFORCE_ARG_COUNT ''append'' 1 args
       (if IS_NUMBER (args ! 0)
        then bindR (valid_byte (args ! 0)) (\<lambda>c. bindR (bytes_at hs self) (\<lambda>b.
               bindR (cell_set (grow_bytes (ba_bytes b) (ba_count b + 1)) (ba_count b) c)
                 (\<lambda>cs. Inr (put_obj hs self (OBytes \<lparr>ba_count = ba_count b + 1, ba_bytes = cs\<rparr>), EMPTY_VAL))))
        else if IS_LIST (hs_heap hs) (args ! 0)
        then bindR (list_at hs (AS_OBJ (args ! 0))) (\<lambda>l.
               if 0 < va_count l
               then bindR (bytes_at hs self) (\<lambda>b. bindR (arr_read l) (\<lambda>xs.
                      bindR (append_loop (grow_bytes (ba_bytes b) (ba_count b + int (va_count l))) (ba_count b) xs)
                        (\<lambda>cs. Inr (put_obj hs self (OBytes \<lparr>ba_count = ba_count b + int (va_count l), ba_bytes = cs\<rparr>),
                                   EMPTY_VAL))))
               else Inr (hs, EMPTY_VAL))
        else Inl (Thrown ''bytes can only append a byte or a list of bytes''))"

definition bytes_clone :: "hstate \<Rightarrow> addr \<Rightarrow> b_value list \<Rightarrow> (hstate \<times> b_value) res" where
  "bytes_clone hs self args =
     ENFORCE_ARG_COUNT ''clone'' 0 args
       (bindR (bytes_at hs self) (\<lambda>b. bindR (copy_bytes hs (ba_bytes b) 0 (ba_count b))
         (\<lambda>(hs', p). Inr (hs', OBJ_VAL p))))"

text \<open>
  \<open>extend\<close> takes a null pointer for a failed allocation; it is also what \<open>reallocate\<close> returns for
  two empty arrays. The argument is read after the block has grown: both may be the same object.
\<close>

definition bytes_extend :: "hstate \<Rightarrow> addr \<Rightarrow> b_value list \<Rightarrow> (hstate \<times> b_value) res" where
  "bytes_extend hs self args =
     ENFORCE_ARG_COUNT ''extend'' 1 args (ENFORCE_ARG_TYPE ''extend'' 0 ''bytes'' (IS_BYTES (hs_heap hs)) args
       (bindR (bytes_at hs self) (\<lambda>b. bindR (bytes_at hs (AS_OBJ (args ! 0))) (\<lambda>n.
          let total = ba_count b + ba_count n;
              hs1 = put_obj hs self (OBytes (b\<lparr>ba_bytes := grow_bytes (ba_bytes b) total\<rparr>))
          in if total = 0 then Inl (Thrown ''out of memory'')
             else bindR (bytes_at hs1 (AS_OBJ (args ! 0))) (\<lambda>src.
                    bindR (memcpy (grow_bytes (ba_bytes b) total) (ba_count b) (ba_bytes src) 0 (nat (ba_count src)))
                      (\<lambda>cs. Inr (put_obj hs1 self (OBytes \<lparr>ba_count = total, ba_bytes = cs\<rparr>), OBJ_VAL self)))))))"

section \<open>Shrinking\<close>

definition bytes_pop :: "hstate \<Rightarrow> addr \<Rightarrow> b_value list \<Rightarrow> (hstate \<times> b_value) res" where
  "bytes_pop hs self args =
     ENFORCE_ARG_COUNT ''pop'' 0 args
       (bindR (bytes_at hs self) (\<lambda>b. bindR (cell_get (ba_bytes b) (ba_count b - 1))
         (\<lambda>c. Inr (put_obj hs self (OBytes (b\<lparr>ba_count := ba_count b - 1\<rparr>)), byte_val c))))"

definition bytes_remove :: "hstate \<Rightarrow> addr \<Rightarrow> b_value list \<Rightarrow> (hstate \<times> b_value) res" where
  "bytes_remove hs self args =
     ENFORCE_ARG_COUNT ''remove'' 1 args (ENFORCE_ARG_TYPE ''remove'' 0 ''number'' IS_NUMBER args
       (bindR (bytes_at hs self) (\<lambda>b. bindR (as_int (args ! 0)) (\<lambda>index.
          if index < 0 \<or> ba_count b \<le> index then Inl (Thrown ''bytes index %d out of range'')
          else bindR (cell_get (ba_bytes b) index) (\<lambda>c.
                 bindR (shift_down (ba_bytes b) index (nat (ba_count b - index)))
                   (\<lambda>cs. Inr (put_obj hs self (OBytes \<lparr>ba_count = ba_count b - 1, ba_bytes = cs\<rparr>), byte_val c)))))))"

definition bytes_dispose :: "hstate \<Rightarrow> addr \<Rightarrow> b_value list \<Rightarrow> (hstate \<times> b_value) res" where
  "bytes_dispose hs self args =
     ENFORCE_ARG_COUNT ''dispose'' 0 args
       (bindR (bytes_at hs self) (\<lambda>b. Inr (put_obj hs self (OBytes (free_byte_arr b)), EMPTY_VAL)))"

section \<open>Reading\<close>

definition bytes_reverse :: "hstate \<Rightarrow> addr \<Rightarrow> b_value list \<Rightarrow> (hstate \<times> b_value) res" where
  "bytes_reverse hs self args =
     ENFORCE_ARG_COUNT ''reverse'' 0 args
       (bindR (bytes_at hs self) (\<lambda>b.
        bindR (mapR (\<lambda>i. cell_get (ba_bytes b) (ba_count b - int i - 1)) [0..<nat (ba_count b)])
          (\<lambda>cs. let (hs', p) = alloc_obj hs (OBytes \<lparr>ba_count = ba_count b, ba_bytes = map Some cs\<rparr>)
                in Inr (hs', OBJ_VAL p))))"

text \<open>
  The loop of \<open>split\<close> for a non-empty delimiter: \<open>i\<close> runs up to and including \<open>count\<close>, and the
  comparison comes before the test for the end. A loop of more than \<open>count + 1\<close> rounds does not occur.
\<close>

fun split_loop :: "nat \<Rightarrow> hstate \<Rightarrow> addr \<Rightarrow> b_byte_arr \<Rightarrow> b_byte_arr \<Rightarrow> int \<Rightarrow> int \<Rightarrow> hstate res" where
  "split_loop 0 hs list b d start i = Inl Divergence"
| "split_loop (Suc fuel) hs list b d start i =
     (if ba_count b < i then Inr hs
      else bindR (memcmp_eq (ba_bytes b) i (ba_bytes d) 0 (nat (ba_count d))) (\<lambda>same.
             if same \<or> i = ba_count b
             then bindR (copy_bytes hs (ba_bytes b) start (i - start)) (\<lambda>(hs1, p).
                  bindR (write_list hs1 list (OBJ_VAL p)) (\<lambda>hs2.
                    split_loop fuel hs2 list b d (i + ba_count d) (i + ba_count d)))
             else split_loop fuel hs list b d start (i + 1)))"

fun split_single :: "nat \<Rightarrow> hstate \<Rightarrow> addr \<Rightarrow> b_byte_arr \<Rightarrow> int \<Rightarrow> hstate res" where
  "split_single 0 hs list b i = Inr hs"
| "split_single (Suc n) hs list b i =
     bindR (copy_bytes hs (ba_bytes b) i 1) (\<lambda>(hs1, p).
     bindR (write_list hs1 list (OBJ_VAL p)) (\<lambda>hs2. split_single n hs2 list b (i + 1)))"

definition bytes_split :: "hstate \<Rightarrow> addr \<Rightarrow> b_value list \<Rightarrow> (hstate \<times> b_value) res" where
  "bytes_split hs self args =
     ENFORCE_ARG_COUNT ''split'' 1 args (ENFORCE_ARG_TYPE ''split'' 0 ''bytes'' (IS_BYTES (hs_heap hs)) args
       (bindR (bytes_at hs self) (\<lambda>b. bindR (bytes_at hs (AS_OBJ (args ! 0))) (\<lambda>d.
          let (hs1, list) = new_list hs
          in if ba_count b = 0 \<or> ba_count b < ba_count d then Inr (hs1, OBJ_VAL list)
             else bindR (if 0 < ba_count d
                         then split_loop (nat (ba_count b + 2)) hs1 list b d 0 0
                         else split_single (nat (ba_count b)) hs1 list b 0)
                    (\<lambda>hs2. Inr (hs2, OBJ_VAL list))))))"

definition bytes_first :: "hstate \<Rightarrow> addr \<Rightarrow> b_value list \<Rightarrow> (hstate \<times> b_value) res" where
  "bytes_first hs self args =
     ENFORCE_ARG_COUNT ''first'' 0 args
       (bindR (bytes_at hs self) (\<lambda>b. bindR (cell_get (ba_bytes b) 0) (\<lambda>c. Inr (hs, byte_val c))))"

definition bytes_last :: "hstate \<Rightarrow> addr \<Rightarrow> b_value list \<Rightarrow> (hstate \<times> b_value) res" where
  "bytes_last hs self args =
     ENFORCE_ARG_COUNT ''first'' 0 args
       (bindR (bytes_at hs self) (\<lambda>b. bindR (cell_get (ba_bytes b) (ba_count b - 1)) (\<lambda>c. Inr (hs, byte_val c))))"

definition bytes_get :: "hstate \<Rightarrow> addr \<Rightarrow> b_value list \<Rightarrow> (hstate \<times> b_value) res" where
  "bytes_get hs self args =
     ENFORCE_ARG_COUNT ''get'' 1 args (ENFORCE_ARG_TYPE ''get'' 0 ''number'' IS_NUMBER args
       (bindR (bytes_at hs self) (\<lambda>b. bindR (as_int (args ! 0)) (\<lambda>index.
          if index < 0 \<or> ba_count b \<le> index then Inl (Thrown ''bytes index %d out of range'')
          else bindR (cell_get (ba_bytes b) index) (\<lambda>c. Inr (hs, byte_val c))))))"

section \<open>Character classes\<close>

text \<open>The classification functions of the C library, in the C locale.\<close>

definition isdigit :: "byte \<Rightarrow> bool" where "isdigit c = (48 \<le> c \<and> c \<le> 57)"
definition isupper :: "byte \<Rightarrow> bool" where "isupper c = (65 \<le> c \<and> c \<le> 90)"
definition islower :: "byte \<Rightarrow> bool" where "islower c = (97 \<le> c \<and> c \<le> 122)"
definition isalpha :: "byte \<Rightarrow> bool" where "isalpha c = (isupper c \<or> islower c)"
definition isalnum :: "byte \<Rightarrow> bool" where "isalnum c = (isalpha c \<or> isdigit c)"
definition isspace :: "byte \<Rightarrow> bool" where "isspace c = (c = 32 \<or> (9 \<le> c \<and> c \<le> 13))"

fun all_bytes :: "(byte \<Rightarrow> bool) \<Rightarrow> byte cells \<Rightarrow> int \<Rightarrow> nat \<Rightarrow> bool res" where
  "all_bytes P cs i 0 = Inr True"
| "all_bytes P cs i (Suc n) =
     bindR (cell_get cs i) (\<lambda>c. if \<not> P c then Inr False else all_bytes P cs (i + 1) n)"

definition bytes_test :: "string \<Rightarrow> (byte \<Rightarrow> bool) \<Rightarrow> hstate \<Rightarrow> addr \<Rightarrow> b_value list \<Rightarrow> (hstate \<times> b_value) res" where
  "bytes_test name P hs self args =
     ENFORCE_ARG_COUNT name 0 args
       (bindR (bytes_at hs self) (\<lambda>b. bindR (all_bytes P (ba_bytes b) 0 (nat (ba_count b)))
         (\<lambda>r. Inr (hs, BOOL_VAL r))))"

definition bytes_is_alpha where "bytes_is_alpha = bytes_test ''is_alpha'' isalpha"
definition bytes_is_alnum where "bytes_is_alnum = bytes_test ''is_alnum'' isalnum"
definition bytes_is_number where "bytes_is_number = bytes_test ''is_number'' isdigit"
definition bytes_is_lower where "bytes_is_lower = bytes_test ''is_lower'' islower"
definition bytes_is_upper where "bytes_is_upper = bytes_test ''is_upper'' isupper"
definition bytes_is_space where "bytes_is_space = bytes_test ''is_space'' isspace"

section \<open>Conversion and iteration\<close>

definition bytes_to_list :: "hstate \<Rightarrow> addr \<Rightarrow> b_value list \<Rightarrow> (hstate \<times> b_value) res" where
  "bytes_to_list hs self args =
     ENFORCE_ARG_COUNT ''to_list'' 0 args
       (bindR (bytes_at hs self) (\<lambda>b. bindR (bytes_read b)
         (\<lambda>cs. bindR (new_list_of hs (map byte_val cs)) (\<lambda>(hs', p). Inr (hs', OBJ_VAL p)))))"

definition bytes_to_string :: "hstate \<Rightarrow> addr \<Rightarrow> b_value list \<Rightarrow> (hstate \<times> b_value) res" where
  "bytes_to_string hs self args =
     ENFORCE_ARG_COUNT ''to_string'' 0 args
       (bindR (bytes_at hs self) (\<lambda>b. bindR (bytes_read b)
         (\<lambda>cs. bindR (copy_string hs cs) (\<lambda>(hs', p). Inr (hs', OBJ_VAL p)))))"

definition bytes_iter :: "hstate \<Rightarrow> addr \<Rightarrow> b_value list \<Rightarrow> (hstate \<times> b_value) res" where
  "bytes_iter hs self args =
     ENFORCE_ARG_COUNT ''__iter__'' 1 args (ENFORCE_ARG_TYPE ''__iter__'' 0 ''number'' IS_NUMBER args
       (bindR (bytes_at hs self) (\<lambda>b. bindR (as_int (args ! 0)) (\<lambda>index.
          if -1 < index \<and> index < ba_count b
          then bindR (cell_get (ba_bytes b) index) (\<lambda>c. Inr (hs, byte_val c))
          else Inr (hs, NIL_VAL)))))"

definition bytes_itern :: "hstate \<Rightarrow> addr \<Rightarrow> b_value list \<Rightarrow> (hstate \<times> b_value) res" where
  "bytes_itern hs self args =
     ENFORCE_ARG_COUNT ''__itern__'' 1 args
       (bindR (bytes_at hs self) (\<lambda>b.
          if IS_NIL (args ! 0)
          then (if ba_count b = 0 then Inr (hs, BOOL_VAL False) else Inr (hs, number_val 0))
          else if \<not> IS_NUMBER (args ! 0) then Inl (Thrown ''bytes are numerically indexed'')
          else bindR (as_int (args ! 0)) (\<lambda>index.
                 if index < ba_count b - 1 then Inr (hs, number_val (index + 1)) else Inr (hs, NIL_VAL))))"

section \<open>Copies of values\<close>

text \<open>
  \<open>copy_value\<close> and \<open>table_copy\<close>: the default values of the fields of a class are copied into every
  new instance. Strings, byte arrays and the top level of lists are copied, everything else is shared.
\<close>

definition copy_value :: "hstate \<Rightarrow> b_value \<Rightarrow> (hstate \<times> b_value) res" where
  "copy_value hs v =
     (if IS_OBJ v
      then (case hs_heap hs (AS_OBJ v) of
              None \<Rightarrow> Inl NullPointer
            | Some (OString s) \<Rightarrow> bindR (copy_string hs (s_chars s)) (\<lambda>(hs', p). Inr (hs', OBJ_VAL p))
            | Some (OBytes b) \<Rightarrow> bindR (copy_bytes hs (ba_bytes b) 0 (ba_count b)) (\<lambda>(hs', p). Inr (hs', OBJ_VAL p))
            | Some (OList l) \<Rightarrow>
                bindR (arr_read l) (\<lambda>xs. bindR (new_list_of hs xs) (\<lambda>(hs', p). Inr (hs', OBJ_VAL p)))
            | Some _ \<Rightarrow> Inr (hs, v))
      else Inr (hs, v))"

fun table_copy_entries :: "hstate \<Rightarrow> b_entry list \<Rightarrow> b_table \<Rightarrow> (hstate \<times> b_table) res" where
  "table_copy_entries hs [] to = Inr (hs, to)"
| "table_copy_entries hs (e # es) to =
     (if IS_EMPTY (e_key e) then table_copy_entries hs es to
      else bindR (copy_value hs (e_value e)) (\<lambda>(hs', v).
           bindR (table_set (hs_heap hs') to (e_key e) v) (\<lambda>(to', _). table_copy_entries hs' es to')))"

definition table_copy :: "hstate \<Rightarrow> b_table \<Rightarrow> b_table \<Rightarrow> (hstate \<times> b_table) res" where
  "table_copy hs from to = table_copy_entries hs (t_entries from) to"

end
