(* ===== verification/Scanner.thy ===== *)
theory Scanner
  imports Prelude "HOL-Library.Char_ord"
begin

text \<open>
  \<open>scanner.c\<close>: from source text to tokens. The source is the text in front of the terminating
  zero; a position is an index into it, and the character at a position is the zero from the end
  on (\<open>char_at\<close>; that no position passes the end is part of \<open>scan_inv\<close> in \<open>Scanner_Correct\<close>). The
  stack of open interpolations has eight cells, and an access outside is an error.

  The loops \<open>while (p(current(s))) advance(s)\<close> are \<open>while_char\<close>; it also stops at the end, where no
  predicate of the source holds, which makes it total.
\<close>

section \<open>Tokens and state\<close>

text \<open>The enumeration of token types, in the groups of the source.\<close>

datatype (plugins only: code size) b_symbol =
    NEWLINE_TOKEN | LPAREN_TOKEN | RPAREN_TOKEN | LBRACKET_TOKEN | RBRACKET_TOKEN | LBRACE_TOKEN
  | RBRACE_TOKEN | SEMICOLON_TOKEN | COMMA_TOKEN | BACKSLASH_TOKEN | BANG_TOKEN | BANG_EQ_TOKEN
  | COLON_TOKEN | AT_TOKEN | DOT_TOKEN | RANGE_TOKEN | TRI_DOT_TOKEN | PLUS_TOKEN
  | PLUS_EQ_TOKEN | INCREMENT_TOKEN | MINUS_TOKEN | MINUS_EQ_TOKEN | DECREMENT_TOKEN | MULTIPLY_TOKEN
  | MULTIPLY_EQ_TOKEN | POW_TOKEN | POW_EQ_TOKEN | DIVIDE_TOKEN | DIVIDE_EQ_TOKEN | FLOOR_TOKEN
  | FLOOR_EQ_TOKEN | EQUAL_TOKEN | EQUAL_EQ_TOKEN | LESS_TOKEN | LESS_EQ_TOKEN | LSHIFT_TOKEN
  | LSHIFT_EQ_TOKEN | GREATER_TOKEN | GREATER_EQ_TOKEN | RSHIFT_TOKEN | RSHIFT_EQ_TOKEN | PERCENT_TOKEN
  | PERCENT_EQ_TOKEN | AMP_TOKEN | AMP_EQ_TOKEN | BAR_TOKEN | BAR_EQ_TOKEN | TILDE_TOKEN
  | TILDE_EQ_TOKEN | XOR_TOKEN | XOR_EQ_TOKEN | QUESTION_TOKEN

datatype (plugins only: code size) b_keyword =
    AND_TOKEN | AS_TOKEN | ASSERT_TOKEN | BREAK_TOKEN | CATCH_TOKEN | CLASS_TOKEN
  | CONTINUE_TOKEN | DEF_TOKEN | DEFAULT_TOKEN | DIE_TOKEN | DO_TOKEN | ECHO_TOKEN
  | ELSE_TOKEN | FALSE_TOKEN | FINALLY_TOKEN | FOR_TOKEN | IF_TOKEN | IMPORT_TOKEN
  | IN_TOKEN | ITER_TOKEN | NIL_TOKEN | OR_TOKEN | PARENT_TOKEN | RETURN_TOKEN
  | SELF_TOKEN | STATIC_TOKEN | TRUE_TOKEN | TRY_TOKEN | USING_TOKEN | VAR_TOKEN
  | WHEN_TOKEN | WHILE_TOKEN

datatype b_tkn_type =
    Symbol b_symbol | Keyword b_keyword | LITERAL_TOKEN | REG_NUMBER_TOKEN | BIN_NUMBER_TOKEN | OCT_NUMBER_TOKEN
  | HEX_NUMBER_TOKEN | IDENTIFIER_TOKEN | DECORATOR_TOKEN | INTERPOLATION_TOKEN | EOF_TOKEN | ERROR_TOKEN
  | EMPTY_TOKEN | UNDEFINED_TOKEN

text \<open>The text of a token: a position in the source, or the message of an error.\<close>

datatype token_text = At nat | Message string

record b_token =
  tk_type :: b_tkn_type
  tk_start :: token_text
  tk_length :: nat
  tk_line :: nat

definition MAX_INTERPOLATION_NESTING :: nat where
  "MAX_INTERPOLATION_NESTING = 8"

record b_scanner =
  sc_source :: string
  sc_start :: nat
  sc_current :: nat
  sc_line :: nat
  sc_interpolating_count :: int
  sc_interpolating :: "char cells"

definition init_scanner :: "string \<Rightarrow> b_scanner" where
  "init_scanner source = \<lparr>sc_source = source, sc_start = 0, sc_current = 0, sc_line = 1,
     sc_interpolating_count = -1, sc_interpolating = replicate MAX_INTERPOLATION_NESTING None\<rparr>"

section \<open>Characters\<close>

abbreviation NUL :: char where "NUL \<equiv> CHR 0x00"
abbreviation LF :: char where "LF \<equiv> CHR 0x0A"
abbreviation BACKSLASH :: char where "BACKSLASH \<equiv> CHR 0x5C"
abbreviation DQUOTE :: char where "DQUOTE \<equiv> CHR 0x22"
abbreviation SQUOTE :: char where "SQUOTE \<equiv> CHR 0x27"

definition between :: "char \<Rightarrow> char \<Rightarrow> char \<Rightarrow> bool" where
  [simp]: "between lo hi c = (lo \<le> c \<and> c \<le> hi)"

definition is_digit :: "char \<Rightarrow> bool" where
  "is_digit c = (between (CHR ''0'') (CHR ''9'') c)"

definition is_binary :: "char \<Rightarrow> bool" where
  "is_binary c = (c = CHR ''0'' \<or> c = CHR ''1'')"

definition is_alpha :: "char \<Rightarrow> bool" where
  "is_alpha c = (between (CHR ''a'') (CHR ''z'') c \<or> between (CHR ''A'') (CHR ''Z'') c \<or> c = CHR ''_'')"

definition is_octal :: "char \<Rightarrow> bool" where
  "is_octal c = (between (CHR ''0'') (CHR ''7'') c)"

definition is_hexadecimal :: "char \<Rightarrow> bool" where
  "is_hexadecimal c =
     (between (CHR ''0'') (CHR ''9'') c \<or> between (CHR ''a'') (CHR ''f'') c \<or> between (CHR ''A'') (CHR ''F'') c)"

section \<open>Primitives\<close>

definition char_at :: "string \<Rightarrow> nat \<Rightarrow> char" where
  "char_at src i = (if i < length src then src ! i else NUL)"

definition cur :: "b_scanner \<Rightarrow> char" where
  "cur s = char_at (sc_source s) (sc_current s)"

definition is_at_end :: "b_scanner \<Rightarrow> bool" where
  "is_at_end s = (cur s = NUL)"

definition make_token :: "b_scanner \<Rightarrow> b_tkn_type \<Rightarrow> b_token" where
  "make_token s type = \<lparr>tk_type = type, tk_start = At (sc_start s),
     tk_length = sc_current s - sc_start s, tk_line = sc_line s\<rparr>"

text \<open>The message is passed with its arguments already printed.\<close>

definition error_token :: "b_scanner \<Rightarrow> string \<Rightarrow> b_token" where
  "error_token s message = \<lparr>tk_type = ERROR_TOKEN, tk_start = Message message,
     tk_length = length message, tk_line = sc_line s\<rparr>"

definition advance :: "b_scanner \<Rightarrow> b_scanner" where
  "advance s = s\<lparr>sc_current := sc_current s + 1,
                 sc_line := (if cur s = LF then sc_line s + 1 else sc_line s)\<rparr>"

definition match_char :: "b_scanner \<Rightarrow> char \<Rightarrow> b_scanner \<times> bool" where
  "match_char s expected =
     (if is_at_end s then (s, False) else if cur s \<noteq> expected then (s, False) else (advance s, True))"

definition previous :: "b_scanner \<Rightarrow> char" where
  "previous s = char_at (sc_source s) (sc_current s - 1)"

definition next_char :: "b_scanner \<Rightarrow> char" where
  "next_char s = (if is_at_end s then NUL else char_at (sc_source s) (sc_current s + 1))"

lemma cur_not_NUL: "cur s \<noteq> NUL \<Longrightarrow> sc_current s < length (sc_source s)"
  by (auto simp: cur_def char_at_def split: if_splits)

lemma cur_eqD: "cur s = c \<Longrightarrow> c \<noteq> NUL \<Longrightarrow> sc_current s < length (sc_source s)"
  using cur_not_NUL by auto

lemma advance_simps [simp]:
  "sc_current (advance s) = sc_current s + 1" "sc_source (advance s) = sc_source s"
  "sc_start (advance s) = sc_start s"
  "sc_interpolating_count (advance s) = sc_interpolating_count s"
  "sc_interpolating (advance s) = sc_interpolating s"
  by (simp_all add: advance_def)

function while_char :: "(char \<Rightarrow> bool) \<Rightarrow> b_scanner \<Rightarrow> b_scanner" where
  "while_char p s = (if p (cur s) \<and> \<not> is_at_end s then while_char p (advance s) else s)"
  by auto
termination
  by (relation "measure (\<lambda>(p, s). length (sc_source s) - sc_current s)")
    (auto simp: is_at_end_def dest!: cur_not_NUL)

declare while_char.simps [simp del]

section \<open>White space and comments\<close>

text \<open>The loop of \<open>skip_block_comments\<close>; \<open>None\<close> when the text ends inside the comment.\<close>

function block_comment_loop :: "b_scanner \<Rightarrow> nat \<Rightarrow> b_scanner \<times> bool" where
  "block_comment_loop s nesting =
     (if nesting = 0 then (s, True)
      else if is_at_end s then (s, False)
      else if cur s = CHR ''/'' \<and> next_char s = CHR ''*''
      then block_comment_loop (advance (advance s)) (nesting + 1)
      else if cur s = CHR ''*'' \<and> next_char s = CHR ''/''
      then block_comment_loop (advance (advance s)) (nesting - 1)
      else block_comment_loop (advance s) nesting)"
  by auto
termination
  by (relation "measure (\<lambda>(s, n). length (sc_source s) - sc_current s)")
    (auto simp: is_at_end_def dest!: cur_not_NUL cur_eqD)

declare block_comment_loop.simps [simp del]

definition skip_block_comments :: "b_scanner \<Rightarrow> b_scanner \<times> b_token" where
  "skip_block_comments s =
     (case block_comment_loop s 1 of
        (s', True) \<Rightarrow> (s', make_token s' UNDEFINED_TOKEN)
      | (s', False) \<Rightarrow> (s', error_token s' ''unclosed block comment''))"

definition skip_line_comment :: "b_scanner \<Rightarrow> b_scanner" where
  "skip_line_comment s = while_char (\<lambda>c. c \<noteq> LF) s"

lemma while_char_le: "sc_current s \<le> sc_current (while_char p s) \<and> sc_source (while_char p s) = sc_source s"
proof (induction p s rule: while_char.induct)
  case (1 p s)
  then show ?case by (subst (1 2) while_char.simps) auto
qed

lemma block_comment_loop_le:
  "sc_current s \<le> sc_current (fst (block_comment_loop s n)) \<and>
   sc_source (fst (block_comment_loop s n)) = sc_source s"
proof (induction s n rule: block_comment_loop.induct)
  case (1 s n)
  then show ?case by (subst (1 2) block_comment_loop.simps) auto
qed

lemma skip_block_comments_le:
  "sc_current s \<le> sc_current (fst (skip_block_comments s)) \<and>
   sc_source (fst (skip_block_comments s)) = sc_source s"
  using block_comment_loop_le [of s 1] by (auto simp: skip_block_comments_def split: prod.splits bool.splits)

lemma skip_line_comment_step:
  assumes "cur s = CHR ''#''"
  shows "sc_current s < sc_current (skip_line_comment s) \<and> sc_source (skip_line_comment s) = sc_source s"
  using while_char_le [of "advance s" "\<lambda>c. c \<noteq> LF"] assms
  by (simp add: skip_line_comment_def while_char.simps [of _ s] is_at_end_def)

function skip_whitespace :: "b_scanner \<Rightarrow> b_scanner \<times> b_token" where
  "skip_whitespace s =
     (if cur s = CHR '' '' \<or> cur s = CHR 0x0D \<or> cur s = CHR 0x09 then skip_whitespace (advance s)
      else if cur s = CHR ''#'' then skip_whitespace (skip_line_comment s)
      else if cur s = CHR ''/'' \<and> next_char s = CHR ''*''
      then (let r = skip_block_comments (advance (advance s))
            in if tk_type (snd r) \<noteq> UNDEFINED_TOKEN then r else skip_whitespace (fst r))
      else (s, make_token s UNDEFINED_TOKEN))"
  by auto
termination
proof (relation "measure (\<lambda>s. length (sc_source s) - sc_current s)", goal_cases)
  case (3 s)
  then show ?case using skip_line_comment_step [of s] cur_not_NUL [of s] by auto
next
  case (4 s r)
  then show ?case
    using skip_block_comments_le [of "advance (advance s)"] cur_not_NUL [of s] by auto
qed (auto dest!: cur_eqD)

declare skip_whitespace.simps [simp del]

section \<open>Literals\<close>

text \<open>Decimal notation, as \<open>%d\<close> prints it.\<close>

fun dec_nat :: "nat \<Rightarrow> string" where
  "dec_nat n = (if n < 10 then [char_of (48 + n)] else dec_nat (n div 10) @ [char_of (48 + n mod 10)])"

declare dec_nat.simps [simp del]

definition dec_int :: "int \<Rightarrow> string" where
  "dec_int i = (if i < 0 then ''-'' @ dec_nat (nat (- i)) else dec_nat (nat i))"

text \<open>The beginning of an interpolation: the branch of \<open>string\<close> for \<open>${\<close>.\<close>

definition start_interpolation :: "b_scanner \<Rightarrow> char \<Rightarrow> (b_scanner \<times> b_token) res" where
  "start_interpolation s quote =
     (if sc_interpolating_count s - 1 < int MAX_INTERPOLATION_NESTING
      then bindR (cell_set (sc_interpolating s) (sc_interpolating_count s + 1) quote)
        (\<lambda>cs. let s1 = s\<lparr>sc_interpolating_count := sc_interpolating_count s + 1,
                         sc_interpolating := cs, sc_current := sc_current s + 1\<rparr>
              in Inr (s1\<lparr>sc_current := sc_current s1 + 1\<rparr>, make_token s1 INTERPOLATION_TOKEN))
      else Inr (s, error_token s (''maximum interpolation nesting of '' @ dec_nat MAX_INTERPOLATION_NESTING @
        '' exceeded by '' @ dec_int (int MAX_INTERPOLATION_NESTING - sc_interpolating_count s + 1))))"

function scan_string :: "b_scanner \<Rightarrow> char \<Rightarrow> (b_scanner \<times> b_token) res" where
  "scan_string s quote =
     (if cur s \<noteq> quote \<and> \<not> is_at_end s
      then if cur s = CHR ''$'' \<and> next_char s = CHR ''{'' \<and> previous s \<noteq> BACKSLASH
        then start_interpolation s quote
        else if cur s = BACKSLASH \<and> (next_char s = quote \<or> next_char s = BACKSLASH)
        then scan_string (advance (advance s)) quote
        else scan_string (advance s) quote
      else if is_at_end s
      then Inr (s, error_token s ''unterminated string (opening quote not matched)'')
      else let s' = fst (match_char s quote) in Inr (s', make_token s' LITERAL_TOKEN))"
  by auto
termination
  by (relation "measure (\<lambda>(s, q). length (sc_source s) - sc_current s)")
    (auto simp: is_at_end_def dest!: cur_not_NUL cur_eqD)

declare scan_string.simps [simp del]

definition scan_number :: "b_scanner \<Rightarrow> b_scanner \<times> b_token" where
  "scan_number s =
     (if previous s = CHR ''0'' \<and> snd (match_char s (CHR ''b''))
      then let s' = while_char is_binary (fst (match_char s (CHR ''b''))) in (s', make_token s' BIN_NUMBER_TOKEN)
      else if previous s = CHR ''0'' \<and> snd (match_char s (CHR ''c''))
      then let s' = while_char is_octal (fst (match_char s (CHR ''c''))) in (s', make_token s' OCT_NUMBER_TOKEN)
      else if previous s = CHR ''0'' \<and> snd (match_char s (CHR ''x''))
      then let s' = while_char is_hexadecimal (fst (match_char s (CHR ''x''))) in (s', make_token s' HEX_NUMBER_TOKEN)
      else
        let s1 = while_char is_digit s;
            s2 = (if cur s1 = CHR ''.'' \<and> is_digit (next_char s1)
                  then let s3 = while_char is_digit (advance s1)
                       in if (cur s3 = CHR ''e'' \<or> cur s3 = CHR ''E'') \<and>
                             (next_char s3 = CHR ''+'' \<or> next_char s3 = CHR ''-'')
                          then while_char is_digit (advance (advance s3)) else s3
                  else s1)
        in (s2, make_token s2 REG_NUMBER_TOKEN))"

section \<open>Identifiers and keywords\<close>

text \<open>The text between \<open>start\<close> and \<open>current\<close>.\<close>

definition lexeme :: "b_scanner \<Rightarrow> string" where
  "lexeme s = take (sc_current s - sc_start s) (drop (sc_start s) (sc_source s))"

text \<open>\<open>check_keyword\<close> and \<open>identifier_type\<close>, as functions of the lexeme \<open>w\<close>.\<close>

definition check_keyword :: "string \<Rightarrow> nat \<Rightarrow> nat \<Rightarrow> string \<Rightarrow> b_tkn_type \<Rightarrow> b_tkn_type" where
  "check_keyword w start len rest type =
     (if length w = start + len \<and> take len (drop start w) = take len rest then type else IDENTIFIER_TOKEN)"

definition identifier_type :: "string \<Rightarrow> b_tkn_type" where
  "identifier_type w =
     (let n = length w in
      if w ! 0 = CHR ''a'' then
        (if 1 < n then
           if w ! 1 = CHR ''n'' then check_keyword w 2 1 ''d'' (Keyword AND_TOKEN)
           else if w ! 1 = CHR ''s'' then
             (if 2 < n then check_keyword w 2 4 ''sert'' (Keyword ASSERT_TOKEN) else check_keyword w 2 0 '''' (Keyword AS_TOKEN))
           else IDENTIFIER_TOKEN
         else IDENTIFIER_TOKEN)
      else if w ! 0 = CHR ''b'' then check_keyword w 1 4 ''reak'' (Keyword BREAK_TOKEN)
      else if w ! 0 = CHR ''c'' then
        (if 1 < n then
           if w ! 1 = CHR ''a'' then check_keyword w 2 3 ''tch'' (Keyword CATCH_TOKEN)
           else if w ! 1 = CHR ''l'' then check_keyword w 2 3 ''ass'' (Keyword CLASS_TOKEN)
           else if w ! 1 = CHR ''o'' then check_keyword w 2 6 ''ntinue'' (Keyword CONTINUE_TOKEN)
           else IDENTIFIER_TOKEN
         else IDENTIFIER_TOKEN)
      else if w ! 0 = CHR ''d'' then
        (if 1 < n then
           if w ! 1 = CHR ''e'' then
             (if 2 < n then
                if w ! 2 = CHR ''f'' then
                  (if 3 < n then check_keyword w 3 4 ''ault'' (Keyword DEFAULT_TOKEN)
                   else check_keyword w 3 0 '''' (Keyword DEF_TOKEN))
                else IDENTIFIER_TOKEN
              else IDENTIFIER_TOKEN)
           else if w ! 1 = CHR ''i'' then check_keyword w 2 1 ''e'' (Keyword DIE_TOKEN)
           else if w ! 1 = CHR ''o'' then check_keyword w 2 0 '''' (Keyword DO_TOKEN)
           else IDENTIFIER_TOKEN
         else IDENTIFIER_TOKEN)
      else if w ! 0 = CHR ''e'' then
        (if 1 < n then
           if w ! 1 = CHR ''c'' then check_keyword w 2 2 ''ho'' (Keyword ECHO_TOKEN)
           else if w ! 1 = CHR ''l'' then check_keyword w 2 2 ''se'' (Keyword ELSE_TOKEN)
           else IDENTIFIER_TOKEN
         else IDENTIFIER_TOKEN)
      else if w ! 0 = CHR ''f'' then
        (if 1 < n then
           if w ! 1 = CHR ''a'' then check_keyword w 2 3 ''lse'' (Keyword FALSE_TOKEN)
           else if w ! 1 = CHR ''i'' then check_keyword w 2 5 ''nally'' (Keyword FINALLY_TOKEN)
           else if w ! 1 = CHR ''o'' then check_keyword w 2 1 ''r'' (Keyword FOR_TOKEN)
           else IDENTIFIER_TOKEN
         else IDENTIFIER_TOKEN)
      else if w ! 0 = CHR ''i'' then
        (if 1 < n then
           if w ! 1 = CHR ''f'' then check_keyword w 2 0 '''' (Keyword IF_TOKEN)
           else if w ! 1 = CHR ''m'' then check_keyword w 2 4 ''port'' (Keyword IMPORT_TOKEN)
           else if w ! 1 = CHR ''n'' then check_keyword w 2 0 '''' (Keyword IN_TOKEN)
           else if w ! 1 = CHR ''t'' then check_keyword w 2 2 ''er'' (Keyword ITER_TOKEN)
           else IDENTIFIER_TOKEN
         else IDENTIFIER_TOKEN)
      else if w ! 0 = CHR ''n'' then check_keyword w 1 2 ''il'' (Keyword NIL_TOKEN)
      else if w ! 0 = CHR ''o'' then check_keyword w 1 1 ''r'' (Keyword OR_TOKEN)
      else if w ! 0 = CHR ''p'' then check_keyword w 1 5 ''arent'' (Keyword PARENT_TOKEN)
      else if w ! 0 = CHR ''r'' then check_keyword w 1 5 ''eturn'' (Keyword RETURN_TOKEN)
      else if w ! 0 = CHR ''s'' then
        (if 1 < n then
           if w ! 1 = CHR ''e'' then check_keyword w 2 2 ''lf'' (Keyword SELF_TOKEN)
           else if w ! 1 = CHR ''t'' then check_keyword w 2 4 ''atic'' (Keyword STATIC_TOKEN)
           else IDENTIFIER_TOKEN
         else IDENTIFIER_TOKEN)
      else if w ! 0 = CHR ''t'' then
        (if 2 < n \<and> w ! 1 = CHR ''r'' then
           if w ! 2 = CHR ''u'' then check_keyword w 3 1 ''e'' (Keyword TRUE_TOKEN)
           else if w ! 2 = CHR ''y'' then check_keyword w 3 0 '''' (Keyword TRY_TOKEN)
           else IDENTIFIER_TOKEN
         else IDENTIFIER_TOKEN)
      else if w ! 0 = CHR ''u'' then check_keyword w 1 4 ''sing'' (Keyword USING_TOKEN)
      else if w ! 0 = CHR ''v'' then check_keyword w 1 2 ''ar'' (Keyword VAR_TOKEN)
      else if w ! 0 = CHR ''w'' then
        (if 2 < n \<and> w ! 1 = CHR ''h'' then
           if w ! 2 = CHR ''i'' then check_keyword w 3 2 ''le'' (Keyword WHILE_TOKEN)
           else if w ! 2 = CHR ''e'' then check_keyword w 3 1 ''n'' (Keyword WHEN_TOKEN)
           else IDENTIFIER_TOKEN
         else IDENTIFIER_TOKEN)
      else IDENTIFIER_TOKEN)"

definition scan_identifier :: "b_scanner \<Rightarrow> b_scanner \<times> b_token" where
  "scan_identifier s =
     (let s' = while_char (\<lambda>c. is_alpha c \<or> is_digit c) s in (s', make_token s' (identifier_type (lexeme s'))))"

definition decorator :: "b_scanner \<Rightarrow> b_scanner \<times> b_token" where
  "decorator s =
     (let s' = while_char (\<lambda>c. is_alpha c \<or> is_digit c) s in (s', make_token s' DECORATOR_TOKEN))"

section \<open>The next token\<close>

text \<open>An operator that an \<open>=\<close> turns into another one: \<open>match(s, '=') ? eq : plain\<close>.\<close>

definition op_eq :: "b_scanner \<Rightarrow> b_tkn_type \<Rightarrow> b_tkn_type \<Rightarrow> b_scanner \<times> b_token" where
  "op_eq s eq plain =
     (case match_char s (CHR ''='') of (s', m) \<Rightarrow> (s', make_token s' (if m then eq else plain)))"

text \<open>
  An operator that can be doubled and each form followed by \<open>=\<close>: the cases of \<open>*\<close>, \<open>/\<close>,
  \<open><\<close> and \<open>>\<close>.
\<close>

definition op_double ::
    "b_scanner \<Rightarrow> char \<Rightarrow> b_tkn_type \<Rightarrow> b_tkn_type \<Rightarrow> b_tkn_type \<Rightarrow> b_tkn_type \<Rightarrow> b_scanner \<times> b_token" where
  "op_double s c dbl_eq dbl eq plain =
     (case match_char s c of (s', m) \<Rightarrow> if m then op_eq s' dbl_eq dbl else op_eq s' eq plain)"

text \<open>The cases of \<open>+\<close> and \<open>-\<close>.\<close>

definition op_step :: "b_scanner \<Rightarrow> char \<Rightarrow> b_tkn_type \<Rightarrow> b_tkn_type \<Rightarrow> b_tkn_type \<Rightarrow> b_scanner \<times> b_token" where
  "op_step s c dbl eq plain =
     (case match_char s c of (s', m) \<Rightarrow> if m then (s', make_token s' dbl) else op_eq s' eq plain)"

definition op_dot :: "b_scanner \<Rightarrow> b_scanner \<times> b_token" where
  "op_dot s =
     (case match_char s (CHR ''.'') of (s1, m1) \<Rightarrow>
        if m1 then (case match_char s1 (CHR ''.'') of (s2, m2) \<Rightarrow>
                      (s2, make_token s2 (if m2 then (Symbol TRI_DOT_TOKEN) else (Symbol RANGE_TOKEN))))
        else (s1, make_token s1 (Symbol DOT_TOKEN)))"

text \<open>The tokens of one character.\<close>

definition single_tokens :: "(char \<times> b_tkn_type) list" where
  "single_tokens =
     [(CHR ''('', (Symbol LPAREN_TOKEN)), (CHR '')'', (Symbol RPAREN_TOKEN)), (CHR ''['', (Symbol LBRACKET_TOKEN)),
      (CHR '']'', (Symbol RBRACKET_TOKEN)), (CHR ''{'', (Symbol LBRACE_TOKEN)), (CHR '';'', (Symbol SEMICOLON_TOKEN)),
      (BACKSLASH, (Symbol BACKSLASH_TOKEN)), (CHR '':'', (Symbol COLON_TOKEN)), (CHR '','', (Symbol COMMA_TOKEN)),
      (LF, (Symbol NEWLINE_TOKEN)), (CHR ''?'', (Symbol QUESTION_TOKEN))]"

text \<open>The \<open>switch\<close> of \<open>scan_token\<close> for the character \<open>c\<close> just consumed.\<close>

definition scan_operator :: "b_scanner \<Rightarrow> char \<Rightarrow> (b_scanner \<times> b_token) res" where
  "scan_operator s c =
     (case map_of single_tokens c of
        Some type \<Rightarrow> Inr (s, make_token s type)
      | None \<Rightarrow>
      if c = CHR ''}'' then
        (if -1 < sc_interpolating_count s
         then bindR (cell_get (sc_interpolating s) (sc_interpolating_count s))
           (\<lambda>quote. bindR (scan_string s quote)
             (\<lambda>(s', token). Inr (s'\<lparr>sc_interpolating_count := sc_interpolating_count s' - 1\<rparr>, token)))
         else Inr (s, make_token s (Symbol RBRACE_TOKEN)))
      else if c = CHR ''@'' then Inr (decorator s)
      else if c = CHR ''!'' then Inr (op_eq s (Symbol BANG_EQ_TOKEN) (Symbol BANG_TOKEN))
      else if c = CHR ''.'' then Inr (op_dot s)
      else if c = CHR ''+'' then Inr (op_step s c (Symbol INCREMENT_TOKEN) (Symbol PLUS_EQ_TOKEN) (Symbol PLUS_TOKEN))
      else if c = CHR ''-'' then Inr (op_step s c (Symbol DECREMENT_TOKEN) (Symbol MINUS_EQ_TOKEN) (Symbol MINUS_TOKEN))
      else if c = CHR ''*'' then Inr (op_double s c (Symbol POW_EQ_TOKEN) (Symbol POW_TOKEN) (Symbol MULTIPLY_EQ_TOKEN) (Symbol MULTIPLY_TOKEN))
      else if c = CHR ''/'' then Inr (op_double s c (Symbol FLOOR_EQ_TOKEN) (Symbol FLOOR_TOKEN) (Symbol DIVIDE_EQ_TOKEN) (Symbol DIVIDE_TOKEN))
      else if c = CHR ''='' then Inr (op_eq s (Symbol EQUAL_EQ_TOKEN) (Symbol EQUAL_TOKEN))
      else if c = CHR ''<'' then Inr (op_double s c (Symbol LSHIFT_EQ_TOKEN) (Symbol LSHIFT_TOKEN) (Symbol LESS_EQ_TOKEN) (Symbol LESS_TOKEN))
      else if c = CHR ''>'' then Inr (op_double s c (Symbol RSHIFT_EQ_TOKEN) (Symbol RSHIFT_TOKEN) (Symbol GREATER_EQ_TOKEN) (Symbol GREATER_TOKEN))
      else if c = CHR ''%'' then Inr (op_eq s (Symbol PERCENT_EQ_TOKEN) (Symbol PERCENT_TOKEN))
      else if c = CHR ''&'' then Inr (op_eq s (Symbol AMP_EQ_TOKEN) (Symbol AMP_TOKEN))
      else if c = CHR ''|'' then Inr (op_eq s (Symbol BAR_EQ_TOKEN) (Symbol BAR_TOKEN))
      else if c = CHR ''~'' then Inr (op_eq s (Symbol TILDE_EQ_TOKEN) (Symbol TILDE_TOKEN))
      else if c = CHR ''^'' then Inr (op_eq s (Symbol XOR_EQ_TOKEN) (Symbol XOR_TOKEN))
      else if c = DQUOTE then scan_string s DQUOTE
      else if c = SQUOTE then scan_string s SQUOTE
      else Inr (s, error_token s (''unexpected character '' @ [c])))"

definition scan_token :: "b_scanner \<Rightarrow> (b_scanner \<times> b_token) res" where
  "scan_token s0 =
     (case skip_whitespace s0 of (s1, tk) \<Rightarrow>
        if tk_type tk \<noteq> UNDEFINED_TOKEN then Inr (s1, tk)
        else let s2 = s1\<lparr>sc_start := sc_current s1\<rparr>
             in if is_at_end s2 then Inr (s2, make_token s2 EOF_TOKEN)
                else let c = cur s2; s3 = advance s2
                     in if is_digit c then Inr (scan_number s3)
                        else if is_alpha c then Inr (scan_identifier s3)
                        else scan_operator s3 c)"

text \<open>
  The tokens of a source, as a client that asks for tokens until the end of the text gets them. An
  error token does not end the text: the parser goes on after reporting it.
\<close>

fun scan_tokens :: "nat \<Rightarrow> b_scanner \<Rightarrow> b_token list res" where
  "scan_tokens 0 s = Inl Divergence"
| "scan_tokens (Suc fuel) s =
     bindR (scan_token s)
       (\<lambda>(s', tk). if tk_type tk = EOF_TOKEN then Inr [tk]
                   else bindR (scan_tokens fuel s') (\<lambda>tks. Inr (tk # tks)))"

end
