(* ===== verification/VM_Core.thy ===== *)
theory VM_Core
  imports VM_State Bytes_Methods Scanner
begin

text \<open>
  The machinery of \<open>vm.c\<close> below the instruction loop: the value stack, exceptions, up-values, calls and
  method lookup. A function that returns \<open>bool\<close> in C returns the machine with that value. The
  message of an exception is kept as its format string, and the report of an unhandled exception is
  output. Native functions are a parameter (\<open>b_native_fn\<close>): their effect on the machine and the value
  they return.

  The heap operations work on the part of the machine that \<open>Heap_State\<close> describes (\<open>vm_hs\<close>); \<open>vm_with\<close>
  puts the result back, with the new objects at the front of the list of all objects and unmarked.
\<close>

section \<open>Heap view\<close>

definition vm_hs :: "b_vm \<Rightarrow> hstate" where
  "vm_hs vm = \<lparr>hs_heap = vm_heap vm, hs_next = vm_next vm, hs_strings = vm_strings vm\<rparr>"

definition new_addrs :: "addr \<Rightarrow> addr \<Rightarrow> addr list" where
  "new_addrs a b = rev (map (\<lambda>i. a + of_nat (32 * i)) [0..<unat (b - a) div 32])"

definition vm_with :: "b_vm \<Rightarrow> hstate \<Rightarrow> b_vm" where
  "vm_with vm hs =
     (let new = new_addrs (vm_next vm) (hs_next hs)
      in vm\<lparr>vm_heap := hs_heap hs, vm_next := hs_next hs, vm_strings := hs_strings hs,
            vm_objects := new @ vm_objects vm,
            vm_mark := (\<lambda>a. if a \<in> set new then \<not> vm_mark_value vm else vm_mark vm a)\<rparr>)"

definition class_at :: "heap \<Rightarrow> addr \<Rightarrow> b_obj_class res" where
  "class_at hp a = (case hp a of Some (OClass k) \<Rightarrow> Inr k | _ \<Rightarrow> Inl NullPointer)"

definition instance_at :: "heap \<Rightarrow> addr \<Rightarrow> b_obj_instance res" where
  "instance_at hp a = (case hp a of Some (OInstance i) \<Rightarrow> Inr i | _ \<Rightarrow> Inl NullPointer)"

definition closure_at :: "heap \<Rightarrow> addr \<Rightarrow> b_obj_closure res" where
  "closure_at hp a = (case hp a of Some (OClosure c) \<Rightarrow> Inr c | _ \<Rightarrow> Inl NullPointer)"

definition function_at :: "heap \<Rightarrow> addr \<Rightarrow> b_obj_func res" where
  "function_at hp a = (case hp a of Some (OFunction f) \<Rightarrow> Inr f | _ \<Rightarrow> Inl NullPointer)"

definition module_at :: "heap \<Rightarrow> addr \<Rightarrow> b_obj_module res" where
  "module_at hp a = (case hp a of Some (OModule m) \<Rightarrow> Inr m | _ \<Rightarrow> Inl NullPointer)"

definition up_value_at :: "heap \<Rightarrow> addr \<Rightarrow> b_obj_up_value res" where
  "up_value_at hp a = (case hp a of Some (OUpValue u) \<Rightarrow> Inr u | _ \<Rightarrow> Inl NullPointer)"

definition name_at :: "heap \<Rightarrow> addr \<Rightarrow> b_obj_string res" where
  "name_at hp a = (case string_at hp a of Some s \<Rightarrow> Inr s | None \<Rightarrow> Inl NullPointer)"

definition some_ptr :: "'a option \<Rightarrow> 'a res" where
  "some_ptr p = (case p of None \<Rightarrow> Inl NullPointer | Some a \<Rightarrow> Inr a)"

definition vm_put :: "b_vm \<Rightarrow> addr \<Rightarrow> b_obj \<Rightarrow> b_vm" where
  "vm_put vm a ob = vm\<lparr>vm_heap := (vm_heap vm)(a \<mapsto> ob)\<rparr>"

section \<open>The stack\<close>

definition FRAMES_MAX :: nat where "FRAMES_MAX = 512"
definition STACK_MAX :: nat where "STACK_MAX = FRAMES_MAX * 256"
definition MAX_EXCEPTION_HANDLERS :: int where "MAX_EXCEPTION_HANDLERS = 16"

definition reset_stack :: "b_vm \<Rightarrow> b_vm" where
  "reset_stack vm = vm\<lparr>vm_stack := [], vm_frame_count := 0, vm_open_up_values := None\<rparr>"

text \<open>No operation checks the bounds of the stack.\<close>

definition push :: "b_vm \<Rightarrow> b_value \<Rightarrow> b_vm res" where
  "push vm v = (if STACK_MAX \<le> length (vm_stack vm) then Inl OutOfBounds
                else Inr (vm\<lparr>vm_stack := vm_stack vm @ [v]\<rparr>))"

definition pop_n :: "b_vm \<Rightarrow> nat \<Rightarrow> b_vm res" where
  "pop_n vm n = (if length (vm_stack vm) < n then Inl OutOfBounds
                 else Inr (vm\<lparr>vm_stack := take (length (vm_stack vm) - n) (vm_stack vm)\<rparr>))"

definition pop :: "b_vm \<Rightarrow> (b_vm \<times> b_value) res" where
  "pop vm = (if vm_stack vm = [] then Inl OutOfBounds
             else Inr (vm\<lparr>vm_stack := butlast (vm_stack vm)\<rparr>, last (vm_stack vm)))"

definition peek :: "b_vm \<Rightarrow> nat \<Rightarrow> b_value res" where
  "peek vm distance =
     (if distance < length (vm_stack vm) then Inr (vm_stack vm ! (length (vm_stack vm) - 1 - distance))
      else Inl OutOfBounds)"

text \<open>\<open>vm->stack_top[-1 - distance] = value\<close>\<close>

definition poke :: "b_vm \<Rightarrow> nat \<Rightarrow> b_value \<Rightarrow> b_vm res" where
  "poke vm distance v =
     (if distance < length (vm_stack vm)
      then Inr (vm\<lparr>vm_stack := (vm_stack vm)[length (vm_stack vm) - 1 - distance := v]\<rparr>)
      else Inl OutOfBounds)"

definition gc_protect :: "b_vm \<Rightarrow> addr \<Rightarrow> b_vm res" where
  "gc_protect vm object =
     bindR (push vm (OBJ_VAL object)) (\<lambda>vm. Inr (vm\<lparr>vm_gc_protected := vm_gc_protected vm + 1\<rparr>))"

definition gc_clear_protection :: "b_vm \<Rightarrow> b_vm res" where
  "gc_clear_protection vm =
     bindR (if 0 < vm_gc_protected vm then pop_n vm (vm_gc_protected vm) else Inr vm)
       (\<lambda>vm. Inr (vm\<lparr>vm_gc_protected := 0\<rparr>))"

definition frame_at :: "b_vm \<Rightarrow> nat \<Rightarrow> b_call_frame res" where
  "frame_at vm i = (if i < length (vm_frames vm) then Inr (vm_frames vm ! i) else Inl OutOfBounds)"

definition put_frame :: "b_vm \<Rightarrow> nat \<Rightarrow> b_call_frame \<Rightarrow> b_vm" where
  "put_frame vm i f = vm\<lparr>vm_frames := (vm_frames vm)[i := f]\<rparr>"

section \<open>Exceptions\<close>

text \<open>The walk along the superclasses; a chain longer than the number of objects is a cycle.\<close>

fun is_instance_of :: "nat \<Rightarrow> heap \<Rightarrow> addr option \<Rightarrow> byte list \<Rightarrow> bool res" where
  "is_instance_of fuel hp None name = Inr False"
| "is_instance_of 0 hp (Some k) name = Inl Divergence"
| "is_instance_of (Suc fuel) hp (Some k) name =
     bindR (class_at hp k) (\<lambda>klass. bindR (name_at hp (k_name klass)) (\<lambda>s.
       if length (c_string name) = s_length s \<and> take (s_length s) (s_chars s) = c_string name
       then Inr True
       else is_instance_of fuel hp (k_superclass klass) name))"

definition class_depth :: "b_vm \<Rightarrow> nat" where
  "class_depth vm = Suc (length (vm_objects vm))"

text \<open>\<open>frame->closure->function\<close>\<close>

definition frame_function :: "heap \<Rightarrow> b_call_frame \<Rightarrow> b_obj_func res" where
  "frame_function hp f = bindR (closure_at hp (cf_closure f)) (\<lambda>c. function_at hp (c_function c))"

text \<open>One line of the trace: the line of the instruction before the next one.\<close>

definition trace_line :: "heap \<Rightarrow> b_call_frame \<Rightarrow> byte list res" where
  "trace_line hp f =
     bindR (frame_function hp f) (\<lambda>function.
     bindR (cell_get (bl_lines (f_blob function)) (int (cf_ip f) - 1)) (\<lambda>line.
     bindR (case f_name function of
              None \<Rightarrow> Inr (cstr ''@.script'')
            | Some a \<Rightarrow> bindR (name_at hp a) (\<lambda>s. Inr (c_string (s_chars s)))) (\<lambda>name.
     bindR (some_ptr (f_module function)) (\<lambda>m. bindR (module_at hp m) (\<lambda>module.
       Inr (cstr (''    '' @ m_file module @ '':'' @ dec_int line @ '' -> '') @ name @ cstr ''()''))))))"

text \<open>
  \<open>get_stack_trace\<close>: one line for each frame. The buffer starts as \<open>calloc(0)\<close>, whose first byte is
  read as the end of the string.
\<close>

definition get_stack_trace :: "b_vm \<Rightarrow> (b_vm \<times> b_value) res" where
  "get_stack_trace vm =
     bindR (mapR (trace_line (vm_heap vm)) (take (vm_frame_count vm) (vm_frames vm))) (\<lambda>lines.
     bindR (take_string (vm_hs vm) (concat (map (\<lambda>l. l @ [10]) (butlast lines)) @ (if lines = [] then [] else last lines)))
       (\<lambda>(hs, p). Inr (vm_with vm hs, OBJ_VAL p)))"

datatype handler_result = No_Handler | Catch uint16 | Finally uint16

text \<open>The handlers of one frame, from the last one down.\<close>

fun find_handler :: "b_vm \<Rightarrow> addr \<Rightarrow> b_exception_frame list \<Rightarrow> nat \<Rightarrow> handler_result res" where
  "find_handler vm klass handlers 0 = Inr No_Handler"
| "find_handler vm klass handlers (Suc i) =
     (if length handlers \<le> i then Inl OutOfBounds
      else let handler = handlers ! i in
        bindR (if ef_address handler \<noteq> 0
               then bindR (some_ptr (ef_klass handler)) (\<lambda>k.
                    bindR (class_at (vm_heap vm) k) (\<lambda>hk.
                    bindR (name_at (vm_heap vm) (k_name hk)) (\<lambda>name.
                      is_instance_of (class_depth vm) (vm_heap vm) (Some klass) (s_chars name))))
               else Inr False)
          (\<lambda>caught. if caught then Inr (Catch (ef_address handler))
                    else if ef_finally_address handler \<noteq> 0 then Inr (Finally (ef_finally_address handler))
                    else find_handler vm klass handlers i))"

text \<open>The loop over the frames; the argument is \<open>frame_count\<close>.\<close>

fun propagate_loop :: "b_vm \<Rightarrow> addr \<Rightarrow> nat \<Rightarrow> (b_vm \<times> bool) res" where
  "propagate_loop vm klass 0 = Inr (vm\<lparr>vm_frame_count := 0\<rparr>, False)"
| "propagate_loop vm klass (Suc n) =
     bindR (frame_at vm n) (\<lambda>frame.
     bindR (find_handler vm klass (cf_handlers frame) (nat (cf_handlers_count frame))) (\<lambda>r.
       case r of
         No_Handler \<Rightarrow> propagate_loop vm klass n
       | Catch address \<Rightarrow>
           Inr (put_frame (vm\<lparr>vm_frame_count := Suc n\<rparr>) n (frame\<lparr>cf_ip := unat address\<rparr>), True)
       | Finally address \<Rightarrow>
           bindR (push (vm\<lparr>vm_frame_count := Suc n\<rparr>) (BOOL_VAL True)) (\<lambda>vm.
             Inr (put_frame vm n (frame\<lparr>cf_ip := unat address\<rparr>), True))))"

definition propagate_exception :: "b_vm \<Rightarrow> (b_vm \<times> bool) res" where
  "propagate_exception vm =
     bindR (peek vm 0) (\<lambda>v. bindR (instance_at (vm_heap vm) (AS_OBJ v)) (\<lambda>exception.
       propagate_loop vm (i_klass exception) (vm_frame_count vm)))"

definition push_exception_handler ::
    "b_vm \<Rightarrow> addr option \<Rightarrow> uint16 \<Rightarrow> uint16 \<Rightarrow> (b_vm \<times> bool) res" where
  "push_exception_handler vm type address finally_address =
     (if vm_frame_count vm = 0 then Inl OutOfBounds
      else let n = vm_frame_count vm - 1 in
        bindR (frame_at vm n) (\<lambda>frame.
          if cf_handlers_count frame = MAX_EXCEPTION_HANDLERS then Inr (reset_stack vm, False)
          else if cf_handlers_count frame < 0 \<or> int (length (cf_handlers frame)) \<le> cf_handlers_count frame
          then Inl OutOfBounds
          else Inr (put_frame vm n
                      (frame\<lparr>cf_handlers := (cf_handlers frame)[nat (cf_handlers_count frame) :=
                               \<lparr>ef_address = address, ef_finally_address = finally_address, ef_klass = type\<rparr>],
                             cf_handlers_count := cf_handlers_count frame + 1\<rparr>), True)))"

text \<open>\<open>new_instance\<close> copies the default values of the fields of the class.\<close>

definition new_instance :: "hstate \<Rightarrow> addr \<Rightarrow> (hstate \<times> addr) res" where
  "new_instance hs k =
     bindR (class_at (hs_heap hs) k) (\<lambda>klass.
       let (hs1, a) = alloc_obj hs (OInstance \<lparr>i_properties = init_table, i_klass = k\<rparr>)
       in if 0 < t_count (k_properties klass)
          then bindR (table_copy hs1 (k_properties klass) init_table) (\<lambda>(hs2, t).
                 Inr (put_obj hs2 a (OInstance \<lparr>i_properties = t, i_klass = k\<rparr>), a))
          else Inr (hs1, a))"

definition set_property :: "hstate \<Rightarrow> addr \<Rightarrow> b_value \<Rightarrow> b_value \<Rightarrow> hstate res" where
  "set_property hs a key v =
     bindR (instance_at (hs_heap hs) a) (\<lambda>i.
     bindR (table_set (hs_heap hs) (i_properties i) key v) (\<lambda>(t, _).
       Inr (put_obj hs a (OInstance (i\<lparr>i_properties := t\<rparr>)))))"

definition create_exception :: "b_vm \<Rightarrow> addr \<Rightarrow> (b_vm \<times> addr) res" where
  "create_exception vm message =
     bindR (some_ptr (vm_exception_class vm)) (\<lambda>k.
     bindR (new_instance (vm_hs vm) k) (\<lambda>(hs, a).
     bindR (copy_string hs (cstr ''message'')) (\<lambda>(hs, key).
     bindR (set_property hs a (OBJ_VAL key) (OBJ_VAL message)) (\<lambda>hs. Inr (vm_with vm hs, a)))))"

text \<open>An exception with a message that is already formatted.\<close>

definition throw_message :: "b_vm \<Rightarrow> byte list \<Rightarrow> (b_vm \<times> bool) res" where
  "throw_message vm chars =
     bindR (take_string (vm_hs vm) chars) (\<lambda>(hs, message).
     bindR (create_exception (vm_with vm hs) message) (\<lambda>(vm, a).
     bindR (push vm (OBJ_VAL a)) (\<lambda>vm.
     bindR (get_stack_trace vm) (\<lambda>(vm, stacktrace).
     bindR (copy_string (vm_hs vm) (cstr ''stacktrace'')) (\<lambda>(hs, key).
     bindR (set_property hs a (OBJ_VAL key) stacktrace) (\<lambda>hs.
       propagate_exception (vm_with vm hs)))))))"

definition do_throw_exception :: "b_vm \<Rightarrow> string \<Rightarrow> (b_vm \<times> bool) res" where
  "do_throw_exception vm format = throw_message vm (cstr format)"

section \<open>Up-values\<close>

text \<open>
  The open up-values form a list, linked through the heap, by descending stack slots. The walk stops
  at the first one whose slot is not above \<open>local\<close>.
\<close>

fun capture_walk :: "nat \<Rightarrow> heap \<Rightarrow> nat \<Rightarrow> addr option \<Rightarrow> addr option \<Rightarrow> (addr option \<times> addr option) res" where
  "capture_walk fuel hp local prev None = Inr (prev, None)"
| "capture_walk 0 hp local prev (Some a) = Inl Divergence"
| "capture_walk (Suc fuel) hp local prev (Some a) =
     bindR (up_value_at hp a) (\<lambda>u. bindR (some_ptr (uv_location u)) (\<lambda>s.
       if local < s then capture_walk fuel hp local (Some a) (uv_next u) else Inr (prev, Some a)))"

definition capture_up_value :: "b_vm \<Rightarrow> nat \<Rightarrow> (b_vm \<times> addr) res" where
  "capture_up_value vm local =
     bindR (capture_walk (length (vm_objects vm)) (vm_heap vm) local None (vm_open_up_values vm))
       (\<lambda>(prev, cur).
         bindR (case cur of
                  None \<Rightarrow> Inr False
                | Some a \<Rightarrow> bindR (up_value_at (vm_heap vm) a) (\<lambda>u. Inr (uv_location u = Some local))) (\<lambda>found.
           if found then bindR (some_ptr cur) (\<lambda>a. Inr (vm, a))
           else let (hs, c) = new_up_value (vm_hs vm) local;
                    vm1 = vm_put (vm_with vm hs) c (OUpValue \<lparr>uv_closed = NIL_VAL, uv_location = Some local, uv_next = cur\<rparr>)
                in case prev of
                     None \<Rightarrow> Inr (vm1\<lparr>vm_open_up_values := Some c\<rparr>, c)
                   | Some p \<Rightarrow> bindR (up_value_at (vm_heap vm1) p)
                       (\<lambda>u. Inr (vm_put vm1 p (OUpValue (u\<lparr>uv_next := Some c\<rparr>)), c))))"

fun close_up_values :: "nat \<Rightarrow> b_vm \<Rightarrow> nat \<Rightarrow> b_vm res" where
  "close_up_values fuel vm stop =
     (case vm_open_up_values vm of
        None \<Rightarrow> Inr vm
      | Some a \<Rightarrow>
          bindR (up_value_at (vm_heap vm) a) (\<lambda>u. bindR (some_ptr (uv_location u)) (\<lambda>s.
            if stop \<le> s
            then (case fuel of
                    0 \<Rightarrow> Inl Divergence
                  | Suc n \<Rightarrow>
                      if s < length (vm_stack vm)
                      then close_up_values n
                             (vm_put vm a (OUpValue (u\<lparr>uv_closed := vm_stack vm ! s, uv_location := None\<rparr>))
                                \<lparr>vm_open_up_values := uv_next u\<rparr>) stop
                      else Inl OutOfBounds)
            else Inr vm)))"

declare close_up_values.simps [simp del]

text \<open>\<open>*up_value->location\<close>, read and written.\<close>

definition up_value_get :: "b_vm \<Rightarrow> addr \<Rightarrow> b_value res" where
  "up_value_get vm a =
     bindR (up_value_at (vm_heap vm) a) (\<lambda>u.
       case uv_location u of
         None \<Rightarrow> Inr (uv_closed u)
       | Some s \<Rightarrow> if s < length (vm_stack vm) then Inr (vm_stack vm ! s) else Inl OutOfBounds)"

definition up_value_set :: "b_vm \<Rightarrow> addr \<Rightarrow> b_value \<Rightarrow> b_vm res" where
  "up_value_set vm a v =
     bindR (up_value_at (vm_heap vm) a) (\<lambda>u.
       case uv_location u of
         None \<Rightarrow> Inr (vm_put vm a (OUpValue (u\<lparr>uv_closed := v\<rparr>)))
       | Some s \<Rightarrow> if s < length (vm_stack vm) then Inr (vm\<lparr>vm_stack := (vm_stack vm)[s := v]\<rparr>)
                   else Inl OutOfBounds)"

section \<open>Lemmas\<close>

lemma vm_hs_sel [simp]:
  "hs_heap (vm_hs vm) = vm_heap vm" "hs_next (vm_hs vm) = vm_next vm" "hs_strings (vm_hs vm) = vm_strings vm"
  by (simp_all add: vm_hs_def)

lemma vm_with_sel [simp]:
  "vm_stack (vm_with vm hs) = vm_stack vm" "vm_heap (vm_with vm hs) = hs_heap hs"
  "vm_next (vm_with vm hs) = hs_next hs" "vm_strings (vm_with vm hs) = hs_strings hs"
  "vm_frames (vm_with vm hs) = vm_frames vm" "vm_frame_count (vm_with vm hs) = vm_frame_count vm"
  "vm_open_up_values (vm_with vm hs) = vm_open_up_values vm"
  "vm_objects (vm_with vm hs) = new_addrs (vm_next vm) (hs_next hs) @ vm_objects vm"
  "vm_hs (vm_with vm hs) = hs"
  by (simp_all add: vm_with_def Let_def vm_hs_def)

lemma vm_put_sel [simp]:
  "vm_stack (vm_put vm a ob) = vm_stack vm" "vm_heap (vm_put vm a ob) = (vm_heap vm)(a \<mapsto> ob)"
  "vm_next (vm_put vm a ob) = vm_next vm" "vm_frames (vm_put vm a ob) = vm_frames vm"
  "vm_frame_count (vm_put vm a ob) = vm_frame_count vm" "vm_objects (vm_put vm a ob) = vm_objects vm"
  "vm_open_up_values (vm_put vm a ob) = vm_open_up_values vm"
  "vm_hs (vm_put vm a ob) = put_obj (vm_hs vm) a ob"
  by (simp_all add: vm_put_def vm_hs_def put_obj_def)

lemma new_addrs_one [simp]: "new_addrs a (a + 32) = [a]"
  by (simp add: new_addrs_def)

end
