(* ===== verification/Dict_Methods.thy ===== *)
theory Dict_Methods
  imports List_Methods
begin

text \<open>
  \<open>dict.c\<close>: the native methods of Blade dictionaries, one definition per \<open>DECLARE_DICT_METHOD\<close>.
  A dictionary is an array of keys in insertion order (\<open>names\<close>) beside a hash table (\<open>items\<close>). A
  lookup into a local variable that finds nothing leaves the variable indeterminate; using it then
  is the error \<open>Uninitialised\<close>.
\<close>

definition ENFORCE_VALID_DICT_KEY :: "hstate \<Rightarrow> string \<Rightarrow> nat \<Rightarrow> b_value list \<Rightarrow> 'a res \<Rightarrow> 'a res" where
  "ENFORCE_VALID_DICT_KEY hs name index args k =
     EXCLUDE_ARG_TYPE name (IS_LIST (hs_heap hs)) index args
       (EXCLUDE_ARG_TYPE name (IS_DICT (hs_heap hs)) index args
         (EXCLUDE_ARG_TYPE name (IS_FILE (hs_heap hs)) index args k))"

definition dict_length :: "hstate \<Rightarrow> addr \<Rightarrow> b_value list \<Rightarrow> (hstate \<times> b_value) res" where
  "dict_length hs self args =
     ENFORCE_ARG_COUNT ''dictionary.length'' 0 args
       (bindR (dict_at hs self) (\<lambda>dict. Inr (hs, number_val (int (va_count (d_names dict))))))"

definition dict_add :: "hstate \<Rightarrow> addr \<Rightarrow> b_value list \<Rightarrow> (hstate \<times> b_value) res" where
  "dict_add hs self args =
     ENFORCE_ARG_COUNT ''add'' 2 args (ENFORCE_VALID_DICT_KEY hs ''add'' 0 args
       (bindR (dict_at hs self) (\<lambda>dict.
        bindR (table_get (hs_heap hs) (d_items dict) (args ! 0)) (\<lambda>found.
          case found of
            Some _ \<Rightarrow> Inl (Thrown ''duplicate key %s at add()'')
          | None \<Rightarrow> bindR (dict_add_entry (hs_heap hs) dict (args ! 0) (args ! 1))
                      (\<lambda>dict'. Inr (put_obj hs self (ODict dict'), EMPTY_VAL))))))"

definition dict_set :: "hstate \<Rightarrow> addr \<Rightarrow> b_value list \<Rightarrow> (hstate \<times> b_value) res" where
  "dict_set hs self args =
     ENFORCE_ARG_COUNT ''set'' 2 args (ENFORCE_VALID_DICT_KEY hs ''set'' 0 args
       (bindR (dict_at hs self) (\<lambda>dict.
        bindR (table_get (hs_heap hs) (d_items dict) (args ! 0)) (\<lambda>found.
        bindR (case found of
                 None \<Rightarrow> dict_add_entry (hs_heap hs) dict (args ! 0) (args ! 1)
               | Some _ \<Rightarrow> bindR (dict_set_entry (hs_heap hs) dict (args ! 0) (args ! 1))
                             (\<lambda>(dict', _). Inr dict'))
          (\<lambda>dict'. Inr (put_obj hs self (ODict dict'), EMPTY_VAL))))))"

definition dict_clear :: "hstate \<Rightarrow> addr \<Rightarrow> b_value list \<Rightarrow> (hstate \<times> b_value) res" where
  "dict_clear hs self args =
     ENFORCE_ARG_COUNT ''dict'' 0 args
       (bindR (dict_at hs self)
         (\<lambda>dict. Inr (put_obj hs self (ODict \<lparr>d_names = free_value_arr (d_names dict),
                                             d_items = free_table (d_items dict)\<rparr>), EMPTY_VAL)))"

definition empty_dict :: b_obj_dict where
  "empty_dict = \<lparr>d_names = init_value_arr, d_items = init_table\<rparr>"

definition dict_clone :: "hstate \<Rightarrow> addr \<Rightarrow> b_value list \<Rightarrow> (hstate \<times> b_value) res" where
  "dict_clone hs self args =
     ENFORCE_ARG_COUNT ''clone'' 0 args
       (bindR (dict_at hs self) (\<lambda>dict.
        bindR (table_add_all (hs_heap hs) (d_items dict) (d_items empty_dict)) (\<lambda>items.
        bindR (arr_read (d_names dict)) (\<lambda>ns.
        bindR (write_all (d_names empty_dict) ns) (\<lambda>names.
          let (hs', p) = alloc_obj hs (ODict \<lparr>d_names = names, d_items = items\<rparr>)
          in Inr (hs', OBJ_VAL p))))))"

text \<open>One round of the loop of \<open>compact\<close>: \<open>tmp_value\<close> is only set when the key is found.\<close>

definition compact_step :: "heap \<Rightarrow> b_table \<Rightarrow> b_obj_dict \<Rightarrow> b_value \<Rightarrow> b_obj_dict res" where
  "compact_step hp items n_dict key =
     bindR (table_get hp items key)
       (\<lambda>tmp. case tmp of
          None \<Rightarrow> Inl Uninitialised
        | Some v \<Rightarrow> if \<not> values_equal v NIL_VAL then dict_add_entry hp n_dict key v else Inr n_dict)"

definition dict_compact :: "hstate \<Rightarrow> addr \<Rightarrow> b_value list \<Rightarrow> (hstate \<times> b_value) res" where
  "dict_compact hs self args =
     ENFORCE_ARG_COUNT ''compact'' 0 args
       (bindR (dict_at hs self) (\<lambda>dict.
        bindR (arr_read (d_names dict)) (\<lambda>ns.
        bindR (foldR (compact_step (hs_heap hs) (d_items dict)) empty_dict ns) (\<lambda>n_dict.
          let (hs', p) = alloc_obj hs (ODict n_dict) in Inr (hs', OBJ_VAL p)))))"

definition dict_contains :: "hstate \<Rightarrow> addr \<Rightarrow> b_value list \<Rightarrow> (hstate \<times> b_value) res" where
  "dict_contains hs self args =
     ENFORCE_ARG_COUNT ''contains'' 1 args (ENFORCE_VALID_DICT_KEY hs ''contains'' 0 args
       (bindR (dict_at hs self) (\<lambda>dict.
        bindR (table_get (hs_heap hs) (d_items dict) (args ! 0))
          (\<lambda>found. Inr (hs, BOOL_VAL (found \<noteq> None))))))"

text \<open>
  The first loop of \<open>extend\<close> re-reads the number of names in every iteration; for a dictionary
  extended by itself both grow together. The names are written without a test for presence.
\<close>

definition write_name :: "hstate \<Rightarrow> addr \<Rightarrow> b_value \<Rightarrow> hstate res" where
  "write_name hs a v =
     bindR (dict_at hs a) (\<lambda>dict. bindR (write_value_arr (d_names dict) v)
       (\<lambda>names. Inr (put_obj hs a (ODict (dict\<lparr>d_names := names\<rparr>)))))"

fun extend_names :: "nat \<Rightarrow> hstate \<Rightarrow> addr \<Rightarrow> addr \<Rightarrow> nat \<Rightarrow> hstate res" where
  "extend_names 0 hs a b i = Inl Divergence"
| "extend_names (Suc fuel) hs a b i =
     bindR (dict_at hs b)
       (\<lambda>dict_cpy. if i < va_count (d_names dict_cpy)
                   then bindR (cell_get (va_values (d_names dict_cpy)) (int i))
                     (\<lambda>v. bindR (write_name hs a v) (\<lambda>hs'. extend_names fuel hs' a b (i + 1)))
                   else Inr hs)"

definition dict_extend :: "nat \<Rightarrow> hstate \<Rightarrow> addr \<Rightarrow> b_value list \<Rightarrow> (hstate \<times> b_value) res" where
  "dict_extend fuel hs self args =
     ENFORCE_ARG_COUNT ''extend'' 1 args
       (ENFORCE_ARG_TYPE ''extend'' 0 ''dict'' (IS_DICT (hs_heap hs)) args
         (bindR (extend_names fuel hs self (AS_OBJ (args ! 0)) 0) (\<lambda>hs1.
          bindR (dict_at hs1 self) (\<lambda>dict.
          bindR (dict_at hs1 (AS_OBJ (args ! 0))) (\<lambda>dict_cpy.
          bindR (table_add_all (hs_heap hs1) (d_items dict_cpy) (d_items dict))
            (\<lambda>items. Inr (put_obj hs1 self (ODict (dict\<lparr>d_items := items\<rparr>)), EMPTY_VAL)))))))"

definition dict_get :: "hstate \<Rightarrow> addr \<Rightarrow> b_value list \<Rightarrow> (hstate \<times> b_value) res" where
  "dict_get hs self args =
     ENFORCE_ARG_RANGE ''get'' 1 2 args (ENFORCE_VALID_DICT_KEY hs ''get'' 0 args
       (bindR (dict_at hs self) (\<lambda>dict.
        bindR (dict_get_entry (hs_heap hs) dict (args ! 0)) (\<lambda>found.
          case found of
            None \<Rightarrow> if length args = 1 then Inr (hs, NIL_VAL) else Inr (hs, args ! 1)
          | Some v \<Rightarrow> Inr (hs, v)))))"

definition dict_keys :: "hstate \<Rightarrow> addr \<Rightarrow> b_value list \<Rightarrow> (hstate \<times> b_value) res" where
  "dict_keys hs self args =
     ENFORCE_ARG_COUNT ''keys'' 0 args
       (bindR (dict_at hs self) (\<lambda>dict. bindR (arr_read (d_names dict))
         (\<lambda>ns. bindR (new_list_of hs ns) (\<lambda>(hs', p). Inr (hs', OBJ_VAL p)))))"

definition value_of_name :: "heap \<Rightarrow> b_obj_dict \<Rightarrow> b_value \<Rightarrow> b_value res" where
  "value_of_name hp dict key =
     bindR (dict_get_entry hp dict key)
       (\<lambda>tmp. case tmp of None \<Rightarrow> Inl Uninitialised | Some v \<Rightarrow> Inr v)"

definition dict_values :: "hstate \<Rightarrow> addr \<Rightarrow> b_value list \<Rightarrow> (hstate \<times> b_value) res" where
  "dict_values hs self args =
     ENFORCE_ARG_COUNT ''values'' 0 args
       (bindR (dict_at hs self) (\<lambda>dict. bindR (arr_read (d_names dict))
         (\<lambda>ns. bindR (mapR (value_of_name (hs_heap hs) dict) ns)
           (\<lambda>vs. bindR (new_list_of hs vs) (\<lambda>(hs', p). Inr (hs', OBJ_VAL p))))))"

text \<open>
  \<open>remove\<close>: the index of the name stays \<open>-1\<close> when no name equals the key; the loop that closes the
  gap then starts at \<open>names.values[-1]\<close>.
\<close>

definition dict_remove :: "hstate \<Rightarrow> addr \<Rightarrow> b_value list \<Rightarrow> (hstate \<times> b_value) res" where
  "dict_remove hs self args =
     ENFORCE_ARG_COUNT ''remove'' 1 args (ENFORCE_VALID_DICT_KEY hs ''remove'' 0 args
       (bindR (dict_at hs self) (\<lambda>dict.
        bindR (table_get (hs_heap hs) (d_items dict) (args ! 0)) (\<lambda>found.
          case found of
            None \<Rightarrow> Inr (hs, NIL_VAL)
          | Some v \<Rightarrow>
              bindR (table_delete (hs_heap hs) (d_items dict) (args ! 0)) (\<lambda>(items, _).
              bindR (arr_read (d_names dict)) (\<lambda>ns.
              let index = index_of_from 0 ns (args ! 0);
                  names = d_names dict
              in bindR (shift_down (va_values names) index (nat (int (va_count names) - index)))
                   (\<lambda>cs. Inr (put_obj hs self
                                (ODict \<lparr>d_names = names\<lparr>va_values := cs, va_count := va_count names - 1\<rparr>,
                                        d_items = items\<rparr>), v))))))))"

definition dict_is_empty :: "hstate \<Rightarrow> addr \<Rightarrow> b_value list \<Rightarrow> (hstate \<times> b_value) res" where
  "dict_is_empty hs self args =
     ENFORCE_ARG_COUNT ''is_empty'' 0 args
       (bindR (dict_at hs self) (\<lambda>dict. Inr (hs, BOOL_VAL (va_count (d_names dict) = 0))))"

definition dict_find_key :: "hstate \<Rightarrow> addr \<Rightarrow> b_value list \<Rightarrow> (hstate \<times> b_value) res" where
  "dict_find_key hs self args =
     ENFORCE_ARG_COUNT ''find_key'' 1 args
       (bindR (dict_at hs self) (\<lambda>dict. Inr (hs, table_find_key (d_items dict) (args ! 0))))"

definition value_or_nil :: "heap \<Rightarrow> b_obj_dict \<Rightarrow> b_value \<Rightarrow> b_value res" where
  "value_or_nil hp dict key =
     bindR (table_get hp (d_items dict) key)
       (\<lambda>found. case found of None \<Rightarrow> Inr NIL_VAL | Some v \<Rightarrow> Inr v)"

definition dict_to_list :: "hstate \<Rightarrow> addr \<Rightarrow> b_value list \<Rightarrow> (hstate \<times> b_value) res" where
  "dict_to_list hs self args =
     ENFORCE_ARG_COUNT ''to_list'' 0 args
       (bindR (dict_at hs self) (\<lambda>dict. bindR (arr_read (d_names dict)) (\<lambda>ns.
        bindR (mapR (value_or_nil (hs_heap hs) dict) ns) (\<lambda>vs.
        bindR (new_list_of hs ns) (\<lambda>(hs1, name_list).
        bindR (new_list_of hs1 vs) (\<lambda>(hs2, value_list).
        bindR (new_list_of hs2 [OBJ_VAL name_list, OBJ_VAL value_list])
          (\<lambda>(hs3, p). Inr (hs3, OBJ_VAL p))))))))"

definition dict_iter :: "hstate \<Rightarrow> addr \<Rightarrow> b_value list \<Rightarrow> (hstate \<times> b_value) res" where
  "dict_iter hs self args =
     ENFORCE_ARG_COUNT ''__iter__'' 1 args
       (bindR (dict_at hs self) (\<lambda>dict.
        bindR (table_get (hs_heap hs) (d_items dict) (args ! 0)) (\<lambda>found.
          case found of Some v \<Rightarrow> Inr (hs, v) | None \<Rightarrow> Inr (hs, NIL_VAL))))"

text \<open>The name behind the first occurrence of the key that is not the last name.\<close>

fun next_name :: "b_value \<Rightarrow> b_value list \<Rightarrow> b_value" where
  "next_name key (x # y # ns) = (if values_equal key x then y else next_name key (y # ns))"
| "next_name key ns = NIL_VAL"

definition dict_itern :: "hstate \<Rightarrow> addr \<Rightarrow> b_value list \<Rightarrow> (hstate \<times> b_value) res" where
  "dict_itern hs self args =
     ENFORCE_ARG_COUNT ''__itern__'' 1 args
       (bindR (dict_at hs self) (\<lambda>dict.
          if IS_NIL (args ! 0)
          then (if va_count (d_names dict) = 0 then Inr (hs, BOOL_VAL False)
                else bindR (cell_get (va_values (d_names dict)) 0) (\<lambda>v. Inr (hs, v)))
          else bindR (arr_read (d_names dict)) (\<lambda>ns. Inr (hs, next_name (args ! 0) ns))))"

end
