(* ===== verification/Double_Arith.thy ===== *)
theory Double_Arith
  imports Double Scanner
begin

text \<open>
  Arithmetic of IEEE-754 binary64 on bit patterns, rounding to nearest with ties to even, and the
  text that \<open>printf\<close> gives for \<open>NUMBER_FORMAT\<close>, which is \<open>%.16g\<close>. A finite number is an integer
  multiple of \<open>2 ^ -1074\<close> (\<open>dbl_scaled\<close>), so that sums, products, quotients and remainders are
  computed on integers and rounded once. The pattern of the NaN an operation gives is left to the
  platform; it is the argument \<open>nan\<close>. Sums and products of integers are exact
  (\<open>dbl_add_int\<close>, \<open>dbl_mul_int\<close>).
\<close>

section \<open>Rounding\<close>

definition dbl_is_inf :: "double \<Rightarrow> bool" where
  "dbl_is_inf d = (dbl_exp d = 2047 \<and> dbl_frac d = 0)"

definition dbl_is_zero :: "double \<Rightarrow> bool" where
  "dbl_is_zero d = (dbl_exp d = 0 \<and> dbl_frac d = 0)"

text \<open>The magnitude of a finite number, in units of \<open>2 ^ -1074\<close>.\<close>

definition dbl_mag :: "double \<Rightarrow> nat" where
  "dbl_mag d = (if dbl_exp d = 0 then dbl_frac d else (2 ^ 52 + dbl_frac d) * 2 ^ (dbl_exp d - 1))"

definition dbl_scaled :: "double \<Rightarrow> int" where
  "dbl_scaled d = (if dbl_sign d then - int (dbl_mag d) else int (dbl_mag d))"

text \<open>A quotient rounded to the nearest integer, ties to even.\<close>

definition div_round :: "nat \<Rightarrow> nat \<Rightarrow> nat" where
  "div_round n d =
     (let q = n div d; r = n mod d
      in if d < 2 * r \<or> (2 * r = d \<and> odd q) then q + 1 else q)"

text \<open>
  The number nearest to \<open>n / d\<close> units: 53 bits are kept. A carry out of the rounding raises the
  exponent field by itself; a result beyond the largest number is an infinity.
\<close>

definition dbl_round :: "bool \<Rightarrow> nat \<Rightarrow> nat \<Rightarrow> double" where
  "dbl_round s n d =
     (let k = ilog2 (n div d) - 52;
          p = k * 2 ^ 52 + div_round n (d * 2 ^ k)
      in word_of_nat ((if s then 2 ^ 63 else 0) + min p (2047 * 2 ^ 52)))"

definition dbl_inf :: "bool \<Rightarrow> double" where
  "dbl_inf s = dbl_pack s 2047 0"

definition dbl_zero :: "bool \<Rightarrow> double" where
  "dbl_zero s = dbl_pack s 0 0"

section \<open>Operations\<close>

definition dbl_neg :: "double \<Rightarrow> double" where
  "dbl_neg d = d XOR 0x8000000000000000"

text \<open>A sum that is zero is positive, but for the sum of two negative zeros.\<close>

definition dbl_add :: "double \<Rightarrow> double \<Rightarrow> double \<Rightarrow> double" where
  "dbl_add nan a b =
     (if dbl_is_nan a \<or> dbl_is_nan b \<or> (dbl_is_inf a \<and> dbl_is_inf b \<and> dbl_sign a \<noteq> dbl_sign b) then nan
      else if dbl_is_inf a then a
      else if dbl_is_inf b then b
      else let v = dbl_scaled a + dbl_scaled b
           in if v = 0 then dbl_zero (dbl_sign a \<and> dbl_sign b) else dbl_round (v < 0) (nat \<bar>v\<bar>) 1)"

definition dbl_sub :: "double \<Rightarrow> double \<Rightarrow> double \<Rightarrow> double" where
  "dbl_sub nan a b = (if dbl_is_nan b then nan else dbl_add nan a (dbl_neg b))"

definition dbl_mul :: "double \<Rightarrow> double \<Rightarrow> double \<Rightarrow> double" where
  "dbl_mul nan a b =
     (let s = (dbl_sign a \<noteq> dbl_sign b)
      in if dbl_is_nan a \<or> dbl_is_nan b \<or> (dbl_is_inf a \<and> dbl_is_zero b) \<or> (dbl_is_zero a \<and> dbl_is_inf b)
         then nan
         else if dbl_is_inf a \<or> dbl_is_inf b then dbl_inf s
         else if dbl_is_zero a \<or> dbl_is_zero b then dbl_zero s
         else dbl_round s (dbl_mag a * dbl_mag b) (2 ^ 1074))"

definition dbl_div :: "double \<Rightarrow> double \<Rightarrow> double \<Rightarrow> double" where
  "dbl_div nan a b =
     (let s = (dbl_sign a \<noteq> dbl_sign b)
      in if dbl_is_nan a \<or> dbl_is_nan b \<or> (dbl_is_inf a \<and> dbl_is_inf b) \<or> (dbl_is_zero a \<and> dbl_is_zero b)
         then nan
         else if dbl_is_inf a \<or> dbl_is_zero b then dbl_inf s
         else if dbl_is_zero a \<or> dbl_is_inf b then dbl_zero s
         else dbl_round s (dbl_mag a * 2 ^ 1074) (dbl_mag b))"

text \<open>\<open>fmod\<close> is exact and has the sign of the first argument.\<close>

definition dbl_fmod :: "double \<Rightarrow> double \<Rightarrow> double \<Rightarrow> double" where
  "dbl_fmod nan a b =
     (if dbl_is_nan a \<or> dbl_is_nan b \<or> dbl_is_inf a \<or> dbl_is_zero b then nan
      else if dbl_is_inf b then a
      else let m = dbl_mag a mod dbl_mag b
           in if m = 0 then dbl_zero (dbl_sign a) else dbl_round (dbl_sign a) m 1)"

definition dbl_lt :: "double \<Rightarrow> double \<Rightarrow> bool" where
  "dbl_lt a b = dbl_gt b a"

section \<open>Text of a number\<close>

text \<open>The power of ten that lifts a number below one to at least one.\<close>

fun dec_shift :: "nat \<Rightarrow> nat \<Rightarrow> nat \<Rightarrow> nat" where
  "dec_shift 0 n d = 0"
| "dec_shift (Suc fuel) n d = (if d \<le> n then 0 else Suc (dec_shift fuel (10 * n) d))"

text \<open>The decimal exponent of \<open>n / d\<close> and its digits, rounded to 16.\<close>

definition dec_exponent :: "nat \<Rightarrow> nat \<Rightarrow> int" where
  "dec_exponent n d =
     (if d \<le> n then int (length (dec_nat (n div d))) - 1 else - int (dec_shift 400 n d))"

definition dec_digits :: "nat \<Rightarrow> nat \<Rightarrow> int \<times> string" where
  "dec_digits n d =
     (let x = dec_exponent n d;
          m = (if x \<le> 15 then div_round (n * 10 ^ nat (15 - x)) d else div_round n (d * 10 ^ nat (x - 15)))
      in if m = 10 ^ 16 then (x + 1, dec_nat (10 ^ 15)) else (x, dec_nat m))"

definition strip_zeros :: "string \<Rightarrow> string" where
  "strip_zeros s = rev (dropWhile (\<lambda>c. c = CHR ''0'') (rev s))"

definition with_point :: "string \<Rightarrow> string \<Rightarrow> string" where
  "with_point whole fraction =
     (let f = strip_zeros fraction in if f = '''' then whole else whole @ ''.'' @ f)"

definition two_digits :: "nat \<Rightarrow> string" where
  "two_digits n = (if n < 10 then ''0'' @ dec_nat n else dec_nat n)"

definition fmt_finite :: "nat \<Rightarrow> nat \<Rightarrow> string" where
  "fmt_finite n d =
     (let (x, ds) = dec_digits n d
      in if 0 \<le> x \<and> x < 16 then with_point (take (nat x + 1) ds) (drop (nat x + 1) ds)
         else if -4 \<le> x \<and> x < 0 then with_point ''0'' (replicate (nat (- x) - 1) CHR ''0'' @ ds)
         else with_point (take 1 ds) (drop 1 ds) @ ''e'' @ (if x < 0 then ''-'' else ''+'') @ two_digits (nat \<bar>x\<bar>))"

definition number_format :: "double \<Rightarrow> string" where
  "number_format v =
     (if dbl_sign v then ''-'' else '''') @
     (if dbl_is_nan v then ''nan''
      else if dbl_is_inf v then ''inf''
      else if dbl_is_zero v then ''0''
      else fmt_finite (dbl_mag v) (2 ^ 1074))"

section \<open>Exactness on integers\<close>

lemma ilog2_unique:
  assumes "2 ^ e \<le> n" and "n < 2 ^ Suc e"
  shows "ilog2 n = e"
proof -
  have n: "0 < n" using assms(1) by (metis gr0I not_le zero_less_numeral zero_less_power)
  have "(2::nat) ^ ilog2 n < 2 ^ Suc e" and "(2::nat) ^ e < 2 ^ Suc (ilog2 n)"
    using ilog2_bounds [OF n] assms by linarith+
  then show ?thesis by (simp add: power_strict_increasing_iff del: power_Suc)
qed

lemma ilog2_shift: "0 < m \<Longrightarrow> ilog2 (m * 2 ^ k) = ilog2 m + k"
  using ilog2_bounds [of m] by (intro ilog2_unique) (simp_all add: power_add)

lemma div_round_exact: "0 < d \<Longrightarrow> div_round (q * d) d = q"
  by (simp add: div_round_def)

lemma dbl_round_exact:
  assumes "n \<noteq> 0" and "\<bar>n\<bar> < 2 ^ 53" and "0 < d"
  shows "dbl_round (n < 0) (nat \<bar>n\<bar> * 2 ^ 1074 * d) d = double_of_int n"
proof -
  define m where "m = nat \<bar>n\<bar>"
  define e where "e = ilog2 m"
  have m: "0 < m" using assms(1) by (simp add: m_def)
  note f = double_of_int_fields [OF assms(1,2), folded m_def, folded e_def]
  have k: "ilog2 (m * 2 ^ 1074 * d div d) - 52 = e + 1022"
    using assms(3) m ilog2_shift [of m 1074] by (simp add: e_def del: power_numeral)
  have "m * 2 ^ 1074 * d = m * 2 ^ (52 - e) * (d * 2 ^ (e + 1022))"
  proof -
    have "(2::nat) ^ 1074 = 2 ^ (52 - e) * 2 ^ (e + 1022)"
      using f(1) by (simp only: power_add [symmetric]) simp
    then show ?thesis by (simp only: ac_simps)
  qed
  then have r: "div_round (m * 2 ^ 1074 * d) (d * 2 ^ (e + 1022)) = m * 2 ^ (52 - e)"
    using assms(3) by (simp only: div_round_exact nat_0_less_mult_iff zero_less_power zero_less_numeral)
  have p: "(e + 1022) * 2 ^ 52 + m * 2 ^ (52 - e) = (1023 + e) * 2 ^ 52 + (m * 2 ^ (52 - e) - 2 ^ 52)"
    using f(2) by (simp add: algebra_simps)
  have "(e + 1022) * 2 ^ 52 + m * 2 ^ (52 - e) \<le> 2047 * 2 ^ 52"
    using f by simp
  then have "dbl_round (n < 0) (m * 2 ^ 1074 * d) d = dbl_pack (n < 0) (1023 + e) (m * 2 ^ (52 - e) - 2 ^ 52)"
    unfolding dbl_round_def Let_def k r dbl_pack_def
    using p by (simp only: min_absorb1 add.assoc)
  then show ?thesis
    using assms(1) by (simp add: double_of_int_def Let_def m_def e_def)
qed

lemma of_int_fields:
  assumes "\<bar>n\<bar> < 2 ^ 53"
  shows "dbl_exp (double_of_int n) < 2047"
    and "dbl_sign (double_of_int n) \<longleftrightarrow> n < 0"
    and "dbl_mag (double_of_int n) = nat \<bar>n\<bar> * 2 ^ 1074"
    and "dbl_is_zero (double_of_int n) \<longleftrightarrow> n = 0"
proof -
  define m where "m = nat \<bar>n\<bar>"
  define e where "e = ilog2 m"
  have z: "n = 0 \<or> n \<noteq> 0 \<and> e \<le> 52 \<and> dbl_exp (double_of_int n) = 1023 + e \<and> (dbl_sign (double_of_int n) \<longleftrightarrow> n < 0) \<and>
             2 ^ 52 + dbl_frac (double_of_int n) = m * 2 ^ (52 - e)"
  proof (cases "n = 0")
    case False
    note f = double_of_int_fields [OF False assms, folded m_def, folded e_def]
    have "double_of_int n = dbl_pack (n < 0) (1023 + e) (m * 2 ^ (52 - e) - 2 ^ 52)"
      using False by (simp add: double_of_int_def Let_def m_def e_def)
    then show ?thesis
      using f dbl_pack_fields [of "1023 + e" "m * 2 ^ (52 - e) - 2 ^ 52" "n < 0"] False by simp
  qed simp
  have 0: "double_of_int 0 = 0" by (simp add: double_of_int_def)
  show "dbl_exp (double_of_int n) < 2047" "dbl_sign (double_of_int n) \<longleftrightarrow> n < 0"
       "dbl_is_zero (double_of_int n) \<longleftrightarrow> n = 0"
    using z by (auto simp: 0 dbl_exp_def dbl_sign_def dbl_is_zero_def dbl_frac_def)
  have "dbl_mag (double_of_int n) = m * 2 ^ 1074" if "n \<noteq> 0"
  proof -
    have "dbl_mag (double_of_int n) = m * 2 ^ (52 - e) * 2 ^ (1022 + e)"
      using z that by (simp add: dbl_mag_def)
    also have "\<dots> = m * (2 ^ (52 - e) * 2 ^ (1022 + e))" by (rule mult.assoc)
    also have "(2::nat) ^ (52 - e) * 2 ^ (1022 + e) = 2 ^ 1074"
      using z that by (simp only: power_add [symmetric]) simp
    finally show ?thesis .
  qed
  then show "dbl_mag (double_of_int n) = nat \<bar>n\<bar> * 2 ^ 1074"
    by (cases "n = 0") (simp_all add: m_def 0 dbl_mag_def dbl_exp_def dbl_frac_def)
qed

lemma of_int_finite:
  assumes "\<bar>n\<bar> < 2 ^ 53"
  shows "\<not> dbl_is_nan (double_of_int n)" and "\<not> dbl_is_inf (double_of_int n)"
  using of_int_fields(1) [OF assms] by (simp_all add: dbl_is_nan_def dbl_is_inf_def)

lemma dbl_scaled_of_int: "\<bar>n\<bar> < 2 ^ 53 \<Longrightarrow> dbl_scaled (double_of_int n) = n * 2 ^ 1074"
  by (simp add: dbl_scaled_def of_int_fields del: power_numeral)

lemma dbl_zero_False: "dbl_zero False = double_of_int 0"
  by (simp add: dbl_zero_def dbl_pack_def double_of_int_def)

lemma dbl_add_int:
  assumes "\<bar>a\<bar> < 2 ^ 53" and "\<bar>b\<bar> < 2 ^ 53" and "\<bar>a + b\<bar> < 2 ^ 53"
  shows "dbl_add nan (double_of_int a) (double_of_int b) = double_of_int (a + b)"
proof -
  have v: "dbl_scaled (double_of_int a) + dbl_scaled (double_of_int b) = (a + b) * 2 ^ 1074"
    using assms(1,2) by (simp only: dbl_scaled_of_int distrib_right)
  have m: "nat \<bar>(a + b) * 2 ^ 1074\<bar> = nat \<bar>a + b\<bar> * 2 ^ 1074 * 1"
    by (simp only: abs_mult nat_mult_distrib abs_ge_zero mult_1_right) simp
  have s: "(a + b) * 2 ^ 1074 < 0 \<longleftrightarrow> a + b < 0" "(a + b) * 2 ^ 1074 = 0 \<longleftrightarrow> a + b = 0"
    by (simp_all only: mult_less_0_iff zero_less_power zero_less_numeral mult_eq_0_iff) auto
  have neg: "dbl_zero (a < 0 \<and> b < 0) = double_of_int 0" if "a + b = 0"
  proof -
    have "(a < 0 \<and> b < 0) = False" using that by auto
    then show ?thesis by (simp only: dbl_zero_False)
  qed
  show ?thesis
    unfolding dbl_add_def Let_def v s m
    using assms of_int_finite [OF assms(1)] of_int_finite [OF assms(2)]
      dbl_round_exact [OF _ assms(3), of 1] neg
    by (auto simp: of_int_fields dbl_zero_False simp del: power_numeral)
qed

lemma dbl_mul_int:
  assumes "\<bar>a\<bar> < 2 ^ 53" and "\<bar>b\<bar> < 2 ^ 53" and "\<bar>a * b\<bar> < 2 ^ 53" and "a \<noteq> 0" and "b \<noteq> 0"
  shows "dbl_mul nan (double_of_int a) (double_of_int b) = double_of_int (a * b)"
proof -
  have m: "dbl_mag (double_of_int a) * dbl_mag (double_of_int b) = nat \<bar>a * b\<bar> * 2 ^ 1074 * 2 ^ 1074"
    using assms(1,2) by (simp only: of_int_fields abs_mult nat_mult_distrib abs_ge_zero ac_simps)
  have s: "(dbl_sign (double_of_int a) \<noteq> dbl_sign (double_of_int b)) \<longleftrightarrow> a * b < 0"
    using assms by (auto simp: of_int_fields mult_less_0_iff)
  show ?thesis
    unfolding dbl_mul_def Let_def m s
    using assms of_int_finite [OF assms(1)] of_int_finite [OF assms(2)]
      dbl_round_exact [OF _ assms(3), of "2 ^ 1074"]
    by (auto simp: of_int_fields simp del: power_numeral)
qed

end
