(* ===== verification/Printing.thy ===== *)
theory Printing
  imports VM_Core Dict_Methods Double_Arith
begin

text \<open>
  Text of values: \<open>value_to_string\<close> and \<open>print_value\<close> of \<open>value.c\<close> with their object cases in
  \<open>object.c\<close>. \<open>value_to_string\<close> builds the text in memory. Most of its object cases reserve
  \<open>snprintf(NULL, 0, ...)\<close> bytes and write the terminating zero behind them (\<open>sprintf_block\<close>);
  those conversions are out of bounds. Printing gives the bytes written to standard output. Both
  follow the elements of lists and dictionaries; the fuel bounds the nesting, and a list that
  contains itself exhausts it.
\<close>

section \<open>Helpers\<close>

text \<open>\<open>sprintf\<close> into a block of \<open>n\<close> bytes; the terminating zero needs one more.\<close>

definition sprintf_block :: "nat \<Rightarrow> byte list \<Rightarrow> byte list res" where
  "sprintf_block n s = (if length s < n then Inr s else Inl OutOfBounds)"

definition alloc_sprintf :: "byte list \<Rightarrow> byte list res" where
  "alloc_sprintf s = sprintf_block (length s) s"

fun join_with :: "byte list \<Rightarrow> byte list list \<Rightarrow> byte list" where
  "join_with sep [] = []"
| "join_with sep [x] = x"
| "join_with sep (x # xs) = x @ sep @ join_with sep xs"

fun hex_nat :: "nat \<Rightarrow> string" where
  "hex_nat n =
     (let c = (if n mod 16 < 10 then char_of (48 + n mod 16) else char_of (87 + n mod 16))
      in if n < 16 then [c] else hex_nat (n div 16) @ [c])"

declare hex_nat.simps [simp del]

definition c_name :: "heap \<Rightarrow> addr \<Rightarrow> byte list res" where
  "c_name hp a = bindR (name_at hp a) (\<lambda>s. Inr (c_string (s_chars s)))"

definition ptr_text :: "addr \<Rightarrow> byte list" where
  "ptr_text a = cstr (''0x'' @ hex_nat (unat a))"

section \<open>Conversion to a string\<close>

definition number_to_string :: "double \<Rightarrow> byte list" where
  "number_to_string number = cstr (number_format number)"

definition function_to_string :: "heap \<Rightarrow> addr \<Rightarrow> byte list res" where
  "function_to_string hp fn =
     bindR (function_at hp fn) (\<lambda>func.
       case f_name func of
         None \<Rightarrow> Inr (cstr ''<script 0x00>'')
       | Some n \<Rightarrow> bindR (c_name hp n) (\<lambda>name.
           alloc_sprintf (cstr ''<function '' @ name @ cstr (''('' @ dec_int (f_arity func)) @
                          cstr (if f_is_variadic func then ''...)>'' else '')>''))))"

definition bytes_to_text :: "b_byte_arr \<Rightarrow> byte list res" where
  "bytes_to_text array =
     bindR (bytes_read array) (\<lambda>bs.
     bindR (mapR (\<lambda>b. alloc_sprintf (cstr (''0x'' @ hex_nat (unat b)))) bs) (\<lambda>ts.
       Inr (cstr ''('' @ join_with (cstr '' '') ts @ cstr '')'')))"

fun value_to_string :: "nat \<Rightarrow> heap \<Rightarrow> b_value \<Rightarrow> byte list res" where
  "value_to_string 0 hp v = Inl Divergence"
| "value_to_string (Suc fuel) hp v =
     (if IS_EMPTY v then Inr []
      else if IS_NIL v then Inr (cstr ''nil'')
      else if IS_BOOL v then Inr (cstr (if AS_BOOL v then ''true'' else ''false''))
      else if IS_NUMBER v then Inr (number_to_string (value_to_number v))
      else (case hp (AS_OBJ v) of
              None \<Rightarrow> Inl NullPointer
            | Some (OPtr p) \<Rightarrow> Inr (cstr (p_name p))
            | Some (OSwitch _) \<Rightarrow> Inr (cstr ''<switch>'')
            | Some (OClass k) \<Rightarrow>
                bindR (c_name hp (k_name k)) (\<lambda>n. alloc_sprintf (cstr ''<class '' @ n @ cstr ''>''))
            | Some (OInstance i) \<Rightarrow>
                bindR (class_at hp (i_klass i)) (\<lambda>k.
                bindR (c_name hp (k_name k)) (\<lambda>n. alloc_sprintf (cstr ''<instance of '' @ n @ cstr ''>'')))
            | Some (OClosure c) \<Rightarrow> function_to_string hp (c_function c)
            | Some (OBound b) \<Rightarrow>
                bindR (closure_at hp (b_method b)) (\<lambda>c. function_to_string hp (c_function c))
            | Some (OFunction _) \<Rightarrow> function_to_string hp (AS_OBJ v)
            | Some (ONative n) \<Rightarrow> alloc_sprintf (cstr (''<function '' @ n_name n @ ''(native)>''))
            | Some (ORange r) \<Rightarrow>
                alloc_sprintf (cstr (''<range '' @ dec_int (r_lower r) @ ''..'' @ dec_int (r_upper r) @ ''>''))
            | Some (OModule m) \<Rightarrow> alloc_sprintf (cstr (''<module '' @ m_name m @ ''>''))
            | Some (OString s) \<Rightarrow> Inr (c_string (s_chars s))
            | Some (OUpValue _) \<Rightarrow> Inr (cstr ''<up-value>'')
            | Some (OBytes b) \<Rightarrow> bytes_to_text b
            | Some (OList l) \<Rightarrow>
                bindR (arr_read l) (\<lambda>vs. bindR (mapR (value_to_string fuel hp) vs) (\<lambda>ts.
                  Inr (cstr ''['' @ join_with (cstr '', '') ts @ cstr '']'')))
            | Some (ODict d) \<Rightarrow>
                bindR (arr_read (d_names d)) (\<lambda>ks.
                bindR (mapR (\<lambda>k.
                         bindR (value_to_string fuel hp k) (\<lambda>key.
                         bindR (value_of_name hp d k) (\<lambda>x.
                         bindR (value_to_string fuel hp x) (\<lambda>val. Inr (key @ cstr '': '' @ val))))) ks) (\<lambda>ts.
                  Inr (cstr ''{'' @ join_with (cstr '', '') ts @ cstr ''}'')))
            | Some (OFile f) \<Rightarrow>
                bindR (c_name hp (fl_path f)) (\<lambda>path. bindR (c_name hp (fl_mode f)) (\<lambda>mode.
                  alloc_sprintf (cstr ''<file at '' @ path @ cstr '' in mode '' @ mode @ cstr ''>'')))))"

section \<open>Printing\<close>

definition print_function :: "heap \<Rightarrow> addr \<Rightarrow> byte list res" where
  "print_function hp fn =
     bindR (function_at hp fn) (\<lambda>func.
       case f_name func of
         None \<Rightarrow> Inr (cstr ''<script at '' @ ptr_text fn @ cstr ''>'')
       | Some n \<Rightarrow> bindR (c_name hp n) (\<lambda>name.
           Inr (cstr ''<function '' @ name @ cstr (''('' @ dec_int (f_arity func)) @
                cstr (if f_is_variadic func then ''...) at '' else '') at '') @ ptr_text fn @ cstr ''>'')))"

text \<open>After the byte with index 101 the rest is left out, without the blank between bytes.\<close>

definition print_bytes :: "b_byte_arr \<Rightarrow> byte list res" where
  "print_bytes b =
     bindR (bytes_read (b\<lparr>ba_count := min (ba_count b) 102\<rparr>)) (\<lambda>bs.
       Inr (cstr ''('' @ join_with (cstr '' '') (map (\<lambda>x. cstr (hex_nat (unat x))) bs) @
            cstr (if 101 < ba_count b then ''...)'' else '')'')))"

definition print_string :: "bool \<Rightarrow> b_obj_string \<Rightarrow> byte list" where
  "print_string fix_string s =
     (let chars = take (s_length s) (c_string (s_chars s))
      in if fix_string
         then (if 39 \<in> set (c_string (s_chars s)) then [34] @ chars @ [34] else [39] @ chars @ [39])
         else chars)"

fun print_value :: "nat \<Rightarrow> heap \<Rightarrow> bool \<Rightarrow> b_value \<Rightarrow> byte list res" where
  "print_value 0 hp fix_string v = Inl Divergence"
| "print_value (Suc fuel) hp fix_string v =
     (if IS_EMPTY v then Inr []
      else if IS_NIL v then Inr (cstr ''nil'')
      else if IS_BOOL v then Inr (cstr (if AS_BOOL v then ''true'' else ''false''))
      else if IS_NUMBER v then Inr (cstr (number_format (value_to_number v)))
      else (case hp (AS_OBJ v) of
              None \<Rightarrow> Inl NullPointer
            | Some (OSwitch _) \<Rightarrow> Inr []
            | Some (OPtr p) \<Rightarrow> Inr (cstr (p_name p))
            | Some (ORange r) \<Rightarrow>
                Inr (cstr (''<range '' @ dec_int (r_lower r) @ ''-'' @ dec_int (r_upper r) @ ''>''))
            | Some (OFile f) \<Rightarrow>
                bindR (c_name hp (fl_path f)) (\<lambda>path. bindR (c_name hp (fl_mode f)) (\<lambda>mode.
                  Inr (cstr ''<file at '' @ path @ cstr '' in mode '' @ mode @ cstr ''>'')))
            | Some (ODict d) \<Rightarrow>
                bindR (arr_read (d_names d)) (\<lambda>ks.
                bindR (mapR (\<lambda>k.
                         bindR (print_value fuel hp False k) (\<lambda>key.
                         bindR (dict_get_entry hp d k) (\<lambda>r.
                         bindR (case r of None \<Rightarrow> Inr [] | Some x \<Rightarrow> print_value fuel hp False x) (\<lambda>val.
                           Inr (key @ cstr '': '' @ val))))) ks) (\<lambda>ts.
                  Inr (cstr ''{'' @ join_with (cstr '', '') ts @ cstr ''}'')))
            | Some (OList l) \<Rightarrow>
                bindR (arr_read l) (\<lambda>vs. bindR (mapR (print_value fuel hp False) vs) (\<lambda>ts.
                  Inr (cstr ''['' @ join_with (cstr '', '') ts @ cstr '']'')))
            | Some (OBytes b) \<Rightarrow> print_bytes b
            | Some (OBound b) \<Rightarrow> bindR (closure_at hp (b_method b)) (\<lambda>c. print_function hp (c_function c))
            | Some (OModule m) \<Rightarrow> Inr (cstr (''<module '' @ m_name m @ '' at '' @ m_file m @ ''>''))
            | Some (OClass k) \<Rightarrow>
                bindR (c_name hp (k_name k)) (\<lambda>n.
                  Inr (cstr ''<class '' @ n @ cstr '' at '' @ ptr_text (AS_OBJ v) @ cstr ''>''))
            | Some (OClosure c) \<Rightarrow> print_function hp (c_function c)
            | Some (OFunction _) \<Rightarrow> print_function hp (AS_OBJ v)
            | Some (OInstance i) \<Rightarrow>
                bindR (class_at hp (i_klass i)) (\<lambda>k. bindR (c_name hp (k_name k)) (\<lambda>n.
                  Inr (cstr ''<class '' @ n @ cstr '' instance at '' @ ptr_text (AS_OBJ v) @ cstr ''>'')))
            | Some (ONative n) \<Rightarrow>
                Inr (cstr (''<function '' @ n_name n @ ''(native) at '') @ ptr_text (AS_OBJ v) @ cstr ''>'')
            | Some (OUpValue _) \<Rightarrow> Inr (cstr ''up value'')
            | Some (OString s) \<Rightarrow> Inr (print_string fix_string s)))"

end
