(* ===== verification/VM_Call.thy ===== *)
theory VM_Call
  imports VM_Core
begin

text \<open>
  Calls and method lookup of \<open>vm.c\<close>. The native functions are a parameter: from the C function of the
  native object, the machine and the number of arguments to the new machine and the returned truth
  value. Calling a module calls the value it defines under its own name; the fuel of \<open>call_value\<close>
  bounds the length of such a chain.
\<close>

type_synonym native_fns = "string \<Rightarrow> b_vm \<Rightarrow> nat \<Rightarrow> (b_vm \<times> bool) res"

section \<open>Calls\<close>

fun push_nils :: "b_vm \<Rightarrow> nat \<Rightarrow> b_vm res" where
  "push_nils vm 0 = Inr vm"
| "push_nils vm (Suc n) = bindR (push vm NIL_VAL) (\<lambda>vm. push_nils vm n)"

text \<open>The rest arguments of a variadic call, in order; \<open>args_list\<close> is on the stack above them.\<close>

definition rest_arguments :: "b_vm \<Rightarrow> int \<Rightarrow> b_value list res" where
  "rest_arguments vm va_args_start = mapR (\<lambda>i. peek vm (i + 1)) (rev [0..<nat (va_args_start + 1)])"

definition pack_variadic :: "b_vm \<Rightarrow> int \<Rightarrow> int \<Rightarrow> (b_vm \<times> int) res" where
  "pack_variadic vm arity arg_count =
     (let va_args_start = arg_count - arity;
          (hs, l) = new_list (vm_hs vm)
      in bindR (push (vm_with vm hs) (OBJ_VAL l)) (\<lambda>vm.
         bindR (rest_arguments vm va_args_start) (\<lambda>vs.
         bindR (write_all init_value_arr vs) (\<lambda>items.
         bindR (pop_n (vm_put vm l (OList items)) (nat (va_args_start + 2))) (\<lambda>vm.
         bindR (push vm (OBJ_VAL l)) (\<lambda>vm. Inr (vm, arg_count - va_args_start)))))))"

text \<open>
  A new frame keeps the handlers (and their count) that the last call at the same depth left in it.
\<close>

definition push_frame :: "b_vm \<Rightarrow> addr \<Rightarrow> nat \<Rightarrow> b_vm res" where
  "push_frame vm closure arg_count =
     (if length (vm_stack vm) < arg_count + 1 then Inl OutOfBounds
      else bindR (frame_at vm (vm_frame_count vm)) (\<lambda>frame.
        Inr (put_frame (vm\<lparr>vm_frame_count := vm_frame_count vm + 1\<rparr>) (vm_frame_count vm)
               (frame\<lparr>cf_closure := closure, cf_ip := 0,
                      cf_slots := length (vm_stack vm) - arg_count - 1\<rparr>))))"

definition call :: "b_vm \<Rightarrow> addr \<Rightarrow> nat \<Rightarrow> (b_vm \<times> bool) res" where
  "call vm closure arg_count =
     bindR (closure_at (vm_heap vm) closure) (\<lambda>c.
     bindR (function_at (vm_heap vm) (c_function c)) (\<lambda>function.
     bindR (if \<not> f_is_variadic function \<and> int arg_count < f_arity function
            then bindR (push_nils vm (nat (f_arity function - int arg_count))) (\<lambda>vm. Inr (vm, f_arity function))
            else Inr (vm, int arg_count)) (\<lambda>(vm, n).
     bindR (if f_is_variadic function \<and> f_arity function - 1 \<le> n
            then pack_variadic vm (f_arity function) n else Inr (vm, n)) (\<lambda>(vm, n).
       if n \<noteq> f_arity function
       then bindR (pop_n vm (nat n)) (\<lambda>vm.
              do_throw_exception vm (if f_is_variadic function
                                     then ''expected at least %d arguments but got %d''
                                     else ''expected %d arguments but got %d''))
       else if vm_frame_count vm = FRAMES_MAX
       then bindR (pop_n vm (nat n)) (\<lambda>vm. do_throw_exception vm ''stack overflow'')
       else bindR (push_frame vm closure (nat n)) (\<lambda>vm. Inr (vm, True))))))"

definition call_native_method :: "native_fns \<Rightarrow> b_vm \<Rightarrow> b_obj_native \<Rightarrow> nat \<Rightarrow> (b_vm \<times> bool) res" where
  "call_native_method natives vm native arg_count =
     bindR (natives (n_function native) vm arg_count) (\<lambda>(vm, ok).
       if ok
       then bindR (gc_clear_protection vm) (\<lambda>vm. bindR (pop_n vm arg_count) (\<lambda>vm. Inr (vm, True)))
       else Inr (vm, True))"

text \<open>
  A module that does not define the value falls through to the case of closures, which takes the
  module object for a closure.
\<close>

fun call_value :: "native_fns \<Rightarrow> nat \<Rightarrow> b_vm \<Rightarrow> b_value \<Rightarrow> nat \<Rightarrow> (b_vm \<times> bool) res" where
  "call_value natives 0 vm callee arg_count = Inl Divergence"
| "call_value natives (Suc fuel) vm callee arg_count =
     (if IS_OBJ callee
      then (case vm_heap vm (AS_OBJ callee) of
              None \<Rightarrow> Inl NullPointer
            | Some (OBound bound) \<Rightarrow>
                bindR (poke vm arg_count (b_receiver bound)) (\<lambda>vm. call vm (b_method bound) arg_count)
            | Some (OClass klass) \<Rightarrow>
                bindR (new_instance (vm_hs vm) (AS_OBJ callee)) (\<lambda>(hs, a).
                bindR (poke (vm_with vm hs) arg_count (OBJ_VAL a)) (\<lambda>vm.
                bindR (case k_superclass klass of
                         None \<Rightarrow> Inr EMPTY_VAL
                       | Some s \<Rightarrow> bindR (class_at (vm_heap vm) s) (\<lambda>super. Inr (k_initializer super)))
                  (\<lambda>inherited.
                    if \<not> IS_EMPTY (k_initializer klass) then call vm (AS_OBJ (k_initializer klass)) arg_count
                    else if \<not> IS_EMPTY inherited then call vm (AS_OBJ inherited) arg_count
                    else if arg_count \<noteq> 0
                    then do_throw_exception vm ''%s constructor expects 0 arguments, %d given''
                    else Inr (vm, True))))
            | Some (OModule module) \<Rightarrow>
                bindR (copy_string (vm_hs vm) (cstr (m_name module))) (\<lambda>(hs, name).
                  let vm = vm_with vm hs
                  in bindR (table_get (vm_heap vm) (m_values module) (OBJ_VAL name)) (\<lambda>callable.
                       case callable of
                         Some v \<Rightarrow> call_value natives fuel vm v arg_count
                       | None \<Rightarrow> call vm (AS_OBJ callee) arg_count))
            | Some (OClosure _) \<Rightarrow> call vm (AS_OBJ callee) arg_count
            | Some (ONative native) \<Rightarrow> call_native_method natives vm native arg_count
            | Some _ \<Rightarrow> do_throw_exception vm ''object of type %s is not callable'')
      else do_throw_exception vm ''object of type %s is not callable'')"

section \<open>Methods\<close>

definition get_method_type :: "heap \<Rightarrow> b_value \<Rightarrow> b_func_type res" where
  "get_method_type hp method =
     (case hp (AS_OBJ method) of
        None \<Rightarrow> Inl NullPointer
      | Some (ONative native) \<Rightarrow> Inr (n_type native)
      | Some (OClosure c) \<Rightarrow> bindR (function_at hp (c_function c)) (\<lambda>f. Inr (f_type f))
      | Some _ \<Rightarrow> Inr TYPE_FUNCTION)"

definition invoke_from_class :: "native_fns \<Rightarrow> nat \<Rightarrow> b_vm \<Rightarrow> addr \<Rightarrow> addr \<Rightarrow> nat \<Rightarrow> (b_vm \<times> bool) res" where
  "invoke_from_class natives fuel vm klass name arg_count =
     bindR (class_at (vm_heap vm) klass) (\<lambda>k.
     bindR (table_get (vm_heap vm) (k_methods k) (OBJ_VAL name)) (\<lambda>found.
       case found of
         Some method \<Rightarrow>
           bindR (get_method_type (vm_heap vm) method) (\<lambda>type.
             if type = TYPE_PRIVATE
             then do_throw_exception vm ''cannot call private method '%s' from instance of %s''
             else call_value natives fuel vm method arg_count)
       | None \<Rightarrow> do_throw_exception vm ''undefined method '%s' in %s''))"

definition invoke_self :: "native_fns \<Rightarrow> nat \<Rightarrow> b_vm \<Rightarrow> addr \<Rightarrow> nat \<Rightarrow> (b_vm \<times> bool) res" where
  "invoke_self natives fuel vm name arg_count =
     bindR (peek vm arg_count) (\<lambda>receiver.
       let no_method = do_throw_exception vm ''cannot call method %s on object of type %s''
       in if \<not> IS_OBJ receiver then no_method
          else (case vm_heap vm (AS_OBJ receiver) of
                  None \<Rightarrow> Inl NullPointer
                | Some (OInstance i) \<Rightarrow>
                    bindR (class_at (vm_heap vm) (i_klass i)) (\<lambda>k.
                    bindR (table_get (vm_heap vm) (k_methods k) (OBJ_VAL name)) (\<lambda>method.
                      case method of
                        Some v \<Rightarrow> call_value natives fuel vm v arg_count
                      | None \<Rightarrow>
                          bindR (table_get (vm_heap vm) (i_properties i) (OBJ_VAL name)) (\<lambda>property.
                            case property of
                              Some v \<Rightarrow> bindR (poke vm arg_count v) (\<lambda>vm. call_value natives fuel vm v arg_count)
                            | None \<Rightarrow> no_method)))
                | Some (OClass k) \<Rightarrow>
                    bindR (table_get (vm_heap vm) (k_methods k) (OBJ_VAL name)) (\<lambda>method.
                      case method of
                        Some v \<Rightarrow>
                          bindR (get_method_type (vm_heap vm) v) (\<lambda>type.
                            if type = TYPE_STATIC then call_value natives fuel vm v arg_count
                            else do_throw_exception vm ''cannot call non-static method %s() on non instance'')
                      | None \<Rightarrow> no_method)
                | Some _ \<Rightarrow> no_method))"

definition is_private_name :: "b_obj_string \<Rightarrow> bool" where
  "is_private_name name = (0 < s_length name \<and> s_chars name \<noteq> [] \<and> hd (s_chars name) = 95)"

text \<open>The methods of the builtin types are native objects in a table of the machine.\<close>

definition native_at :: "heap \<Rightarrow> b_value \<Rightarrow> b_obj_native res" where
  "native_at hp v = (case hp (AS_OBJ v) of Some (ONative n) \<Rightarrow> Inr n | _ \<Rightarrow> Inl NullPointer)"

definition invoke_builtin :: "native_fns \<Rightarrow> b_vm \<Rightarrow> b_table \<Rightarrow> string \<Rightarrow> addr \<Rightarrow> nat \<Rightarrow> (b_vm \<times> bool) res" where
  "invoke_builtin natives vm methods message name arg_count =
     bindR (table_get (vm_heap vm) methods (OBJ_VAL name)) (\<lambda>found.
       case found of
         Some v \<Rightarrow> bindR (native_at (vm_heap vm) v) (\<lambda>n. call_native_method natives vm n arg_count)
       | None \<Rightarrow> do_throw_exception vm message)"

definition invoke :: "native_fns \<Rightarrow> nat \<Rightarrow> b_vm \<Rightarrow> addr \<Rightarrow> nat \<Rightarrow> (b_vm \<times> bool) res" where
  "invoke natives fuel vm name arg_count =
     bindR (peek vm arg_count) (\<lambda>receiver.
       if \<not> IS_OBJ receiver then do_throw_exception vm ''non-object %s has no method''
       else (case vm_heap vm (AS_OBJ receiver) of
               None \<Rightarrow> Inl NullPointer
             | Some (OModule module) \<Rightarrow>
                 bindR (table_get (vm_heap vm) (m_values module) (OBJ_VAL name)) (\<lambda>found.
                   case found of
                     Some v \<Rightarrow>
                       bindR (name_at (vm_heap vm) name) (\<lambda>s.
                         if is_private_name s then do_throw_exception vm (''cannot call private module method '%s'' @ [CHR 0x27])
                         else call_value natives fuel vm v arg_count)
                   | None \<Rightarrow> do_throw_exception vm ''module %s does not define class or method %s()'')
             | Some (OClass k) \<Rightarrow>
                 bindR (table_get (vm_heap vm) (k_methods k) (OBJ_VAL name)) (\<lambda>method.
                   case method of
                     Some v \<Rightarrow>
                       bindR (get_method_type (vm_heap vm) v) (\<lambda>type.
                         if type = TYPE_PRIVATE then do_throw_exception vm ''cannot call private method %s() on %s''
                         else call_value natives fuel vm v arg_count)
                   | None \<Rightarrow>
                       bindR (table_get (vm_heap vm) (k_static_properties k) (OBJ_VAL name)) (\<lambda>static.
                         case static of
                           Some v \<Rightarrow> call_value natives fuel vm v arg_count
                         | None \<Rightarrow> do_throw_exception vm ''unknown method %s() in class %s''))
             | Some (OInstance i) \<Rightarrow>
                 bindR (table_get (vm_heap vm) (i_properties i) (OBJ_VAL name)) (\<lambda>property.
                   case property of
                     Some v \<Rightarrow> bindR (poke vm arg_count v) (\<lambda>vm. call_value natives fuel vm v arg_count)
                   | None \<Rightarrow> invoke_from_class natives fuel vm (i_klass i) name arg_count)
             | Some (OString _) \<Rightarrow>
                 invoke_builtin natives vm (vm_methods_string vm) ''String has no method %s()'' name arg_count
             | Some (OList _) \<Rightarrow>
                 invoke_builtin natives vm (vm_methods_list vm) ''List has no method %s()'' name arg_count
             | Some (ORange _) \<Rightarrow>
                 invoke_builtin natives vm (vm_methods_range vm) ''Range has no method %s()'' name arg_count
             | Some (ODict _) \<Rightarrow>
                 invoke_builtin natives vm (vm_methods_dict vm) ''Dict has no method %s()'' name arg_count
             | Some (OFile _) \<Rightarrow>
                 invoke_builtin natives vm (vm_methods_file vm) ''File has no method %s()'' name arg_count
             | Some (OBytes _) \<Rightarrow>
                 invoke_builtin natives vm (vm_methods_bytes vm) ''Bytes has no method %s()'' name arg_count
             | Some _ \<Rightarrow> do_throw_exception vm ''cannot call method %s on object of type %s''))"

definition bind_method :: "b_vm \<Rightarrow> addr \<Rightarrow> addr \<Rightarrow> (b_vm \<times> bool) res" where
  "bind_method vm klass name =
     bindR (class_at (vm_heap vm) klass) (\<lambda>k.
     bindR (table_get (vm_heap vm) (k_methods k) (OBJ_VAL name)) (\<lambda>found.
       case found of
         Some method \<Rightarrow>
           bindR (get_method_type (vm_heap vm) method) (\<lambda>type.
             if type = TYPE_PRIVATE then do_throw_exception vm ''cannot get private property '%s' from instance''
             else bindR (peek vm 0) (\<lambda>receiver.
                    let (hs, b) = new_bound_method (vm_hs vm) receiver (AS_OBJ method)
                    in bindR (pop (vm_with vm hs)) (\<lambda>(vm, _).
                       bindR (push vm (OBJ_VAL b)) (\<lambda>vm. Inr (vm, True)))))
       | None \<Rightarrow> do_throw_exception vm (''undefined property '%s'' @ [CHR 0x27])))"

definition define_method :: "b_vm \<Rightarrow> addr \<Rightarrow> b_vm res" where
  "define_method vm name =
     bindR (peek vm 0) (\<lambda>method. bindR (peek vm 1) (\<lambda>c.
     bindR (class_at (vm_heap vm) (AS_OBJ c)) (\<lambda>k.
     bindR (table_set (vm_heap vm) (k_methods k) (OBJ_VAL name) method) (\<lambda>(methods, _).
     bindR (get_method_type (vm_heap vm) method) (\<lambda>type.
     bindR (pop (vm_put vm (AS_OBJ c)
                   (OClass (k\<lparr>k_methods := methods,
                              k_initializer := (if type = TYPE_INITIALIZER then method else k_initializer k)\<rparr>))))
       (\<lambda>(vm, _). Inr vm))))))"

definition define_property :: "b_vm \<Rightarrow> addr \<Rightarrow> bool \<Rightarrow> b_vm res" where
  "define_property vm name is_static =
     bindR (peek vm 0) (\<lambda>property. bindR (peek vm 1) (\<lambda>c.
     bindR (class_at (vm_heap vm) (AS_OBJ c)) (\<lambda>k.
     bindR (if \<not> is_static
            then bindR (table_set (vm_heap vm) (k_properties k) (OBJ_VAL name) property)
                   (\<lambda>(t, _). Inr (k\<lparr>k_properties := t\<rparr>))
            else bindR (table_set (vm_heap vm) (k_static_properties k) (OBJ_VAL name) property)
                   (\<lambda>(t, _). Inr (k\<lparr>k_static_properties := t\<rparr>))) (\<lambda>k'.
     bindR (pop (vm_put vm (AS_OBJ c) (OClass k'))) (\<lambda>(vm, _). Inr vm)))))"

end
