(* ===== verification/VM_Index.thy ===== *)
theory VM_Index
  imports Printing VM_Call
begin

text \<open>
  The operators of \<open>vm.c\<close> on builtin containers: concatenation and repetition, reading and writing
  by index, slices, and the integer and remainder arithmetic. The operands are on the stack; an
  operation that fails removes them as the code does and throws. The results of slices that leave
  the text or the array are memory errors, not exceptions.
\<close>

section \<open>C arithmetic\<close>

definition c_int :: "int \<Rightarrow> int res" where
  "c_int n = (if - (2 ^ 31) \<le> n \<and> n < 2 ^ 31 then Inr n else Inl Overflow)"

text \<open>Integer division truncates towards zero.\<close>

definition c_int_div :: "int \<Rightarrow> int \<Rightarrow> int res" where
  "c_int_div a b = (if b = 0 then Inl DivisionByZero else c_int (sgn a * sgn b * (\<bar>a\<bar> div \<bar>b\<bar>)))"

definition floor_div :: "double \<Rightarrow> double \<Rightarrow> double \<Rightarrow> int res" where
  "floor_div nan a b =
     bindR (int_of_double a) (\<lambda>ia. bindR (int_of_double b) (\<lambda>ib.
     bindR (c_int_div ia ib) (\<lambda>d.
       c_int (d - (if dbl_eq (dbl_mul nan (double_of_int d) b) a \<and> (dbl_lt a 0 \<noteq> dbl_lt b 0)
                       then 1 else 0)))))"

definition modulo :: "double \<Rightarrow> double \<Rightarrow> double \<Rightarrow> double" where
  "modulo nan a b =
     (let r = dbl_fmod nan a b
      in if \<not> dbl_eq r 0 \<and> (dbl_lt r 0 \<noteq> dbl_lt b 0) then dbl_add nan r b else r)"

section \<open>Strings\<close>

definition str_text :: "b_obj_string \<Rightarrow> byte list" where
  "str_text s = take (s_length s) (s_chars s)"

text \<open>\<open>AS_STRING\<close>\<close>

definition AS_STRING :: "b_vm \<Rightarrow> b_value \<Rightarrow> b_obj_string res" where
  "AS_STRING vm v = name_at (vm_heap vm) (AS_OBJ v)"

text \<open>\<open>take_string\<close> and \<open>copy_string\<close> in the machine.\<close>

definition vm_string :: "b_vm \<Rightarrow> byte list \<Rightarrow> (b_vm \<times> addr) res" where
  "vm_string vm chars = bindR (take_string (vm_hs vm) chars) (\<lambda>(hs, p). Inr (vm_with vm hs, p))"

definition multiply_string :: "b_vm \<Rightarrow> addr \<Rightarrow> double \<Rightarrow> (b_vm \<times> addr) res" where
  "multiply_string vm str number =
     bindR (int_of_double number) (\<lambda>times.
       if times \<le> 0 then vm_string vm []
       else if times = 1 then Inr (vm, str)
       else bindR (name_at (vm_heap vm) str) (\<lambda>s.
            bindR (c_int (int (s_length s) * times)) (\<lambda>_.
              vm_string vm (concat (replicate (nat times) (str_text s))))))"

text \<open>
  The result of a concatenation: the string is taken, its count of code points set from the parts,
  and the operands replaced.
\<close>

definition concat_result :: "b_vm \<Rightarrow> byte list \<Rightarrow> nat \<Rightarrow> b_vm res" where
  "concat_result vm chars utf8_length =
     bindR (c_int (int (length chars))) (\<lambda>_.
     bindR (vm_string vm chars) (\<lambda>(vm, p).
     bindR (name_at (vm_heap vm) p) (\<lambda>s.
     bindR (pop_n (vm_put vm p (OString (s\<lparr>s_utf8_length := utf8_length\<rparr>))) 2) (\<lambda>vm.
       push vm (OBJ_VAL p)))))"

definition concatenate :: "b_vm \<Rightarrow> (b_vm \<times> bool) res" where
  "concatenate vm =
     bindR (peek vm 0) (\<lambda>b. bindR (peek vm 1) (\<lambda>a.
       if IS_NIL a then bindR (pop_n vm 2) (\<lambda>vm. bindR (push vm b) (\<lambda>vm. Inr (vm, True)))
       else if IS_NIL b then bindR (pop vm) (\<lambda>(vm, _). Inr (vm, True))
       else if IS_NUMBER a
       then (let num_str = number_to_string (value_to_number a)
             in bindR (AS_STRING vm b) (\<lambda>s.
                bindR (concat_result vm (num_str @ str_text s) (length num_str + s_utf8_length s))
                  (\<lambda>vm. Inr (vm, True))))
       else if IS_NUMBER b
       then (let num_str = number_to_string (value_to_number b)
             in bindR (AS_STRING vm a) (\<lambda>s.
                bindR (concat_result vm (str_text s @ num_str) (length num_str + s_utf8_length s))
                  (\<lambda>vm. Inr (vm, True))))
       else if IS_STRING (vm_heap vm) a \<and> IS_STRING (vm_heap vm) b
       then bindR (AS_STRING vm a) (\<lambda>s. bindR (AS_STRING vm b) (\<lambda>t.
            bindR (concat_result vm (str_text s @ str_text t) (s_utf8_length s + s_utf8_length t))
              (\<lambda>vm. Inr (vm, True))))
       else Inr (vm, False)))"

section \<open>Lists and bytes\<close>

definition add_list :: "b_vm \<Rightarrow> b_value_arr \<Rightarrow> b_value_arr \<Rightarrow> (b_vm \<times> addr) res" where
  "add_list vm a b =
     bindR (arr_read a) (\<lambda>xs. bindR (arr_read b) (\<lambda>ys.
     bindR (new_list_of (vm_hs vm) (xs @ ys)) (\<lambda>(hs, p). Inr (vm_with vm hs, p))))"

definition add_bytes :: "b_vm \<Rightarrow> b_byte_arr \<Rightarrow> b_byte_arr \<Rightarrow> (b_vm \<times> addr) res" where
  "add_bytes vm a b =
     bindR (c_int (ba_count a + ba_count b)) (\<lambda>n.
       let cells = ba_bytes (init_byte_arr n)
       in bindR (memcpy cells 0 (ba_bytes a) 0 (nat (ba_count a))) (\<lambda>cells.
          bindR (memcpy cells (ba_count a) (ba_bytes b) 0 (nat (ba_count b))) (\<lambda>cells.
            let (hs, p) = alloc_obj (vm_hs vm) (OBytes \<lparr>ba_count = n, ba_bytes = cells\<rparr>)
            in Inr (vm_with vm hs, p))))"

definition multiply_list :: "b_value_arr \<Rightarrow> b_value_arr \<Rightarrow> int \<Rightarrow> b_value_arr res" where
  "multiply_list a items n =
     bindR (arr_read a) (\<lambda>xs. write_all items (concat (replicate (nat n) xs)))"

section \<open>Reading by index\<close>

text \<open>The result of a read: the container and \<open>n - 1\<close> indices are removed unless they are still needed.\<close>

definition push_indexed :: "b_vm \<Rightarrow> bool \<Rightarrow> nat \<Rightarrow> b_value \<Rightarrow> (b_vm \<times> bool) res" where
  "push_indexed vm will_assign n v =
     bindR (if will_assign then Inr vm else pop_n vm n) (\<lambda>vm. bindR (push vm v) (\<lambda>vm. Inr (vm, True)))"

definition pop_throw :: "b_vm \<Rightarrow> nat \<Rightarrow> string \<Rightarrow> (b_vm \<times> bool) res" where
  "pop_throw vm n message = bindR (pop_n vm n) (\<lambda>vm. do_throw_exception vm message)"

definition dict_get_index :: "b_vm \<Rightarrow> b_obj_dict \<Rightarrow> bool \<Rightarrow> (b_vm \<times> bool) res" where
  "dict_get_index vm dict will_assign =
     bindR (peek vm 0) (\<lambda>index.
     bindR (dict_get_entry (vm_heap vm) dict index) (\<lambda>found.
       case found of
         Some v \<Rightarrow> push_indexed vm will_assign 2 v
       | None \<Rightarrow>
           bindR (pop_n vm 1) (\<lambda>vm.
           bindR (value_to_string (class_depth vm) (vm_heap vm) index) (\<lambda>_.
             do_throw_exception vm ''invalid index %s''))))"

definition module_get_index :: "b_vm \<Rightarrow> b_obj_module \<Rightarrow> bool \<Rightarrow> (b_vm \<times> bool) res" where
  "module_get_index vm module will_assign =
     bindR (peek vm 0) (\<lambda>index.
     bindR (table_get (vm_heap vm) (m_values module) index) (\<lambda>found.
       case found of
         Some v \<Rightarrow> push_indexed vm will_assign 2 v
       | None \<Rightarrow>
           bindR (pop_n vm 1) (\<lambda>vm.
           bindR (value_to_string (class_depth vm) (vm_heap vm) index) (\<lambda>_.
             do_throw_exception vm ''%s is undefined in module %s''))))"

text \<open>\<open>STRING_L_VAL(chars + start, end - start)\<close>\<close>

definition substring :: "b_vm \<Rightarrow> byte list \<Rightarrow> int \<Rightarrow> int \<Rightarrow> (b_vm \<times> addr) res" where
  "substring vm chars start stop =
     (if start < 0 \<or> stop < start \<or> int (length chars) < stop then Inl OutOfBounds
      else vm_string vm (take (nat (stop - start)) (drop (nat start) chars)))"

definition string_slice :: "b_vm \<Rightarrow> b_obj_string \<Rightarrow> int \<Rightarrow> int \<Rightarrow> (b_vm \<times> addr) res" where
  "string_slice vm string lower upper =
     (let (start, stop) = (if s_is_ascii string then (lower, upper)
                           else utf8slice (c_string (s_chars string)) lower upper)
      in substring vm (s_chars string) start stop)"

definition string_index_length :: "b_obj_string \<Rightarrow> int" where
  "string_index_length string = int (if s_is_ascii string then s_length string else s_utf8_length string)"

definition string_get_index :: "b_vm \<Rightarrow> b_obj_string \<Rightarrow> bool \<Rightarrow> (b_vm \<times> bool) res" where
  "string_get_index vm string will_assign =
     bindR (peek vm 0) (\<lambda>lower.
       if \<not> IS_NUMBER lower then pop_throw vm 1 ''strings are numerically indexed''
       else bindR (as_int lower) (\<lambda>index.
         let len = string_index_length string;
             index = (if index < 0 then len + index else index)
         in if index < len \<and> 0 \<le> index
            then bindR (string_slice vm string index (index + 1)) (\<lambda>(vm, p).
                   push_indexed vm will_assign 2 (OBJ_VAL p))
            else pop_throw vm 1 ''string index %d out of range''))"

text \<open>
  The bounds of a slice: a missing lower bound is 0, a missing upper bound the length; negative
  upper bounds count from the end. \<open>None\<close> stands for the slice that is empty because the lower
  bound, or the upper bound counted from the end, is negative.
\<close>

definition slice_bounds :: "int \<Rightarrow> b_value \<Rightarrow> b_value \<Rightarrow> (int \<times> int) option res" where
  "slice_bounds len lower upper =
     bindR (if IS_NUMBER lower then as_int lower else Inr 0) (\<lambda>lower_index.
     bindR (if IS_NIL upper then Inr len else as_int upper) (\<lambda>upper_index.
       if lower_index < 0 \<or> (upper_index < 0 \<and> len + upper_index < 0) then Inr None
       else let upper_index = (if upper_index < 0 then len + upper_index else upper_index)
            in Inr (Some (lower_index, if len < upper_index then len else upper_index))))"

definition slice_args :: "b_value \<Rightarrow> b_value \<Rightarrow> bool" where
  "slice_args lower upper = ((IS_NIL lower \<or> IS_NUMBER lower) \<and> (IS_NUMBER upper \<or> IS_NIL upper))"

definition string_get_ranged_index :: "b_vm \<Rightarrow> b_obj_string \<Rightarrow> bool \<Rightarrow> (b_vm \<times> bool) res" where
  "string_get_ranged_index vm string will_assign =
     bindR (peek vm 0) (\<lambda>upper. bindR (peek vm 1) (\<lambda>lower.
       if \<not> slice_args lower upper then pop_throw vm 2 ''string are numerically indexed''
       else bindR (slice_bounds (string_index_length string) lower upper) (\<lambda>bounds.
            bindR (case bounds of
                     None \<Rightarrow> vm_string vm []
                   | Some (lower_index, upper_index) \<Rightarrow> string_slice vm string lower_index upper_index)
              (\<lambda>(vm, p). push_indexed vm will_assign 3 (OBJ_VAL p)))))"

definition bytes_get_index :: "b_vm \<Rightarrow> b_byte_arr \<Rightarrow> bool \<Rightarrow> (b_vm \<times> bool) res" where
  "bytes_get_index vm bytes will_assign =
     bindR (peek vm 0) (\<lambda>lower.
       if \<not> IS_NUMBER lower then pop_throw vm 1 ''bytes are numerically indexed''
       else bindR (as_int lower) (\<lambda>index.
         let index = (if index < 0 then ba_count bytes + index else index)
         in if index < ba_count bytes \<and> 0 \<le> index
            then bindR (cell_get (ba_bytes bytes) index) (\<lambda>b. push_indexed vm will_assign 2 (byte_val b))
            else pop_throw vm 1 ''bytes index %d out of range''))"

definition bytes_get_ranged_index :: "b_vm \<Rightarrow> b_byte_arr \<Rightarrow> bool \<Rightarrow> (b_vm \<times> bool) res" where
  "bytes_get_ranged_index vm bytes will_assign =
     bindR (peek vm 0) (\<lambda>upper. bindR (peek vm 1) (\<lambda>lower.
       if \<not> slice_args lower upper then pop_throw vm 2 ''bytes are numerically indexed''
       else bindR (slice_bounds (ba_count bytes) lower upper) (\<lambda>bounds.
            bindR (case bounds of
                     None \<Rightarrow> Inr (new_bytes (vm_hs vm) 0)
                   | Some (lower_index, upper_index) \<Rightarrow>
                       if upper_index < lower_index then Inl OutOfBounds
                       else copy_bytes (vm_hs vm) (ba_bytes bytes) lower_index (upper_index - lower_index))
              (\<lambda>(hs, p). push_indexed (vm_with vm hs) will_assign 3 (OBJ_VAL p)))))"

definition list_get_index :: "b_vm \<Rightarrow> b_value_arr \<Rightarrow> bool \<Rightarrow> (b_vm \<times> bool) res" where
  "list_get_index vm list will_assign =
     bindR (peek vm 0) (\<lambda>lower.
       if \<not> IS_NUMBER lower then pop_throw vm 1 ''list are numerically indexed''
       else bindR (as_int lower) (\<lambda>index.
         let index = (if index < 0 then int (va_count list) + index else index)
         in if index < int (va_count list) \<and> 0 \<le> index
            then bindR (cell_get (va_values list) index) (\<lambda>v. push_indexed vm will_assign 2 v)
            else pop_throw vm 1 ''list index %d out of range''))"

definition list_get_ranged_index :: "b_vm \<Rightarrow> b_value_arr \<Rightarrow> bool \<Rightarrow> (b_vm \<times> bool) res" where
  "list_get_ranged_index vm list will_assign =
     bindR (peek vm 0) (\<lambda>upper. bindR (peek vm 1) (\<lambda>lower.
       if \<not> slice_args lower upper then pop_throw vm 2 ''list are numerically indexed''
       else bindR (slice_bounds (int (va_count list)) lower upper) (\<lambda>bounds.
            bindR (case bounds of
                     None \<Rightarrow> Inr []
                   | Some (lower_index, upper_index) \<Rightarrow>
                       mapR (\<lambda>i. cell_get (va_values list) i) [lower_index..upper_index - 1])
              (\<lambda>vs. bindR (new_list_of (vm_hs vm) vs) (\<lambda>(hs, p).
                push_indexed (vm_with vm hs) will_assign 3 (OBJ_VAL p))))))"

section \<open>Writing by index\<close>

text \<open>Container, index and value are replaced by the value.\<close>

definition pop_set :: "b_vm \<Rightarrow> b_value \<Rightarrow> b_vm res" where
  "pop_set vm v = bindR (pop_n vm 3) (\<lambda>vm. push vm v)"

definition dict_set_index :: "b_vm \<Rightarrow> addr \<Rightarrow> b_value \<Rightarrow> b_value \<Rightarrow> b_vm res" where
  "dict_set_index vm a index v =
     bindR (dict_at (vm_hs vm) a) (\<lambda>dict.
     bindR (dict_set_entry (vm_heap vm) dict index v) (\<lambda>(dict, _). pop_set (vm_put vm a (ODict dict)) v))"

definition module_set_index :: "b_vm \<Rightarrow> addr \<Rightarrow> b_value \<Rightarrow> b_value \<Rightarrow> b_vm res" where
  "module_set_index vm a index v =
     bindR (module_at (vm_heap vm) a) (\<lambda>module.
     bindR (table_set (vm_heap vm) (m_values module) index v) (\<lambda>(t, _).
       pop_set (vm_put vm a (OModule (module\<lparr>m_values := t\<rparr>))) v))"

text \<open>The lower guard is \<open>position > -count\<close>: a position below zero reaches the store.\<close>

definition list_set_index :: "b_vm \<Rightarrow> addr \<Rightarrow> b_value \<Rightarrow> b_value \<Rightarrow> (b_vm \<times> bool) res" where
  "list_set_index vm a index v =
     (if \<not> IS_NUMBER index then pop_throw vm 3 ''list are numerically indexed''
      else bindR (list_at (vm_hs vm) a) (\<lambda>list. bindR (as_int index) (\<lambda>index_position.
        let count = int (va_count list);
            position = (if index_position < 0 then count + index_position else index_position)
        in if position < count \<and> - count < position
           then bindR (cell_set (va_values list) position v) (\<lambda>cells.
                bindR (pop_set (vm_put vm a (OList (list\<lparr>va_values := cells\<rparr>))) v) (\<lambda>vm. Inr (vm, True)))
           else pop_throw vm 3 ''lists index %d out of range'')))"

definition bytes_set_index :: "b_vm \<Rightarrow> addr \<Rightarrow> b_value \<Rightarrow> b_value \<Rightarrow> (b_vm \<times> bool) res" where
  "bytes_set_index vm a index v =
     (if \<not> IS_NUMBER index then pop_throw vm 3 ''bytes are numerically indexed''
      else if \<not> IS_NUMBER v \<or> dbl_lt (value_to_number v) 0 \<or> dbl_gt (value_to_number v) (double_of_int 255)
      then pop_throw vm 3 ''invalid byte. bytes are numbers between 0 and 255.''
      else bindR (bytes_at (vm_hs vm) a) (\<lambda>bytes.
           bindR (as_int index) (\<lambda>index_position. bindR (as_int v) (\<lambda>byte.
             let count = ba_count bytes;
                 position = (if index_position < 0 then count + index_position else index_position)
             in if position < count \<and> - count < position
                then bindR (cell_set (ba_bytes bytes) position (word_of_int byte)) (\<lambda>cells.
                     bindR (pop_set (vm_put vm a (OBytes (bytes\<lparr>ba_bytes := cells\<rparr>))) v) (\<lambda>vm. Inr (vm, True)))
                else pop_throw vm 3 ''bytes index %d out of range''))))"

end
