(* ===== verification/Opcodes.thy ===== *)
theory Opcodes
  imports Prelude
begin

text \<open>
  The instruction set: the enumeration \<open>b_code\<close> of \<open>blob.h\<close>. An instruction is stored as the byte of
  its position in the enumeration; bytes beyond the enumeration are skipped by the machine.
\<close>

datatype b_code =
    OP_DEFINE_GLOBAL | OP_GET_GLOBAL | OP_SET_GLOBAL | OP_GET_LOCAL | OP_GET_UP_VALUE
  | OP_SET_LOCAL | OP_SET_UP_VALUE | OP_CLOSE_UP_VALUE | OP_GET_PROPERTY | OP_GET_SELF_PROPERTY
  | OP_SET_PROPERTY | OP_JUMP_IF_FALSE | OP_JUMP | OP_LOOP | OP_EQUAL | OP_GREATER | OP_LESS
  | OP_EMPTY | OP_NIL | OP_TRUE | OP_FALSE | OP_ADD | OP_SUBTRACT | OP_MULTIPLY | OP_DIVIDE
  | OP_F_DIVIDE | OP_REMINDER | OP_POW | OP_NEGATE | OP_NOT | OP_BIT_NOT | OP_AND | OP_OR
  | OP_XOR | OP_LSHIFT | OP_RSHIFT | OP_ONE | OP_CONSTANT | OP_ECHO | OP_POP | OP_DUP | OP_POP_N
  | OP_ASSERT | OP_DIE | OP_CLOSURE | OP_CALL | OP_INVOKE | OP_INVOKE_SELF | OP_RETURN
  | OP_CLASS | OP_METHOD | OP_CLASS_PROPERTY | OP_INHERIT | OP_GET_SUPER | OP_SUPER_INVOKE
  | OP_SUPER_INVOKE_SELF | OP_RANGE | OP_LIST | OP_DICT | OP_GET_INDEX | OP_GET_RANGED_INDEX
  | OP_SET_INDEX | OP_CALL_IMPORT | OP_NATIVE_MODULE | OP_SELECT_IMPORT
  | OP_SELECT_NATIVE_IMPORT | OP_IMPORT_ALL_NATIVE | OP_EJECT_IMPORT | OP_EJECT_NATIVE_IMPORT
  | OP_IMPORT_ALL | OP_TRY | OP_POP_TRY | OP_PUBLISH_TRY | OP_STRINGIFY | OP_SWITCH | OP_CHOICE
  | OP_BREAK_PL

definition b_codes :: "b_code list" where
  "b_codes =
     [OP_DEFINE_GLOBAL, OP_GET_GLOBAL, OP_SET_GLOBAL, OP_GET_LOCAL, OP_GET_UP_VALUE,
      OP_SET_LOCAL, OP_SET_UP_VALUE, OP_CLOSE_UP_VALUE, OP_GET_PROPERTY, OP_GET_SELF_PROPERTY,
      OP_SET_PROPERTY, OP_JUMP_IF_FALSE, OP_JUMP, OP_LOOP, OP_EQUAL, OP_GREATER, OP_LESS,
      OP_EMPTY, OP_NIL, OP_TRUE, OP_FALSE, OP_ADD, OP_SUBTRACT, OP_MULTIPLY, OP_DIVIDE,
      OP_F_DIVIDE, OP_REMINDER, OP_POW, OP_NEGATE, OP_NOT, OP_BIT_NOT, OP_AND, OP_OR, OP_XOR,
      OP_LSHIFT, OP_RSHIFT, OP_ONE, OP_CONSTANT, OP_ECHO, OP_POP, OP_DUP, OP_POP_N, OP_ASSERT,
      OP_DIE, OP_CLOSURE, OP_CALL, OP_INVOKE, OP_INVOKE_SELF, OP_RETURN, OP_CLASS, OP_METHOD,
      OP_CLASS_PROPERTY, OP_INHERIT, OP_GET_SUPER, OP_SUPER_INVOKE, OP_SUPER_INVOKE_SELF,
      OP_RANGE, OP_LIST, OP_DICT, OP_GET_INDEX, OP_GET_RANGED_INDEX, OP_SET_INDEX,
      OP_CALL_IMPORT, OP_NATIVE_MODULE, OP_SELECT_IMPORT, OP_SELECT_NATIVE_IMPORT,
      OP_IMPORT_ALL_NATIVE, OP_EJECT_IMPORT, OP_EJECT_NATIVE_IMPORT, OP_IMPORT_ALL, OP_TRY,
      OP_POP_TRY, OP_PUBLISH_TRY, OP_STRINGIFY, OP_SWITCH, OP_CHOICE, OP_BREAK_PL]"

definition code_of_byte :: "byte \<Rightarrow> b_code option" where
  "code_of_byte b = (if unat b < length b_codes then Some (b_codes ! unat b) else None)"

definition byte_of_code :: "b_code \<Rightarrow> byte" where
  "byte_of_code c = word_of_nat (length (takeWhile (\<lambda>x. x \<noteq> c) b_codes))"

text \<open>Every instruction is in the enumeration once, and its byte stands for it.\<close>

lemma set_b_codes: "c \<in> set b_codes"
  by (cases c) (simp_all add: b_codes_def)

lemma length_b_codes: "length b_codes = 77"
  by (simp add: b_codes_def)

lemma length_takeWhile_neq: "c \<in> set xs \<Longrightarrow> length (takeWhile (\<lambda>x. x \<noteq> c) xs) < length xs"
  by (induction xs) auto

lemma code_of_byte_of_code: "code_of_byte (byte_of_code c) = Some c"
proof -
  let ?n = "length (takeWhile (\<lambda>x. x \<noteq> c) b_codes)"
  have n: "?n < length b_codes"
    by (rule length_takeWhile_neq) (rule set_b_codes)
  then have "unat (byte_of_code c) = ?n"
    by (simp add: byte_of_code_def length_b_codes unsigned_of_nat take_bit_nat_eq_self)
  then show ?thesis
    using n nth_length_takeWhile [of "\<lambda>x. x \<noteq> c" b_codes] by (simp add: code_of_byte_def)
qed

end
