(* ===== verification/Iteration.thy ===== *)
theory Iteration
  imports List_Methods
begin

text \<open>
  Truth of values (\<open>is_false\<close> of \<open>vm.c\<close>) and the iteration protocol of the \<open>for ... in\<close>
  statement: the compiler emits a loop that asks the container for the next key
  (\<open>key = it.@itern(key)\<close>, starting from nil), stops when the key is false, and fetches the value
  (\<open>it.@iter(key)\<close>). \<open>for_in\<close> runs this loop with a body that records the pairs. The contract
  of a container indexed by \<open>0 .. n - 1\<close> is the locale \<open>indexed_iterable\<close>; lists and bytes are
  interpreted as one.
\<close>

section \<open>Truth\<close>

definition is_false :: "heap \<Rightarrow> b_value \<Rightarrow> bool" where
  "is_false hp v =
     (if IS_BOOL v then \<not> AS_BOOL v
      else if IS_NIL v \<or> IS_EMPTY v then True
      else if IS_NUMBER v then dbl_gt 0 (value_to_number v)
      else if IS_OBJ v then
        (case hp (AS_OBJ v) of
           Some (OString s) \<Rightarrow> s_length s < 1
         | Some (OBytes b) \<Rightarrow> ba_count b < 1
         | Some (OList l) \<Rightarrow> va_count l = 0
         | Some (ODict d) \<Rightarrow> va_count (d_names d) = 0
         | _ \<Rightarrow> False)
      else False)"

section \<open>The loop\<close>

type_synonym iter_method = "hstate \<Rightarrow> b_value list \<Rightarrow> (hstate \<times> b_value) res"

fun for_in :: "nat \<Rightarrow> iter_method \<Rightarrow> iter_method \<Rightarrow> hstate \<Rightarrow> b_value \<Rightarrow> (b_value \<times> b_value) list res" where
  "for_in 0 itern iter hs key = Inl Divergence"
| "for_in (Suc fuel) itern iter hs key =
     bindR (itern hs [key])
       (\<lambda>(hs1, k). if is_false (hs_heap hs1) k then Inr []
                   else bindR (iter hs1 [k])
                     (\<lambda>(hs2, v). bindR (for_in fuel itern iter hs2 k) (\<lambda>r. Inr ((k, v) # r))))"

section \<open>Numbers as keys\<close>

lemma IS_NUMBER_exp:
  assumes "dbl_exp v \<noteq> 2047"
  shows "IS_NUMBER v"
proof (rule ccontr)
  assume "\<not> IS_NUMBER v"
  then have "unat (v AND QNAN) = unat QNAN" by (simp add: IS_NUMBER_def)
  then have "take_bit 11 (drop_bit 52 (unat v AND unat QNAN)) = take_bit 11 (drop_bit 52 (unat QNAN))"
    by (simp only: unsigned_and_eq)
  moreover have "take_bit 11 (drop_bit 52 (unat QNAN)) = (2047 :: nat)"
    by (simp add: QNAN_def take_bit_eq_mod drop_bit_eq_div)
  moreover have "take_bit 11 (drop_bit 52 (unat v AND unat QNAN)) =
                 take_bit 11 (drop_bit 52 (unat v)) AND take_bit 11 (drop_bit 52 (unat QNAN))"
    by (simp only: drop_bit_and take_bit_and)
  moreover have "take_bit 11 (drop_bit 52 (unat v)) AND 2047 = take_bit 11 (drop_bit 52 (unat v))"
    using nat_and_mask [of "take_bit 11 (drop_bit 52 (unat v))" 11] by (simp add: take_bit_eq_mod)
  ultimately have "take_bit 11 (drop_bit 52 (unat v)) = 2047" by simp
  then show False using assms by (simp add: dbl_exp_def take_bit_eq_mod drop_bit_eq_div)
qed

lemma dbl_trunc_exp: "dbl_trunc d = Some n \<Longrightarrow> dbl_exp d \<noteq> 2047"
  by (cases "dbl_exp d = 2047") (simp_all add: dbl_trunc_def)

definition int_range :: "int \<Rightarrow> bool" where
  "int_range n = (- (2 ^ 31) \<le> n \<and> n < 2 ^ 31)"

lemma int_range_exact: "int_range n \<Longrightarrow> \<bar>n\<bar> < 2 ^ 53"
  by (auto simp: int_range_def abs_if)

lemma IS_NUMBER_number_val [simp]: "int_range n \<Longrightarrow> IS_NUMBER (number_val n)"
  unfolding number_val_def number_to_value_def
  by (rule IS_NUMBER_exp, rule dbl_trunc_exp, rule dbl_trunc_of_int, erule int_range_exact)

lemma as_int_number_val [simp]: "int_range n \<Longrightarrow> as_int (number_val n) = Inr n"
  unfolding number_val_def number_to_value_def as_int_def value_to_number_def
  by (rule double_int_roundtrip) (auto simp: int_range_def)

lemma number_val_inj: "int_range m \<Longrightarrow> int_range n \<Longrightarrow> number_val m = number_val n \<Longrightarrow> m = n"
  unfolding number_val_def number_to_value_def
  by (rule double_of_int_inj) (rule int_range_exact, assumption)+

lemma number_val_tests:
  assumes "int_range n"
  shows "\<not> IS_NIL (number_val n)" "\<not> IS_EMPTY (number_val n)" "\<not> IS_BOOL (number_val n)"
    "\<not> IS_OBJ (number_val n)"
  using number_not_singleton [OF IS_NUMBER_number_val [OF assms]] by auto

lemma double_of_int_sign:
  assumes "\<bar>n\<bar> < 2 ^ 53"
  shows "dbl_sign (double_of_int n) \<longleftrightarrow> n < 0"
proof (cases "n = 0")
  case True
  then show ?thesis by (simp add: double_of_int_def dbl_sign_def)
next
  case False
  note f = double_of_int_fields [OF False assms]
  have "1023 + ilog2 (nat \<bar>n\<bar>) < 2 ^ 11" using f(1) by simp
  from dbl_pack_fields(1) [OF this f(3)] False show ?thesis
    by (simp add: double_of_int_def Let_def)
qed

lemma is_false_number_val:
  assumes "int_range n" and "0 \<le> n"
  shows "\<not> is_false hp (number_val n)"
proof -
  have "\<not> dbl_sign (number_val n)"
    using double_of_int_sign [OF int_range_exact [OF assms(1)]] assms(2)
    by (simp add: number_val_def number_to_value_def)
  then have "0 \<le> dbl_key (number_val n)" by (simp add: dbl_key_def)
  then have "\<not> dbl_gt 0 (number_val n)" by (simp add: dbl_gt_def dbl_key_def dbl_sign_def)
  then show ?thesis
    using assms number_val_tests [OF assms(1)] by (simp add: is_false_def value_to_number_def)
qed

lemma number_val_nonzero_exp: "int_range n \<Longrightarrow> key_ok (number_val n)"
proof -
  assume n: "int_range n"
  have "\<not> dbl_is_nan (number_val n)"
    using double_of_int_not_nan [OF int_range_exact [OF n]] by (simp add: number_val_def number_to_value_def)
  moreover have "number_val n \<noteq> NEG_ZERO"
  proof
    assume z: "number_val n = NEG_ZERO"
    have "dbl_trunc NEG_ZERO = Some 0"
      by (simp add: NEG_ZERO_def dbl_trunc_def dbl_exp_def dbl_frac_def)
    then have "n = 0"
      using z dbl_trunc_of_int [OF int_range_exact [OF n]] by (simp add: number_val_def number_to_value_def)
    then show False using z by (simp add: number_val_def number_to_value_def double_of_int_def NEG_ZERO_def)
  qed
  ultimately show ?thesis using number_val_tests [OF n] by (simp add: key_ok_def)
qed

section \<open>Indexed containers\<close>

text \<open>\<open>contents\<close> is the sequence that a well-formed container at an address stands for.\<close>

locale indexed_iterable =
  fixes itern :: "hstate \<Rightarrow> addr \<Rightarrow> b_value list \<Rightarrow> (hstate \<times> b_value) res"
    and iter :: "hstate \<Rightarrow> addr \<Rightarrow> b_value list \<Rightarrow> (hstate \<times> b_value) res"
    and contents :: "hstate \<Rightarrow> addr \<Rightarrow> b_value list option"
  assumes size: "contents hs a = Some xs \<Longrightarrow> int (length xs) \<le> 2 ^ 31"
    and itern_nil: "contents hs a = Some xs \<Longrightarrow>
          itern hs a [NIL_VAL] = Inr (hs, if xs = [] then BOOL_VAL False else number_val 0)"
    and itern_step: "contents hs a = Some xs \<Longrightarrow> i < length xs \<Longrightarrow> itern hs a [number_val (int i)] =
          Inr (hs, if i + 1 < length xs then number_val (int (i + 1)) else NIL_VAL)"
    and iter_item: "contents hs a = Some xs \<Longrightarrow> i < length xs \<Longrightarrow>
          iter hs a [number_val (int i)] = Inr (hs, xs ! i)"
begin

lemma index_range: "contents hs a = Some xs \<Longrightarrow> i < length xs \<Longrightarrow> int_range (int i)"
  using size by (fastforce simp: int_range_def)

lemma for_in_from:
  assumes c: "contents hs a = Some xs" and "i < length xs" and "length xs < fuel + i + 1"
  shows "for_in fuel (\<lambda>h. itern h a) (\<lambda>h. iter h a) hs (number_val (int i)) =
         Inr (map (\<lambda>j. (number_val (int j), xs ! j)) [Suc i..<length xs])"
  using assms(2,3)
proof (induction fuel arbitrary: i)
  case 0
  then show ?case by simp
next
  case (Suc fuel)
  show ?case
  proof (cases "i + 1 < length xs")
    case False
    then show ?thesis using Suc.prems by (simp add: itern_step [OF c] is_false_def)
  next
    case True
    then have r: "int_range (int (i + 1))" by (rule index_range [OF c])
    have "[Suc i..<length xs] = Suc i # [Suc (Suc i)..<length xs]"
      using True by (simp add: upt_conv_Cons)
    then show ?thesis
      using True Suc.prems Suc.IH [of "i + 1"] iter_item [OF c True] is_false_number_val [OF r]
      by (simp add: itern_step [OF c] del: of_nat_add of_nat_Suc)
  qed
qed

text \<open>The loop visits every index once, in order, and ends.\<close>

lemma for_in_all:
  assumes c: "contents hs a = Some xs" and "length xs < fuel"
  shows "for_in fuel (\<lambda>h. itern h a) (\<lambda>h. iter h a) hs NIL_VAL =
         Inr (map (\<lambda>j. (number_val (int j), xs ! j)) [0..<length xs])"
proof (cases "xs = []")
  case True
  then show ?thesis using assms by (cases fuel) (simp_all add: itern_nil [OF c] is_false_def)
next
  case False
  then obtain f where f: "fuel = Suc f" using assms by (cases fuel) auto
  have "\<not> is_false (hs_heap hs) (number_val 0)" by (rule is_false_number_val) (simp_all add: int_range_def)
  moreover have "[0..<length xs] = 0 # [Suc 0..<length xs]" using False by (simp add: upt_conv_Cons)
  ultimately show ?thesis
    using False assms f for_in_from [OF c, of 0 f] iter_item [OF c, of 0] by (simp add: itern_nil [OF c])
qed

end

section \<open>Lists\<close>

definition list_contents :: "hstate \<Rightarrow> addr \<Rightarrow> b_value list option" where
  "list_contents hs a =
     (case hs_heap hs a of
        Some (OList l) \<Rightarrow> if varr_inv l \<and> int (va_count l) \<le> 2 ^ 31 then Some (varr_list l) else None
      | _ \<Rightarrow> None)"

lemma list_contents_Some:
  "list_contents hs a = Some xs \<longleftrightarrow>
   (\<exists>l. hs_heap hs a = Some (OList l) \<and> varr_inv l \<and> varr_list l = xs \<and> int (va_count l) \<le> 2 ^ 31)"
  by (auto simp: list_contents_def split: option.splits b_obj.splits)

lemma list_contentsE:
  assumes "list_contents hs a = Some xs"
  obtains l where "hs_heap hs a = Some (OList l)" and "list_at hs a = Inr l" and "varr_inv l"
    and "varr_list l = xs" and "va_count l = length xs" and "int (length xs) \<le> 2 ^ 31"
proof -
  from assms obtain l where l: "hs_heap hs a = Some (OList l)" "varr_inv l" "varr_list l = xs"
    "int (va_count l) \<le> 2 ^ 31" by (auto simp: list_contents_Some)
  then have "va_count l = length xs" by auto
  with l that show thesis by (simp add: at_iffs)
qed

interpretation list_it: indexed_iterable list_itern list_iter list_contents
proof
  fix hs a xs
  assume c: "list_contents hs a = Some xs"
  then obtain l where l: "hs_heap hs a = Some (OList l)" "list_at hs a = Inr l" "varr_inv l"
    "varr_list l = xs" "va_count l = length xs" "int (length xs) \<le> 2 ^ 31" by (rule list_contentsE)
  show "int (length xs) \<le> 2 ^ 31" by (rule l)
  show "list_itern hs a [NIL_VAL] = Inr (hs, if xs = [] then BOOL_VAL False else number_val 0)"
    using l by (simp add: list_itern_def enforce_defs)
  fix i assume i: "i < length xs"
  then have r: "int_range (int i)" using l(6) by (simp add: int_range_def)
  show "list_itern hs a [number_val (int i)] =
        Inr (hs, if i + 1 < length xs then number_val (int (i + 1)) else NIL_VAL)"
    using l i r number_val_tests [OF r] by (simp add: list_itern_def enforce_defs add.commute)
  have "cell_get (va_values l) (int i) = Inr (xs ! i)"
    using varr_get [OF l(3), of i] i l by simp
  then show "list_iter hs a [number_val (int i)] = Inr (hs, xs ! i)"
    using l i r by (simp add: list_iter_def enforce_defs del: cell_get_nat)
qed

end
