(* ===== verification/List_Correct.thy ===== *)
theory List_Correct
  imports Iteration
begin

text \<open>
  What the list methods do to the sequence a list stands for (\<open>list_contents\<close>), with every other
  object unchanged (\<open>only_changes\<close>), and where they go wrong: the element-removing loops read one
  cell too many, a list extended by itself never stops, \<open>take\<close> returns the whole list.
\<close>

section \<open>Frames\<close>

definition only_changes :: "addr set \<Rightarrow> hstate \<Rightarrow> hstate \<Rightarrow> bool" where
  "only_changes A hs hs' = (\<forall>b. b \<notin> A \<longrightarrow> hs_heap hs' b = hs_heap hs b)"

lemma only_changes_put [simp]: "only_changes {a} hs (put_obj hs a ob)"
  by (simp add: only_changes_def)

lemma only_changes_trans: "only_changes A h1 h2 \<Longrightarrow> only_changes A h2 h3 \<Longrightarrow> only_changes A h1 h3"
  by (simp add: only_changes_def)

lemma list_contents_put:
  "varr_inv l \<Longrightarrow> int (va_count l) \<le> 2 ^ 31 \<Longrightarrow> list_contents (put_obj hs a (OList l)) a = Some (varr_list l)"
  by (simp add: list_contents_def)

text \<open>Whether the block of the list has a cell behind the last element.\<close>

definition list_roomy :: "hstate \<Rightarrow> addr \<Rightarrow> bool" where
  "list_roomy hs a =
     (case hs_heap hs a of Some (OList l) \<Rightarrow> va_count l < va_capacity l | _ \<Rightarrow> False)"

section \<open>Appending and inserting\<close>

lemma write_list_correct:
  assumes "list_contents hs a = Some xs" and "int (length xs) < 2 ^ 31"
  shows "\<exists>hs'. write_list hs a v = Inr hs' \<and> list_contents hs' a = Some (xs @ [v]) \<and>
           only_changes {a} hs hs' \<and> hs_next hs' = hs_next hs"
proof -
  from assms(1) obtain l where l: "list_at hs a = Inr l" "varr_inv l" "varr_list l = xs"
    "va_count l = length xs" by (rule list_contentsE)
  from write_value_arr_correct [OF l(2), of v] obtain l' where
    l': "write_value_arr l v = Inr l'" "varr_inv l'" "varr_list l' = varr_list l @ [v]"
    "va_count l' = va_count l + 1" by blast
  then show ?thesis
    using l assms(2) list_contents_put [OF l'(2), of hs a] by (auto simp: write_list_def)
qed

text \<open>
  Appending puts the value behind the last element, touches no other object, and reports
  success with the empty value.
\<close>

lemma list_append_correct:
  assumes "list_contents hs a = Some xs" and "int (length xs) < 2 ^ 31"
  shows "\<exists>hs'. list_append hs a [v] = Inr (hs', EMPTY_VAL) \<and>
           list_contents hs' a = Some (xs @ [v]) \<and> only_changes {a} hs hs'"
  using write_list_correct [OF assms, of v] by (auto simp: list_append_def enforce_defs)

definition sample_list :: "b_value list \<Rightarrow> hstate" where
  "sample_list xs = \<lparr>hs_heap = [16 \<mapsto> OList (varr_of (length xs + 1) xs)], hs_next = 64, hs_strings = init_table\<rparr>"

lemma sample_list_contents:
  "int (length xs) \<le> 2 ^ 31 \<Longrightarrow> list_contents (sample_list xs) 16 = Some xs"
  using varr_of_ok [of xs "length xs + 1"]
  by (simp add: list_contents_def sample_list_def) (simp add: varr_of_def)

lemma list_append_correct_instance:
  "\<exists>hs'. list_append (sample_list [NIL_VAL]) 16 [TRUE_VAL] = Inr (hs', EMPTY_VAL) \<and>
     list_contents hs' 16 = Some ([NIL_VAL] @ [TRUE_VAL]) \<and> only_changes {16} (sample_list [NIL_VAL]) hs'"
  by (rule list_append_correct [OF sample_list_contents]) simp_all

text \<open>
  Inserting at an index moves the elements from that index up by one; an index behind the end
  fills the gap with nil, and a negative index is an access in front of the block.
\<close>

lemma list_insert_correct:
  assumes "list_contents hs a = Some xs" and "int_range i"
    and "int (max (nat i) (length xs)) < 2 ^ 31"
  shows "if 0 \<le> i
         then \<exists>hs'. list_insert hs a [v, number_val i] = Inr (hs', EMPTY_VAL) \<and>
                list_contents hs' a = Some (list_insert_at NIL_VAL (nat i) v xs) \<and> only_changes {a} hs hs'
         else \<not> is_ok (list_insert hs a [v, number_val i])"
proof -
  from assms(1) obtain l where l: "list_at hs a = Inr l" "varr_inv l" "varr_list l = xs"
    "va_count l = length xs" by (rule list_contentsE)
  have e: "list_insert hs a [v, number_val i] =
    bindR (insert_value_arr l v i) (\<lambda>l'. Inr (put_obj hs a (OList l'), EMPTY_VAL))"
    using l assms(2) by (simp add: list_insert_def enforce_defs)
  show ?thesis
  proof (cases "0 \<le> i")
    case True
    from insert_value_arr_correct [OF l(2), of v "nat i"] True obtain l' where
      l': "insert_value_arr l v i = Inr l'" "varr_inv l'"
      "varr_list l' = list_insert_at NIL_VAL (nat i) v xs" using l by auto
    then have "va_count l' = max (nat i) (length xs) + 1"
      using varr_list_length [OF l'(2)] by (simp add: length_list_insert_at)
    then show ?thesis
      using True e l' assms(3) list_contents_put [OF l'(2), of hs a] by auto
  next
    case False
    then have "\<not> is_ok (insert_value_arr l v i)" using insert_value_arr_negative by simp
    then show ?thesis using False e by (cases "insert_value_arr l v i") auto
  qed
qed

lemma list_insert_correct_instance:
  "\<exists>hs'. list_insert (sample_list [TRUE_VAL]) 16 [FALSE_VAL, number_val 3] = Inr (hs', EMPTY_VAL) \<and>
     list_contents hs' 16 = Some [TRUE_VAL, NIL_VAL, NIL_VAL, FALSE_VAL] \<and>
     only_changes {16} (sample_list [TRUE_VAL]) hs'"
proof -
  have r: "int_range 3" by (simp add: int_range_def)
  have c: "list_contents (sample_list [TRUE_VAL]) 16 = Some [TRUE_VAL]"
    by (rule sample_list_contents) simp
  from list_insert_correct [OF c r, of FALSE_VAL] show ?thesis
    by (simp add: list_insert_at_def numeral_eq_Suc)
qed

section \<open>Removing\<close>

lemma remove_cells:
  assumes inv: "varr_inv l" and i: "i < va_count l" and room: "va_count l < va_capacity l"
  shows "\<exists>cs. shift_down (va_values l) (int i) (va_count l - i) = Inr cs \<and>
           varr_inv (l\<lparr>va_values := cs, va_count := va_count l - 1\<rparr>) \<and>
           varr_list (l\<lparr>va_values := cs, va_count := va_count l - 1\<rparr>) =
             take i (varr_list l) @ drop (Suc i) (varr_list l)"
proof -
  note h = varr_invD [OF inv]
  let ?xs = "varr_list l" and ?ys = "take i (varr_list l) @ drop (Suc i) (varr_list l)"
  from shift_down_correct [of i "va_count l - i" "va_values l"] i room h(1) obtain cs where
    cs: "shift_down (va_values l) (int i) (va_count l - i) = Inr cs" "length cs = va_capacity l"
    "\<forall>j < va_capacity l. cs ! j = (if i \<le> j \<and> j < va_count l then va_values l ! (j + 1) else va_values l ! j)"
    by auto
  have "cells_hold cs ?ys"
    unfolding cells_hold_iff
    using cs(2,3) h(2) i room cells_hold_nth [OF h(4)] by (auto simp: nth_append min_def)
  then have "varr_inv (l\<lparr>va_values := cs, va_count := va_count l - 1\<rparr>)"
    "varr_list (l\<lparr>va_values := cs, va_count := va_count l - 1\<rparr>) = ?ys"
    using varr_invI [of "l\<lparr>va_values := cs, va_count := va_count l - 1\<rparr>" ?ys] cs(2) h(2) i
    by (auto simp: min_def)
  with cs show ?thesis by blast
qed

lemma list_remove_at_unfold:
  assumes "list_at hs a = Inr l" and "varr_inv l" and "int_range i"
  shows "list_remove_at hs a [number_val i] =
     (if i < 0 \<or> int (va_count l) \<le> i then Inl (Thrown ''list index %d out of range at remove_at()'')
      else bindR (shift_down (va_values l) i (nat (int (va_count l) - i)))
        (\<lambda>cs. Inr (put_obj hs a (OList (l\<lparr>va_values := cs, va_count := va_count l - 1\<rparr>)),
                   varr_list l ! nat i)))"
proof (cases "i < 0 \<or> int (va_count l) \<le> i")
  case True
  then show ?thesis using assms by (auto simp: list_remove_at_def enforce_defs)
next
  case False
  then have i: "nat i < va_count l" "int (nat i) = i" by linarith+
  have "cell_get (va_values l) i = Inr (varr_list l ! nat i)"
    using varr_get [OF assms(2) i(1)] i(2) by (simp del: cell_get_nat)
  with False show ?thesis
    using assms by (auto simp: list_remove_at_def enforce_defs simp del: cell_get_nat)
qed

text \<open>
  Removing by index throws for an index outside the list; otherwise, when the block has a spare
  cell, it returns the element and closes the gap, and when the block is full the loop reads the
  cell behind the block.
\<close>

lemma list_remove_at_correct:
  assumes "list_contents hs a = Some xs" and "int_range i"
  shows "if i < 0 \<or> int (length xs) \<le> i
         then list_remove_at hs a [number_val i] = Inl (Thrown ''list index %d out of range at remove_at()'')
         else if list_roomy hs a
         then \<exists>hs'. list_remove_at hs a [number_val i] = Inr (hs', xs ! nat i) \<and>
                list_contents hs' a = Some (take (nat i) xs @ drop (Suc (nat i)) xs) \<and>
                only_changes {a} hs hs'
         else list_remove_at hs a [number_val i] = Inl OutOfBounds"
proof -
  from assms(1) obtain l where l: "hs_heap hs a = Some (OList l)" "list_at hs a = Inr l" "varr_inv l"
    "varr_list l = xs" "va_count l = length xs" "int (length xs) \<le> 2 ^ 31" by (rule list_contentsE)
  note h = varr_invD [OF l(3)]
  note e = list_remove_at_unfold [OF l(2,3) assms(2)]
  show ?thesis
  proof (cases "i < 0 \<or> int (length xs) \<le> i")
    case True
    then show ?thesis using e l by simp
  next
    case False
    then have i: "nat i < va_count l" "int (nat i) = i" "nat (int (va_count l) - i) = va_count l - nat i"
      using l by auto
    show ?thesis
    proof (cases "va_count l < va_capacity l")
      case True
      from remove_cells [OF l(3) i(1) True] obtain cs where
        cs: "shift_down (va_values l) i (nat (int (va_count l) - i)) = Inr cs"
        "varr_inv (l\<lparr>va_values := cs, va_count := va_count l - 1\<rparr>)"
        "varr_list (l\<lparr>va_values := cs, va_count := va_count l - 1\<rparr>) = take (nat i) xs @ drop (Suc (nat i)) xs"
        using i l by auto
      let ?l = "l\<lparr>va_values := cs, va_count := va_count l - 1\<rparr>"
      have "int (va_count ?l) \<le> 2 ^ 31" using l(5,6) by simp
      then have "list_contents (put_obj hs a (OList ?l)) a = Some (take (nat i) xs @ drop (Suc (nat i)) xs)"
        using list_contents_put [OF cs(2)] cs(3) by simp
      moreover have "list_remove_at hs a [number_val i] = Inr (put_obj hs a (OList ?l), xs ! nat i)"
        using e cs(1) False l(4,5) by simp
      moreover have "list_roomy hs a" using True l(1) by (simp add: list_roomy_def)
      ultimately show ?thesis using False by simp
    next
      case full: False
      have "shift_down (va_values l) (int (nat i)) (va_count l - nat i) = Inl OutOfBounds"
        using h i full by (intro shift_down_overrun) auto
      then have "list_remove_at hs a [number_val i] = Inl OutOfBounds"
        using e i(2,3) False l(5) by simp
      moreover have "\<not> list_roomy hs a" using full l(1) by (simp add: list_roomy_def)
      ultimately show ?thesis using False by simp
    qed
  qed
qed

lemma list_remove_at_correct_instance:
  "\<exists>hs'. list_remove_at (sample_list [TRUE_VAL, NIL_VAL]) 16 [number_val 0] = Inr (hs', TRUE_VAL) \<and>
     list_contents hs' 16 = Some [NIL_VAL] \<and> only_changes {16} (sample_list [TRUE_VAL, NIL_VAL]) hs'"
proof -
  have c: "list_contents (sample_list [TRUE_VAL, NIL_VAL]) 16 = Some [TRUE_VAL, NIL_VAL]"
    by (rule sample_list_contents) simp
  have "list_roomy (sample_list [TRUE_VAL, NIL_VAL]) 16"
    by (simp add: list_roomy_def sample_list_def varr_of_def)
  with list_remove_at_correct [OF c, of 0] show ?thesis by (simp add: int_range_def)
qed

section \<open>Extending\<close>

lemma extend_loop_correct:
  assumes "a \<noteq> b" and "list_contents hs b = Some ys" and "list_contents hs a = Some xs"
    and "i \<le> length ys" and "length ys - i < fuel" and "int (length xs + (length ys - i)) < 2 ^ 31"
  shows "\<exists>hs'. extend_loop fuel hs a b i = Inr hs' \<and>
           list_contents hs' a = Some (xs @ drop i ys) \<and> only_changes {a} hs hs'"
  using assms
proof (induction fuel arbitrary: hs xs i)
  case 0
  then show ?case by simp
next
  case (Suc fuel)
  from Suc.prems(2) obtain l2 where l2: "list_at hs b = Inr l2" "varr_inv l2" "varr_list l2 = ys"
    "va_count l2 = length ys" by (rule list_contentsE)
  show ?case
  proof (cases "i < length ys")
    case False
    then show ?thesis
      using Suc.prems l2 by (auto simp: only_changes_def)
  next
    case True
    have g: "cell_get (va_values l2) (int i) = Inr (ys ! i)"
      using varr_get [OF l2(2), of i] True l2 by simp
    from write_list_correct [OF Suc.prems(3), of "ys ! i"] Suc.prems(6) obtain h1 where
      h1: "write_list hs a (ys ! i) = Inr h1" "list_contents h1 a = Some (xs @ [ys ! i])"
      "only_changes {a} hs h1" by auto
    have "list_contents h1 b = Some ys"
      using Suc.prems(1,2) h1(3) by (auto simp: list_contents_def only_changes_def)
    moreover have "i + 1 \<le> length ys" "length ys - (i + 1) < fuel"
      "int (length (xs @ [ys ! i]) + (length ys - (i + 1))) < 2 ^ 31" using True Suc.prems(5,6) by auto
    ultimately obtain h2 where
      "extend_loop fuel h1 a b (i + 1) = Inr h2"
      "list_contents h2 a = Some ((xs @ [ys ! i]) @ drop (i + 1) ys)" "only_changes {a} h1 h2"
      using Suc.IH [OF Suc.prems(1) _ h1(2)] by blast
    then show ?thesis
      using True g h1 l2 only_changes_trans [OF h1(3)]
      by (auto simp: Cons_nth_drop_Suc simp del: cell_get_nat)
  qed
qed

text \<open>Extended by itself, a list gains an element in every iteration: no number of them is enough.\<close>

lemma extend_loop_self:
  assumes "list_contents hs a = Some xs" and "i < length xs" and "int (length xs + fuel) < 2 ^ 31"
  shows "extend_loop fuel hs a a i = Inl Divergence"
  using assms
proof (induction fuel arbitrary: hs xs i)
  case 0
  then show ?case by simp
next
  case (Suc fuel)
  from Suc.prems(1) obtain l where l: "list_at hs a = Inr l" "varr_inv l" "varr_list l = xs"
    "va_count l = length xs" by (rule list_contentsE)
  have g: "cell_get (va_values l) (int i) = Inr (xs ! i)"
    using varr_get [OF l(2), of i] Suc.prems l by simp
  from write_list_correct [OF Suc.prems(1), of "xs ! i"] Suc.prems(3) obtain h1 where
    h1: "write_list hs a (xs ! i) = Inr h1" "list_contents h1 a = Some (xs @ [xs ! i])" by auto
  from Suc.IH [OF h1(2), of "i + 1"] Suc.prems show ?case
    using l g h1 by (simp del: cell_get_nat)
qed

text \<open>
  C32: Extending appends the elements of the other list; extending a non-empty list by itself never
  ends, whatever number of iterations is allowed (up to the size an \<open>int\<close> can count).
\<close>

theorem list_extend_correct:
  assumes "list_contents hs a = Some xs" and "list_contents hs b = Some ys" and "addr_ok b"
  shows "(a \<noteq> b \<longrightarrow> int (length xs + length ys) < 2 ^ 31 \<longrightarrow> length ys < fuel \<longrightarrow>
            (\<exists>hs'. list_extend fuel hs a [OBJ_VAL b] = Inr (hs', EMPTY_VAL) \<and>
               list_contents hs' a = Some (xs @ ys) \<and> only_changes {a} hs hs')) \<and>
         (a = b \<longrightarrow> xs \<noteq> [] \<longrightarrow> int (length xs + fuel) < 2 ^ 31 \<longrightarrow>
            list_extend fuel hs a [OBJ_VAL b] = Inl Divergence)"
proof -
  from assms(2) obtain l where l: "hs_heap hs b = Some (OList l)" by (rule list_contentsE)
  have e: "list_extend fuel hs a [OBJ_VAL b] =
           bindR (extend_loop fuel hs a b 0) (\<lambda>hs'. Inr (hs', EMPTY_VAL))"
    using l assms(3) by (simp add: list_extend_def enforce_defs IS_LIST_def is_obj_type_def AS_OBJ_OBJ_VAL)
  show ?thesis
  proof (intro conjI impI)
    assume "a \<noteq> b" "int (length xs + length ys) < 2 ^ 31" "length ys < fuel"
    with extend_loop_correct [of a b hs ys xs 0 fuel] assms e
    show "\<exists>hs'. list_extend fuel hs a [OBJ_VAL b] = Inr (hs', EMPTY_VAL) \<and>
               list_contents hs' a = Some (xs @ ys) \<and> only_changes {a} hs hs'" by auto
  next
    assume "a = b" "xs \<noteq> []" "int (length xs + fuel) < 2 ^ 31"
    with extend_loop_self [of hs a xs 0 fuel] assms e
    show "list_extend fuel hs a [OBJ_VAL b] = Inl Divergence" by auto
  qed
qed

theorem list_extend_correct_witness:
  "list_extend 1000 (sample_list [TRUE_VAL]) 16 [OBJ_VAL 16] = Inl Divergence"
proof -
  have c: "list_contents (sample_list [TRUE_VAL]) 16 = Some [TRUE_VAL]"
    by (rule sample_list_contents) simp
  have a: "addr_ok 16" by (simp add: addr_ok_def val_consts)
  from list_extend_correct [OF c c a, of 1000] show ?thesis by simp
qed

section \<open>Copying methods\<close>

lemma copy_list_correct:
  assumes "list_contents hs a = Some xs"
  shows "\<exists>l. copy_list hs a start n = Inr (alloc_obj hs (OList l)) \<and> varr_inv l \<and> varr_list l = xs"
proof -
  from assms obtain l where "list_at hs a = Inr l" "varr_inv l" "varr_list l = xs" by (rule list_contentsE)
  then show ?thesis using new_list_of_correct [of hs xs] by (auto simp: copy_list_def)
qed

text \<open>
  \<open>take\<close> returns a new list with all elements of the receiver, for every count: the count is
  computed and then ignored by \<open>copy_list\<close>.
\<close>

lemma list_take_returns_everything:
  assumes "list_contents hs a = Some xs" and "int_range n"
  shows "\<exists>hs'. list_take hs a [number_val n] = Inr (hs', OBJ_VAL (hs_next hs)) \<and>
           list_contents hs' (hs_next hs) = Some xs \<and> only_changes {hs_next hs} hs hs'"
proof -
  from assms(1) obtain l where l: "list_at hs a = Inr l" "va_count l = length xs" "int (length xs) \<le> 2 ^ 31"
    by (rule list_contentsE)
  obtain k where k: "copy_list hs a 0 m = Inr (alloc_obj hs (OList k))" "varr_inv k" "varr_list k = xs" for m
    using copy_list_correct [OF assms(1)] by (metis copy_list_def)
  have "va_count k = length xs" using k varr_list_length by metis
  then have "list_contents (fst (alloc_obj hs (OList k))) (hs_next hs) = Some xs"
    using k l by (simp add: list_contents_def)
  moreover have "list_take hs a [number_val n] =
                 Inr (fst (alloc_obj hs (OList k)), OBJ_VAL (hs_next hs))"
    using l assms(2) k(1) by (simp add: list_take_def enforce_defs Let_def alloc_obj_def)
  moreover have "only_changes {hs_next hs} hs (fst (alloc_obj hs (OList k)))"
    by (simp add: only_changes_def)
  ultimately show ?thesis by blast
qed

lemma list_take_returns_everything_instance:
  "\<exists>hs'. list_take (sample_list [TRUE_VAL, FALSE_VAL]) 16 [number_val 1] = Inr (hs', OBJ_VAL 64) \<and>
     list_contents hs' 64 = Some [TRUE_VAL, FALSE_VAL] \<and> only_changes {64} (sample_list [TRUE_VAL, FALSE_VAL]) hs'"
proof -
  have c: "list_contents (sample_list [TRUE_VAL, FALSE_VAL]) 16 = Some [TRUE_VAL, FALSE_VAL]"
    by (rule sample_list_contents) simp
  have "hs_next (sample_list [TRUE_VAL, FALSE_VAL]) = 64" by (simp add: sample_list_def)
  with list_take_returns_everything [OF c, of 1] show ?thesis by (simp add: int_range_def)
qed

text \<open>The result of \<open>unique\<close>: no two equal values, every value of the input represented.\<close>

lemma unique_loop_correct:
  assumes "sorted_wrt (\<lambda>x y. \<not> values_equal x y) acc"
  shows "sorted_wrt (\<lambda>x y. \<not> values_equal x y) (unique_loop acc xs) \<and>
         set acc \<subseteq> set (unique_loop acc xs) \<and> set (unique_loop acc xs) \<subseteq> set acc \<union> set xs \<and>
         (\<forall>x \<in> set xs. x \<in> set (unique_loop acc xs) \<or> (\<exists>y \<in> set (unique_loop acc xs). values_equal y x))"
  using assms
proof (induction xs arbitrary: acc)
  case Nil
  then show ?case by simp
next
  case (Cons x xs)
  show ?case
  proof (cases "\<exists>y \<in> set acc. values_equal y x")
    case True
    moreover then have "\<exists>y \<in> set (unique_loop acc xs). values_equal y x" using Cons.IH [OF Cons.prems] by blast
    ultimately show ?thesis using Cons.IH [OF Cons.prems] by auto
  next
    case False
    then have "sorted_wrt (\<lambda>x y. \<not> values_equal x y) (acc @ [x])"
      using Cons.prems by (auto simp: sorted_wrt_append)
    with Cons.IH [OF this] False show ?thesis by auto
  qed
qed

text \<open>
  \<open>unique\<close> returns a new list without equal values in which every element of the receiver
  occurs or has an equal one, and nothing else.
\<close>

lemma list_unique_correct:
  assumes "list_contents hs a = Some xs"
  shows "\<exists>hs' ys. list_unique hs a [] = Inr (hs', OBJ_VAL (hs_next hs)) \<and>
           list_at hs' (hs_next hs) = Inr ys \<and> varr_inv ys \<and>
           sorted_wrt (\<lambda>x y. \<not> values_equal x y) (varr_list ys) \<and>
           set (varr_list ys) \<subseteq> set xs \<and>
           (\<forall>x. x \<in> set xs \<longrightarrow> x \<in> set (varr_list ys) \<or> (\<exists>y \<in> set (varr_list ys). values_equal y x)) \<and>
           only_changes {hs_next hs} hs hs'"
proof -
  from assms obtain l where l: "list_at hs a = Inr l" "varr_inv l" "varr_list l = xs"
    by (rule list_contentsE)
  obtain k where k: "new_list_of hs (unique_loop [] xs) = Inr (alloc_obj hs (OList k))" "varr_inv k"
    "varr_list k = unique_loop [] xs" using new_list_of_correct by blast
  let ?h = "fst (alloc_obj hs (OList k))"
  have "list_unique hs a [] = Inr (?h, OBJ_VAL (hs_next hs))"
    using l k by (simp add: list_unique_def enforce_defs alloc_obj_def)
  moreover have "list_at ?h (hs_next hs) = Inr k" by (simp add: at_iffs)
  moreover have "only_changes {hs_next hs} hs ?h" by (simp add: only_changes_def)
  ultimately show ?thesis
    using k unique_loop_correct [of "[]" xs] by (intro exI [of _ ?h] exI [of _ k]) auto
qed

lemma list_unique_correct_instance:
  "\<exists>hs' ys. list_unique (sample_list [TRUE_VAL, TRUE_VAL]) 16 [] = Inr (hs', OBJ_VAL 64) \<and>
     list_at hs' 64 = Inr ys \<and> set (varr_list ys) \<subseteq> {TRUE_VAL}"
proof -
  have c: "list_contents (sample_list [TRUE_VAL, TRUE_VAL]) 16 = Some [TRUE_VAL, TRUE_VAL]"
    by (rule sample_list_contents) simp
  have "hs_next (sample_list [TRUE_VAL, TRUE_VAL]) = 64" by (simp add: sample_list_def)
  with list_unique_correct [OF c] show ?thesis by auto
qed

section \<open>Iterating\<close>

text \<open>
  A \<open>for\<close> loop over a list visits the pairs of index and element in order, each once, and ends
  after as many iterations as there are elements.
\<close>

lemma list_for_in:
  assumes "list_contents hs a = Some xs" and "length xs < fuel"
  shows "for_in fuel (\<lambda>h. list_itern h a) (\<lambda>h. list_iter h a) hs NIL_VAL =
         Inr (map (\<lambda>j. (number_val (int j), xs ! j)) [0..<length xs])"
  using assms by (rule list_it.for_in_all)

lemma list_for_in_instance:
  "for_in 3 (\<lambda>h. list_itern h 16) (\<lambda>h. list_iter h 16) (sample_list [TRUE_VAL, NIL_VAL]) NIL_VAL =
   Inr [(number_val 0, TRUE_VAL), (number_val 1, NIL_VAL)]"
  using list_for_in [OF sample_list_contents, of "[TRUE_VAL, NIL_VAL]" 3]
  by (simp add: upt_rec)

end
