(* ===== verification/Range_Methods.thy ===== *)
theory Range_Methods
  imports List_Correct
begin

text \<open>
  \<open>range.c\<close>: the native methods of ranges. The iteration method moves the lower bound of the range
  object itself, so that a second loop over the same range does not see the same numbers.
\<close>

section \<open>Methods\<close>

text \<open>\<open>++x\<close> and \<open>--x\<close> on an \<open>int\<close>.\<close>

definition int_inc :: "int \<Rightarrow> int res" where
  "int_inc n = (if n = 2 ^ 31 - 1 then Inl Overflow else Inr (n + 1))"

definition int_dec :: "int \<Rightarrow> int res" where
  "int_dec n = (if n = - (2 ^ 31) then Inl Overflow else Inr (n - 1))"

definition range_lower :: "hstate \<Rightarrow> addr \<Rightarrow> b_value list \<Rightarrow> (hstate \<times> b_value) res" where
  "range_lower hs self args =
     ENFORCE_ARG_COUNT ''lower'' 0 args (bindR (range_at hs self) (\<lambda>r. Inr (hs, number_val (r_lower r))))"

definition range_upper :: "hstate \<Rightarrow> addr \<Rightarrow> b_value list \<Rightarrow> (hstate \<times> b_value) res" where
  "range_upper hs self args =
     ENFORCE_ARG_COUNT ''upper'' 0 args (bindR (range_at hs self) (\<lambda>r. Inr (hs, number_val (r_upper r))))"

definition range_iter :: "hstate \<Rightarrow> addr \<Rightarrow> b_value list \<Rightarrow> (hstate \<times> b_value) res" where
  "range_iter hs self args =
     ENFORCE_ARG_COUNT ''__iter__'' 1 args (ENFORCE_ARG_TYPE ''__iter__'' 0 ''number'' IS_NUMBER args
       (bindR (range_at hs self) (\<lambda>r. bindR (as_int (args ! 0)) (\<lambda>index.
          if 0 \<le> index \<and> index < r_range r
          then (if index = 0 then Inr (hs, number_val (r_lower r))
                else bindR (if r_upper r < r_lower r then int_dec (r_lower r) else int_inc (r_lower r))
                       (\<lambda>l. Inr (put_obj hs self (ORange (r\<lparr>r_lower := l\<rparr>)), number_val l)))
          else Inr (hs, NIL_VAL)))))"

definition range_itern :: "hstate \<Rightarrow> addr \<Rightarrow> b_value list \<Rightarrow> (hstate \<times> b_value) res" where
  "range_itern hs self args =
     ENFORCE_ARG_COUNT ''__itern__'' 1 args
       (bindR (range_at hs self) (\<lambda>r.
          if IS_NIL (args ! 0)
          then (if r_range r = 0 then Inr (hs, NIL_VAL) else Inr (hs, number_val 0))
          else if \<not> IS_NUMBER (args ! 0) then Inl (Thrown ''ranges are numerically indexed'')
          else bindR (as_int (args ! 0)) (\<lambda>n. bindR (int_inc n) (\<lambda>index.
                 if index < r_range r then Inr (hs, number_val index) else Inr (hs, NIL_VAL)))))"

section \<open>Loops over a range\<close>

text \<open>The loop of \<open>Iteration\<close> with the state it leaves.\<close>

fun for_in_state ::
    "nat \<Rightarrow> iter_method \<Rightarrow> iter_method \<Rightarrow> hstate \<Rightarrow> b_value \<Rightarrow> (hstate \<times> (b_value \<times> b_value) list) res" where
  "for_in_state 0 itern iter hs key = Inl Divergence"
| "for_in_state (Suc fuel) itern iter hs key =
     bindR (itern hs [key])
       (\<lambda>(hs1, k). if is_false (hs_heap hs1) k then Inr (hs1, [])
                   else bindR (iter hs1 [k])
                     (\<lambda>(hs2, v). bindR (for_in_state fuel itern iter hs2 k) (\<lambda>(hs3, r). Inr (hs3, (k, v) # r))))"

lemma for_in_state_for_in:
  "for_in fuel itern iter hs key = bindR (for_in_state fuel itern iter hs key) (\<lambda>(_, r). Inr r)"
  by (induction fuel itern iter hs key rule: for_in_state.induct)
    (auto simp: bindR_def split: sum.splits prod.splits)

definition range_step :: "int \<Rightarrow> int \<Rightarrow> int" where
  "range_step l u = (if l < u then 1 else -1)"

lemma range_for_in_from:
  assumes "hs_heap hs a = Some (ORange \<lparr>r_lower = l + range_step l u * int i, r_upper = u, r_range = \<bar>u - l\<bar>\<rparr>)"
    and "int_range l" and "int_range u" and "\<bar>u - l\<bar> < 2 ^ 31" and "int i < \<bar>u - l\<bar>"
    and "nat \<bar>u - l\<bar> < fuel + i + 1"
  shows "\<exists>hs'. for_in_state fuel (\<lambda>h. range_itern h a) (\<lambda>h. range_iter h a) hs (number_val (int i)) =
           Inr (hs', map (\<lambda>j. (number_val (int j), number_val (l + range_step l u * int j))) [Suc i..<nat \<bar>u - l\<bar>]) \<and>
           hs_heap hs' = (hs_heap hs)(a \<mapsto> ORange \<lparr>r_lower = u - range_step l u, r_upper = u, r_range = \<bar>u - l\<bar>\<rparr>)"
  using assms(1,5,6)
proof (induction fuel arbitrary: i hs)
  case 0
  then show ?case by linarith
next
  case (Suc fuel)
  have ri: "int_range (int i)" using Suc.prems(2) assms(4) by (simp add: int_range_def)
  have at: "range_at hs a = Inr \<lparr>r_lower = l + range_step l u * int i, r_upper = u, r_range = \<bar>u - l\<bar>\<rparr>"
    using Suc.prems(1) by (simp add: at_iffs)
  have inc: "int_inc (int i) = Inr (int (Suc i))"
    using Suc.prems(2) assms(4) by (simp add: int_inc_def add.commute)
  show ?case
  proof (cases "int (Suc i) < \<bar>u - l\<bar>")
    case False
    then have n: "nat \<bar>u - l\<bar> = Suc i" using Suc.prems(2) by linarith
    have "l + range_step l u * int i = u - range_step l u"
      using False Suc.prems(2) by (auto simp: range_step_def abs_if split: if_splits)
    then have "hs_heap hs = (hs_heap hs)(a \<mapsto> ORange \<lparr>r_lower = u - range_step l u, r_upper = u, r_range = \<bar>u - l\<bar>\<rparr>)"
      using Suc.prems(1) by (simp add: map_upd_triv)
    moreover have "range_itern hs a [number_val (int i)] = Inr (hs, NIL_VAL)"
      using False ri at inc number_val_tests [OF ri] by (simp add: range_itern_def enforce_defs)
    ultimately show ?thesis using n by (simp add: is_false_def)
  next
    case True
    then have r1: "int_range (int (Suc i))" using assms(4) by (simp add: int_range_def)
    let ?l = "l + range_step l u * int (Suc i)"
    define hs1 where "hs1 = put_obj hs a (ORange \<lparr>r_lower = ?l, r_upper = u, r_range = \<bar>u - l\<bar>\<rparr>)"
    have "range_itern hs a [number_val (int i)] = Inr (hs, number_val (int (Suc i)))"
      using True ri at inc number_val_tests [OF ri] by (simp add: range_itern_def enforce_defs del: of_nat_Suc)
    moreover have "(if u < l + range_step l u * int i then int_dec (l + range_step l u * int i)
                    else int_inc (l + range_step l u * int i)) = Inr ?l"
      using True assms(2,3) by (auto simp: range_step_def int_dec_def int_inc_def int_range_def abs_if algebra_simps split: if_splits)
    then have "range_iter hs a [number_val (int (Suc i))] = Inr (hs1, number_val ?l)"
      using True r1 at by (simp add: range_iter_def enforce_defs hs1_def del: of_nat_Suc split: if_splits)
    moreover have "\<not> is_false (hs_heap hs) (number_val (int (Suc i)))" by (rule is_false_number_val [OF r1]) simp
    moreover have "\<exists>hs'. for_in_state fuel (\<lambda>h. range_itern h a) (\<lambda>h. range_iter h a) hs1 (number_val (int (Suc i))) =
        Inr (hs', map (\<lambda>j. (number_val (int j), number_val (l + range_step l u * int j))) [Suc (Suc i)..<nat \<bar>u - l\<bar>]) \<and>
        hs_heap hs' = (hs_heap hs1)(a \<mapsto> ORange \<lparr>r_lower = u - range_step l u, r_upper = u, r_range = \<bar>u - l\<bar>\<rparr>)"
      using True Suc.prems(3) by (intro Suc.IH) (simp_all add: hs1_def)
    moreover have "[Suc i..<nat \<bar>u - l\<bar>] = Suc i # [Suc (Suc i)..<nat \<bar>u - l\<bar>]"
      using True by (simp add: upt_conv_Cons)
    ultimately show ?thesis by (auto simp: hs1_def simp del: of_nat_Suc)
  qed
qed

text \<open>
  C40: A loop over a range counts from the lower bound towards the upper one, up or down, without
  reaching it; it leaves the range with a lower bound moved to the last number, so that the first
  number of a second loop over the same range is the last one of the first.
\<close>

theorem range_for_in_once:
  assumes "hs_heap hs a = Some (ORange \<lparr>r_lower = l, r_upper = u, r_range = \<bar>u - l\<bar>\<rparr>)"
    and "int_range l" and "int_range u" and "\<bar>u - l\<bar> < 2 ^ 31" and "l \<noteq> u" and "nat \<bar>u - l\<bar> < fuel"
  shows "\<exists>hs'. for_in_state fuel (\<lambda>h. range_itern h a) (\<lambda>h. range_iter h a) hs NIL_VAL =
             Inr (hs', map (\<lambda>j. (number_val (int j), number_val (l + range_step l u * int j))) [0..<nat \<bar>u - l\<bar>]) \<and>
           only_changes {a} hs hs' \<and>
           range_itern hs' a [NIL_VAL] = Inr (hs', number_val 0) \<and>
           range_iter hs' a [number_val 0] = Inr (hs', number_val (u - range_step l u))"
proof -
  obtain f where f: "fuel = Suc f" using assms(6) by (cases fuel) auto
  have r0: "int_range 0" by (simp add: int_range_def)
  have n0: "number_val 0 = number_val (int 0)" by simp
  have at: "range_at hs a = Inr \<lparr>r_lower = l, r_upper = u, r_range = \<bar>u - l\<bar>\<rparr>"
    using assms(1) by (simp add: at_iffs)
  have first: "range_itern hs a [NIL_VAL] = Inr (hs, number_val 0)"
    "range_iter hs a [number_val 0] = Inr (hs, number_val l)"
    using at assms(5) r0 by (simp_all add: range_itern_def range_iter_def enforce_defs)
  from range_for_in_from [of hs a l u 0 f] assms f obtain hs' where
    hs': "for_in_state f (\<lambda>h. range_itern h a) (\<lambda>h. range_iter h a) hs (number_val 0) =
           Inr (hs', map (\<lambda>j. (number_val (int j), number_val (l + range_step l u * int j))) [Suc 0..<nat \<bar>u - l\<bar>])"
    "hs_heap hs' = (hs_heap hs)(a \<mapsto> ORange \<lparr>r_lower = u - range_step l u, r_upper = u, r_range = \<bar>u - l\<bar>\<rparr>)"
    by auto
  have at': "range_at hs' a = Inr \<lparr>r_lower = u - range_step l u, r_upper = u, r_range = \<bar>u - l\<bar>\<rparr>"
    using hs'(2) by (simp add: at_iffs)
  then have "range_itern hs' a [NIL_VAL] = Inr (hs', number_val 0)"
    "range_iter hs' a [number_val 0] = Inr (hs', number_val (u - range_step l u))"
    using assms(5) r0 by (simp_all add: range_itern_def range_iter_def enforce_defs)
  moreover have "[0..<nat \<bar>u - l\<bar>] = 0 # [Suc 0..<nat \<bar>u - l\<bar>]" using assms(5) by (simp add: upt_conv_Cons)
  ultimately show ?thesis
    using f first hs' is_false_number_val [OF r0] by (auto simp: only_changes_def)
qed

theorem range_for_in_once_witness:
  "\<exists>hs'. for_in_state 4 (\<lambda>h. range_itern h 16) (\<lambda>h. range_iter h 16)
       \<lparr>hs_heap = [16 \<mapsto> ORange \<lparr>r_lower = 0, r_upper = 3, r_range = 3\<rparr>], hs_next = 64, hs_strings = init_table\<rparr> NIL_VAL =
       Inr (hs', [(number_val 0, number_val 0), (number_val 1, number_val 1), (number_val 2, number_val 2)]) \<and>
     range_iter hs' 16 [number_val 0] = Inr (hs', number_val 2)"
proof -
  have u: "[0..<nat \<bar>3 - (0::int)\<bar>] = [0, 1, 2]" by (simp add: upt_rec)
  let ?hs = "\<lparr>hs_heap = [16 \<mapsto> ORange \<lparr>r_lower = 0, r_upper = 3, r_range = 3\<rparr>], hs_next = 64, hs_strings = init_table\<rparr>"
  from range_for_in_once [of ?hs 16 0 3 4] show ?thesis
    unfolding u by (simp add: int_range_def range_step_def) blast
qed

end
