(* ===== verification/VM_Instr.thy ===== *)
theory VM_Instr
  imports VM_Index Opcodes Iteration Range_Methods
begin

text \<open>
  The instructions of \<open>run\<close> (\<open>vm.c\<close>), one definition for each group of cases of its \<open>switch\<close>.

  \<open>run\<close> keeps a pointer \<open>frame\<close> to the frame it executes beside \<open>frame_count\<close>; here it is the index
  \<open>frame\<close>. Calls, returns and \<open>die\<close> set it to the last frame again. \<open>runtime_error\<close> does not: when the
  handler belongs to a caller, \<open>frame_count\<close> is lowered and the loop goes on in the frame of the
  callee. An instruction gives the machine and the frame to go on with, or ends \<open>run\<close>.

  What the sources leave to the platform and to other libraries is the record \<open>platform\<close>: the pattern
  of the NaN an operation gives, \<open>pow\<close> of the C library, the native functions and the loaders of
  native modules.
\<close>

record platform =
  pf_nan :: double
  pf_pow :: "double \<Rightarrow> double \<Rightarrow> double"
  pf_natives :: native_fns
  pf_preloader :: "addr \<Rightarrow> b_vm \<Rightarrow> b_vm res"

datatype b_ptr_result = PTR_OK | PTR_COMPILE_ERR | PTR_RUNTIME_ERR

datatype step_result = Next b_vm nat | Exit b_vm b_ptr_result

section \<open>Operands and control\<close>

definition move_ip :: "b_vm \<Rightarrow> nat \<Rightarrow> int \<Rightarrow> b_vm res" where
  "move_ip vm frame offset =
     bindR (frame_at vm frame) (\<lambda>f.
       if int (cf_ip f) + offset < 0 then Inl OutOfBounds
       else Inr (put_frame vm frame (f\<lparr>cf_ip := nat (int (cf_ip f) + offset)\<rparr>)))"

definition READ_BYTE :: "b_vm \<Rightarrow> nat \<Rightarrow> (b_vm \<times> byte) res" where
  "READ_BYTE vm frame =
     bindR (frame_at vm frame) (\<lambda>f. bindR (frame_function (vm_heap vm) f) (\<lambda>function.
     bindR (cell_get (bl_code (f_blob function)) (int (cf_ip f))) (\<lambda>b.
     bindR (move_ip vm frame 1) (\<lambda>vm. Inr (vm, b)))))"

definition READ_SHORT :: "b_vm \<Rightarrow> nat \<Rightarrow> (b_vm \<times> nat) res" where
  "READ_SHORT vm frame =
     bindR (READ_BYTE vm frame) (\<lambda>(vm, high). bindR (READ_BYTE vm frame) (\<lambda>(vm, low).
       Inr (vm, unat high * 256 + unat low)))"

definition READ_CONSTANT :: "b_vm \<Rightarrow> nat \<Rightarrow> (b_vm \<times> b_value) res" where
  "READ_CONSTANT vm frame =
     bindR (READ_SHORT vm frame) (\<lambda>(vm, i).
     bindR (frame_at vm frame) (\<lambda>f. bindR (frame_function (vm_heap vm) f) (\<lambda>function.
     bindR (cell_get (va_values (bl_constants (f_blob function))) (int i)) (\<lambda>v. Inr (vm, v)))))"

definition READ_STRING :: "b_vm \<Rightarrow> nat \<Rightarrow> (b_vm \<times> addr) res" where
  "READ_STRING vm frame = bindR (READ_CONSTANT vm frame) (\<lambda>(vm, v). Inr (vm, AS_OBJ v))"

text \<open>The macro \<open>runtime_error\<close> followed by \<open>break\<close>.\<close>

definition runtime_error :: "b_vm \<Rightarrow> nat \<Rightarrow> string \<Rightarrow> step_result res" where
  "runtime_error vm frame format =
     bindR (do_throw_exception vm format) (\<lambda>(vm, ok).
       Inr (if ok then Next vm frame else Exit vm PTR_RUNTIME_ERR))"

definition next_in :: "nat \<Rightarrow> b_vm \<Rightarrow> step_result res" where
  "next_in frame vm = Inr (Next vm frame)"

text \<open>\<open>if (!call) EXIT_VM(); frame = &vm->frames[vm->frame_count - 1];\<close>\<close>

definition after_call :: "b_vm \<times> bool \<Rightarrow> step_result res" where
  "after_call r = (case r of (vm, ok) \<Rightarrow>
     Inr (if ok then Next vm (vm_frame_count vm - 1) else Exit vm PTR_RUNTIME_ERR))"

text \<open>The same without the new frame.\<close>

definition exit_unless :: "nat \<Rightarrow> b_vm \<times> bool \<Rightarrow> step_result res" where
  "exit_unless frame r = (case r of (vm, ok) \<Rightarrow>
     Inr (if ok then Next vm frame else Exit vm PTR_RUNTIME_ERR))"

definition push_next :: "b_vm \<Rightarrow> nat \<Rightarrow> b_value \<Rightarrow> step_result res" where
  "push_next vm frame v = bindR (push vm v) (next_in frame)"

text \<open>The top of the stack replaced by a value.\<close>

definition pop_push :: "b_vm \<Rightarrow> nat \<Rightarrow> b_value \<Rightarrow> step_result res" where
  "pop_push vm frame v = bindR (pop vm) (\<lambda>(vm, _). push_next vm frame v)"

section \<open>Arithmetic\<close>

definition number_or_bool :: "b_value \<Rightarrow> bool" where
  "number_or_bool v = (IS_NUMBER v \<or> IS_BOOL v)"

definition to_double :: "b_value \<Rightarrow> double" where
  "to_double v = (if IS_BOOL v then double_of_int (if AS_BOOL v then 1 else 0) else value_to_number v)"

text \<open>\<open>BINARY_OP\<close> and \<open>BINARY_MOD_OP\<close>\<close>

definition BINARY_OP :: "b_vm \<Rightarrow> nat \<Rightarrow> (double \<Rightarrow> double \<Rightarrow> b_value res) \<Rightarrow> step_result res" where
  "BINARY_OP vm frame f =
     bindR (peek vm 0) (\<lambda>vb. bindR (peek vm 1) (\<lambda>va.
       if \<not> number_or_bool vb \<or> \<not> number_or_bool va
       then runtime_error vm frame ''unsupported operand %s for %s and %s''
       else bindR (pop_n vm 2) (\<lambda>vm. bindR (f (to_double va) (to_double vb)) (push_next vm frame))))"

definition long_of_double :: "double \<Rightarrow> int res" where
  "long_of_double d =
     (case dbl_trunc d of
        None \<Rightarrow> Inl InvalidCast
      | Some n \<Rightarrow> if - (2 ^ 63) \<le> n \<and> n < 2 ^ 63 then Inr n else Inl InvalidCast)"

text \<open>
  \<open>BINARY_BIT_OP\<close> lets booleans pass but reads them as numbers; the result is cut to an \<open>int\<close>.
\<close>

definition BINARY_BIT_OP :: "b_vm \<Rightarrow> nat \<Rightarrow> (int \<Rightarrow> int \<Rightarrow> int res) \<Rightarrow> step_result res" where
  "BINARY_BIT_OP vm frame f =
     bindR (peek vm 0) (\<lambda>vb. bindR (peek vm 1) (\<lambda>va.
       if \<not> number_or_bool vb \<or> \<not> number_or_bool va
       then runtime_error vm frame ''unsupported operand %s for %s and %s''
       else bindR (pop_n vm 2) (\<lambda>vm.
            bindR (long_of_double (value_to_number vb)) (\<lambda>b.
            bindR (long_of_double (value_to_number va)) (\<lambda>a.
            bindR (f a b) (\<lambda>n. push_next vm frame (integer_to_value (signed_take_bit 31 n))))))))"

definition long_shl :: "int \<Rightarrow> int \<Rightarrow> int res" where
  "long_shl a b = (if b < 0 \<or> 64 \<le> b \<or> a < 0 \<or> 2 ^ 63 \<le> a * 2 ^ nat b then Inl Overflow else Inr (a * 2 ^ nat b))"

definition long_shr :: "int \<Rightarrow> int \<Rightarrow> int res" where
  "long_shr a b = (if b < 0 \<or> 64 \<le> b then Inl Overflow else Inr (a div 2 ^ nat b))"

definition number_res :: "double \<Rightarrow> b_value res" where
  "number_res d = Inr (number_to_value d)"

definition op_add :: "platform \<Rightarrow> b_vm \<Rightarrow> nat \<Rightarrow> step_result res" where
  "op_add pf vm frame =
     bindR (peek vm 0) (\<lambda>b. bindR (peek vm 1) (\<lambda>a.
       let hp = vm_heap vm in
       if IS_STRING hp b \<or> IS_STRING hp a
       then bindR (concatenate vm) (\<lambda>(vm, ok).
              if ok then Inr (Next vm frame)
              else runtime_error vm frame ''unsupported operand + for %s and %s'')
       else if IS_LIST hp b \<and> IS_LIST hp a
       then bindR (list_at (vm_hs vm) (AS_OBJ a)) (\<lambda>x. bindR (list_at (vm_hs vm) (AS_OBJ b)) (\<lambda>y.
            bindR (add_list vm x y) (\<lambda>(vm, p). bindR (pop_n vm 2) (\<lambda>vm. push_next vm frame (OBJ_VAL p)))))
       else if IS_BYTES hp b \<and> IS_BYTES hp a
       then bindR (bytes_at (vm_hs vm) (AS_OBJ a)) (\<lambda>x. bindR (bytes_at (vm_hs vm) (AS_OBJ b)) (\<lambda>y.
            bindR (add_bytes vm x y) (\<lambda>(vm, p). bindR (pop_n vm 2) (\<lambda>vm. push_next vm frame (OBJ_VAL p)))))
       else BINARY_OP vm frame (\<lambda>x y. number_res (dbl_add (pf_nan pf) x y))))"

definition op_multiply :: "platform \<Rightarrow> b_vm \<Rightarrow> nat \<Rightarrow> step_result res" where
  "op_multiply pf vm frame =
     bindR (peek vm 0) (\<lambda>b. bindR (peek vm 1) (\<lambda>a.
       if IS_STRING (vm_heap vm) a \<and> IS_NUMBER b
       then bindR (multiply_string vm (AS_OBJ a) (value_to_number b)) (\<lambda>(vm, p).
            bindR (pop_n vm 2) (\<lambda>vm. push_next vm frame (OBJ_VAL p)))
       else if IS_LIST (vm_heap vm) a \<and> IS_NUMBER b
       then bindR (as_int b) (\<lambda>number.
            bindR (list_at (vm_hs vm) (AS_OBJ a)) (\<lambda>l.
            bindR (multiply_list l init_value_arr number) (\<lambda>items.
              let (hs, p) = alloc_obj (vm_hs vm) (OList items)
              in bindR (pop_n (vm_with vm hs) 2) (\<lambda>vm. push_next vm frame (OBJ_VAL p)))))
       else BINARY_OP vm frame (\<lambda>x y. number_res (dbl_mul (pf_nan pf) x y))))"

definition op_unary :: "b_vm \<Rightarrow> nat \<Rightarrow> string \<Rightarrow> (double \<Rightarrow> b_value res) \<Rightarrow> step_result res" where
  "op_unary vm frame message f =
     bindR (peek vm 0) (\<lambda>v.
       if \<not> IS_NUMBER v then runtime_error vm frame message
       else bindR (f (value_to_number v)) (pop_push vm frame))"

definition op_equal :: "b_vm \<Rightarrow> nat \<Rightarrow> step_result res" where
  "op_equal vm frame =
     bindR (pop vm) (\<lambda>(vm, b). bindR (pop vm) (\<lambda>(vm, a). push_next vm frame (BOOL_VAL (values_equal a b))))"

section \<open>Output and strings\<close>

definition op_echo :: "b_vm \<Rightarrow> nat \<Rightarrow> step_result res" where
  "op_echo vm frame =
     bindR (peek vm 0) (\<lambda>v.
     bindR (print_value (class_depth vm) (vm_heap vm) (vm_is_repl vm) v) (\<lambda>chars.
     bindR (pop (vm\<lparr>vm_out := vm_out vm @ chars @ (if IS_EMPTY v then [] else [10])\<rparr>)) (\<lambda>(vm, _).
       Inr (Next vm frame))))"

definition op_stringify :: "b_vm \<Rightarrow> nat \<Rightarrow> step_result res" where
  "op_stringify vm frame =
     bindR (peek vm 0) (\<lambda>v.
       if \<not> IS_STRING (vm_heap vm) v \<and> \<not> IS_NIL v
       then bindR (value_to_string (class_depth vm) (vm_heap vm) v) (\<lambda>chars.
            bindR (pop vm) (\<lambda>(vm, _).
              if chars \<noteq> []
              then bindR (vm_string vm chars) (\<lambda>(vm, p). push_next vm frame (OBJ_VAL p))
              else push_next vm frame NIL_VAL))
       else Inr (Next vm frame))"

section \<open>Variables\<close>

text \<open>\<open>frame->closure->function->module\<close>\<close>

definition frame_module :: "b_vm \<Rightarrow> nat \<Rightarrow> addr res" where
  "frame_module vm frame =
     bindR (frame_at vm frame) (\<lambda>f. bindR (frame_function (vm_heap vm) f) (\<lambda>function. some_ptr (f_module function)))"

definition frame_values :: "b_vm \<Rightarrow> nat \<Rightarrow> b_table res" where
  "frame_values vm frame =
     bindR (frame_module vm frame) (\<lambda>m. bindR (module_at (vm_heap vm) m) (\<lambda>module. Inr (m_values module)))"

definition put_values :: "b_vm \<Rightarrow> addr \<Rightarrow> b_table \<Rightarrow> b_vm res" where
  "put_values vm m t =
     bindR (module_at (vm_heap vm) m) (\<lambda>module. Inr (vm_put vm m (OModule (module\<lparr>m_values := t\<rparr>))))"

definition set_value :: "b_vm \<Rightarrow> nat \<Rightarrow> b_value \<Rightarrow> b_value \<Rightarrow> (b_vm \<times> bool) res" where
  "set_value vm frame key v =
     bindR (frame_module vm frame) (\<lambda>m. bindR (frame_values vm frame) (\<lambda>t.
     bindR (table_set (vm_heap vm) t key v) (\<lambda>(t, is_new).
     bindR (put_values vm m t) (\<lambda>vm. Inr (vm, is_new)))))"

definition delete_value :: "b_vm \<Rightarrow> nat \<Rightarrow> b_value \<Rightarrow> b_vm res" where
  "delete_value vm frame key =
     bindR (frame_module vm frame) (\<lambda>m. bindR (frame_values vm frame) (\<lambda>t.
     bindR (table_delete (vm_heap vm) t key) (\<lambda>(t, _). put_values vm m t)))"

definition add_values :: "b_vm \<Rightarrow> nat \<Rightarrow> b_table \<Rightarrow> b_vm res" where
  "add_values vm frame from =
     bindR (frame_module vm frame) (\<lambda>m. bindR (frame_values vm frame) (\<lambda>t.
     bindR (table_add_all (vm_heap vm) from t) (\<lambda>t. put_values vm m t)))"

definition cant_assign_empty :: "b_vm \<Rightarrow> nat \<Rightarrow> step_result res" where
  "cant_assign_empty vm frame = runtime_error vm frame ''empty cannot be assigned.''"

definition op_define_global :: "b_vm \<Rightarrow> nat \<Rightarrow> step_result res" where
  "op_define_global vm frame =
     bindR (READ_STRING vm frame) (\<lambda>(vm, name). bindR (peek vm 0) (\<lambda>v.
       if IS_EMPTY v then cant_assign_empty vm frame
       else bindR (set_value vm frame (OBJ_VAL name) v) (\<lambda>(vm, _).
            bindR (pop vm) (\<lambda>(vm, _). Inr (Next vm frame)))))"

definition op_get_global :: "b_vm \<Rightarrow> nat \<Rightarrow> step_result res" where
  "op_get_global vm frame =
     bindR (READ_STRING vm frame) (\<lambda>(vm, name).
     bindR (frame_values vm frame) (\<lambda>t.
     bindR (table_get (vm_heap vm) t (OBJ_VAL name)) (\<lambda>found.
       case found of
         Some v \<Rightarrow> push_next vm frame v
       | None \<Rightarrow>
           bindR (table_get (vm_heap vm) (vm_globals vm) (OBJ_VAL name)) (\<lambda>found.
             case found of
               Some v \<Rightarrow> push_next vm frame v
             | None \<Rightarrow> runtime_error vm frame '''%s' is undefined in this scope''))))"

definition op_set_global :: "b_vm \<Rightarrow> nat \<Rightarrow> step_result res" where
  "op_set_global vm frame =
     bindR (peek vm 0) (\<lambda>v.
       if IS_EMPTY v then cant_assign_empty vm frame
       else bindR (READ_STRING vm frame) (\<lambda>(vm, name).
            bindR (set_value vm frame (OBJ_VAL name) v) (\<lambda>(vm, is_new).
              if is_new
              then bindR (delete_value vm frame (OBJ_VAL name)) (\<lambda>vm.
                     runtime_error vm frame ''%s is undefined in this scope'')
              else Inr (Next vm frame))))"

definition op_get_local :: "b_vm \<Rightarrow> nat \<Rightarrow> step_result res" where
  "op_get_local vm frame =
     bindR (READ_SHORT vm frame) (\<lambda>(vm, slot). bindR (frame_at vm frame) (\<lambda>f.
       if cf_slots f + slot < length (vm_stack vm)
       then push_next vm frame (vm_stack vm ! (cf_slots f + slot)) else Inl OutOfBounds))"

definition op_set_local :: "b_vm \<Rightarrow> nat \<Rightarrow> step_result res" where
  "op_set_local vm frame =
     bindR (READ_SHORT vm frame) (\<lambda>(vm, slot). bindR (peek vm 0) (\<lambda>v.
       if IS_EMPTY v then cant_assign_empty vm frame
       else bindR (frame_at vm frame) (\<lambda>f.
         if cf_slots f + slot < length (vm_stack vm)
         then Inr (Next (vm\<lparr>vm_stack := (vm_stack vm)[cf_slots f + slot := v]\<rparr>) frame)
         else Inl OutOfBounds)))"

text \<open>\<open>frame->closure->up_values[index]\<close>\<close>

definition frame_up_value :: "b_vm \<Rightarrow> nat \<Rightarrow> nat \<Rightarrow> addr option res" where
  "frame_up_value vm frame index =
     bindR (frame_at vm frame) (\<lambda>f. bindR (closure_at (vm_heap vm) (cf_closure f)) (\<lambda>c.
       if index < length (c_up_values c) then Inr (c_up_values c ! index) else Inl OutOfBounds))"

definition op_get_up_value :: "b_vm \<Rightarrow> nat \<Rightarrow> step_result res" where
  "op_get_up_value vm frame =
     bindR (READ_SHORT vm frame) (\<lambda>(vm, index).
     bindR (frame_up_value vm frame index) (\<lambda>p. bindR (some_ptr p) (\<lambda>u.
     bindR (up_value_get vm u) (push_next vm frame))))"

definition op_set_up_value :: "b_vm \<Rightarrow> nat \<Rightarrow> step_result res" where
  "op_set_up_value vm frame =
     bindR (READ_SHORT vm frame) (\<lambda>(vm, index). bindR (peek vm 0) (\<lambda>v.
       if IS_EMPTY v then cant_assign_empty vm frame
       else bindR (frame_up_value vm frame index) (\<lambda>p. bindR (some_ptr p) (\<lambda>u.
            bindR (up_value_set vm u v) (next_in frame)))))"

definition op_close_up_value :: "b_vm \<Rightarrow> nat \<Rightarrow> step_result res" where
  "op_close_up_value vm frame =
     (if vm_stack vm = [] then Inl OutOfBounds
      else bindR (close_up_values (length (vm_objects vm)) vm (length (vm_stack vm) - 1)) (\<lambda>vm.
           bindR (pop vm) (\<lambda>(vm, _). Inr (Next vm frame))))"

text \<open>The loop that captures the up-values of a new closure.\<close>

fun capture_loop :: "nat \<Rightarrow> b_vm \<Rightarrow> nat \<Rightarrow> addr \<Rightarrow> nat \<Rightarrow> b_vm res" where
  "capture_loop 0 vm frame closure i = Inr vm"
| "capture_loop (Suc n) vm frame closure i =
     bindR (READ_BYTE vm frame) (\<lambda>(vm, is_local).
     bindR (READ_SHORT vm frame) (\<lambda>(vm, index).
     bindR (frame_at vm frame) (\<lambda>f.
     bindR (if is_local \<noteq> 0
            then bindR (capture_up_value vm (cf_slots f + index)) (\<lambda>(vm, u). Inr (vm, Some u))
            else bindR (frame_up_value vm frame index) (\<lambda>p. Inr (vm, p))) (\<lambda>(vm, p).
     bindR (closure_at (vm_heap vm) closure) (\<lambda>c.
       capture_loop n (vm_put vm closure (OClosure (c\<lparr>c_up_values := (c_up_values c)[i := p]\<rparr>)))
         frame closure (i + 1))))))"

definition op_closure :: "b_vm \<Rightarrow> nat \<Rightarrow> step_result res" where
  "op_closure vm frame =
     bindR (READ_CONSTANT vm frame) (\<lambda>(vm, v).
     bindR (new_closure (vm_hs vm) (AS_OBJ v)) (\<lambda>(hs, closure).
     bindR (push (vm_with vm hs) (OBJ_VAL closure)) (\<lambda>vm.
     bindR (closure_at (vm_heap vm) closure) (\<lambda>c.
     bindR (capture_loop (c_up_value_count c) vm frame closure 0) (next_in frame)))))"

end
