(* ===== verification/VM_Run.thy ===== *)
theory VM_Run
  imports VM_Instr
begin

text \<open>
  The instructions on properties, classes, containers, modules and exceptions, the loop of \<open>run\<close>, and
  the start of the machine (\<open>init_vm\<close>, \<open>initialize_exceptions\<close>, \<open>interpret\<close>). \<open>step\<close> is one turn of the
  loop. A program may run forever, so \<open>run\<close> has fuel: one unit for each instruction.
\<close>

section \<open>Properties\<close>

definition is_private :: "b_vm \<Rightarrow> addr \<Rightarrow> bool res" where
  "is_private vm name = bindR (name_at (vm_heap vm) name) (\<lambda>s. Inr (is_private_name s))"

text \<open>A property that was found replaces the object, unless its name is private.\<close>

definition public_property :: "b_vm \<Rightarrow> nat \<Rightarrow> addr \<Rightarrow> string \<Rightarrow> b_value \<Rightarrow> step_result res" where
  "public_property vm frame name message v =
     bindR (is_private vm name) (\<lambda>private.
       if private then runtime_error vm frame message else pop_push vm frame v)"

definition builtin_property :: "b_vm \<Rightarrow> nat \<Rightarrow> b_table \<Rightarrow> addr \<Rightarrow> string \<Rightarrow> step_result res" where
  "builtin_property vm frame methods name message =
     bindR (table_get (vm_heap vm) methods (OBJ_VAL name)) (\<lambda>found.
       case found of Some v \<Rightarrow> pop_push vm frame v | None \<Rightarrow> runtime_error vm frame message)"

text \<open>\<open>bind_method\<close> throws by itself; when nothing handles that, a second exception is thrown.\<close>

definition bind_or_error :: "b_vm \<Rightarrow> nat \<Rightarrow> addr \<Rightarrow> addr \<Rightarrow> string \<Rightarrow> step_result res" where
  "bind_or_error vm frame klass name message =
     bindR (bind_method vm klass name) (\<lambda>(vm, ok).
       if ok then Inr (Next vm frame) else runtime_error vm frame message)"

definition class_property :: "b_vm \<Rightarrow> nat \<Rightarrow> b_obj_class \<Rightarrow> addr \<Rightarrow> (b_value \<Rightarrow> step_result res) \<Rightarrow> step_result res" where
  "class_property vm frame klass name found =
     (let missing = runtime_error vm frame (''class %s does not have a static property or method named '%s'' @ [CHR 0x27])
      in bindR (table_get (vm_heap vm) (k_methods klass) (OBJ_VAL name)) (\<lambda>method.
           case method of
             Some v \<Rightarrow>
               bindR (get_method_type (vm_heap vm) v) (\<lambda>type. if type = TYPE_STATIC then found v else missing)
           | None \<Rightarrow>
               bindR (table_get (vm_heap vm) (k_static_properties klass) (OBJ_VAL name)) (\<lambda>static.
                 case static of Some v \<Rightarrow> found v | None \<Rightarrow> missing)))"

definition op_get_property :: "b_vm \<Rightarrow> nat \<Rightarrow> step_result res" where
  "op_get_property vm frame =
     bindR (READ_STRING vm frame) (\<lambda>(vm, name). bindR (peek vm 0) (\<lambda>object.
       if \<not> IS_OBJ object
       then bindR (value_to_string (class_depth vm) (vm_heap vm) object) (\<lambda>_.
              runtime_error vm frame '''%s' of type %s does not have properties'')
       else (case vm_heap vm (AS_OBJ object) of
               None \<Rightarrow> Inl NullPointer
             | Some (OModule module) \<Rightarrow>
                 bindR (table_get (vm_heap vm) (m_values module) (OBJ_VAL name)) (\<lambda>found.
                   case found of
                     Some v \<Rightarrow> public_property vm frame name (''cannot get private module property '%s'' @ [CHR 0x27]) v
                   | None \<Rightarrow> runtime_error vm frame (''%s module does not define '%s'' @ [CHR 0x27]))
             | Some (OClass klass) \<Rightarrow>
                 class_property vm frame klass name
                   (public_property vm frame name ''cannot call private property '%s' of class %s'')
             | Some (OInstance i) \<Rightarrow>
                 bindR (table_get (vm_heap vm) (i_properties i) (OBJ_VAL name)) (\<lambda>found.
                   case found of
                     Some v \<Rightarrow>
                       public_property vm frame name ''cannot call private property '%s' from instance of %s'' v
                   | None \<Rightarrow>
                       bindR (is_private vm name) (\<lambda>private.
                         if private
                         then runtime_error vm frame ''cannot bind private property '%s' to instance of %s''
                         else bind_or_error vm frame (i_klass i) name
                                (''instance of class %s does not have a property or method named '%s'' @ [CHR 0x27])))
             | Some (OString _) \<Rightarrow>
                 builtin_property vm frame (vm_methods_string vm) name (''class String has no named property '%s'' @ [CHR 0x27])
             | Some (OList _) \<Rightarrow>
                 builtin_property vm frame (vm_methods_list vm) name (''class List has no named property '%s'' @ [CHR 0x27])
             | Some (ORange _) \<Rightarrow>
                 builtin_property vm frame (vm_methods_range vm) name (''class Range has no named property '%s'' @ [CHR 0x27])
             | Some (ODict d) \<Rightarrow>
                 bindR (table_get (vm_heap vm) (d_items d) (OBJ_VAL name)) (\<lambda>item.
                   case item of
                     Some v \<Rightarrow> pop_push vm frame v
                   | None \<Rightarrow> builtin_property vm frame (vm_methods_dict vm) name
                               (''unknown key or class Dict property '%s'' @ [CHR 0x27]))
             | Some (OBytes _) \<Rightarrow>
                 builtin_property vm frame (vm_methods_bytes vm) name (''class Bytes has no named property '%s'' @ [CHR 0x27])
             | Some (OFile _) \<Rightarrow>
                 builtin_property vm frame (vm_methods_file vm) name (''class File has no named property '%s'' @ [CHR 0x27])
             | Some _ \<Rightarrow> runtime_error vm frame ''object of type %s does not carry properties'')))"

definition op_get_self_property :: "b_vm \<Rightarrow> nat \<Rightarrow> step_result res" where
  "op_get_self_property vm frame =
     bindR (READ_STRING vm frame) (\<lambda>(vm, name). bindR (peek vm 0) (\<lambda>object.
       let no_properties = bindR (value_to_string (class_depth vm) (vm_heap vm) object) (\<lambda>_.
             runtime_error vm frame '''%s' of type %s does not have properties'')
       in if \<not> IS_OBJ object then no_properties
          else (case vm_heap vm (AS_OBJ object) of
                  None \<Rightarrow> Inl NullPointer
                | Some (OInstance i) \<Rightarrow>
                    bindR (table_get (vm_heap vm) (i_properties i) (OBJ_VAL name)) (\<lambda>found.
                      case found of
                        Some v \<Rightarrow> pop_push vm frame v
                      | None \<Rightarrow> bind_or_error vm frame (i_klass i) name
                                  (''instance of class %s does not have a property or method named '%s'' @ [CHR 0x27]))
                | Some (OClass klass) \<Rightarrow> class_property vm frame klass name (pop_push vm frame)
                | Some (OModule module) \<Rightarrow>
                    bindR (table_get (vm_heap vm) (m_values module) (OBJ_VAL name)) (\<lambda>found.
                      case found of
                        Some v \<Rightarrow> pop_push vm frame v
                      | None \<Rightarrow> runtime_error vm frame (''module %s does not define '%s'' @ [CHR 0x27]))
                | Some _ \<Rightarrow> no_properties)))"

definition op_set_property :: "b_vm \<Rightarrow> nat \<Rightarrow> step_result res" where
  "op_set_property vm frame =
     bindR (peek vm 1) (\<lambda>object. bindR (peek vm 0) (\<lambda>v.
       if \<not> is_obj_type (vm_heap vm) object OBJ_INSTANCE \<and> \<not> IS_DICT (vm_heap vm) object
       then runtime_error vm frame ''object of type %s can not carry properties''
       else if IS_EMPTY v then cant_assign_empty vm frame
       else bindR (READ_STRING vm frame) (\<lambda>(vm, name).
            bindR (case vm_heap vm (AS_OBJ object) of
                     Some (OInstance i) \<Rightarrow>
                       bindR (table_set (vm_heap vm) (i_properties i) (OBJ_VAL name) v) (\<lambda>(t, _).
                         Inr (vm_put vm (AS_OBJ object) (OInstance (i\<lparr>i_properties := t\<rparr>))))
                   | Some (ODict d) \<Rightarrow>
                       bindR (dict_set_entry (vm_heap vm) d (OBJ_VAL name) v) (\<lambda>(d, _).
                         Inr (vm_put vm (AS_OBJ object) (ODict d)))
                   | _ \<Rightarrow> Inl NullPointer) (\<lambda>vm.
            bindR (pop_n vm 2) (\<lambda>vm. push_next vm frame v)))))"

section \<open>Classes\<close>

definition op_class :: "b_vm \<Rightarrow> nat \<Rightarrow> step_result res" where
  "op_class vm frame =
     bindR (READ_STRING vm frame) (\<lambda>(vm, name).
       let (hs, k) = new_class (vm_hs vm) name in push_next (vm_with vm hs) frame (OBJ_VAL k))"

definition op_method :: "b_vm \<Rightarrow> nat \<Rightarrow> step_result res" where
  "op_method vm frame = bindR (READ_STRING vm frame) (\<lambda>(vm, name). bindR (define_method vm name) (next_in frame))"

definition op_class_property :: "b_vm \<Rightarrow> nat \<Rightarrow> step_result res" where
  "op_class_property vm frame =
     bindR (READ_STRING vm frame) (\<lambda>(vm, name). bindR (READ_BYTE vm frame) (\<lambda>(vm, is_static).
     bindR (define_property vm name (is_static = 1)) (next_in frame)))"

definition op_inherit :: "b_vm \<Rightarrow> nat \<Rightarrow> step_result res" where
  "op_inherit vm frame =
     bindR (peek vm 1) (\<lambda>super. bindR (peek vm 0) (\<lambda>sub.
       if \<not> is_obj_type (vm_heap vm) super OBJ_CLASS
       then runtime_error vm frame ''cannot inherit from non-class object''
       else bindR (class_at (vm_heap vm) (AS_OBJ super)) (\<lambda>superclass.
            bindR (class_at (vm_heap vm) (AS_OBJ sub)) (\<lambda>subclass.
            bindR (table_add_all (vm_heap vm) (k_properties superclass) (k_properties subclass)) (\<lambda>properties.
            bindR (table_add_all (vm_heap vm) (k_methods superclass) (k_methods subclass)) (\<lambda>methods.
            bindR (pop (vm_put vm (AS_OBJ sub)
                          (OClass (subclass\<lparr>k_properties := properties, k_methods := methods,
                                            k_superclass := Some (AS_OBJ super)\<rparr>))))
              (\<lambda>(vm, _). Inr (Next vm frame))))))))"

definition op_get_super :: "b_vm \<Rightarrow> nat \<Rightarrow> step_result res" where
  "op_get_super vm frame =
     bindR (READ_STRING vm frame) (\<lambda>(vm, name). bindR (peek vm 0) (\<lambda>v.
     bindR (class_at (vm_heap vm) (AS_OBJ v)) (\<lambda>klass. bindR (some_ptr (k_superclass klass)) (\<lambda>super.
       bind_or_error vm frame super name ''class %s does not define a function %s''))))"

definition op_super_invoke :: "platform \<Rightarrow> b_vm \<Rightarrow> nat \<Rightarrow> step_result res" where
  "op_super_invoke pf vm frame =
     bindR (READ_STRING vm frame) (\<lambda>(vm, method). bindR (READ_BYTE vm frame) (\<lambda>(vm, arg_count).
     bindR (pop vm) (\<lambda>(vm, klass).
     bindR (invoke_from_class (pf_natives pf) (class_depth vm) vm (AS_OBJ klass) method (unat arg_count))
       after_call)))"

definition op_super_invoke_self :: "platform \<Rightarrow> b_vm \<Rightarrow> nat \<Rightarrow> step_result res" where
  "op_super_invoke_self pf vm frame =
     bindR (READ_BYTE vm frame) (\<lambda>(vm, arg_count). bindR (pop vm) (\<lambda>(vm, v).
     bindR (class_at (vm_heap vm) (AS_OBJ v)) (\<lambda>klass.
     bindR (invoke_from_class (pf_natives pf) (class_depth vm) vm (AS_OBJ v) (k_name klass) (unat arg_count))
       after_call)))"

section \<open>Calls\<close>

definition op_call :: "platform \<Rightarrow> b_vm \<Rightarrow> nat \<Rightarrow> step_result res" where
  "op_call pf vm frame =
     bindR (READ_BYTE vm frame) (\<lambda>(vm, arg_count). bindR (peek vm (unat arg_count)) (\<lambda>callee.
     bindR (call_value (pf_natives pf) (class_depth vm) vm callee (unat arg_count)) after_call))"

definition op_invoke :: "platform \<Rightarrow> b_vm \<Rightarrow> nat \<Rightarrow> step_result res" where
  "op_invoke pf vm frame =
     bindR (READ_STRING vm frame) (\<lambda>(vm, method). bindR (READ_BYTE vm frame) (\<lambda>(vm, arg_count).
     bindR (invoke (pf_natives pf) (class_depth vm) vm method (unat arg_count)) after_call))"

definition op_invoke_self :: "platform \<Rightarrow> b_vm \<Rightarrow> nat \<Rightarrow> step_result res" where
  "op_invoke_self pf vm frame =
     bindR (READ_STRING vm frame) (\<lambda>(vm, method). bindR (READ_BYTE vm frame) (\<lambda>(vm, arg_count).
     bindR (invoke_self (pf_natives pf) (class_depth vm) vm method (unat arg_count)) after_call))"

definition op_return :: "b_vm \<Rightarrow> nat \<Rightarrow> step_result res" where
  "op_return vm frame =
     bindR (pop vm) (\<lambda>(vm, result). bindR (frame_at vm frame) (\<lambda>f.
     bindR (close_up_values (length (vm_objects vm)) vm (cf_slots f)) (\<lambda>vm.
       let vm = vm\<lparr>vm_frame_count := vm_frame_count vm - 1\<rparr>
       in if vm_frame_count vm = 0 then bindR (pop vm) (\<lambda>(vm, _). Inr (Exit vm PTR_OK))
          else if length (vm_stack vm) < cf_slots f then Inl OutOfBounds
          else bindR (push (vm\<lparr>vm_stack := take (cf_slots f) (vm_stack vm)\<rparr>) result) (\<lambda>vm.
                 Inr (Next vm (vm_frame_count vm - 1))))))"

section \<open>Containers\<close>

definition op_list :: "b_vm \<Rightarrow> nat \<Rightarrow> step_result res" where
  "op_list vm frame =
     bindR (READ_SHORT vm frame) (\<lambda>(vm, count).
       let (hs, p) = new_list (vm_hs vm)
       in bindR (poke (vm_with vm hs) count (OBJ_VAL p)) (\<lambda>vm.
          bindR (mapR (peek vm) (rev [0..<count])) (\<lambda>vs.
          bindR (write_all init_value_arr vs) (\<lambda>items.
          bindR (pop_n (vm_put vm p (OList items)) count) (next_in frame)))))"

definition op_range :: "b_vm \<Rightarrow> nat \<Rightarrow> step_result res" where
  "op_range vm frame =
     bindR (peek vm 0) (\<lambda>upper. bindR (peek vm 1) (\<lambda>lower.
       if \<not> IS_NUMBER upper \<or> \<not> IS_NUMBER lower then runtime_error vm frame ''invalid range boundaries''
       else bindR (pop_n vm 2) (\<lambda>vm. bindR (as_int lower) (\<lambda>l. bindR (as_int upper) (\<lambda>u.
            bindR (c_int (if l < u then u - l else l - u)) (\<lambda>_.
              let (hs, p) = new_range (vm_hs vm) l u in push_next (vm_with vm hs) frame (OBJ_VAL p)))))))"

text \<open>
  The loop of \<open>OP_DICT\<close> addresses the pairs from the top of the stack and goes on after a bad key
  whose exception was handled, with the exception on the stack. \<open>Inr (vm, False)\<close> ends \<open>run\<close>.
\<close>

fun dict_loop :: "nat \<Rightarrow> b_vm \<Rightarrow> addr \<Rightarrow> nat \<Rightarrow> nat \<Rightarrow> (b_vm \<times> bool) res" where
  "dict_loop 0 vm dict count i = Inr (vm, True)"
| "dict_loop (Suc n) vm dict count i =
     bindR (peek vm (count - i - 1)) (\<lambda>name.
     bindR (if \<not> IS_STRING (vm_heap vm) name \<and> \<not> IS_NUMBER name \<and> \<not> IS_BOOL name
            then do_throw_exception vm ''dictionary key must be one of string, number or boolean''
            else Inr (vm, True)) (\<lambda>(vm, ok).
       if \<not> ok then Inr (vm, False)
       else bindR (peek vm (count - i - 2)) (\<lambda>v.
            bindR (dict_at (vm_hs vm) dict) (\<lambda>d.
            bindR (dict_add_entry (vm_heap vm) d name v) (\<lambda>d.
              dict_loop n (vm_put vm dict (ODict d)) dict count (i + 2))))))"

definition op_dict :: "b_vm \<Rightarrow> nat \<Rightarrow> step_result res" where
  "op_dict vm frame =
     bindR (READ_SHORT vm frame) (\<lambda>(vm, pairs).
       let count = pairs * 2; (hs, p) = new_dict (vm_hs vm)
       in bindR (poke (vm_with vm hs) count (OBJ_VAL p)) (\<lambda>vm.
          bindR (dict_loop pairs vm p count 0) (\<lambda>(vm, ok).
            if ok then bindR (pop_n vm count) (next_in frame) else Inr (Exit vm PTR_RUNTIME_ERR))))"

definition op_get_ranged_index :: "b_vm \<Rightarrow> nat \<Rightarrow> step_result res" where
  "op_get_ranged_index vm frame =
     bindR (READ_BYTE vm frame) (\<lambda>(vm, will_assign). bindR (peek vm 2) (\<lambda>object.
       let refuse = runtime_error vm frame ''cannot range index object of type %s'';
           assign = (will_assign = 1)
       in if \<not> IS_OBJ object then refuse
          else (case vm_heap vm (AS_OBJ object) of
                  None \<Rightarrow> Inl NullPointer
                | Some (OString s) \<Rightarrow> bindR (string_get_ranged_index vm s assign) (exit_unless frame)
                | Some (OList l) \<Rightarrow> bindR (list_get_ranged_index vm l assign) (exit_unless frame)
                | Some (OBytes b) \<Rightarrow> bindR (bytes_get_ranged_index vm b assign) (exit_unless frame)
                | Some _ \<Rightarrow> refuse)))"

definition op_get_index :: "b_vm \<Rightarrow> nat \<Rightarrow> step_result res" where
  "op_get_index vm frame =
     bindR (READ_BYTE vm frame) (\<lambda>(vm, will_assign). bindR (peek vm 1) (\<lambda>object.
       let refuse = runtime_error vm frame ''cannot index object of type %s'';
           assign = (will_assign = 1)
       in if \<not> IS_OBJ object then refuse
          else (case vm_heap vm (AS_OBJ object) of
                  None \<Rightarrow> Inl NullPointer
                | Some (OString s) \<Rightarrow> bindR (string_get_index vm s assign) (exit_unless frame)
                | Some (OList l) \<Rightarrow> bindR (list_get_index vm l assign) (exit_unless frame)
                | Some (ODict d) \<Rightarrow> bindR (dict_get_index vm d assign) (exit_unless frame)
                | Some (OModule m) \<Rightarrow> bindR (module_get_index vm m assign) (exit_unless frame)
                | Some (OBytes b) \<Rightarrow> bindR (bytes_get_index vm b assign) (exit_unless frame)
                | Some _ \<Rightarrow> refuse)))"

text \<open>The message for a bad container names the type of the value below it on the stack.\<close>

definition op_set_index :: "b_vm \<Rightarrow> nat \<Rightarrow> step_result res" where
  "op_set_index vm frame =
     bindR (peek vm 2) (\<lambda>object. bindR (peek vm 0) (\<lambda>v. bindR (peek vm 1) (\<lambda>index.
       let refuse = bindR (peek vm 3) (\<lambda>_. runtime_error vm frame ''type of %s is not a valid iterable'');
           a = AS_OBJ object
       in if \<not> IS_OBJ object then refuse
          else if IS_EMPTY v then cant_assign_empty vm frame
          else (case vm_heap vm a of
                  None \<Rightarrow> Inl NullPointer
                | Some (OList _) \<Rightarrow> bindR (list_set_index vm a index v) (exit_unless frame)
                | Some (OString _) \<Rightarrow> runtime_error vm frame ''strings do not support object assignment''
                | Some (ODict _) \<Rightarrow> bindR (dict_set_index vm a index v) (next_in frame)
                | Some (OModule _) \<Rightarrow> bindR (module_set_index vm a index v) (next_in frame)
                | Some (OBytes _) \<Rightarrow> bindR (bytes_set_index vm a index v) (exit_unless frame)
                | Some _ \<Rightarrow> refuse))))"

section \<open>Modules\<close>

text \<open>\<open>STRING_VAL\<close> of a C string, in the machine.\<close>

definition STRING_VAL :: "b_vm \<Rightarrow> string \<Rightarrow> (b_vm \<times> b_value) res" where
  "STRING_VAL vm s = bindR (copy_string (vm_hs vm) (cstr s)) (\<lambda>(hs, p). Inr (vm_with vm hs, OBJ_VAL p))"

definition add_module :: "b_vm \<Rightarrow> addr \<Rightarrow> b_vm res" where
  "add_module vm m =
     bindR (module_at (vm_heap vm) m) (\<lambda>module.
     bindR (STRING_VAL vm (m_file module)) (\<lambda>(vm, file).
     bindR (table_set (vm_heap vm) (vm_modules vm) file (OBJ_VAL m)) (\<lambda>(modules, _).
     bindR (STRING_VAL (vm\<lparr>vm_modules := modules\<rparr>) (m_name module)) (\<lambda>(vm, name).
       if vm_frame_count vm = 0
       then bindR (table_set (vm_heap vm) (vm_globals vm) name (OBJ_VAL m)) (\<lambda>(globals, _).
              Inr (vm\<lparr>vm_globals := globals\<rparr>))
       else bindR (set_value vm (vm_frame_count vm - 1) name (OBJ_VAL m)) (\<lambda>(vm, _). Inr vm)))))"

text \<open>The module of a closure constant.\<close>

definition closure_module :: "b_vm \<Rightarrow> b_value \<Rightarrow> addr res" where
  "closure_module vm v =
     bindR (closure_at (vm_heap vm) (AS_OBJ v)) (\<lambda>c.
     bindR (function_at (vm_heap vm) (c_function c)) (\<lambda>function. some_ptr (f_module function)))"

definition op_call_import :: "b_vm \<Rightarrow> nat \<Rightarrow> step_result res" where
  "op_call_import vm frame =
     bindR (READ_CONSTANT vm frame) (\<lambda>(vm, v).
     bindR (closure_module vm v) (\<lambda>m. bindR (add_module vm m) (\<lambda>vm.
     bindR (call vm (AS_OBJ v) 0) (\<lambda>(vm, _). Inr (Next vm (vm_frame_count vm - 1))))))"

definition op_native_module :: "platform \<Rightarrow> b_vm \<Rightarrow> nat \<Rightarrow> step_result res" where
  "op_native_module pf vm frame =
     bindR (READ_STRING vm frame) (\<lambda>(vm, name).
     bindR (table_get (vm_heap vm) (vm_modules vm) (OBJ_VAL name)) (\<lambda>found.
       case found of
         None \<Rightarrow> runtime_error vm frame (''module '%s'' @ [CHR 0x27] @ '' not found'')
       | Some v \<Rightarrow>
           bindR (module_at (vm_heap vm) (AS_OBJ v)) (\<lambda>module.
           bindR (if m_preloader module then pf_preloader pf (AS_OBJ v) vm else Inr vm) (\<lambda>vm.
           bindR (module_at (vm_heap vm) (AS_OBJ v)) (\<lambda>module.
           bindR (set_value (vm_put vm (AS_OBJ v) (OModule (module\<lparr>m_imported := True\<rparr>))) frame (OBJ_VAL name) v)
             (\<lambda>(vm, _). Inr (Next vm frame)))))))"

definition op_select_import :: "b_vm \<Rightarrow> nat \<Rightarrow> step_result res" where
  "op_select_import vm frame =
     bindR (READ_STRING vm frame) (\<lambda>(vm, name). bindR (peek vm 0) (\<lambda>c.
     bindR (closure_module vm c) (\<lambda>m. bindR (module_at (vm_heap vm) m) (\<lambda>module.
     bindR (table_get (vm_heap vm) (m_values module) (OBJ_VAL name)) (\<lambda>found.
       case found of
         Some v \<Rightarrow> bindR (set_value vm frame (OBJ_VAL name) v) (\<lambda>(vm, _). Inr (Next vm frame))
       | None \<Rightarrow> runtime_error vm frame (''module %s does not define '%s'' @ [CHR 0x27]))))))"

definition op_select_native_import :: "b_vm \<Rightarrow> nat \<Rightarrow> step_result res" where
  "op_select_native_import vm frame =
     bindR (peek vm 0) (\<lambda>module_name. bindR (READ_STRING vm frame) (\<lambda>(vm, name).
     bindR (table_get (vm_heap vm) (vm_modules vm) (OBJ_VAL (AS_OBJ module_name))) (\<lambda>found.
       case found of
         None \<Rightarrow> runtime_error vm frame (''module '%s'' @ [CHR 0x27] @ '' not found'')
       | Some m \<Rightarrow>
           bindR (module_at (vm_heap vm) (AS_OBJ m)) (\<lambda>module.
           bindR (table_get (vm_heap vm) (m_values module) (OBJ_VAL name)) (\<lambda>found.
             case found of
               Some v \<Rightarrow> bindR (set_value vm frame (OBJ_VAL name) v) (\<lambda>(vm, _). Inr (Next vm frame))
             | None \<Rightarrow> runtime_error vm frame (''module %s does not define '%s'' @ [CHR 0x27]))))))"

definition op_import_all :: "b_vm \<Rightarrow> nat \<Rightarrow> step_result res" where
  "op_import_all vm frame =
     bindR (peek vm 0) (\<lambda>c. bindR (closure_module vm c) (\<lambda>m. bindR (module_at (vm_heap vm) m) (\<lambda>module.
     bindR (add_values vm frame (m_values module)) (next_in frame))))"

definition op_import_all_native :: "b_vm \<Rightarrow> nat \<Rightarrow> step_result res" where
  "op_import_all_native vm frame =
     bindR (peek vm 0) (\<lambda>name.
     bindR (table_get (vm_heap vm) (vm_modules vm) (OBJ_VAL (AS_OBJ name))) (\<lambda>found.
       case found of
         None \<Rightarrow> Inr (Next vm frame)
       | Some m \<Rightarrow>
           bindR (module_at (vm_heap vm) (AS_OBJ m)) (\<lambda>module.
           bindR (add_values vm frame (m_values module)) (next_in frame))))"

definition op_eject_import :: "b_vm \<Rightarrow> nat \<Rightarrow> step_result res" where
  "op_eject_import vm frame =
     bindR (READ_CONSTANT vm frame) (\<lambda>(vm, c). bindR (closure_module vm c) (\<lambda>m.
     bindR (module_at (vm_heap vm) m) (\<lambda>module. bindR (STRING_VAL vm (m_name module)) (\<lambda>(vm, name).
     bindR (delete_value vm frame name) (next_in frame)))))"

definition op_eject_native_import :: "b_vm \<Rightarrow> nat \<Rightarrow> step_result res" where
  "op_eject_native_import vm frame =
     bindR (READ_STRING vm frame) (\<lambda>(vm, name).
     bindR (table_get (vm_heap vm) (vm_modules vm) (OBJ_VAL name)) (\<lambda>found.
       case found of
         None \<Rightarrow> Inr (Next vm frame)
       | Some m \<Rightarrow>
           bindR (module_at (vm_heap vm) (AS_OBJ m)) (\<lambda>module.
           bindR (add_values vm frame (m_values module)) (\<lambda>vm.
           bindR (delete_value vm frame (OBJ_VAL name)) (next_in frame)))))"

section \<open>Exceptions and selection\<close>

text \<open>
  The message of a failed assertion is used as a format string: a \<open>%\<close> reads an argument that was
  not passed.
\<close>

fun format_no_args :: "byte list \<Rightarrow> byte list res" where
  "format_no_args [] = Inr []"
| "format_no_args (c # cs) =
     (if c \<noteq> 37 then bindR (format_no_args cs) (\<lambda>r. Inr (c # r))
      else (case cs of
              [] \<Rightarrow> Inl OutOfBounds
            | d # ds \<Rightarrow> if d = 37 then bindR (format_no_args ds) (\<lambda>r. Inr (37 # r)) else Inl OutOfBounds))"

definition op_assert :: "b_vm \<Rightarrow> nat \<Rightarrow> step_result res" where
  "op_assert vm frame =
     bindR (pop vm) (\<lambda>(vm, message). bindR (pop vm) (\<lambda>(vm, expression).
       if is_false (vm_heap vm) expression
       then bindR (if IS_NIL message then Inr []
                   else bindR (value_to_string (class_depth vm) (vm_heap vm) message) format_no_args) (\<lambda>chars.
            bindR (throw_message vm chars) (\<lambda>(vm, _). Inr (Next vm frame)))
       else Inr (Next vm frame)))"

definition op_die :: "b_vm \<Rightarrow> nat \<Rightarrow> step_result res" where
  "op_die vm frame =
     bindR (peek vm 0) (\<lambda>v.
     bindR (if \<not> is_obj_type (vm_heap vm) v OBJ_INSTANCE then Inr False
            else bindR (instance_at (vm_heap vm) (AS_OBJ v)) (\<lambda>i.
                 bindR (some_ptr (vm_exception_class vm)) (\<lambda>e.
                 bindR (class_at (vm_heap vm) e) (\<lambda>ek. bindR (name_at (vm_heap vm) (k_name ek)) (\<lambda>name.
                   is_instance_of (class_depth vm) (vm_heap vm) (Some (i_klass i)) (s_chars name)))))) (\<lambda>is_exception.
       if \<not> is_exception then runtime_error vm frame ''instance of Exception expected''
       else bindR (get_stack_trace vm) (\<lambda>(vm, stacktrace).
            bindR (copy_string (vm_hs vm) (cstr ''stacktrace'')) (\<lambda>(hs, key).
            bindR (set_property hs (AS_OBJ v) (OBJ_VAL key) stacktrace) (\<lambda>hs.
            bindR (propagate_exception (vm_with vm hs)) after_call)))))"

definition op_try :: "b_vm \<Rightarrow> nat \<Rightarrow> step_result res" where
  "op_try vm frame =
     bindR (READ_STRING vm frame) (\<lambda>(vm, type). bindR (READ_SHORT vm frame) (\<lambda>(vm, address).
     bindR (READ_SHORT vm frame) (\<lambda>(vm, finally_address).
       if address \<noteq> 0
       then bindR (table_get (vm_heap vm) (vm_globals vm) (OBJ_VAL type)) (\<lambda>found.
              case found of
                None \<Rightarrow> runtime_error vm frame (''object of type '%s'' @ [CHR 0x27] @ '' is not an exception'')
              | Some v \<Rightarrow>
                  if is_obj_type (vm_heap vm) v OBJ_CLASS
                  then bindR (push_exception_handler vm (Some (AS_OBJ v)) (of_nat address) (of_nat finally_address))
                         (\<lambda>(vm, _). Inr (Next vm frame))
                  else runtime_error vm frame (''object of type '%s'' @ [CHR 0x27] @ '' is not an exception''))
       else bindR (push_exception_handler vm None (of_nat address) (of_nat finally_address))
              (\<lambda>(vm, _). Inr (Next vm frame)))))"

definition pop_handler :: "b_vm \<Rightarrow> nat \<Rightarrow> b_vm res" where
  "pop_handler vm frame =
     bindR (frame_at vm frame) (\<lambda>f. Inr (put_frame vm frame (f\<lparr>cf_handlers_count := cf_handlers_count f - 1\<rparr>)))"

definition op_publish_try :: "b_vm \<Rightarrow> nat \<Rightarrow> step_result res" where
  "op_publish_try vm frame = bindR (pop_handler vm frame) (\<lambda>vm. bindR (propagate_exception vm) after_call)"

definition op_switch :: "b_vm \<Rightarrow> nat \<Rightarrow> step_result res" where
  "op_switch vm frame =
     bindR (READ_CONSTANT vm frame) (\<lambda>(vm, s). bindR (peek vm 0) (\<lambda>expr.
       case vm_heap vm (AS_OBJ s) of
         Some (OSwitch sw) \<Rightarrow>
           bindR (table_get (vm_heap vm) (sw_table sw) expr) (\<lambda>found.
           bindR (case found of
                    Some v \<Rightarrow> as_int v
                  | None \<Rightarrow> Inr (if sw_default_jump sw \<noteq> -1 then sw_default_jump sw else sw_exit_jump sw)) (\<lambda>offset.
           bindR (move_ip vm frame offset) (\<lambda>vm. bindR (pop vm) (\<lambda>(vm, _). Inr (Next vm frame)))))
       | _ \<Rightarrow> Inl NullPointer))"

definition op_choice :: "b_vm \<Rightarrow> nat \<Rightarrow> step_result res" where
  "op_choice vm frame =
     bindR (peek vm 0) (\<lambda>else_value. bindR (peek vm 1) (\<lambda>then_value. bindR (peek vm 2) (\<lambda>condition.
     bindR (pop_n vm 3) (\<lambda>vm.
       push_next vm frame (if \<not> is_false (vm_heap vm) condition then then_value else else_value)))))"

definition op_jump_if_false :: "b_vm \<Rightarrow> nat \<Rightarrow> step_result res" where
  "op_jump_if_false vm frame =
     bindR (READ_SHORT vm frame) (\<lambda>(vm, offset). bindR (peek vm 0) (\<lambda>v.
       if is_false (vm_heap vm) v then bindR (move_ip vm frame (int offset)) (next_in frame)
       else Inr (Next vm frame)))"

section \<open>The loop\<close>

definition exec :: "platform \<Rightarrow> b_code \<Rightarrow> b_vm \<Rightarrow> nat \<Rightarrow> step_result res" where
  "exec pf code vm frame =
     (let number = (\<lambda>f. BINARY_OP vm frame (\<lambda>a b. number_res (f a b)));
          compare_op = (\<lambda>f. BINARY_OP vm frame (\<lambda>a b. Inr (BOOL_VAL (f a b))))
      in case code of
        OP_CONSTANT \<Rightarrow> bindR (READ_CONSTANT vm frame) (\<lambda>(vm, v). push_next vm frame v)
      | OP_ADD \<Rightarrow> op_add pf vm frame
      | OP_SUBTRACT \<Rightarrow> number (dbl_sub (pf_nan pf))
      | OP_MULTIPLY \<Rightarrow> op_multiply pf vm frame
      | OP_DIVIDE \<Rightarrow> number (dbl_div (pf_nan pf))
      | OP_REMINDER \<Rightarrow> number (modulo (pf_nan pf))
      | OP_POW \<Rightarrow> number (pf_pow pf)
      | OP_F_DIVIDE \<Rightarrow> BINARY_OP vm frame (\<lambda>a b. bindR (floor_div (pf_nan pf) a b) (\<lambda>n. Inr (number_val n)))
      | OP_NEGATE \<Rightarrow>
          op_unary vm frame ''operator - not defined for object of type %s'' (\<lambda>d. number_res (dbl_neg d))
      | OP_BIT_NOT \<Rightarrow>
          op_unary vm frame ''operator ~ not defined for object of type %s''
            (\<lambda>d. bindR (int_of_double d) (\<lambda>n. Inr (integer_to_value (NOT n))))
      | OP_AND \<Rightarrow> BINARY_BIT_OP vm frame (\<lambda>a b. Inr (a AND b))
      | OP_OR \<Rightarrow> BINARY_BIT_OP vm frame (\<lambda>a b. Inr (a OR b))
      | OP_XOR \<Rightarrow> BINARY_BIT_OP vm frame (\<lambda>a b. Inr (a XOR b))
      | OP_LSHIFT \<Rightarrow> BINARY_BIT_OP vm frame long_shl
      | OP_RSHIFT \<Rightarrow> BINARY_BIT_OP vm frame long_shr
      | OP_ONE \<Rightarrow> push_next vm frame (number_val 1)
      | OP_EQUAL \<Rightarrow> op_equal vm frame
      | OP_GREATER \<Rightarrow> compare_op dbl_gt
      | OP_LESS \<Rightarrow> compare_op dbl_lt
      | OP_NOT \<Rightarrow> bindR (pop vm) (\<lambda>(vm, v). push_next vm frame (BOOL_VAL (is_false (vm_heap vm) v)))
      | OP_NIL \<Rightarrow> push_next vm frame NIL_VAL
      | OP_EMPTY \<Rightarrow> push_next vm frame EMPTY_VAL
      | OP_TRUE \<Rightarrow> push_next vm frame (BOOL_VAL True)
      | OP_FALSE \<Rightarrow> push_next vm frame (BOOL_VAL False)
      | OP_JUMP \<Rightarrow> bindR (READ_SHORT vm frame) (\<lambda>(vm, offset). bindR (move_ip vm frame (int offset)) (next_in frame))
      | OP_JUMP_IF_FALSE \<Rightarrow> op_jump_if_false vm frame
      | OP_LOOP \<Rightarrow> bindR (READ_SHORT vm frame) (\<lambda>(vm, offset). bindR (move_ip vm frame (- int offset)) (next_in frame))
      | OP_ECHO \<Rightarrow> op_echo vm frame
      | OP_STRINGIFY \<Rightarrow> op_stringify vm frame
      | OP_DUP \<Rightarrow> bindR (peek vm 0) (push_next vm frame)
      | OP_POP \<Rightarrow> bindR (pop vm) (\<lambda>(vm, _). Inr (Next vm frame))
      | OP_POP_N \<Rightarrow> bindR (READ_SHORT vm frame) (\<lambda>(vm, n). bindR (pop_n vm n) (next_in frame))
      | OP_CLOSE_UP_VALUE \<Rightarrow> op_close_up_value vm frame
      | OP_DEFINE_GLOBAL \<Rightarrow> op_define_global vm frame
      | OP_GET_GLOBAL \<Rightarrow> op_get_global vm frame
      | OP_SET_GLOBAL \<Rightarrow> op_set_global vm frame
      | OP_GET_LOCAL \<Rightarrow> op_get_local vm frame
      | OP_SET_LOCAL \<Rightarrow> op_set_local vm frame
      | OP_GET_PROPERTY \<Rightarrow> op_get_property vm frame
      | OP_GET_SELF_PROPERTY \<Rightarrow> op_get_self_property vm frame
      | OP_SET_PROPERTY \<Rightarrow> op_set_property vm frame
      | OP_CLOSURE \<Rightarrow> op_closure vm frame
      | OP_GET_UP_VALUE \<Rightarrow> op_get_up_value vm frame
      | OP_SET_UP_VALUE \<Rightarrow> op_set_up_value vm frame
      | OP_CALL \<Rightarrow> op_call pf vm frame
      | OP_INVOKE \<Rightarrow> op_invoke pf vm frame
      | OP_INVOKE_SELF \<Rightarrow> op_invoke_self pf vm frame
      | OP_CLASS \<Rightarrow> op_class vm frame
      | OP_METHOD \<Rightarrow> op_method vm frame
      | OP_CLASS_PROPERTY \<Rightarrow> op_class_property vm frame
      | OP_INHERIT \<Rightarrow> op_inherit vm frame
      | OP_GET_SUPER \<Rightarrow> op_get_super vm frame
      | OP_SUPER_INVOKE \<Rightarrow> op_super_invoke pf vm frame
      | OP_SUPER_INVOKE_SELF \<Rightarrow> op_super_invoke_self pf vm frame
      | OP_LIST \<Rightarrow> op_list vm frame
      | OP_RANGE \<Rightarrow> op_range vm frame
      | OP_DICT \<Rightarrow> op_dict vm frame
      | OP_GET_RANGED_INDEX \<Rightarrow> op_get_ranged_index vm frame
      | OP_GET_INDEX \<Rightarrow> op_get_index vm frame
      | OP_SET_INDEX \<Rightarrow> op_set_index vm frame
      | OP_RETURN \<Rightarrow> op_return vm frame
      | OP_CALL_IMPORT \<Rightarrow> op_call_import vm frame
      | OP_NATIVE_MODULE \<Rightarrow> op_native_module pf vm frame
      | OP_SELECT_IMPORT \<Rightarrow> op_select_import vm frame
      | OP_SELECT_NATIVE_IMPORT \<Rightarrow> op_select_native_import vm frame
      | OP_IMPORT_ALL \<Rightarrow> op_import_all vm frame
      | OP_IMPORT_ALL_NATIVE \<Rightarrow> op_import_all_native vm frame
      | OP_EJECT_IMPORT \<Rightarrow> op_eject_import vm frame
      | OP_EJECT_NATIVE_IMPORT \<Rightarrow> op_eject_native_import vm frame
      | OP_ASSERT \<Rightarrow> op_assert vm frame
      | OP_DIE \<Rightarrow> op_die vm frame
      | OP_TRY \<Rightarrow> op_try vm frame
      | OP_POP_TRY \<Rightarrow> bindR (pop_handler vm frame) (next_in frame)
      | OP_PUBLISH_TRY \<Rightarrow> op_publish_try vm frame
      | OP_SWITCH \<Rightarrow> op_switch vm frame
      | OP_CHOICE \<Rightarrow> op_choice vm frame
      | OP_BREAK_PL \<Rightarrow> Inr (Next vm frame))"

definition step :: "platform \<Rightarrow> b_vm \<Rightarrow> nat \<Rightarrow> step_result res" where
  "step pf vm frame =
     (if vm_frame_count vm = 0 then Inr (Exit vm PTR_RUNTIME_ERR)
      else bindR (READ_BYTE vm frame) (\<lambda>(vm, instruction).
        case code_of_byte instruction of
          None \<Rightarrow> Inr (Next vm frame)
        | Some code \<Rightarrow> exec pf code vm frame))"

fun run_loop :: "platform \<Rightarrow> nat \<Rightarrow> b_vm \<Rightarrow> nat \<Rightarrow> (b_vm \<times> b_ptr_result) res" where
  "run_loop pf 0 vm frame = Inl Divergence"
| "run_loop pf (Suc fuel) vm frame =
     bindR (step pf vm frame) (\<lambda>r.
       case r of
         Next vm frame \<Rightarrow> run_loop pf fuel vm frame
       | Exit vm result \<Rightarrow> Inr (vm, result))"

definition run :: "platform \<Rightarrow> nat \<Rightarrow> b_vm \<Rightarrow> (b_vm \<times> b_ptr_result) res" where
  "run pf fuel vm = run_loop pf fuel vm (vm_frame_count vm - 1)"

end
