(* ===== verification/VM_Init.thy ===== *)
theory VM_Init
  imports VM_Run
begin

text \<open>
  The start of the machine: \<open>init_vm\<close> with the builtin functions and methods, the class \<open>Exception\<close>
  that \<open>initialize_exceptions\<close> assembles by hand, and \<open>interpret\<close>, which takes the compiler
  (theory \<open>Compiler\<close>) as an argument.
\<close>

section \<open>Builtin functions and methods\<close>

text \<open>The key and the function are read from the bottom of the stack, where they are when it was empty.\<close>

definition push_native :: "b_vm \<Rightarrow> string \<Rightarrow> string \<Rightarrow> (b_vm \<times> b_value \<times> b_value) res" where
  "push_native vm name function =
     bindR (STRING_VAL vm name) (\<lambda>(vm, key). bindR (push vm key) (\<lambda>vm.
       let (hs, n) = new_native (vm_hs vm) function name
       in bindR (push (vm_with vm hs) (OBJ_VAL n)) (\<lambda>vm. Inr (vm, vm_stack vm ! 0, vm_stack vm ! 1))))"

definition define_native_method :: "b_vm \<Rightarrow> b_table \<Rightarrow> string \<Rightarrow> string \<Rightarrow> (b_vm \<times> b_table) res" where
  "define_native_method vm table name function =
     bindR (push_native vm name function) (\<lambda>(vm, key, native).
     bindR (table_set (vm_heap vm) table key native) (\<lambda>(table, _).
     bindR (pop_n vm 2) (\<lambda>vm. Inr (vm, table))))"

definition define_native :: "b_vm \<Rightarrow> string \<Rightarrow> string \<Rightarrow> b_vm res" where
  "define_native vm name function =
     bindR (define_native_method vm (vm_globals vm) name function) (\<lambda>(vm, globals). Inr (vm\<lparr>vm_globals := globals\<rparr>))"

definition builtin_functions :: "string list" where
  "builtin_functions =
     [''abs'', ''bin'', ''bytes'', ''chr'', ''delprop'', ''file'', ''getprop'',
      ''hasprop'', ''hex'', ''id'', ''int'', ''is_bool'', ''is_callable'', ''is_class'',
      ''is_dict'', ''is_function'', ''is_instance'', ''is_int'', ''is_list'',
      ''is_number'', ''is_object'', ''is_string'', ''is_bytes'', ''is_file'',
      ''is_iterable'', ''instance_of'', ''max'', ''microtime'', ''min'', ''oct'', ''ord'',
      ''print'', ''rand'', ''setprop'', ''sum'', ''time'', ''to_bool'', ''to_dict'',
      ''to_int'', ''to_list'', ''to_number'', ''to_string'', ''typeof'']"

definition init_builtin_functions :: "b_vm \<Rightarrow> b_vm res" where
  "init_builtin_functions vm = foldR (\<lambda>vm name. define_native vm name (''native_fn_'' @ name)) vm builtin_functions"

definition string_methods :: "string list" where
  "string_methods =
     [''length'', ''upper'', ''lower'', ''is_alpha'', ''is_alnum'', ''is_number'',
      ''is_lower'', ''is_upper'', ''is_space'', ''trim'', ''ltrim'', ''rtrim'', ''join'',
      ''split'', ''index_of'', ''starts_with'', ''ends_with'', ''count'', ''to_number'',
      ''to_list'', ''to_bytes'', ''lpad'', ''rpad'', ''match'', ''matches'', ''replace'',
      ''ascii'']"

definition list_methods :: "string list" where
  "list_methods =
     [''length'', ''append'', ''clear'', ''clone'', ''count'', ''extend'', ''index_of'',
      ''insert'', ''pop'', ''shift'', ''remove_at'', ''remove'', ''reverse'', ''sort'',
      ''contains'', ''delete'', ''first'', ''last'', ''is_empty'', ''take'', ''get'',
      ''compact'', ''unique'', ''zip'', ''to_dict'']"

definition dict_methods :: "string list" where
  "dict_methods =
     [''length'', ''add'', ''set'', ''clear'', ''clone'', ''compact'', ''contains'',
      ''extend'', ''get'', ''keys'', ''values'', ''remove'', ''is_empty'', ''find_key'',
      ''to_list'']"

definition file_methods :: "string list" where
  "file_methods =
     [''exists'', ''close'', ''open'', ''read'', ''gets'', ''write'', ''puts'',
      ''number'', ''is_tty'', ''is_open'', ''is_closed'', ''flush'', ''stats'',
      ''symlink'', ''delete'', ''rename'', ''path'', ''abs_path'', ''copy'', ''truncate'',
      ''chmod'', ''set_times'', ''seek'', ''tell'', ''mode'', ''name'']"

definition bytes_methods :: "string list" where
  "bytes_methods =
     [''length'', ''append'', ''clone'', ''extend'', ''pop'', ''remove'', ''reverse'',
      ''first'', ''last'', ''get'', ''split'', ''dispose'', ''is_alpha'', ''is_alnum'',
      ''is_number'', ''is_lower'', ''is_upper'', ''is_space'', ''to_list'', ''to_string'']"

definition range_methods :: "string list" where
  "range_methods =
     [''lower'', ''upper'']"

text \<open>The table of the methods of a builtin type; the iteration methods have names of their own.\<close>

definition define_methods :: "string \<Rightarrow> string list \<Rightarrow> bool \<Rightarrow> b_vm \<times> b_table \<Rightarrow> (b_vm \<times> b_table) res" where
  "define_methods type names iterable start =
     bindR (foldR (\<lambda>(vm, t) name. define_native_method vm t name (''native_method_'' @ type @ name)) start names) (\<lambda>r.
       if iterable
       then foldR (\<lambda>(vm, t) (name, function). define_native_method vm t name (''native_method_'' @ type @ function)) r
              [(''@iter'', ''__iter__''), (''@itern'', ''__itern__'')]
       else Inr r)"

definition init_builtin_methods :: "b_vm \<Rightarrow> b_vm res" where
  "init_builtin_methods vm =
     bindR (define_methods ''string'' string_methods True (vm, vm_methods_string vm)) (\<lambda>(vm, t).
     let vm = vm\<lparr>vm_methods_string := t\<rparr> in
     bindR (define_methods ''list'' list_methods True (vm, vm_methods_list vm)) (\<lambda>(vm, t).
     let vm = vm\<lparr>vm_methods_list := t\<rparr> in
     bindR (define_methods ''dict'' dict_methods True (vm, vm_methods_dict vm)) (\<lambda>(vm, t).
     let vm = vm\<lparr>vm_methods_dict := t\<rparr> in
     bindR (define_methods ''file'' file_methods False (vm, vm_methods_file vm)) (\<lambda>(vm, t).
     let vm = vm\<lparr>vm_methods_file := t\<rparr> in
     bindR (define_methods ''bytes'' bytes_methods True (vm, vm_methods_bytes vm)) (\<lambda>(vm, t).
     let vm = vm\<lparr>vm_methods_bytes := t\<rparr> in
     bindR (define_methods ''range'' range_methods True (vm, vm_methods_range vm)) (\<lambda>(vm, t).
       Inr (vm\<lparr>vm_methods_range := t\<rparr>)))))))"

text \<open>
  The fields \<open>init_vm\<close> sets. The machine is allocated with zeros, so every frame starts without
  handlers. Addresses start at a multiple of 32.
\<close>

definition empty_frame :: b_call_frame where
  "empty_frame =
     \<lparr>cf_closure = 0, cf_ip = 0, cf_slots = 0, cf_handlers_count = 0,
      cf_handlers = replicate (nat MAX_EXCEPTION_HANDLERS)
        \<lparr>ef_address = 0, ef_finally_address = 0, ef_klass = None\<rparr>\<rparr>"

definition empty_vm :: b_vm where
  "empty_vm =
     \<lparr>vm_frames = replicate FRAMES_MAX empty_frame, vm_frame_count = 0, vm_stack = [],
      vm_open_up_values = None, vm_objects = [], vm_compiler_functions = [], vm_exception_class = None,
      vm_gray = [], vm_gc_protected = 0, vm_modules = init_table, vm_strings = init_table,
      vm_globals = init_table, vm_methods_string = init_table, vm_methods_list = init_table,
      vm_methods_dict = init_table, vm_methods_file = init_table, vm_methods_bytes = init_table,
      vm_methods_range = init_table, vm_mark_value = True, vm_is_repl = False, vm_out = [],
      vm_heap = Map.empty, vm_next = 32, vm_mark = (\<lambda>_. False)\<rparr>"

definition init_vm :: "b_vm res" where
  "init_vm = bindR (init_builtin_functions empty_vm) init_builtin_methods"

section \<open>The class Exception\<close>

text \<open>The constructor: \<open>self.message = message\<close>, then \<open>self\<close> is returned.\<close>

definition exception_code :: "nat \<Rightarrow> byte list" where
  "exception_code message_const =
     [byte_of_code OP_GET_LOCAL, 0, 0,
      byte_of_code OP_GET_LOCAL, 0, 1,
      byte_of_code OP_SET_PROPERTY, of_nat (message_const div 256), of_nat message_const,
      byte_of_code OP_POP,
      byte_of_code OP_GET_LOCAL, 0, 0,
      byte_of_code OP_RETURN]"

definition exception_blob :: "addr \<Rightarrow> b_blob res" where
  "exception_blob message =
     bindR (add_constant init_blob (OBJ_VAL message)) (\<lambda>(blob, message_const).
       foldR (\<lambda>b c. write_blob b c 0) blob (exception_code message_const))"

definition initialize_exceptions :: "b_vm \<Rightarrow> addr \<Rightarrow> b_vm res" where
  "initialize_exceptions vm module =
     bindR (copy_string (vm_hs vm) (cstr ''Exception'')) (\<lambda>(hs, class_name).
       let (hs, klass) = new_class hs class_name;
           (hs, fn) = new_function hs (Some module) TYPE_METHOD
       in bindR (copy_string hs (cstr ''message'')) (\<lambda>(hs, message).
          bindR (exception_blob message) (\<lambda>blob.
          bindR (function_at (hs_heap hs) fn) (\<lambda>f.
          bindR (new_closure (put_obj hs fn (OFunction (f\<lparr>f_arity := 1, f_is_variadic := False, f_blob := blob\<rparr>))) fn)
            (\<lambda>(hs, closure).
          bindR (class_at (hs_heap hs) klass) (\<lambda>k.
          bindR (table_set (hs_heap hs) (k_methods k) (OBJ_VAL class_name) (OBJ_VAL closure)) (\<lambda>(methods, _).
          bindR (table_set (hs_heap hs) (k_properties k) (OBJ_VAL message) NIL_VAL) (\<lambda>(properties, _).
          bindR (copy_string hs (cstr ''stacktrace'')) (\<lambda>(hs, stacktrace).
          bindR (table_set (hs_heap hs) properties (OBJ_VAL stacktrace) NIL_VAL) (\<lambda>(properties, _).
            let hs = put_obj hs klass (OClass (k\<lparr>k_methods := methods, k_initializer := OBJ_VAL closure,
                                                  k_properties := properties\<rparr>));
                vm = vm_with vm hs
            in bindR (table_set (vm_heap vm) (vm_globals vm) (OBJ_VAL class_name) (OBJ_VAL klass)) (\<lambda>(globals, _).
               bindR (pop vm) (\<lambda>(vm, _).
                 Inr (vm\<lparr>vm_globals := globals, vm_exception_class := Some klass\<rparr>)))))))))))))"

section \<open>Interpretation of a module\<close>

definition interpret_module :: "platform \<Rightarrow> nat \<Rightarrow> b_vm \<Rightarrow> addr \<Rightarrow> (b_vm \<Rightarrow> b_vm \<times> addr option) \<Rightarrow>
    (b_vm \<times> b_ptr_result) res" where
  "interpret_module pf fuel vm module compile =
     bindR (initialize_exceptions vm module) (\<lambda>vm.
       case compile vm of
         (vm, None) \<Rightarrow> Inr (vm, PTR_COMPILE_ERR)
       | (vm, Some fn) \<Rightarrow>
           bindR (new_closure (vm_hs vm) fn) (\<lambda>(hs, closure).
           bindR (push (vm_with vm hs) (OBJ_VAL closure)) (\<lambda>vm.
           bindR (call vm closure 0) (\<lambda>(vm, _). run pf fuel vm))))"

end
