(* ===== verification/Compiler_State.thy ===== *)
theory Compiler_State
  imports VM_Init Opcodes
begin

text \<open>
  The lower half of \<open>compiler.c\<close>: the parser state, error reports, the token stream, emission and
  patching of code, constants, scopes and the resolution of variables.

  A compiler under construction is a record; the chain from \<open>vm->compiler\<close> along \<open>enclosing\<close> is the
  list \<open>ps_compilers\<close>, innermost first, and the functions they build are objects of the heap, as in
  the source. The array \<open>locals\<close> up to \<open>local_count\<close> is a list, as is \<open>up_values\<close> up to
  \<open>up_value_count\<close>. The name of a local is the text its token spans. A report on standard error is a
  pair of the token and the format string of the message. The terminal is not modelled further.

  A C function of the parser is a function on the parser state. \<open>seqR\<close> runs such functions one after
  the other. The loops over tokens that only skip have as fuel the rest of the source text, since
  every token but the last takes at least one character; the loops with a body get theirs from the
  caller.
\<close>

section \<open>State\<close>

definition UINT8_COUNT :: nat where "UINT8_COUNT = 256"
definition UINT16_MAX :: int where "UINT16_MAX = 65535"

record b_local =
  lo_name :: string
  lo_depth :: int
  lo_is_captured :: bool

record b_up_value =
  up_index :: uint16
  up_is_local :: bool

record b_compiler =
  cp_function :: addr
  cp_type :: b_func_type
  cp_locals :: "b_local list"
  cp_up_values :: "b_up_value list"
  cp_scope_depth :: int
  cp_handler_count :: int

record b_class_compiler =
  cc_name :: string
  cc_has_superclass :: bool

record b_parser =
  ps_scanner :: b_scanner
  ps_vm :: b_vm
  ps_compilers :: "b_compiler list"
  ps_current :: b_token
  ps_previous :: b_token
  ps_had_error :: bool
  ps_panic_mode :: bool
  ps_block_count :: int
  ps_is_returning :: bool
  ps_is_trying :: bool
  ps_repl_can_echo :: bool
  ps_classes :: "b_class_compiler list"
  ps_innermost_loop_start :: int
  ps_innermost_loop_scope_depth :: int
  ps_module :: addr
  ps_reports :: "(b_token \<times> string) list"

type_synonym p_step = "b_parser \<Rightarrow> b_parser res"

text \<open>Sequences of steps.\<close>

fun seqR :: "('s \<Rightarrow> 's res) list \<Rightarrow> 's \<Rightarrow> 's res" where
  "seqR [] s = Inr s"
| "seqR (f # fs) s = bindR (f s) (seqR fs)"

text \<open>A loop with its test at the end; the body tells whether to go round again.\<close>

fun do_while :: "nat \<Rightarrow> ('s \<Rightarrow> ('s \<times> bool) res) \<Rightarrow> 's \<Rightarrow> 's res" where
  "do_while 0 body s = Inl Divergence"
| "do_while (Suc n) body s = bindR (body s) (\<lambda>(s', again). if again then do_while n body s' else Inr s')"

section \<open>Errors\<close>

definition error_at :: "b_token \<Rightarrow> string \<Rightarrow> p_step" where
  "error_at t message p =
     Inr (if ps_panic_mode p then p
          else p\<lparr>ps_panic_mode := True, ps_had_error := True, ps_reports := ps_reports p @ [(t, message)]\<rparr>)"

definition error :: "string \<Rightarrow> p_step" where
  "error message p = error_at (ps_previous p) message p"

definition error_at_current :: "string \<Rightarrow> p_step" where
  "error_at_current message p = error_at (ps_current p) message p"

section \<open>Tokens\<close>

text \<open>The characters a token spans.\<close>

definition tk_chars :: "b_parser \<Rightarrow> b_token \<Rightarrow> string" where
  "tk_chars p t = take (tk_length t)
     (case tk_start t of At i \<Rightarrow> drop i (sc_source (ps_scanner p)) | Message m \<Rightarrow> m)"

definition message_of :: "b_token \<Rightarrow> string" where
  "message_of t = (case tk_start t of At _ \<Rightarrow> '''' | Message m \<Rightarrow> m)"

definition text_left :: "b_parser \<Rightarrow> nat" where
  "text_left p = length (sc_source (ps_scanner p)) - sc_current (ps_scanner p)"

fun advance_loop :: "nat \<Rightarrow> p_step" where
  "advance_loop 0 p = Inl Divergence"
| "advance_loop (Suc n) p =
     bindR (scan_token (ps_scanner p)) (\<lambda>(s, t).
       let p = p\<lparr>ps_scanner := s, ps_current := t\<rparr>
       in if tk_type t \<noteq> ERROR_TOKEN then Inr p
          else bindR (error_at_current (message_of t) p) (advance_loop n))"

definition advance_p :: p_step where
  "advance_p p = advance_loop (text_left p + 1) (p\<lparr>ps_previous := ps_current p\<rparr>)"

definition check_p :: "b_parser \<Rightarrow> b_tkn_type \<Rightarrow> bool" where
  "check_p p t = (tk_type (ps_current p) = t)"

definition consume :: "b_tkn_type \<Rightarrow> string \<Rightarrow> p_step" where
  "consume t message p = (if check_p p t then advance_p p else error_at_current message p)"

definition consume_or :: "b_tkn_type list \<Rightarrow> string \<Rightarrow> p_step" where
  "consume_or ts message p =
     (if tk_type (ps_current p) \<in> set ts then advance_p p else error_at_current message p)"

definition check_number :: "b_parser \<Rightarrow> bool" where
  "check_number p =
     (tk_type (ps_previous p) \<in> {REG_NUMBER_TOKEN, OCT_NUMBER_TOKEN, BIN_NUMBER_TOKEN, HEX_NUMBER_TOKEN})"

definition match_p :: "b_tkn_type \<Rightarrow> b_parser \<Rightarrow> (b_parser \<times> bool) res" where
  "match_p t p = (if check_p p t then bindR (advance_p p) (\<lambda>p. Inr (p, True)) else Inr (p, False))"

text \<open>\<open>if (match(p, t)) yes else no\<close>\<close>

definition if_match :: "b_tkn_type \<Rightarrow> p_step \<Rightarrow> p_step \<Rightarrow> p_step" where
  "if_match t yes no p = bindR (match_p t p) (\<lambda>(p, m). if m then yes p else no p)"

text \<open>\<open>while (match(p, t1) || match(p, t2));\<close>\<close>

fun skip_tokens :: "nat \<Rightarrow> b_tkn_type list \<Rightarrow> p_step" where
  "skip_tokens 0 ts p = Inl Divergence"
| "skip_tokens (Suc n) ts p =
     (if tk_type (ps_current p) \<in> set ts then bindR (advance_p p) (skip_tokens n ts) else Inr p)"

definition skip_all :: "b_tkn_type list \<Rightarrow> p_step" where
  "skip_all ts p = skip_tokens (text_left p + 2) ts p"

definition ignore_whitespace :: p_step where
  "ignore_whitespace = skip_all [Symbol NEWLINE_TOKEN]"

definition consume_statement_end :: p_step where
  "consume_statement_end p =
     (if 0 < ps_block_count p \<and> check_p p (Symbol RBRACE_TOKEN) then Inr p
      else if_match (Symbol SEMICOLON_TOKEN)
        (skip_all [Symbol SEMICOLON_TOKEN, Symbol NEWLINE_TOKEN])
        (if_match EOF_TOKEN Inr
          (\<lambda>p. if tk_type (ps_previous p) = EOF_TOKEN then Inr p
               else seqR [consume (Symbol NEWLINE_TOKEN) ''end of statement expected'',
                          skip_all [Symbol SEMICOLON_TOKEN, Symbol NEWLINE_TOKEN]] p)) p)"

section \<open>The function under construction\<close>

definition cur_compiler :: "b_parser \<Rightarrow> b_compiler res" where
  "cur_compiler p = (case ps_compilers p of [] \<Rightarrow> Inl NullPointer | c # _ \<Rightarrow> Inr c)"

definition set_compiler :: "b_parser \<Rightarrow> b_compiler \<Rightarrow> b_parser" where
  "set_compiler p c = p\<lparr>ps_compilers := c # tl (ps_compilers p)\<rparr>"

definition upd_compiler :: "(b_compiler \<Rightarrow> b_compiler) \<Rightarrow> p_step" where
  "upd_compiler f p = bindR (cur_compiler p) (\<lambda>c. Inr (set_compiler p (f c)))"

definition upd_function_at :: "addr \<Rightarrow> (b_obj_func \<Rightarrow> b_obj_func) \<Rightarrow> p_step" where
  "upd_function_at a f p =
     bindR (function_at (vm_heap (ps_vm p)) a) (\<lambda>fn. Inr (p\<lparr>ps_vm := vm_put (ps_vm p) a (OFunction (f fn))\<rparr>))"

definition upd_function :: "(b_obj_func \<Rightarrow> b_obj_func) \<Rightarrow> p_step" where
  "upd_function f p = bindR (cur_compiler p) (\<lambda>c. upd_function_at (cp_function c) f p)"

definition current_blob :: "b_parser \<Rightarrow> b_blob res" where
  "current_blob p =
     bindR (cur_compiler p) (\<lambda>c. bindR (function_at (vm_heap (ps_vm p)) (cp_function c)) (\<lambda>fn. Inr (f_blob fn)))"

definition set_blob :: "b_blob \<Rightarrow> p_step" where
  "set_blob b = upd_function (\<lambda>fn. fn\<lparr>f_blob := b\<rparr>)"

definition blob_count :: "b_parser \<Rightarrow> int res" where
  "blob_count p = bindR (current_blob p) (\<lambda>b. Inr (int (bl_count b)))"

definition scope_depth :: "b_parser \<Rightarrow> int res" where
  "scope_depth p = bindR (cur_compiler p) (\<lambda>c. Inr (cp_scope_depth c))"

section \<open>Emission\<close>

definition emit_byte :: "byte \<Rightarrow> p_step" where
  "emit_byte b p =
     bindR (current_blob p) (\<lambda>blob.
     bindR (write_blob blob b (int (tk_line (ps_previous p)))) (\<lambda>blob. set_blob blob p))"

abbreviation emit_op :: "b_code \<Rightarrow> p_step" where
  "emit_op op \<equiv> emit_byte (byte_of_code op)"

definition hi_byte :: "int \<Rightarrow> byte" where "hi_byte n = word_of_int (n div 256)"
definition lo_byte :: "int \<Rightarrow> byte" where "lo_byte n = word_of_int n"

text \<open>A \<open>uint16_t\<close> argument keeps the two low bytes.\<close>

definition emit_short :: "int \<Rightarrow> p_step" where
  "emit_short n = seqR [emit_byte (hi_byte n), emit_byte (lo_byte n)]"

definition emit_bytes :: "byte \<Rightarrow> byte \<Rightarrow> p_step" where
  "emit_bytes b b2 = seqR [emit_byte b, emit_byte b2]"

definition emit_byte_and_short :: "byte \<Rightarrow> int \<Rightarrow> p_step" where
  "emit_byte_and_short b n = seqR [emit_byte b, emit_byte (hi_byte n), emit_byte (lo_byte n)]"

abbreviation emit_op_short :: "b_code \<Rightarrow> int \<Rightarrow> p_step" where
  "emit_op_short op n \<equiv> emit_byte_and_short (byte_of_code op) n"

definition emit_loop :: "int \<Rightarrow> p_step" where
  "emit_loop loop_start p =
     bindR (emit_op OP_LOOP p) (\<lambda>p.
     bindR (blob_count p) (\<lambda>count.
       let offset = count - loop_start + 2
       in seqR [if UINT16_MAX < offset then error ''loop body too large'' else Inr,
                emit_byte (hi_byte offset), emit_byte (lo_byte offset)] p))"

definition emit_return :: p_step where
  "emit_return p =
     bindR (cur_compiler p) (\<lambda>c.
       seqR [if ps_is_trying p then emit_op OP_POP_TRY else Inr,
             if cp_type c = TYPE_INITIALIZER then emit_op_short OP_GET_LOCAL 0 else emit_op OP_EMPTY,
             emit_op OP_RETURN] p)"

definition make_constant :: "b_value \<Rightarrow> b_parser \<Rightarrow> (b_parser \<times> int) res" where
  "make_constant v p =
     bindR (current_blob p) (\<lambda>blob.
     bindR (add_constant blob v) (\<lambda>(blob, constant).
     bindR (set_blob blob p) (\<lambda>p.
       if UINT16_MAX \<le> int constant
       then bindR (error ''too many constants in current scope'' p) (\<lambda>p. Inr (p, 0))
       else Inr (p, int constant))))"

definition emit_constant :: "b_value \<Rightarrow> p_step" where
  "emit_constant v p = bindR (make_constant v p) (\<lambda>(p, constant). emit_op_short OP_CONSTANT constant p)"

definition emit_jump :: "b_code \<Rightarrow> b_parser \<Rightarrow> (b_parser \<times> int) res" where
  "emit_jump op p =
     bindR (seqR [emit_op op, emit_byte 0xff, emit_byte 0xff] p) (\<lambda>p.
     bindR (blob_count p) (\<lambda>count. Inr (p, count - 2)))"

definition emit_switch :: "b_parser \<Rightarrow> (b_parser \<times> int) res" where
  "emit_switch = emit_jump OP_SWITCH"

definition emit_try :: "b_parser \<Rightarrow> (b_parser \<times> int) res" where
  "emit_try p =
     bindR (seqR [emit_op OP_TRY, emit_byte 0xff, emit_byte 0xff, emit_byte 0xff, emit_byte 0xff,
                  emit_byte 0xff, emit_byte 0xff] p) (\<lambda>p.
     bindR (blob_count p) (\<lambda>count. Inr (p, count - 6)))"

text \<open>A write into the code emitted before.\<close>

definition patch_byte :: "int \<Rightarrow> byte \<Rightarrow> p_step" where
  "patch_byte offset b p =
     bindR (current_blob p) (\<lambda>blob.
     bindR (cell_set (bl_code blob) offset b) (\<lambda>code. set_blob (blob\<lparr>bl_code := code\<rparr>) p))"

definition patch_short :: "int \<Rightarrow> int \<Rightarrow> p_step" where
  "patch_short offset n = seqR [patch_byte offset (hi_byte n), patch_byte (offset + 1) (lo_byte n)]"

definition patch_switch :: "int \<Rightarrow> int \<Rightarrow> p_step" where
  "patch_switch offset constant = patch_short offset constant"

definition patch_try :: "int \<Rightarrow> int \<Rightarrow> int \<Rightarrow> int \<Rightarrow> p_step" where
  "patch_try offset type address finally_address =
     seqR [patch_short offset type, patch_short (offset + 2) address, patch_short (offset + 4) finally_address]"

definition patch_jump :: "int \<Rightarrow> p_step" where
  "patch_jump offset p =
     bindR (blob_count p) (\<lambda>count.
       let jump = count - offset - 2
       in seqR [if UINT16_MAX < jump then error ''body of conditional block too large'' else Inr,
                patch_short offset jump] p)"

section \<open>Compilers and names\<close>

definition with_hs :: "(hstate \<Rightarrow> (hstate \<times> 'a) res) \<Rightarrow> b_parser \<Rightarrow> (b_parser \<times> 'a) res" where
  "with_hs f p = bindR (f (vm_hs (ps_vm p))) (\<lambda>(hs, x). Inr (p\<lparr>ps_vm := vm_with (ps_vm p) hs\<rparr>, x))"

definition copy_string_p :: "string \<Rightarrow> b_parser \<Rightarrow> (b_parser \<times> addr) res" where
  "copy_string_p s = with_hs (\<lambda>hs. copy_string hs (cstr s))"

definition push_p :: "b_value \<Rightarrow> p_step" where
  "push_p v p = bindR (push (ps_vm p) v) (\<lambda>vm. Inr (p\<lparr>ps_vm := vm\<rparr>))"

definition pop_p :: p_step where
  "pop_p p = bindR (pop (ps_vm p)) (\<lambda>(vm, _). Inr (p\<lparr>ps_vm := vm\<rparr>))"

text \<open>The chain of compilers is known to the collector through the functions it builds.\<close>

definition set_chain :: "b_compiler list \<Rightarrow> b_parser \<Rightarrow> b_parser" where
  "set_chain cs p =
     p\<lparr>ps_compilers := cs, ps_vm := (ps_vm p)\<lparr>vm_compiler_functions := map (Some \<circ> cp_function) cs\<rparr>\<rparr>"

definition init_compiler :: "b_func_type \<Rightarrow> p_step" where
  "init_compiler type p =
     bindR (with_hs (\<lambda>hs. Inr (new_function hs (Some (ps_module p)) type)) p) (\<lambda>(p, fn).
       let local = \<lparr>lo_name = (if type \<noteq> TYPE_FUNCTION then ''self'' else ''''), lo_depth = 0, lo_is_captured = False\<rparr>;
           c = \<lparr>cp_function = fn, cp_type = type, cp_locals = [local], cp_up_values = [], cp_scope_depth = 0,
                cp_handler_count = 0\<rparr>;
           p = set_chain (c # ps_compilers p) p
       in if type \<noteq> TYPE_SCRIPT
          then bindR (push_p (OBJ_VAL fn) p) (\<lambda>p.
               bindR (copy_string_p (tk_chars p (ps_previous p)) p) (\<lambda>(p, name).
                 seqR [upd_function (\<lambda>f. f\<lparr>f_name := Some name\<rparr>), pop_p] p))
          else Inr p)"

definition identifier_constant :: "string \<Rightarrow> b_parser \<Rightarrow> (b_parser \<times> int) res" where
  "identifier_constant name p = bindR (copy_string_p name p) (\<lambda>(p, a). make_constant (OBJ_VAL a) p)"

text \<open>The locals from the last to the first.\<close>

fun resolve_loop :: "string \<Rightarrow> b_local list \<Rightarrow> nat \<Rightarrow> int \<times> bool" where
  "resolve_loop name locals 0 = (-1, False)"
| "resolve_loop name locals (Suc i) =
     (if lo_name (locals ! i) = name then (int i, lo_depth (locals ! i) = -1)
      else resolve_loop name locals i)"

definition resolve_local :: "b_compiler \<Rightarrow> string \<Rightarrow> b_parser \<Rightarrow> (b_parser \<times> int) res" where
  "resolve_local c name p =
     (case resolve_loop name (cp_locals c) (length (cp_locals c)) of (i, unready) \<Rightarrow>
        bindR (if unready then error (''cannot read local variable in it'' @ [SQUOTE] @ ''s own initializer'') p else Inr p)
          (\<lambda>p. Inr (p, i)))"

text \<open>The position of the first up-value that stands for the same variable.\<close>

fun find_up_value :: "b_up_value list \<Rightarrow> uint16 \<Rightarrow> bool \<Rightarrow> nat \<Rightarrow> nat option" where
  "find_up_value [] index is_local i = None"
| "find_up_value (u # us) index is_local i =
     (if up_index u = index \<and> up_is_local u = is_local then Some i
      else find_up_value us index is_local (Suc i))"

definition add_up_value :: "b_compiler \<Rightarrow> uint16 \<Rightarrow> bool \<Rightarrow> b_parser \<Rightarrow> (b_parser \<times> b_compiler \<times> int) res" where
  "add_up_value c index is_local p =
     (case find_up_value (cp_up_values c) index is_local 0 of
        Some i \<Rightarrow> Inr (p, c, int i)
      | None \<Rightarrow>
          if length (cp_up_values c) = UINT8_COUNT
          then bindR (error ''too many closure variables in function'' p) (\<lambda>p. Inr (p, c, 0))
          else bindR (upd_function_at (cp_function c) (\<lambda>f. f\<lparr>f_up_value_count := f_up_value_count f + 1\<rparr>) p) (\<lambda>p.
               Inr (p, c\<lparr>cp_up_values := cp_up_values c @ [\<lparr>up_index = index, up_is_local = is_local\<rparr>]\<rparr>,
                    int (length (cp_up_values c)))))"

fun resolve_up_value :: "string \<Rightarrow> b_compiler list \<Rightarrow> b_parser \<Rightarrow> (b_parser \<times> b_compiler list \<times> int) res" where
  "resolve_up_value name [] p = Inl NullPointer"
| "resolve_up_value name [c] p = Inr (p, [c], -1)"
| "resolve_up_value name (c # e # cs) p =
     bindR (resolve_local e name p) (\<lambda>(p, local).
       if local \<noteq> -1
       then let e' = e\<lparr>cp_locals := (cp_locals e)[nat local := (cp_locals e ! nat local)\<lparr>lo_is_captured := True\<rparr>]\<rparr>
            in bindR (add_up_value c (word_of_int local) True p) (\<lambda>(p, c', i). Inr (p, c' # e' # cs, i))
       else bindR (resolve_up_value name (e # cs) p) (\<lambda>(p, es, up_value).
            if up_value \<noteq> -1
            then bindR (add_up_value c (word_of_int up_value) False p) (\<lambda>(p, c', i). Inr (p, c' # es, i))
            else Inr (p, c # es, -1)))"

definition add_local :: "string \<Rightarrow> b_parser \<Rightarrow> (b_parser \<times> int) res" where
  "add_local name p =
     bindR (cur_compiler p) (\<lambda>c.
       if length (cp_locals c) = UINT8_COUNT
       then bindR (error ''too many local variables in scope'' p) (\<lambda>p. Inr (p, -1))
       else let c = c\<lparr>cp_locals := cp_locals c @ [\<lparr>lo_name = name, lo_depth = -1, lo_is_captured = False\<rparr>]\<rparr>
            in Inr (set_compiler p c, int (length (cp_locals c))))"

text \<open>The locals of the current scope, from the last on, and those without a depth yet.\<close>

fun scope_locals :: "int \<Rightarrow> b_local list \<Rightarrow> b_local list" where
  "scope_locals depth [] = []"
| "scope_locals depth (l # ls) =
     (if lo_depth l \<noteq> -1 \<and> lo_depth l < depth then [] else l # scope_locals depth ls)"

definition declare_variable :: p_step where
  "declare_variable p =
     bindR (cur_compiler p) (\<lambda>c.
       if cp_scope_depth c = 0 then Inr p
       else let name = tk_chars p (ps_previous p)
            in bindR (if name \<in> lo_name ` set (scope_locals (cp_scope_depth c) (rev (cp_locals c)))
                      then error ''%.*s already declared in current scope'' p else Inr p) (\<lambda>p.
               bindR (add_local name p) (\<lambda>(p, _). Inr p)))"

definition parse_variable :: "string \<Rightarrow> b_parser \<Rightarrow> (b_parser \<times> int) res" where
  "parse_variable message p =
     bindR (seqR [consume IDENTIFIER_TOKEN message, declare_variable] p) (\<lambda>p.
     bindR (scope_depth p) (\<lambda>depth.
       if 0 < depth then Inr (p, 0) else identifier_constant (tk_chars p (ps_previous p)) p))"

definition mark_initialized :: p_step where
  "mark_initialized p =
     bindR (cur_compiler p) (\<lambda>c.
       if cp_scope_depth c = 0 then Inr p
       else if cp_locals c = [] then Inl OutOfBounds
       else Inr (set_compiler p (c\<lparr>cp_locals := butlast (cp_locals c) @ [(last (cp_locals c))\<lparr>lo_depth := cp_scope_depth c\<rparr>]\<rparr>)))"

definition define_variable :: "int \<Rightarrow> p_step" where
  "define_variable global p =
     bindR (scope_depth p) (\<lambda>depth.
       if 0 < depth then mark_initialized p else emit_op_short OP_DEFINE_GLOBAL global p)"

text \<open>The function of the innermost compiler is finished and the enclosing one takes over.\<close>

definition end_compiler :: "b_parser \<Rightarrow> (b_parser \<times> addr) res" where
  "end_compiler p =
     bindR (emit_return p) (\<lambda>p.
     bindR (cur_compiler p) (\<lambda>c. Inr (set_chain (tl (ps_compilers p)) p, cp_function c)))"

section \<open>Scopes\<close>

definition begin_scope :: p_step where
  "begin_scope = upd_compiler (\<lambda>c. c\<lparr>cp_scope_depth := cp_scope_depth c + 1\<rparr>)"

text \<open>The locals in order from the last, while they are deeper than the scope.\<close>

fun emit_pops :: "int \<Rightarrow> b_local list \<Rightarrow> p_step" where
  "emit_pops depth [] p = Inr p"
| "emit_pops depth (l # ls) p =
     (if depth < lo_depth l
      then bindR (emit_op (if lo_is_captured l then OP_CLOSE_UP_VALUE else OP_POP) p) (emit_pops depth ls)
      else Inr p)"

definition drop_deeper :: "int \<Rightarrow> b_local list \<Rightarrow> b_local list" where
  "drop_deeper depth ls = rev (dropWhile (\<lambda>l. depth < lo_depth l) (rev ls))"

definition end_scope :: p_step where
  "end_scope p =
     bindR (upd_compiler (\<lambda>c. c\<lparr>cp_scope_depth := cp_scope_depth c - 1\<rparr>) p) (\<lambda>p.
     bindR (cur_compiler p) (\<lambda>c.
     bindR (emit_pops (cp_scope_depth c) (rev (cp_locals c)) p)
       (upd_compiler (\<lambda>c. c\<lparr>cp_locals := drop_deeper (cp_scope_depth c) (cp_locals c)\<rparr>))))"

definition discard_local :: "int \<Rightarrow> p_step" where
  "discard_local depth p =
     bindR (cur_compiler p) (\<lambda>c.
       seqR [if cp_scope_depth c = -1 then error ''cannot exit top-level scope'' else Inr,
             emit_pops depth (rev (cp_locals c))] p)"

section \<open>The operands of an instruction\<close>

definition code_args :: "b_code \<Rightarrow> nat" where
  "code_args op =
     (if op \<in> {OP_CALL, OP_SUPER_INVOKE_SELF, OP_GET_INDEX, OP_GET_RANGED_INDEX} then 1
      else if op \<in> {OP_DEFINE_GLOBAL, OP_GET_GLOBAL, OP_SET_GLOBAL, OP_GET_LOCAL, OP_SET_LOCAL,
             OP_GET_UP_VALUE, OP_SET_UP_VALUE, OP_JUMP_IF_FALSE, OP_JUMP, OP_BREAK_PL, OP_LOOP, OP_CONSTANT,
             OP_POP_N, OP_CLASS, OP_GET_PROPERTY, OP_GET_SELF_PROPERTY, OP_SET_PROPERTY, OP_LIST, OP_DICT,
             OP_CALL_IMPORT, OP_NATIVE_MODULE, OP_SELECT_NATIVE_IMPORT, OP_SWITCH, OP_METHOD, OP_EJECT_IMPORT,
             OP_EJECT_NATIVE_IMPORT, OP_SELECT_IMPORT} then 2
      else if op \<in> {OP_INVOKE, OP_INVOKE_SELF, OP_SUPER_INVOKE, OP_CLASS_PROPERTY} then 3
      else if op = OP_TRY then 6
      else 0)"

text \<open>A closure has two bytes for its function and three for each of its up-values.\<close>

definition get_code_args_count :: "heap \<Rightarrow> b_blob \<Rightarrow> int \<Rightarrow> nat res" where
  "get_code_args_count hp blob ip =
     bindR (cell_get (bl_code blob) ip) (\<lambda>b.
       case code_of_byte b of
         None \<Rightarrow> Inr 0
       | Some OP_CLOSURE \<Rightarrow>
           bindR (cell_get (bl_code blob) (ip + 1)) (\<lambda>hi.
           bindR (cell_get (bl_code blob) (ip + 2)) (\<lambda>lo.
           bindR (cell_get (va_values (bl_constants blob)) (uint hi * 256 + uint lo)) (\<lambda>v.
           bindR (function_at hp (AS_OBJ v)) (\<lambda>fn. Inr (2 + f_up_value_count fn * 3)))))
       | Some op \<Rightarrow> Inr (code_args op))"

text \<open>
  The placeholders of \<open>break\<close> become jumps to the end of the code. A patched instruction is met again
  as a jump and passed over, so each step of the source's loop is one or two rounds.
\<close>

fun end_loop_from :: "nat \<Rightarrow> int \<Rightarrow> p_step" where
  "end_loop_from 0 i p = Inl Divergence"
| "end_loop_from (Suc n) i p =
     bindR (current_blob p) (\<lambda>blob.
       if i < int (bl_count blob)
       then bindR (cell_get (bl_code blob) i) (\<lambda>b.
              if b = byte_of_code OP_BREAK_PL
              then bindR (seqR [patch_byte i (byte_of_code OP_JUMP), patch_jump (i + 1)] p) (end_loop_from n i)
              else bindR (get_code_args_count (vm_heap (ps_vm p)) blob i) (\<lambda>k. end_loop_from n (i + 1 + int k) p))
       else Inr p)"

definition end_loop :: p_step where
  "end_loop p =
     bindR (blob_count p) (\<lambda>count. end_loop_from (2 * nat count + 1) (ps_innermost_loop_start p) p)"

end
