(* ===== verification/Debug.thy ===== *)
theory Debug
  imports Compiler_State
begin

text \<open>
  \<open>debug.c\<close>: the disassembler. Each function gives the text that it prints and the position of the next
  instruction. An operand behind the block of the code, or an index behind the constants, is an error.
\<close>

section \<open>Format directives\<close>

definition pad_left :: "char \<Rightarrow> nat \<Rightarrow> string \<Rightarrow> string" where
  "pad_left c width s = replicate (width - length s) c @ s"

text \<open>\<open>%8d\<close>, and \<open>%0nd\<close> of a number that is not negative.\<close>

definition num8 :: "int \<Rightarrow> string" where
  "num8 n = pad_left (CHR '' '') 8 (dec_int n)"

definition num0 :: "nat \<Rightarrow> int \<Rightarrow> string" where
  "num0 width n = pad_left (CHR ''0'') width (dec_int n)"

text \<open>\<open>%-16s\<close>\<close>

definition name16 :: "string \<Rightarrow> string" where
  "name16 s = s @ replicate (16 - length s) (CHR '' '')"

section \<open>Instructions by the form of their operands\<close>

definition code_at :: "b_blob \<Rightarrow> int \<Rightarrow> int res" where
  "code_at blob i = bindR (cell_get (bl_code blob) i) (\<lambda>b. Inr (uint b))"

definition short_at :: "b_blob \<Rightarrow> int \<Rightarrow> int res" where
  "short_at blob i = bindR (code_at blob i) (\<lambda>hi. bindR (code_at blob (i + 1)) (\<lambda>lo. Inr (hi * 256 + lo)))"

definition simple_instruction :: "string \<Rightarrow> int \<Rightarrow> (byte list \<times> int) res" where
  "simple_instruction name offset = Inr (cstr (name @ [CHR 0x0A]), offset + 1)"

definition print_constant :: "nat \<Rightarrow> heap \<Rightarrow> b_blob \<Rightarrow> int \<Rightarrow> byte list res" where
  "print_constant fuel hp blob constant =
     bindR (cell_get (va_values (bl_constants blob)) constant) (print_value fuel hp False)"

definition constant_instruction :: "nat \<Rightarrow> heap \<Rightarrow> string \<Rightarrow> b_blob \<Rightarrow> int \<Rightarrow> (byte list \<times> int) res" where
  "constant_instruction fuel hp name blob offset =
     bindR (short_at blob (offset + 1)) (\<lambda>constant.
     bindR (print_constant fuel hp blob constant) (\<lambda>chars.
       Inr (cstr (name16 name @ '' '' @ num8 constant @ [CHR '' '', CHR 0x27]) @ chars @ cstr [CHR 0x27, CHR 0x0A], offset + 3)))"

definition short_instruction :: "string \<Rightarrow> b_blob \<Rightarrow> int \<Rightarrow> (byte list \<times> int) res" where
  "short_instruction name blob offset =
     bindR (short_at blob (offset + 1)) (\<lambda>slot.
       Inr (cstr (name16 name @ '' '' @ num8 slot @ [CHR 0x0A]), offset + 3))"

definition byte_instruction :: "string \<Rightarrow> b_blob \<Rightarrow> int \<Rightarrow> (byte list \<times> int) res" where
  "byte_instruction name blob offset =
     bindR (code_at blob (offset + 1)) (\<lambda>slot.
       Inr (cstr (name16 name @ '' '' @ num8 slot @ [CHR 0x0A]), offset + 2))"

definition jump_instruction :: "string \<Rightarrow> int \<Rightarrow> b_blob \<Rightarrow> int \<Rightarrow> (byte list \<times> int) res" where
  "jump_instruction name sign blob offset =
     bindR (short_at blob (offset + 1)) (\<lambda>jump.
       Inr (cstr (name16 name @ '' '' @ num8 offset @ '' -> '' @ dec_int (offset + 3 + sign * jump) @ [CHR 0x0A]), offset + 3))"

definition try_instruction :: "string \<Rightarrow> b_blob \<Rightarrow> int \<Rightarrow> (byte list \<times> int) res" where
  "try_instruction name blob offset =
     bindR (short_at blob (offset + 1)) (\<lambda>type.
     bindR (short_at blob (offset + 3)) (\<lambda>address.
     bindR (short_at blob (offset + 5)) (\<lambda>finally_address.
       Inr (cstr (name16 name @ '' '' @ num8 type @ '' -> '' @ dec_int address @ '', '' @ dec_int finally_address @ [CHR 0x0A]),
            offset + 7))))"

definition invoke_instruction :: "nat \<Rightarrow> heap \<Rightarrow> string \<Rightarrow> b_blob \<Rightarrow> int \<Rightarrow> (byte list \<times> int) res" where
  "invoke_instruction fuel hp name blob offset =
     bindR (short_at blob (offset + 1)) (\<lambda>constant.
     bindR (code_at blob (offset + 3)) (\<lambda>arg_count.
     bindR (print_constant fuel hp blob constant) (\<lambda>chars.
       Inr (cstr (name16 name @ '' ('' @ dec_int arg_count @ '' args) '' @ num8 constant @ [CHR '' '', CHR 0x27]) @ chars @
            cstr [CHR 0x27, CHR 0x0A], offset + 4))))"

text \<open>The up-values of a closure, from the position behind its function.\<close>

fun up_value_lines :: "b_blob \<Rightarrow> nat \<Rightarrow> int \<Rightarrow> (byte list \<times> int) res" where
  "up_value_lines blob 0 offset = Inr ([], offset)"
| "up_value_lines blob (Suc n) offset =
     bindR (code_at blob offset) (\<lambda>is_local.
     bindR (short_at blob (offset + 1)) (\<lambda>index.
     bindR (up_value_lines blob n (offset + 3)) (\<lambda>(rest, stop).
       Inr (cstr (num0 4 offset @ ''      |                     '' @ (if is_local \<noteq> 0 then ''local'' else ''up-value'') @ '' '' @
                  dec_int index @ [CHR 0x0A]) @ rest, stop))))"

definition closure_instruction :: "nat \<Rightarrow> heap \<Rightarrow> b_blob \<Rightarrow> int \<Rightarrow> (byte list \<times> int) res" where
  "closure_instruction fuel hp blob offset =
     bindR (short_at blob (offset + 1)) (\<lambda>constant.
     bindR (cell_get (va_values (bl_constants blob)) constant) (\<lambda>v.
     bindR (print_value fuel hp False v) (\<lambda>chars.
     bindR (function_at hp (AS_OBJ v)) (\<lambda>fn.
     bindR (up_value_lines blob (f_up_value_count fn) (offset + 3)) (\<lambda>(rest, stop).
       Inr (cstr (name16 ''clsur'' @ '' '' @ num8 constant @ '' '') @ chars @ cstr [CHR 0x0A] @ rest, stop))))))"

fun disassemble_op :: "nat \<Rightarrow> heap \<Rightarrow> b_blob \<Rightarrow> int \<Rightarrow> b_code \<Rightarrow> (byte list \<times> int) res" where
  "disassemble_op fuel hp blob offset OP_DEFINE_GLOBAL = constant_instruction fuel hp ''d_glob'' blob offset"
| "disassemble_op fuel hp blob offset OP_GET_GLOBAL = constant_instruction fuel hp ''g_glob'' blob offset"
| "disassemble_op fuel hp blob offset OP_SET_GLOBAL = constant_instruction fuel hp ''s_glob'' blob offset"
| "disassemble_op fuel hp blob offset OP_GET_LOCAL = short_instruction ''g_loc'' blob offset"
| "disassemble_op fuel hp blob offset OP_GET_UP_VALUE = short_instruction ''g_up_v'' blob offset"
| "disassemble_op fuel hp blob offset OP_SET_LOCAL = short_instruction ''s_loc'' blob offset"
| "disassemble_op fuel hp blob offset OP_SET_UP_VALUE = short_instruction ''s_up_v'' blob offset"
| "disassemble_op fuel hp blob offset OP_CLOSE_UP_VALUE = simple_instruction ''cl_up_v'' offset"
| "disassemble_op fuel hp blob offset OP_GET_PROPERTY = constant_instruction fuel hp ''g_prop'' blob offset"
| "disassemble_op fuel hp blob offset OP_GET_SELF_PROPERTY = constant_instruction fuel hp ''g_props'' blob offset"
| "disassemble_op fuel hp blob offset OP_SET_PROPERTY = constant_instruction fuel hp ''s_prop'' blob offset"
| "disassemble_op fuel hp blob offset OP_JUMP_IF_FALSE = jump_instruction ''f_jump'' 1 blob offset"
| "disassemble_op fuel hp blob offset OP_JUMP = jump_instruction ''jump'' 1 blob offset"
| "disassemble_op fuel hp blob offset OP_LOOP = jump_instruction ''loop'' (-1) blob offset"
| "disassemble_op fuel hp blob offset OP_EQUAL = simple_instruction ''eq'' offset"
| "disassemble_op fuel hp blob offset OP_GREATER = simple_instruction ''gt'' offset"
| "disassemble_op fuel hp blob offset OP_LESS = simple_instruction ''less'' offset"
| "disassemble_op fuel hp blob offset OP_EMPTY = simple_instruction ''em'' offset"
| "disassemble_op fuel hp blob offset OP_NIL = simple_instruction ''nil'' offset"
| "disassemble_op fuel hp blob offset OP_TRUE = simple_instruction ''true'' offset"
| "disassemble_op fuel hp blob offset OP_FALSE = simple_instruction ''false'' offset"
| "disassemble_op fuel hp blob offset OP_ADD = simple_instruction ''add'' offset"
| "disassemble_op fuel hp blob offset OP_SUBTRACT = simple_instruction ''sub'' offset"
| "disassemble_op fuel hp blob offset OP_MULTIPLY = simple_instruction ''mul'' offset"
| "disassemble_op fuel hp blob offset OP_DIVIDE = simple_instruction ''div'' offset"
| "disassemble_op fuel hp blob offset OP_F_DIVIDE = simple_instruction ''f_div'' offset"
| "disassemble_op fuel hp blob offset OP_REMINDER = simple_instruction ''r_mod'' offset"
| "disassemble_op fuel hp blob offset OP_POW = simple_instruction ''pow'' offset"
| "disassemble_op fuel hp blob offset OP_NEGATE = simple_instruction ''neg'' offset"
| "disassemble_op fuel hp blob offset OP_NOT = simple_instruction ''not'' offset"
| "disassemble_op fuel hp blob offset OP_BIT_NOT = simple_instruction ''b_not'' offset"
| "disassemble_op fuel hp blob offset OP_AND = simple_instruction ''b_and'' offset"
| "disassemble_op fuel hp blob offset OP_OR = simple_instruction ''b_or'' offset"
| "disassemble_op fuel hp blob offset OP_XOR = simple_instruction ''b_xor'' offset"
| "disassemble_op fuel hp blob offset OP_LSHIFT = simple_instruction ''l_shift'' offset"
| "disassemble_op fuel hp blob offset OP_RSHIFT = simple_instruction ''r_shift'' offset"
| "disassemble_op fuel hp blob offset OP_ONE = simple_instruction ''one'' offset"
| "disassemble_op fuel hp blob offset OP_CONSTANT = constant_instruction fuel hp ''load'' blob offset"
| "disassemble_op fuel hp blob offset OP_ECHO = simple_instruction ''echo'' offset"
| "disassemble_op fuel hp blob offset OP_POP = simple_instruction ''pop'' offset"
| "disassemble_op fuel hp blob offset OP_DUP = simple_instruction ''dup'' offset"
| "disassemble_op fuel hp blob offset OP_POP_N = short_instruction ''pop_n'' blob offset"
| "disassemble_op fuel hp blob offset OP_ASSERT = simple_instruction ''assrt'' offset"
| "disassemble_op fuel hp blob offset OP_DIE = simple_instruction ''die'' offset"
| "disassemble_op fuel hp blob offset OP_CLOSURE = closure_instruction fuel hp blob offset"
| "disassemble_op fuel hp blob offset OP_CALL = byte_instruction ''call'' blob offset"
| "disassemble_op fuel hp blob offset OP_INVOKE = invoke_instruction fuel hp ''invk'' blob offset"
| "disassemble_op fuel hp blob offset OP_INVOKE_SELF = invoke_instruction fuel hp ''invk_s'' blob offset"
| "disassemble_op fuel hp blob offset OP_RETURN = simple_instruction ''ret'' offset"
| "disassemble_op fuel hp blob offset OP_CLASS = constant_instruction fuel hp ''class'' blob offset"
| "disassemble_op fuel hp blob offset OP_METHOD = constant_instruction fuel hp ''meth'' blob offset"
| "disassemble_op fuel hp blob offset OP_CLASS_PROPERTY = constant_instruction fuel hp ''cl_prop'' blob offset"
| "disassemble_op fuel hp blob offset OP_INHERIT = simple_instruction ''inher'' offset"
| "disassemble_op fuel hp blob offset OP_GET_SUPER = constant_instruction fuel hp ''g_sup'' blob offset"
| "disassemble_op fuel hp blob offset OP_SUPER_INVOKE = invoke_instruction fuel hp ''s_invk'' blob offset"
| "disassemble_op fuel hp blob offset OP_SUPER_INVOKE_SELF = byte_instruction ''s_invk_s'' blob offset"
| "disassemble_op fuel hp blob offset OP_RANGE = short_instruction ''rng'' blob offset"
| "disassemble_op fuel hp blob offset OP_LIST = short_instruction ''list'' blob offset"
| "disassemble_op fuel hp blob offset OP_DICT = short_instruction ''dict'' blob offset"
| "disassemble_op fuel hp blob offset OP_GET_INDEX = byte_instruction ''g_ind'' blob offset"
| "disassemble_op fuel hp blob offset OP_GET_RANGED_INDEX = byte_instruction ''gr_ind'' blob offset"
| "disassemble_op fuel hp blob offset OP_SET_INDEX = simple_instruction ''s_ind'' offset"
| "disassemble_op fuel hp blob offset OP_CALL_IMPORT = short_instruction ''c_import'' blob offset"
| "disassemble_op fuel hp blob offset OP_NATIVE_MODULE = short_instruction ''f_import'' blob offset"
| "disassemble_op fuel hp blob offset OP_SELECT_IMPORT = short_instruction ''s_import'' blob offset"
| "disassemble_op fuel hp blob offset OP_SELECT_NATIVE_IMPORT = short_instruction ''sn_import'' blob offset"
| "disassemble_op fuel hp blob offset OP_IMPORT_ALL_NATIVE = simple_instruction ''an_import'' offset"
| "disassemble_op fuel hp blob offset OP_EJECT_IMPORT = short_instruction ''e_import'' blob offset"
| "disassemble_op fuel hp blob offset OP_EJECT_NATIVE_IMPORT = short_instruction ''en_import'' blob offset"
| "disassemble_op fuel hp blob offset OP_IMPORT_ALL = simple_instruction ''a_import'' offset"
| "disassemble_op fuel hp blob offset OP_TRY = try_instruction ''i_try'' blob offset"
| "disassemble_op fuel hp blob offset OP_POP_TRY = simple_instruction ''p_try'' offset"
| "disassemble_op fuel hp blob offset OP_PUBLISH_TRY = simple_instruction ''pub_try'' offset"
| "disassemble_op fuel hp blob offset OP_STRINGIFY = simple_instruction ''str'' offset"
| "disassemble_op fuel hp blob offset OP_SWITCH = short_instruction ''sw'' blob offset"
| "disassemble_op fuel hp blob offset OP_CHOICE = simple_instruction ''cho'' offset"
| "disassemble_op fuel hp blob offset OP_BREAK_PL = Inr (cstr (''unknown opcode '' @ dec_nat (unat (byte_of_code OP_BREAK_PL)) @ [CHR 0x0A]), offset + 1)"

text \<open>The line is printed when it is not the one of the byte before.\<close>

definition line_column :: "b_blob \<Rightarrow> int \<Rightarrow> byte list res" where
  "line_column blob offset =
     bindR (cell_get (bl_lines blob) offset) (\<lambda>line.
     bindR (if 0 < offset then bindR (cell_get (bl_lines blob) (offset - 1)) (\<lambda>previous_line. Inr (line = previous_line))
            else Inr False) (\<lambda>same.
       Inr (cstr (if same then ''       | '' else num8 line @ '' ''))))"

definition disassemble_instruction :: "nat \<Rightarrow> heap \<Rightarrow> b_blob \<Rightarrow> int \<Rightarrow> (byte list \<times> int) res" where
  "disassemble_instruction fuel hp blob offset =
     bindR (line_column blob offset) (\<lambda>column.
     bindR (cell_get (bl_code blob) offset) (\<lambda>instruction.
     bindR (case code_of_byte instruction of
              Some op \<Rightarrow> disassemble_op fuel hp blob offset op
            | None \<Rightarrow> Inr (cstr (''unknown opcode '' @ dec_nat (unat instruction) @ [CHR 0x0A]), offset + 1)) (\<lambda>(chars, stop).
       Inr (cstr (num0 8 offset @ '' '') @ column @ chars, stop))))"

fun disassemble_from :: "nat \<Rightarrow> nat \<Rightarrow> heap \<Rightarrow> b_blob \<Rightarrow> int \<Rightarrow> byte list res" where
  "disassemble_from 0 fuel hp blob offset = Inl Divergence"
| "disassemble_from (Suc n) fuel hp blob offset =
     (if offset < int (bl_count blob)
      then bindR (disassemble_instruction fuel hp blob offset) (\<lambda>(chars, stop).
           bindR (disassemble_from n fuel hp blob stop) (\<lambda>rest. Inr (chars @ rest)))
      else Inr [])"

text \<open>Every instruction has a byte, so the length of the code bounds the number of rounds.\<close>

definition disassemble_blob :: "nat \<Rightarrow> heap \<Rightarrow> b_blob \<Rightarrow> string \<Rightarrow> byte list res" where
  "disassemble_blob fuel hp blob name =
     bindR (disassemble_from (Suc (bl_count blob)) fuel hp blob 0) (\<lambda>chars.
       Inr (cstr (''== '' @ name @ '' =='' @ [CHR 0x0A]) @ chars))"

end
