(* ===== verification/Pathinfo.thy ===== *)
theory Pathinfo
  imports Prelude
begin

text \<open>
  \<open>pathinfo.c\<close>: where an imported module is looked for. The file system is a parameter, the record
  \<open>b_files\<close>: the system calls \<open>access\<close>, \<open>realpath\<close>, \<open>getcwd\<close> and the path of the executable, and the
  contents of files (\<open>read_file\<close> of \<open>util.c\<close>). Paths are those of a Unix system; the branches of the
  source that only compile on Windows are left out. The directory part of a path is the one of
  \<open>dirname\<close>.
\<close>

record b_files =
  fs_access :: "string \<Rightarrow> bool"
  fs_realpath :: "string \<Rightarrow> string option"
  fs_cwd :: string
  fs_exe_path :: string
  fs_read :: "string \<Rightarrow> string option"

abbreviation SLASH :: char where "SLASH \<equiv> CHR ''/''"

definition BLADE_PATH_SEPARATOR :: string where "BLADE_PATH_SEPARATOR = ''/''"
definition BLADE_EXTENSION :: string where "BLADE_EXTENSION = ''.b''"
definition LIBRARY_DIRECTORY :: string where "LIBRARY_DIRECTORY = ''libs''"
definition LIBRARY_DIRECTORY_INDEX :: string where "LIBRARY_DIRECTORY_INDEX = ''index''"
definition PACKAGES_DIRECTORY :: string where "PACKAGES_DIRECTORY = ''vendor''"
definition LOCAL_PACKAGES_DIRECTORY :: string where "LOCAL_PACKAGES_DIRECTORY = ''.blade''"
definition LOCAL_SRC_DIRECTORY :: string where "LOCAL_SRC_DIRECTORY = ''/libs''"

text \<open>\<open>dirname\<close>: without trailing slashes, the last component and the slashes before it.\<close>

definition strip_slashes :: "string \<Rightarrow> string" where
  "strip_slashes s = rev (dropWhile (\<lambda>c. c = SLASH) (rev s))"

definition dirname :: "string \<Rightarrow> string" where
  "dirname path =
     (let p = strip_slashes path;
          d = rev (dropWhile (\<lambda>c. c \<noteq> SLASH) (rev p))
      in if p = '''' then (if path = '''' then ''.'' else ''/'')
         else if d = '''' then ''.''
         else if strip_slashes d = '''' then ''/'' else strip_slashes d)"

definition get_exe_dir :: "b_files \<Rightarrow> string" where
  "get_exe_dir fs = dirname (fs_exe_path fs)"

definition merge_paths :: "string \<Rightarrow> string \<Rightarrow> string" where
  "merge_paths a b =
     (if b = '''' then a else if a = '''' then b
      else a @ (if b = ''.b'' then '''' else BLADE_PATH_SEPARATOR) @ b)"

definition file_exists :: "b_files \<Rightarrow> string \<Rightarrow> bool" where
  "file_exists fs path = fs_access fs path"

definition get_blade_filename :: "string \<Rightarrow> string" where
  "get_blade_filename filename = merge_paths filename BLADE_EXTENSION"

text \<open>
  One place to look: the real path of an existing file, unless it starts with the real path of the
  importing file, which keeps a module from importing itself.
\<close>

definition try_path :: "b_files \<Rightarrow> string \<Rightarrow> string \<Rightarrow> string option" where
  "try_path fs current_file candidate =
     (if file_exists fs candidate
      then (case fs_realpath fs candidate of
              None \<Rightarrow> None
            | Some path1 \<Rightarrow>
                (case fs_realpath fs current_file of
                   None \<Rightarrow> Some path1
                 | Some path2 \<Rightarrow> if take (length path2) path1 \<noteq> path2 then Some path1 else None))
      else None)"

fun first_path :: "b_files \<Rightarrow> string \<Rightarrow> string list \<Rightarrow> string option" where
  "first_path fs current_file [] = None"
| "first_path fs current_file (c # cs) =
     (case try_path fs current_file c of Some p \<Rightarrow> Some p | None \<Rightarrow> first_path fs current_file cs)"

definition trim_backslash :: "string \<Rightarrow> string" where
  "trim_backslash s = (if s \<noteq> '''' \<and> last s = CHR 0x5C then butlast s else s)"

text \<open>The places in the order of the source.\<close>

definition import_candidates :: "b_files \<Rightarrow> string \<Rightarrow> string \<Rightarrow> bool \<Rightarrow> string list" where
  "import_candidates fs module_name current_file is_relative =
     (let blade_file_name = get_blade_filename module_name;
          file_directory = trim_backslash (dirname current_file);
          root_dir = trim_backslash (fs_cwd fs);
          vendor = merge_paths root_dir (LOCAL_PACKAGES_DIRECTORY @ LOCAL_SRC_DIRECTORY);
          blade_directory = merge_paths (get_exe_dir fs) LIBRARY_DIRECTORY;
          package_directory = merge_paths (get_exe_dir fs) PACKAGES_DIRECTORY;
          index_file = LIBRARY_DIRECTORY_INDEX @ BLADE_EXTENSION
      in if \<not> is_relative
         then [merge_paths vendor blade_file_name,
               merge_paths (merge_paths vendor module_name) index_file,
               merge_paths blade_directory blade_file_name,
               merge_paths (merge_paths blade_directory module_name) (get_blade_filename LIBRARY_DIRECTORY_INDEX),
               merge_paths package_directory blade_file_name,
               merge_paths (merge_paths package_directory module_name) index_file]
         else [merge_paths file_directory blade_file_name,
               merge_paths (merge_paths file_directory module_name) (get_blade_filename LIBRARY_DIRECTORY_INDEX)])"

definition resolve_import_path :: "b_files \<Rightarrow> string \<Rightarrow> string \<Rightarrow> bool \<Rightarrow> string option" where
  "resolve_import_path fs module_name current_file is_relative =
     first_path fs current_file (import_candidates fs module_name current_file is_relative)"

end
