(* ===== verification/Compiler_Expr.thy ===== *)
theory Compiler_Expr
  imports Compiler_State Pathinfo
begin

text \<open>
  Expressions in \<open>compiler.c\<close>: number and string literals, the table of parse rules, the functions for
  each kind of expression, functions and blocks.

  The functions of the parser call each other recursively through \<open>parse_precedence\<close>, \<open>statement\<close> and
  \<open>declaration\<close>. Each function below takes these calls from its context (\<open>cx_rec\<close>), so that it reads
  like the source and is not recursive itself; \<open>Compiler_Stmt\<close> closes the recursion. The context also has
  the fuel for the loops and the file system for imports.
\<close>

datatype p_call = Parse_Precedence nat | Parse_Precedence_No_Advance nat | Statement | Declaration

record p_context =
  cx_fuel :: nat
  cx_rec :: "p_call \<Rightarrow> p_step"
  cx_files :: b_files

section \<open>Precedences\<close>

text \<open>The enumeration \<open>b_precedence\<close>, on which the source computes.\<close>

abbreviation (input) PREC_NONE :: nat where "PREC_NONE \<equiv> 0"
abbreviation (input) PREC_ASSIGNMENT :: nat where "PREC_ASSIGNMENT \<equiv> 1"
abbreviation (input) PREC_CONDITIONAL :: nat where "PREC_CONDITIONAL \<equiv> 2"
abbreviation (input) PREC_OR :: nat where "PREC_OR \<equiv> 3"
abbreviation (input) PREC_AND :: nat where "PREC_AND \<equiv> 4"
abbreviation (input) PREC_EQUALITY :: nat where "PREC_EQUALITY \<equiv> 5"
abbreviation (input) PREC_COMPARISON :: nat where "PREC_COMPARISON \<equiv> 6"
abbreviation (input) PREC_BIT_OR :: nat where "PREC_BIT_OR \<equiv> 7"
abbreviation (input) PREC_BIT_XOR :: nat where "PREC_BIT_XOR \<equiv> 8"
abbreviation (input) PREC_BIT_AND :: nat where "PREC_BIT_AND \<equiv> 9"
abbreviation (input) PREC_SHIFT :: nat where "PREC_SHIFT \<equiv> 10"
abbreviation (input) PREC_RANGE :: nat where "PREC_RANGE \<equiv> 11"
abbreviation (input) PREC_TERM :: nat where "PREC_TERM \<equiv> 12"
abbreviation (input) PREC_FACTOR :: nat where "PREC_FACTOR \<equiv> 13"
abbreviation (input) PREC_UNARY :: nat where "PREC_UNARY \<equiv> 14"
abbreviation (input) PREC_CALL :: nat where "PREC_CALL \<equiv> 15"

datatype b_parse_prefix_fn =
    Grouping | List_Lit | Dictionary | Unary | Anonymous | Literal | Parent | Self | String_Lit | Number
  | Variable | Interpolation

datatype b_parse_infix_fn = Call | Indexing | Binary | Dot | Conditional | And_Fn | Or_Fn

record b_parse_rule =
  pr_prefix :: "b_parse_prefix_fn option"
  pr_infix :: "b_parse_infix_fn option"
  pr_precedence :: nat

definition no_rule :: b_parse_rule where
  "no_rule = \<lparr>pr_prefix = None, pr_infix = None, pr_precedence = PREC_NONE\<rparr>"

definition prefix_rule :: "b_parse_prefix_fn \<Rightarrow> b_parse_rule" where
  "prefix_rule f = \<lparr>pr_prefix = Some f, pr_infix = None, pr_precedence = PREC_NONE\<rparr>"

definition infix_rule :: "b_parse_infix_fn \<Rightarrow> nat \<Rightarrow> b_parse_rule" where
  "infix_rule f prec = \<lparr>pr_prefix = None, pr_infix = Some f, pr_precedence = prec\<rparr>"

definition both_rule :: "b_parse_prefix_fn \<Rightarrow> b_parse_infix_fn \<Rightarrow> nat \<Rightarrow> b_parse_rule" where
  "both_rule f g prec = \<lparr>pr_prefix = Some f, pr_infix = Some g, pr_precedence = prec\<rparr>"

fun symbol_rule :: "b_symbol \<Rightarrow> b_parse_rule" where
  "symbol_rule LPAREN_TOKEN = both_rule Grouping Call PREC_CALL"
| "symbol_rule LBRACKET_TOKEN = both_rule List_Lit Indexing PREC_CALL"
| "symbol_rule LBRACE_TOKEN = prefix_rule Dictionary"
| "symbol_rule BANG_TOKEN = prefix_rule Unary"
| "symbol_rule BANG_EQ_TOKEN = infix_rule Binary PREC_EQUALITY"
| "symbol_rule DOT_TOKEN = infix_rule Dot PREC_CALL"
| "symbol_rule RANGE_TOKEN = infix_rule Binary PREC_RANGE"
| "symbol_rule PLUS_TOKEN = both_rule Unary Binary PREC_TERM"
| "symbol_rule MINUS_TOKEN = both_rule Unary Binary PREC_TERM"
| "symbol_rule MULTIPLY_TOKEN = infix_rule Binary PREC_FACTOR"
| "symbol_rule POW_TOKEN = infix_rule Binary PREC_FACTOR"
| "symbol_rule DIVIDE_TOKEN = infix_rule Binary PREC_FACTOR"
| "symbol_rule FLOOR_TOKEN = infix_rule Binary PREC_FACTOR"
| "symbol_rule EQUAL_EQ_TOKEN = infix_rule Binary PREC_EQUALITY"
| "symbol_rule LESS_TOKEN = infix_rule Binary PREC_COMPARISON"
| "symbol_rule LESS_EQ_TOKEN = infix_rule Binary PREC_COMPARISON"
| "symbol_rule LSHIFT_TOKEN = infix_rule Binary PREC_SHIFT"
| "symbol_rule GREATER_TOKEN = infix_rule Binary PREC_COMPARISON"
| "symbol_rule GREATER_EQ_TOKEN = infix_rule Binary PREC_COMPARISON"
| "symbol_rule RSHIFT_TOKEN = infix_rule Binary PREC_SHIFT"
| "symbol_rule PERCENT_TOKEN = infix_rule Binary PREC_FACTOR"
| "symbol_rule AMP_TOKEN = infix_rule Binary PREC_BIT_AND"
| "symbol_rule BAR_TOKEN = both_rule Anonymous Binary PREC_BIT_OR"
| "symbol_rule TILDE_TOKEN = \<lparr>pr_prefix = Some Unary, pr_infix = None, pr_precedence = PREC_UNARY\<rparr>"
| "symbol_rule XOR_TOKEN = infix_rule Binary PREC_BIT_XOR"
| "symbol_rule QUESTION_TOKEN = infix_rule Conditional PREC_CONDITIONAL"
| "symbol_rule _ = no_rule"

fun keyword_rule :: "b_keyword \<Rightarrow> b_parse_rule" where
  "keyword_rule AND_TOKEN = infix_rule And_Fn PREC_AND"
| "keyword_rule FALSE_TOKEN = prefix_rule Literal"
| "keyword_rule NIL_TOKEN = prefix_rule Literal"
| "keyword_rule OR_TOKEN = infix_rule Or_Fn PREC_OR"
| "keyword_rule PARENT_TOKEN = prefix_rule Parent"
| "keyword_rule SELF_TOKEN = prefix_rule Self"
| "keyword_rule TRUE_TOKEN = prefix_rule Literal"
| "keyword_rule _ = no_rule"

fun get_rule :: "b_tkn_type \<Rightarrow> b_parse_rule" where
  "get_rule (Symbol s) = symbol_rule s"
| "get_rule (Keyword k) = keyword_rule k"
| "get_rule LITERAL_TOKEN = prefix_rule String_Lit"
| "get_rule REG_NUMBER_TOKEN = prefix_rule Number"
| "get_rule BIN_NUMBER_TOKEN = prefix_rule Number"
| "get_rule OCT_NUMBER_TOKEN = prefix_rule Number"
| "get_rule HEX_NUMBER_TOKEN = prefix_rule Number"
| "get_rule IDENTIFIER_TOKEN = prefix_rule Variable"
| "get_rule INTERPOLATION_TOKEN = prefix_rule Interpolation"
| "get_rule EMPTY_TOKEN = prefix_rule Literal"
| "get_rule _ = no_rule"

definition expression :: "p_context \<Rightarrow> p_step" where
  "expression cx = cx_rec cx (Parse_Precedence PREC_ASSIGNMENT)"

definition set_echo :: "bool \<Rightarrow> p_step" where
  "set_echo b p = Inr (p\<lparr>ps_repl_can_echo := b\<rparr>)"

section \<open>Operators\<close>

fun binary_ops :: "b_tkn_type \<Rightarrow> b_code list" where
  "binary_ops (Symbol PLUS_TOKEN) = [OP_ADD]"
| "binary_ops (Symbol MINUS_TOKEN) = [OP_SUBTRACT]"
| "binary_ops (Symbol MULTIPLY_TOKEN) = [OP_MULTIPLY]"
| "binary_ops (Symbol DIVIDE_TOKEN) = [OP_DIVIDE]"
| "binary_ops (Symbol PERCENT_TOKEN) = [OP_REMINDER]"
| "binary_ops (Symbol POW_TOKEN) = [OP_POW]"
| "binary_ops (Symbol FLOOR_TOKEN) = [OP_F_DIVIDE]"
| "binary_ops (Symbol EQUAL_EQ_TOKEN) = [OP_EQUAL]"
| "binary_ops (Symbol BANG_EQ_TOKEN) = [OP_EQUAL, OP_NOT]"
| "binary_ops (Symbol GREATER_TOKEN) = [OP_GREATER]"
| "binary_ops (Symbol GREATER_EQ_TOKEN) = [OP_LESS, OP_NOT]"
| "binary_ops (Symbol LESS_TOKEN) = [OP_LESS]"
| "binary_ops (Symbol LESS_EQ_TOKEN) = [OP_GREATER, OP_NOT]"
| "binary_ops (Symbol AMP_TOKEN) = [OP_AND]"
| "binary_ops (Symbol BAR_TOKEN) = [OP_OR]"
| "binary_ops (Symbol XOR_TOKEN) = [OP_XOR]"
| "binary_ops (Symbol LSHIFT_TOKEN) = [OP_LSHIFT]"
| "binary_ops (Symbol RSHIFT_TOKEN) = [OP_RSHIFT]"
| "binary_ops (Symbol RANGE_TOKEN) = [OP_RANGE]"
| "binary_ops _ = []"

definition emit_ops :: "b_code list \<Rightarrow> p_step" where
  "emit_ops ops = seqR (map (\<lambda>op. emit_op op) ops)"

definition binary :: "p_context \<Rightarrow> p_step" where
  "binary cx p =
     (let op = tk_type (ps_previous p)
      in seqR [cx_rec cx (Parse_Precedence (pr_precedence (get_rule op) + 1)), emit_ops (binary_ops op)] p)"

fun unary_ops :: "b_tkn_type \<Rightarrow> b_code list" where
  "unary_ops (Symbol MINUS_TOKEN) = [OP_NEGATE]"
| "unary_ops (Symbol BANG_TOKEN) = [OP_NOT]"
| "unary_ops (Symbol TILDE_TOKEN) = [OP_BIT_NOT]"
| "unary_ops _ = []"

definition unary :: "p_context \<Rightarrow> p_step" where
  "unary cx p =
     (let op = tk_type (ps_previous p)
      in seqR [cx_rec cx (Parse_Precedence PREC_UNARY), emit_ops (unary_ops op)] p)"

fun literal_ops :: "b_tkn_type \<Rightarrow> b_code list" where
  "literal_ops (Keyword NIL_TOKEN) = [OP_NIL]"
| "literal_ops (Keyword TRUE_TOKEN) = [OP_TRUE]"
| "literal_ops (Keyword FALSE_TOKEN) = [OP_FALSE]"
| "literal_ops _ = []"

definition literal :: p_step where
  "literal p = emit_ops (literal_ops (tk_type (ps_previous p))) p"

definition MAX_FUNCTION_PARAMETERS :: int where "MAX_FUNCTION_PARAMETERS = 255"

text \<open>The count is an \<open>uint8_t\<close> and wraps around.\<close>

definition argument_list :: "p_context \<Rightarrow> b_parser \<Rightarrow> (b_parser \<times> int) res" where
  "argument_list cx p =
     bindR (if check_p p (Symbol RPAREN_TOKEN) then Inr (p, 0)
            else do_while (cx_fuel cx)
              (\<lambda>(p, arg_count).
                 bindR (seqR [ignore_whitespace, expression cx,
                              if arg_count = MAX_FUNCTION_PARAMETERS
                              then error ''cannot have more than %d arguments to a function'' else Inr] p) (\<lambda>p.
                 bindR (match_p (Symbol COMMA_TOKEN) p) (\<lambda>(p, again). Inr ((p, (arg_count + 1) mod 256), again))))
              (p, 0)) (\<lambda>(p, arg_count).
     bindR (seqR [ignore_whitespace, consume (Symbol RPAREN_TOKEN) (''expected '' @ [SQUOTE] @ '')'' @ [SQUOTE] @ '' after argument list'')] p)
       (\<lambda>p. Inr (p, arg_count)))"

definition call_p :: "p_context \<Rightarrow> p_step" where
  "call_p cx p =
     bindR (argument_list cx p) (\<lambda>(p, arg_count). emit_bytes (byte_of_code OP_CALL) (word_of_int arg_count) p)"

section \<open>Assignment\<close>

definition is_property_get :: "b_code \<Rightarrow> bool" where
  "is_property_get op = (op = OP_GET_PROPERTY \<or> op = OP_GET_SELF_PROPERTY)"

text \<open>The current value is read before it is changed: a property needs its object twice.\<close>

definition emit_get_for_update :: "b_code \<Rightarrow> int \<Rightarrow> p_step" where
  "emit_get_for_update get_op arg =
     seqR [if is_property_get get_op then emit_op OP_DUP else Inr,
           if arg \<noteq> -1 then emit_op_short get_op arg else emit_bytes (byte_of_code get_op) 1]"

definition emit_set :: "b_code \<Rightarrow> int \<Rightarrow> p_step" where
  "emit_set set_op arg = (if arg \<noteq> -1 then emit_op_short set_op arg else emit_op set_op)"

definition parse_assignment :: "p_context \<Rightarrow> b_code \<Rightarrow> b_code \<Rightarrow> b_code \<Rightarrow> int \<Rightarrow> p_step" where
  "parse_assignment cx real_op get_op set_op arg =
     seqR [set_echo False, emit_get_for_update get_op arg, expression cx, emit_op real_op, emit_set set_op arg]"

fun assign_op :: "b_tkn_type \<Rightarrow> b_code option" where
  "assign_op (Symbol PLUS_EQ_TOKEN) = Some OP_ADD"
| "assign_op (Symbol MINUS_EQ_TOKEN) = Some OP_SUBTRACT"
| "assign_op (Symbol MULTIPLY_EQ_TOKEN) = Some OP_MULTIPLY"
| "assign_op (Symbol DIVIDE_EQ_TOKEN) = Some OP_DIVIDE"
| "assign_op (Symbol POW_EQ_TOKEN) = Some OP_POW"
| "assign_op (Symbol PERCENT_EQ_TOKEN) = Some OP_REMINDER"
| "assign_op (Symbol FLOOR_EQ_TOKEN) = Some OP_F_DIVIDE"
| "assign_op (Symbol AMP_EQ_TOKEN) = Some OP_AND"
| "assign_op (Symbol BAR_EQ_TOKEN) = Some OP_OR"
| "assign_op (Symbol TILDE_EQ_TOKEN) = Some OP_BIT_NOT"
| "assign_op (Symbol XOR_EQ_TOKEN) = Some OP_XOR"
| "assign_op (Symbol LSHIFT_EQ_TOKEN) = Some OP_LSHIFT"
| "assign_op (Symbol RSHIFT_EQ_TOKEN) = Some OP_RSHIFT"
| "assign_op _ = None"

text \<open>\<open>++\<close> and \<open>--\<close>; the operand of the store is written even when there is none.\<close>

definition emit_step :: "b_code \<Rightarrow> b_code \<Rightarrow> b_code \<Rightarrow> int \<Rightarrow> p_step" where
  "emit_step real_op get_op set_op arg =
     seqR [set_echo False, emit_get_for_update get_op arg, emit_bytes (byte_of_code OP_ONE) (byte_of_code real_op),
           emit_op_short set_op arg]"

definition emit_get :: "b_code \<Rightarrow> int \<Rightarrow> p_step" where
  "emit_get get_op arg =
     (if arg \<noteq> -1 \<and> get_op \<noteq> OP_GET_INDEX \<and> get_op \<noteq> OP_GET_RANGED_INDEX then emit_op_short get_op arg
      else emit_bytes (byte_of_code get_op) 0)"

definition assignment :: "p_context \<Rightarrow> b_code \<Rightarrow> b_code \<Rightarrow> int \<Rightarrow> bool \<Rightarrow> p_step" where
  "assignment cx get_op set_op arg can_assign p =
     (let t = tk_type (ps_current p)
      in if \<not> can_assign then emit_get get_op arg p
         else if t = Symbol EQUAL_TOKEN then seqR [advance_p, set_echo False, expression cx, emit_set set_op arg] p
         else if t = Symbol INCREMENT_TOKEN then seqR [advance_p, emit_step OP_ADD get_op set_op arg] p
         else if t = Symbol DECREMENT_TOKEN then seqR [advance_p, emit_step OP_SUBTRACT get_op set_op arg] p
         else case assign_op t of
             Some real_op \<Rightarrow> seqR [advance_p, parse_assignment cx real_op get_op set_op arg] p
           | None \<Rightarrow> emit_get get_op arg p)"

section \<open>Variables and properties\<close>

definition class_name_is :: "b_parser \<Rightarrow> string \<Rightarrow> bool" where
  "class_name_is p name = (case ps_classes p of [] \<Rightarrow> False | c # _ \<Rightarrow> name = cc_name c)"

definition on_self :: "b_token \<Rightarrow> b_parser \<Rightarrow> bool" where
  "on_self prev p =
     (ps_classes p \<noteq> [] \<and> (tk_type prev = Keyword SELF_TOKEN \<or> class_name_is p (tk_chars p (ps_previous p))))"

definition dot :: "p_context \<Rightarrow> b_token \<Rightarrow> bool \<Rightarrow> p_step" where
  "dot cx prev can_assign p =
     bindR (seqR [ignore_whitespace,
                  consume IDENTIFIER_TOKEN (''expected property name after '' @ [SQUOTE] @ ''.'' @ [SQUOTE])] p) (\<lambda>p.
     bindR (identifier_constant (tk_chars p (ps_previous p)) p) (\<lambda>(p, name).
       if_match (Symbol LPAREN_TOKEN)
         (\<lambda>p. bindR (argument_list cx p) (\<lambda>(p, arg_count).
            seqR [emit_op_short (if on_self prev p then OP_INVOKE_SELF else OP_INVOKE) name,
                  emit_byte (word_of_int arg_count)] p))
         (\<lambda>p. assignment cx (if on_self prev p then OP_GET_SELF_PROPERTY else OP_GET_PROPERTY) OP_SET_PROPERTY
                name can_assign p) p))"

definition named_variable :: "p_context \<Rightarrow> string \<Rightarrow> bool \<Rightarrow> p_step" where
  "named_variable cx name can_assign p =
     bindR (cur_compiler p) (\<lambda>c.
     bindR (resolve_local c name p) (\<lambda>(p, arg).
       if arg \<noteq> -1 then assignment cx OP_GET_LOCAL OP_SET_LOCAL arg can_assign p
       else bindR (resolve_up_value name (ps_compilers p) p) (\<lambda>(p, cs, arg).
         let p = p\<lparr>ps_compilers := cs\<rparr>
         in if arg \<noteq> -1 then assignment cx OP_GET_UP_VALUE OP_SET_UP_VALUE arg can_assign p
            else bindR (identifier_constant name p) (\<lambda>(p, arg).
                   assignment cx OP_GET_GLOBAL OP_SET_GLOBAL arg can_assign p))))"

definition variable :: "p_context \<Rightarrow> bool \<Rightarrow> p_step" where
  "variable cx can_assign p = named_variable cx (tk_chars p (ps_previous p)) can_assign p"

definition self :: "p_context \<Rightarrow> p_step" where
  "self cx p =
     (if ps_classes p = [] then error (''cannot use keyword '' @ [SQUOTE] @ ''self'' @ [SQUOTE] @ '' outside of a class'') p
      else variable cx False p)"

definition parent :: "p_context \<Rightarrow> p_step" where
  "parent cx p =
     bindR (case ps_classes p of
              [] \<Rightarrow> error (''cannot use keyword '' @ [SQUOTE] @ ''parent'' @ [SQUOTE] @ '' outside of a class'') p
            | c # _ \<Rightarrow> if \<not> cc_has_superclass c
                then error (''cannot use keyword '' @ [SQUOTE] @ ''parent'' @ [SQUOTE] @ '' in a class without a parent'') p
                else Inr p) (\<lambda>p.
     bindR (if \<not> check_p p (Symbol LPAREN_TOKEN)
            then bindR (seqR [consume (Symbol DOT_TOKEN) (''expected '' @ [SQUOTE] @ ''.'' @ [SQUOTE] @ '' or '' @
                                [SQUOTE] @ ''('' @ [SQUOTE] @ '' after parent''),
                              consume IDENTIFIER_TOKEN ''expected parent class method name after .''] p) (\<lambda>p.
                 bindR (identifier_constant (tk_chars p (ps_previous p)) p) (\<lambda>(p, name). Inr (p, name, False)))
            else Inr (p, -1, True)) (\<lambda>(p, name, invoke_self).
     bindR (named_variable cx ''self'' False p) (\<lambda>p.
       if_match (Symbol LPAREN_TOKEN)
         (\<lambda>p. bindR (argument_list cx p) (\<lambda>(p, arg_count).
            seqR ([named_variable cx ''parent'' False] @
                  (if \<not> invoke_self then [emit_op_short OP_SUPER_INVOKE name, emit_byte (word_of_int arg_count)]
                   else [emit_bytes (byte_of_code OP_SUPER_INVOKE_SELF) (word_of_int arg_count)])) p))
         (seqR [named_variable cx ''parent'' False, emit_op_short OP_GET_SUPER name]) p)))"

section \<open>Lists, dictionaries, indices, groups\<close>

definition list_p :: "p_context \<Rightarrow> p_step" where
  "list_p cx p =
     bindR (emit_op OP_NIL p) (\<lambda>p.
     bindR (if check_p p (Symbol RBRACKET_TOKEN) then Inr (p, 0)
            else do_while (cx_fuel cx)
              (\<lambda>(p, count).
                 bindR (seqR [ignore_whitespace, expression cx, ignore_whitespace] p) (\<lambda>p.
                 bindR (match_p (Symbol COMMA_TOKEN) p) (\<lambda>(p, again). Inr ((p, count + 1), again))))
              (p, 0)) (\<lambda>(p, count).
       seqR [ignore_whitespace, consume (Symbol RBRACKET_TOKEN) (''expected '' @ [SQUOTE] @ '']'' @ [SQUOTE] @ '' at end of list''),
             emit_op_short OP_LIST count] p))"

definition dictionary_key :: "p_context \<Rightarrow> p_step" where
  "dictionary_key cx p =
     (if check_p p IDENTIFIER_TOKEN
      then bindR (consume IDENTIFIER_TOKEN '''' p) (\<lambda>p.
           bindR (copy_string_p (tk_chars p (ps_previous p)) p) (\<lambda>(p, a). emit_constant (OBJ_VAL a) p))
      else expression cx p)"

definition dictionary :: "p_context \<Rightarrow> p_step" where
  "dictionary cx p =
     bindR (emit_op OP_NIL p) (\<lambda>p.
     bindR (if check_p p (Symbol RBRACE_TOKEN) then Inr (p, 0)
            else do_while (cx_fuel cx)
              (\<lambda>(p, item_count).
                 bindR (ignore_whitespace p) (\<lambda>p.
                 bindR (if \<not> check_p p (Symbol RBRACE_TOKEN)
                        then bindR (seqR [dictionary_key cx, ignore_whitespace,
                                          consume (Symbol COLON_TOKEN) (''expected '' @ [SQUOTE] @ '':'' @ [SQUOTE] @ '' after dictionary key''),
                                          ignore_whitespace, expression cx] p) (\<lambda>p. Inr (p, item_count + 1))
                        else Inr (p, item_count)) (\<lambda>(p, item_count).
                 bindR (match_p (Symbol COMMA_TOKEN) p) (\<lambda>(p, again). Inr ((p, item_count), again)))))
              (p, 0)) (\<lambda>(p, item_count).
       seqR [ignore_whitespace, consume (Symbol RBRACE_TOKEN) (''expected '' @ [SQUOTE] @ ''}'' @ [SQUOTE] @ '' after dictionary''),
             emit_op_short OP_DICT item_count] p))"

definition indexing :: "p_context \<Rightarrow> p_step" where
  "indexing cx p =
     bindR (match_p (Symbol COMMA_TOKEN) p) (\<lambda>(p, comma_match).
     bindR (if comma_match then emit_op OP_NIL p else expression cx p) (\<lambda>p.
     bindR (match_p (Symbol RBRACKET_TOKEN) p) (\<lambda>(p, closed).
       if \<not> closed
       then bindR (if \<not> comma_match
                   then consume (Symbol COMMA_TOKEN) (''expecting '' @ [SQUOTE] @ '','' @ [SQUOTE] @ '' or '' @ [SQUOTE] @ '']'' @ [SQUOTE]) p
                   else Inr p)
              (\<lambda>p. seqR [if_match (Symbol RBRACKET_TOKEN) (emit_op OP_NIL)
                           (seqR [expression cx,
                                  consume (Symbol RBRACKET_TOKEN) (''expected '' @ [SQUOTE] @ '']'' @ [SQUOTE] @ '' after indexing'')]),
                         assignment cx OP_GET_RANGED_INDEX OP_SET_INDEX (-1) False] p)
       else seqR [if comma_match then emit_op OP_NIL else Inr,
                  assignment cx (if comma_match then OP_GET_RANGED_INDEX else OP_GET_INDEX) OP_SET_INDEX (-1) True] p)))"

definition grouping :: "p_context \<Rightarrow> p_step" where
  "grouping cx =
     seqR [ignore_whitespace, expression cx, ignore_whitespace,
           consume (Symbol RPAREN_TOKEN) (''expected '' @ [SQUOTE] @ '')'' @ [SQUOTE] @ '' after grouped expression'')]"

section \<open>Conditions\<close>

definition and_p :: "p_context \<Rightarrow> p_step" where
  "and_p cx p =
     bindR (emit_jump OP_JUMP_IF_FALSE p) (\<lambda>(p, end_jump).
       seqR [emit_op OP_POP, cx_rec cx (Parse_Precedence PREC_AND), patch_jump end_jump] p)"

definition or_p :: "p_context \<Rightarrow> p_step" where
  "or_p cx p =
     bindR (emit_jump OP_JUMP_IF_FALSE p) (\<lambda>(p, else_jump).
     bindR (emit_jump OP_JUMP p) (\<lambda>(p, end_jump).
       seqR [patch_jump else_jump, emit_op OP_POP, cx_rec cx (Parse_Precedence PREC_OR), patch_jump end_jump] p))"

definition conditional :: "p_context \<Rightarrow> p_step" where
  "conditional cx p =
     bindR (emit_jump OP_JUMP_IF_FALSE p) (\<lambda>(p, then_jump).
     bindR (seqR [emit_op OP_POP, ignore_whitespace, cx_rec cx (Parse_Precedence PREC_CONDITIONAL), ignore_whitespace] p) (\<lambda>p.
     bindR (emit_jump OP_JUMP p) (\<lambda>(p, else_jump).
       seqR [patch_jump then_jump, emit_op OP_POP,
             consume (Symbol COLON_TOKEN) (''expected matching '' @ [SQUOTE] @ '':'' @ [SQUOTE] @ '' after '' @ [SQUOTE] @ ''?'' @ [SQUOTE] @ '' conditional''),
             ignore_whitespace, cx_rec cx (Parse_Precedence PREC_ASSIGNMENT), patch_jump else_jump] p)))"

end
