(* ===== verification/Strtod.thy ===== *)
theory Strtod
  imports Scanner Double_Arith
begin

text \<open>
  The functions \<open>strtol\<close>, \<open>strtoll\<close> and \<open>strtod\<close> of the C library, on the text before the terminating
  zero. The compiler uses them for number literals, the string methods and builtin functions to turn
  text into numbers.
\<close>

definition is_space :: "char \<Rightarrow> bool" where
  "is_space c = (c = CHR '' '' \<or> between (CHR 0x09) (CHR 0x0D) c)"

text \<open>The value of a digit in any base up to sixteen.\<close>

definition digit_value :: "char \<Rightarrow> nat option" where
  "digit_value c =
     (if between (CHR ''0'') (CHR ''9'') c then Some (of_char c - 48)
      else if between (CHR ''a'') (CHR ''f'') c then Some (of_char c - 87)
      else if between (CHR ''A'') (CHR ''F'') c then Some (of_char c - 55)
      else None)"

definition is_digit_of :: "nat \<Rightarrow> char \<Rightarrow> bool" where
  "is_digit_of base c = (case digit_value c of None \<Rightarrow> False | Some d \<Rightarrow> d < base)"

definition digits_value :: "nat \<Rightarrow> string \<Rightarrow> nat" where
  "digits_value base ds = foldl (\<lambda>n c. n * base + the (digit_value c)) 0 ds"

definition take_sign :: "string \<Rightarrow> bool \<times> string" where
  "take_sign t = (case t of c # r \<Rightarrow> if c = CHR ''-'' then (True, r) else if c = CHR ''+'' then (False, r) else (False, t)
                          | [] \<Rightarrow> (False, t))"

definition has_hex_prefix :: "string \<Rightarrow> bool" where
  "has_hex_prefix t = (case t of a # b # c # _ \<Rightarrow> a = CHR ''0'' \<and> (b = CHR ''x'' \<or> b = CHR ''X'') \<and> is_digit_of 16 c
                               | _ \<Rightarrow> False)"

text \<open>\<open>long\<close> and \<open>long long\<close> have 64 bits; a value outside becomes the nearest one.\<close>

definition strtol :: "string \<Rightarrow> nat \<Rightarrow> int" where
  "strtol str base =
     (let (neg, t) = take_sign (dropWhile is_space str);
          u = (if base = 16 \<and> has_hex_prefix t then drop 2 t else t);
          n = int (digits_value base (takeWhile (is_digit_of base) u))
      in if neg then max (- (2 ^ 63)) (- n) else min (2 ^ 63 - 1) n)"

text \<open>The conversion of a \<open>long\<close> to \<open>double\<close>.\<close>

definition double_of_long :: "int \<Rightarrow> double" where
  "double_of_long n = (if n = 0 then 0 else dbl_round (n < 0) (nat \<bar>n\<bar> * 2 ^ 1074) 1)"

text \<open>
  The exponent part: its letter, an optional sign, at least one digit. Without a digit there is no
  exponent.
\<close>

definition exponent_value :: "char list \<Rightarrow> string \<Rightarrow> int" where
  "exponent_value marks t =
     (case t of
        [] \<Rightarrow> 0
      | c # r \<Rightarrow>
          if c \<in> set marks
          then let (neg, u) = take_sign r; n = int (digits_value 10 (takeWhile (is_digit_of 10) u))
               in if neg then - n else n
          else 0)"

text \<open>
  \<open>strtod\<close> of a text that starts with a digit: decimal or, after \<open>0x\<close>, hexadecimal digits with an
  optional point and an exponent of ten or two, rounded correctly.
\<close>

definition scaled_double :: "nat \<Rightarrow> nat \<Rightarrow> int \<Rightarrow> double" where
  "scaled_double m base e =
     (if m = 0 then 0
      else if 0 \<le> e then dbl_round False (m * base ^ nat e * 2 ^ 1074) 1
      else dbl_round False (m * 2 ^ 1074) (base ^ nat (- e)))"

definition strtod :: "string \<Rightarrow> double" where
  "strtod t =
     (let hex = has_hex_prefix t;
          base = (if hex then 16 else 10);
          u = (if hex then drop 2 t else t);
          whole = takeWhile (is_digit_of base) u;
          rest = dropWhile (is_digit_of base) u;
          fraction = (case rest of [] \<Rightarrow> [] | c # r \<Rightarrow> if c = CHR ''.'' then takeWhile (is_digit_of base) r else []);
          after = (case rest of [] \<Rightarrow> [] | c # r \<Rightarrow> if c = CHR ''.'' then dropWhile (is_digit_of base) r else rest);
          m = digits_value base (whole @ fraction)
      in if hex then scaled_double m 2 (exponent_value ''pP'' after - 4 * int (length fraction))
         else scaled_double m 10 (exponent_value ''eE'' after - int (length fraction)))"

text \<open>
  \<open>strtod\<close> of any text: white space and a sign are skipped; \<open>inf\<close> and \<open>nan\<close> are read in either case;
  without a digit the result is zero.
\<close>

definition lower_char :: "char \<Rightarrow> char" where
  "lower_char c = (if between (CHR ''A'') (CHR ''Z'') c then char_of (of_char c + 32 :: nat) else c)"

definition starts_number :: "string \<Rightarrow> bool" where
  "starts_number t =
     (case t of
        [] \<Rightarrow> False
      | c # r \<Rightarrow> is_digit_of 10 c \<or> (c = CHR ''.'' \<and> r \<noteq> [] \<and> is_digit_of 10 (hd r)))"

definition strtod_text :: "string \<Rightarrow> double" where
  "strtod_text str =
     (let (neg, t) = take_sign (dropWhile is_space str);
          word = map lower_char (take 3 t)
      in if word = ''inf'' then dbl_inf neg
         else if word = ''nan'' then dbl_pack neg 2047 (2 ^ 51)
         else if starts_number t then (if neg then dbl_neg (strtod t) else strtod t)
         else 0)"

end
