(* ===== verification/Compiler_Literals.thy ===== *)
theory Compiler_Literals
  imports Compiler_Expr Strtod
begin

text \<open>
  Number and string literals in \<open>compiler.c\<close>. The library functions \<open>strtol\<close>, \<open>strtoll\<close> and \<open>strtod\<close>
  (theory \<open>Strtod\<close>) get a pointer into the source text, not a copy of the token, so they may read past it;
  they are applied to the rest of the source. A string literal is decoded into a block as long as the text between the
  quotes, plus one.
\<close>

section \<open>Numbers\<close>

text \<open>The source text from a position behind the start of a token.\<close>

definition text_from :: "string \<Rightarrow> b_token \<Rightarrow> nat \<Rightarrow> string" where
  "text_from src t k = drop k (case tk_start t of At i \<Rightarrow> drop i src | Message m \<Rightarrow> m)"

definition number_of_token :: "string \<Rightarrow> b_token \<Rightarrow> b_value" where
  "number_of_token src t =
     number_to_value
       (if tk_type t = BIN_NUMBER_TOKEN then double_of_long (strtol (text_from src t 2) 2)
        else if tk_type t = OCT_NUMBER_TOKEN then double_of_long (strtol (text_from src t 2) 8)
        else if tk_type t = HEX_NUMBER_TOKEN then double_of_long (strtol (text_from src t 0) 16)
        else strtod (text_from src t 0))"

definition compile_number :: "b_parser \<Rightarrow> b_value" where
  "compile_number p = number_of_token (sc_source (ps_scanner p)) (ps_previous p)"

definition number :: p_step where
  "number p = emit_constant (compile_number p) p"

section \<open>Strings\<close>

definition read_hex_digit :: "char \<Rightarrow> int" where
  "read_hex_digit c = (case digit_value c of Some d \<Rightarrow> int d | None \<Rightarrow> -1)"

text \<open>A character of the source, the terminating zero included.\<close>

definition src_char :: "string \<Rightarrow> int \<Rightarrow> char res" where
  "src_char src i = (if 0 \<le> i \<and> i \<le> int (length src) then Inr (char_at src (nat i)) else Inl OutOfBounds)"

text \<open>The arithmetic is on \<open>int\<close>; a digit of -1 makes the whole value -1.\<close>

definition push_hex_digit :: "int \<Rightarrow> int \<Rightarrow> int res" where
  "push_hex_digit v digit =
     (if - (2 ^ 31) \<le> v * 16 \<and> v * 16 < 2 ^ 31 then Inr ((v * 16) OR digit) else Inl Overflow)"

fun read_hex_digits :: "string \<Rightarrow> int \<Rightarrow> nat \<Rightarrow> b_parser \<times> int \<Rightarrow> (b_parser \<times> int) res" where
  "read_hex_digits src i 0 (p, v) = Inr (p, v)"
| "read_hex_digits src i (Suc n) (p, v) =
     bindR (src_char src i) (\<lambda>c.
     bindR (if read_hex_digit c = -1 then error ''invalid escape sequence'' p else Inr p) (\<lambda>p.
     bindR (push_hex_digit v (read_hex_digit c)) (\<lambda>v. read_hex_digits src (i + 1) n (p, v))))"

definition read_hex_escape :: "string \<Rightarrow> int \<Rightarrow> nat \<Rightarrow> b_parser \<Rightarrow> (b_parser \<times> int) res" where
  "read_hex_escape src index count p =
     bindR (read_hex_digits src (index + 2) count (p, 0)) (\<lambda>(p, v).
       if count = 4
       then bindR (src_char src (index + 2 + int count)) (\<lambda>c.
              if read_hex_digit c \<noteq> -1 then bindR (push_hex_digit v (read_hex_digit c)) (\<lambda>v. Inr (p, v)) else Inr (p, v))
       else Inr (p, v))"

text \<open>Writing a run of bytes into a block.\<close>

fun cells_write :: "byte cells \<Rightarrow> int \<Rightarrow> byte list \<Rightarrow> byte cells res" where
  "cells_write cs i [] = Inr cs"
| "cells_write cs i (b # bs) = bindR (cell_set cs i b) (\<lambda>cs. cells_write cs (i + 1) bs)"

text \<open>The block that \<open>utf8_encode\<close> returns ends with a zero; \<open>memcpy\<close> takes one byte more than the count.\<close>

definition encode_block :: "int \<Rightarrow> byte list" where
  "encode_block v = utf8_encode (word_of_int v) @ [0]"

definition read_unicode_escape ::
    "byte cells \<Rightarrow> string \<Rightarrow> nat \<Rightarrow> int \<Rightarrow> int \<Rightarrow> b_parser \<Rightarrow> (b_parser \<times> byte cells \<times> int) res" where
  "read_unicode_escape str src number_bytes real_index index p =
     bindR (read_hex_escape src real_index number_bytes p) (\<lambda>(p, v).
       let n = utf8_number_bytes v;
           count = (if 65535 < v then n + 1 else n)
       in bindR (if n = -1 then error ''cannot encode a negative unicode value'' p else Inr p) (\<lambda>p.
          if count = 0 then Inr (p, str, count)
          else if length (encode_block v) < nat (count + 1) then Inl OutOfBounds
          else bindR (cells_write str index (take (nat (count + 1)) (encode_block v))) (\<lambda>str. Inr (p, str, count))))"

definition escape_chars :: "(char \<times> char) list" where
  "escape_chars =
     [(CHR ''0'', NUL), (CHR ''$'', CHR ''$''), (SQUOTE, SQUOTE), (DQUOTE, DQUOTE), (CHR ''a'', CHR 0x07),
      (CHR ''b'', CHR 0x08), (CHR ''f'', CHR 0x0C), (CHR ''n'', CHR 0x0A), (CHR ''r'', CHR 0x0D),
      (CHR ''t'', CHR 0x09), (BACKSLASH, BACKSLASH), (CHR ''v'', CHR 0x0B)]"

text \<open>
  The loop of \<open>compile_string\<close>: \<open>base\<close> is the position of the text between the quotes, \<open>i\<close> and \<open>k\<close> are
  the positions in it and in the result. A backslash before any other character stays.
\<close>

fun compile_string_loop ::
    "nat \<Rightarrow> string \<Rightarrow> int \<Rightarrow> int \<Rightarrow> b_parser \<Rightarrow> byte cells \<Rightarrow> int \<Rightarrow> int \<Rightarrow> (b_parser \<times> byte cells \<times> int) res" where
  "compile_string_loop 0 src base real_length p str i k = Inl Divergence"
| "compile_string_loop (Suc n) src base real_length p str i k =
     (if i < real_length
      then bindR (src_char src (base + i)) (\<lambda>c.
           bindR (src_char src (base + i + 1)) (\<lambda>d.
             let put = (\<lambda>c step. bindR (cell_set str k (of_char c)) (\<lambda>str.
                          compile_string_loop n src base real_length p str (i + step) (k + 1)))
             in if c = BACKSLASH \<and> i < real_length - 1
                then case map_of escape_chars d of
                    Some e \<Rightarrow> put e 2
                  | None \<Rightarrow>
                      if d = CHR ''x''
                      then bindR (read_unicode_escape str src 2 (base + i) k p) (\<lambda>(p, str, count).
                             compile_string_loop n src base real_length p str (i + 4) (k + count))
                      else if d = CHR ''u''
                      then bindR (read_unicode_escape str src 4 (base + i) k p) (\<lambda>(p, str, count).
                             compile_string_loop n src base real_length p str (i + (if 4 < count then 7 else 6))
                               (k + (if 4 < count then count - 1 else count)))
                      else if d = CHR ''U''
                      then bindR (read_unicode_escape str src 8 (base + i) k p) (\<lambda>(p, str, count).
                             compile_string_loop n src base real_length p str (i + 10)
                               (k + (if 4 < count then count - 1 else count)))
                      else put c 1
                else put c 1))
      else Inr (p, str, k))"

definition compile_string :: "b_parser \<Rightarrow> (b_parser \<times> byte list) res" where
  "compile_string p =
     (let t = ps_previous p;
          (src, start) = (case tk_start t of At i \<Rightarrow> (sc_source (ps_scanner p), int i) | Message m \<Rightarrow> (m, 0));
          real_length = int (tk_length t) - 2
      in bindR (compile_string_loop (nat real_length + 1) src (start + 1) real_length p
                  (replicate (nat (real_length + 1)) None) 0 0) (\<lambda>(p, str, k).
         bindR (cell_set str k 0) (\<lambda>str.
         bindR (mapR (\<lambda>i. cell_get str (int i)) [0..<nat k]) (\<lambda>bs. Inr (p, bs)))))"

definition string_p :: p_step where
  "string_p p =
     bindR (compile_string p) (\<lambda>(p, str).
     bindR (with_hs (\<lambda>hs. take_string hs str) p) (\<lambda>(p, a). emit_constant (OBJ_VAL a) p))"

text \<open>The parts of an interpolated string are added up as they are compiled.\<close>

definition string_interpolation :: "p_context \<Rightarrow> p_step" where
  "string_interpolation cx p =
     bindR (do_while (cx_fuel cx)
       (\<lambda>(p, count).
          let do_add = (0 < int (tk_length (ps_previous p)) - 2)
          in bindR (if do_add then seqR [string_p, if 0 < count then emit_op OP_ADD else Inr] p else Inr p) (\<lambda>p.
             bindR (seqR [expression cx, emit_op OP_STRINGIFY,
                          if do_add \<or> 1 \<le> count then emit_op OP_ADD else Inr] p) (\<lambda>p.
             bindR (match_p INTERPOLATION_TOKEN p) (\<lambda>(p, again). Inr ((p, count + 1), again)))))
       (p, 0 :: nat)) (\<lambda>(p, _).
     bindR (consume LITERAL_TOKEN ''unterminated string interpolation'' p) (\<lambda>p.
       if 0 < int (tk_length (ps_previous p)) - 2 then seqR [string_p, emit_op OP_ADD] p else Inr p))"

end
