(* ===== verification/Compiler_Stmt.thy ===== *)
theory Compiler_Stmt
  imports Compiler_Literals
begin

text \<open>
  The upper half of \<open>compiler.c\<close>: functions, classes, statements, declarations, imports and \<open>compile\<close>.
  \<open>parse\<close> closes the recursion of the parser: it takes one unit of fuel for each level of nested calls
  of \<open>parse_precedence\<close>, \<open>statement\<close> and \<open>declaration\<close>, and gives the rest to the loops.
\<close>

section \<open>Functions\<close>

definition block :: "p_context \<Rightarrow> p_step" where
  "block cx p =
     bindR (ignore_whitespace (p\<lparr>ps_block_count := ps_block_count p + 1\<rparr>)) (\<lambda>p.
     bindR (do_while (cx_fuel cx)
       (\<lambda>p. if \<not> check_p p (Symbol RBRACE_TOKEN) \<and> \<not> check_p p EOF_TOKEN
            then bindR (cx_rec cx Declaration p) (\<lambda>p. Inr (p, True)) else Inr (p, False)) p) (\<lambda>p.
       consume (Symbol RBRACE_TOKEN) (''expected '' @ [SQUOTE] @ ''}'' @ [SQUOTE] @ '' after block'')
         (p\<lparr>ps_block_count := ps_block_count p - 1\<rparr>)))"

definition cur_arity :: "b_parser \<Rightarrow> int res" where
  "cur_arity p =
     bindR (cur_compiler p) (\<lambda>c. bindR (function_at (vm_heap (ps_vm p)) (cp_function c)) (\<lambda>f. Inr (f_arity f)))"

definition function_args :: "p_context \<Rightarrow> p_step" where
  "function_args cx =
     do_while (cx_fuel cx)
       (\<lambda>p. bindR (seqR [ignore_whitespace, upd_function (\<lambda>f. f\<lparr>f_arity := f_arity f + 1\<rparr>)] p) (\<lambda>p.
            bindR (cur_arity p) (\<lambda>arity.
            bindR (if MAX_FUNCTION_PARAMETERS < arity
                   then error_at_current ''cannot have more than %d function parameters'' p else Inr p) (\<lambda>p.
            bindR (match_p (Symbol TRI_DOT_TOKEN) p) (\<lambda>(p, variadic).
              if variadic
              then bindR (upd_function (\<lambda>f. f\<lparr>f_is_variadic := True\<rparr>) p) (\<lambda>p.
                   bindR (add_local ''__args__'' p) (\<lambda>(p, _).
                   bindR (define_variable 0 p) (\<lambda>p. Inr (p, False))))
              else bindR (parse_variable ''expected parameter name'' p) (\<lambda>(p, param_constant).
                   bindR (seqR [define_variable param_constant, ignore_whitespace] p)
                     (match_p (Symbol COMMA_TOKEN))))))))"

definition emit_up_value :: "b_up_value \<Rightarrow> p_step" where
  "emit_up_value u = seqR [emit_byte (if up_is_local u then 1 else 0), emit_short (uint (up_index u))]"

definition function_body :: "p_context \<Rightarrow> p_step" where
  "function_body cx p =
     bindR (seqR [ignore_whitespace,
                  consume (Symbol LBRACE_TOKEN) (''expected '' @ [SQUOTE] @ ''{'' @ [SQUOTE] @ '' before function body''),
                  block cx] p) (\<lambda>p.
     bindR (cur_compiler p) (\<lambda>compiler.
     bindR (end_compiler p) (\<lambda>(p, function).
     bindR (make_constant (OBJ_VAL function) p) (\<lambda>(p, constant).
       seqR (emit_op_short OP_CLOSURE constant # map emit_up_value (cp_up_values compiler)) p))))"

definition function_p :: "p_context \<Rightarrow> b_func_type \<Rightarrow> p_step" where
  "function_p cx type =
     seqR [init_compiler type, begin_scope,
           consume (Symbol LPAREN_TOKEN) (''expected '' @ [SQUOTE] @ ''('' @ [SQUOTE] @ '' after function name''),
           \<lambda>p. if \<not> check_p p (Symbol RPAREN_TOKEN) then function_args cx p else Inr p,
           consume (Symbol RPAREN_TOKEN) (''expected '' @ [SQUOTE] @ '')'' @ [SQUOTE] @ '' after function parameters''),
           function_body cx]"

definition method_p :: "p_context \<Rightarrow> string \<Rightarrow> bool \<Rightarrow> p_step" where
  "method_p cx class_name is_static p =
     bindR (consume_or [IDENTIFIER_TOKEN, DECORATOR_TOKEN] ''method name expected'' p) (\<lambda>p.
     let name = tk_chars p (ps_previous p);
         type = (if name = class_name then TYPE_INITIALIZER
                 else if name \<noteq> '''' \<and> hd name = CHR ''_'' then TYPE_PRIVATE
                 else if is_static then TYPE_STATIC else TYPE_METHOD)
     in bindR (identifier_constant name p) (\<lambda>(p, constant).
          seqR [function_p cx type, emit_op_short OP_METHOD constant] p))"

definition anonymous :: "p_context \<Rightarrow> p_step" where
  "anonymous cx =
     seqR [init_compiler TYPE_FUNCTION, begin_scope,
           \<lambda>p. if \<not> check_p p (Symbol BAR_TOKEN) then function_args cx p else Inr p,
           consume (Symbol BAR_TOKEN) (''expected '' @ [SQUOTE] @ ''|'' @ [SQUOTE] @ '' after anonymous function parameters''),
           function_body cx]"

section \<open>Precedence parsing\<close>

definition run_prefix :: "p_context \<Rightarrow> b_parse_prefix_fn \<Rightarrow> bool \<Rightarrow> p_step" where
  "run_prefix cx f can_assign =
     (case f of
        Grouping \<Rightarrow> grouping cx
      | List_Lit \<Rightarrow> list_p cx
      | Dictionary \<Rightarrow> dictionary cx
      | Unary \<Rightarrow> unary cx
      | Anonymous \<Rightarrow> anonymous cx
      | Literal \<Rightarrow> literal
      | Parent \<Rightarrow> parent cx
      | Self \<Rightarrow> self cx
      | String_Lit \<Rightarrow> string_p
      | Number \<Rightarrow> number
      | Variable \<Rightarrow> variable cx can_assign
      | Interpolation \<Rightarrow> string_interpolation cx)"

definition run_infix :: "p_context \<Rightarrow> b_parse_infix_fn \<Rightarrow> b_token \<Rightarrow> bool \<Rightarrow> p_step" where
  "run_infix cx f prev can_assign =
     (case f of
        Call \<Rightarrow> call_p cx
      | Indexing \<Rightarrow> indexing cx
      | Binary \<Rightarrow> binary cx
      | Dot \<Rightarrow> dot cx prev can_assign
      | Conditional \<Rightarrow> conditional cx
      | And_Fn \<Rightarrow> and_p cx
      | Or_Fn \<Rightarrow> or_p cx)"

text \<open>One round of the loop over infix operators; a missing function is called all the same.\<close>

definition infix_round :: "p_context \<Rightarrow> nat \<Rightarrow> bool \<Rightarrow> b_parser \<Rightarrow> (b_parser \<times> bool) res" where
  "infix_round cx precedence can_assign p =
     (if precedence \<le> pr_precedence (get_rule (tk_type (ps_current p)))
      then bindR (seqR [ignore_whitespace, advance_p] p) (\<lambda>q.
             case pr_infix (get_rule (tk_type (ps_previous q))) of
               None \<Rightarrow> Inl NullPointer
             | Some f \<Rightarrow> bindR (run_infix cx f (ps_previous p) can_assign q) (\<lambda>q. Inr (q, True)))
      else Inr (p, False))"

definition do_parse_precedence :: "p_context \<Rightarrow> nat \<Rightarrow> p_step" where
  "do_parse_precedence cx precedence p =
     (let can_assign = (precedence \<le> PREC_ASSIGNMENT)
      in case pr_prefix (get_rule (tk_type (ps_previous p))) of
           None \<Rightarrow> error ''expected expression'' p
         | Some f \<Rightarrow>
             seqR [run_prefix cx f can_assign,
                   do_while (cx_fuel cx) (infix_round cx precedence can_assign),
                   if can_assign then if_match (Symbol EQUAL_TOKEN) (error ''invalid assignment target'') Inr else Inr] p)"

definition repl_at_end :: "b_parser \<Rightarrow> bool" where
  "repl_at_end p = (is_at_end (ps_scanner p) \<and> vm_is_repl (ps_vm p))"

definition parse_precedence :: "p_context \<Rightarrow> nat \<Rightarrow> p_step" where
  "parse_precedence cx precedence p =
     (if repl_at_end p then Inr p
      else bindR (ignore_whitespace p) (\<lambda>p.
        if repl_at_end p then Inr p else seqR [advance_p, do_parse_precedence cx precedence] p))"

definition parse_precedence_no_advance :: "p_context \<Rightarrow> nat \<Rightarrow> p_step" where
  "parse_precedence_no_advance cx precedence p =
     (if repl_at_end p then Inr p
      else bindR (ignore_whitespace p) (\<lambda>p.
        if repl_at_end p then Inr p else do_parse_precedence cx precedence p))"

section \<open>Declarations\<close>

definition field :: "p_context \<Rightarrow> bool \<Rightarrow> p_step" where
  "field cx is_static p =
     bindR (consume IDENTIFIER_TOKEN ''class property name expected'' p) (\<lambda>p.
     bindR (identifier_constant (tk_chars p (ps_previous p)) p) (\<lambda>(p, field_constant).
       seqR [if_match (Symbol EQUAL_TOKEN) (expression cx) (emit_op OP_NIL),
             emit_op_short OP_CLASS_PROPERTY field_constant, emit_byte (if is_static then 1 else 0),
             consume_statement_end, ignore_whitespace] p))"

definition function_declaration :: "p_context \<Rightarrow> p_step" where
  "function_declaration cx p =
     bindR (parse_variable ''function name expected'' p) (\<lambda>(p, global).
       seqR [mark_initialized, function_p cx TYPE_FUNCTION, define_variable global] p)"

definition set_superclass :: p_step where
  "set_superclass p =
     Inr (case ps_classes p of [] \<Rightarrow> p | c # cs \<Rightarrow> p\<lparr>ps_classes := c\<lparr>cc_has_superclass := True\<rparr> # cs\<rparr>)"

text \<open>The superclass is bound to a local \<open>parent\<close> in a scope of its own around the class body.\<close>

definition class_parent :: "p_context \<Rightarrow> string \<Rightarrow> p_step" where
  "class_parent cx class_name =
     seqR [consume IDENTIFIER_TOKEN ''name of superclass expected'', variable cx False,
           \<lambda>p. if class_name = tk_chars p (ps_previous p) then error ''class %.*s cannot inherit from itself'' p else Inr p,
           begin_scope, \<lambda>p. bindR (add_local ''parent'' p) (\<lambda>(p, _). Inr p), define_variable 0,
           named_variable cx class_name False, emit_op OP_INHERIT, set_superclass]"

definition class_member :: "p_context \<Rightarrow> string \<Rightarrow> p_step" where
  "class_member cx class_name p =
     bindR (match_p (Keyword STATIC_TOKEN) p) (\<lambda>(p, is_static).
       if_match (Keyword VAR_TOKEN) (field cx is_static)
         (seqR [method_p cx class_name is_static, ignore_whitespace]) p)"

definition class_declaration :: "p_context \<Rightarrow> p_step" where
  "class_declaration cx p =
     bindR (consume IDENTIFIER_TOKEN ''class name expected'' p) (\<lambda>p.
     let class_name = tk_chars p (ps_previous p)
     in bindR (identifier_constant class_name p) (\<lambda>(p, name_constant).
        bindR (seqR [declare_variable, emit_op_short OP_CLASS name_constant, define_variable name_constant] p) (\<lambda>p.
        bindR (if_match (Symbol LESS_TOKEN) (class_parent cx class_name) Inr
                 (p\<lparr>ps_classes := \<lparr>cc_name = class_name, cc_has_superclass = False\<rparr> # ps_classes p\<rparr>)) (\<lambda>p.
        bindR (seqR [named_variable cx class_name False, ignore_whitespace,
                     consume (Symbol LBRACE_TOKEN) (''expected '' @ [SQUOTE] @ ''{'' @ [SQUOTE] @ '' before class body''),
                     ignore_whitespace,
                     do_while (cx_fuel cx)
                       (\<lambda>p. if \<not> check_p p (Symbol RBRACE_TOKEN) \<and> \<not> check_p p EOF_TOKEN
                            then bindR (class_member cx class_name p) (\<lambda>p. Inr (p, True)) else Inr (p, False)),
                     consume (Symbol RBRACE_TOKEN) (''expected '' @ [SQUOTE] @ ''}'' @ [SQUOTE] @ '' after class body''),
                     emit_op OP_POP,
                     \<lambda>p. case ps_classes p of c # _ \<Rightarrow> if cc_has_superclass c then end_scope p else Inr p | [] \<Rightarrow> Inr p] p) (\<lambda>p.
          Inr (p\<lparr>ps_classes := tl (ps_classes p)\<rparr>))))))"

definition compile_var_declaration :: "p_context \<Rightarrow> bool \<Rightarrow> p_step" where
  "compile_var_declaration cx is_initializer p =
     bindR (do_while (cx_fuel cx)
       (\<lambda>(p, total_parsed).
          bindR (if 0 < total_parsed then ignore_whitespace p else Inr p) (\<lambda>p.
          bindR (parse_variable ''variable name expected'' p) (\<lambda>(p, global).
          bindR (seqR [if_match (Symbol EQUAL_TOKEN) (expression cx) (emit_op OP_NIL), define_variable global] p) (\<lambda>p.
          bindR (match_p (Symbol COMMA_TOKEN) p) (\<lambda>(p, again). Inr ((p, total_parsed + 1), again))))))
       (p, 0 :: nat)) (\<lambda>(p, _).
       if \<not> is_initializer then consume_statement_end p
       else seqR [consume (Symbol SEMICOLON_TOKEN) (''expected '' @ [SQUOTE] @ '';'' @ [SQUOTE] @ '' after initializer''),
                  ignore_whitespace] p)"

definition var_declaration :: "p_context \<Rightarrow> p_step" where
  "var_declaration cx = compile_var_declaration cx False"

section \<open>Simple statements\<close>

definition expression_statement :: "p_context \<Rightarrow> bool \<Rightarrow> bool \<Rightarrow> p_step" where
  "expression_statement cx is_initializer semi p =
     bindR (scope_depth p) (\<lambda>depth.
     bindR (seqR [if vm_is_repl (ps_vm p) \<and> depth = 0 then set_echo True else Inr,
                  if \<not> semi then expression cx else cx_rec cx (Parse_Precedence_No_Advance PREC_ASSIGNMENT)] p) (\<lambda>p.
       if \<not> is_initializer
       then seqR [if ps_repl_can_echo p \<and> vm_is_repl (ps_vm p) then seqR [emit_op OP_ECHO, set_echo False] else emit_op OP_POP,
                  consume_statement_end] p
       else seqR [consume (Symbol SEMICOLON_TOKEN) (''expected '' @ [SQUOTE] @ '';'' @ [SQUOTE] @ '' after initializer''),
                  ignore_whitespace, emit_op OP_POP] p))"

definition echo_statement :: "p_context \<Rightarrow> p_step" where
  "echo_statement cx = seqR [expression cx, emit_op OP_ECHO, consume_statement_end]"

definition die_statement :: "p_context \<Rightarrow> p_step" where
  "die_statement cx = seqR [expression cx, emit_op OP_DIE, consume_statement_end]"

definition assert_statement :: "p_context \<Rightarrow> p_step" where
  "assert_statement cx =
     seqR [expression cx,
           if_match (Symbol COMMA_TOKEN) (seqR [ignore_whitespace, expression cx]) (emit_op OP_NIL),
           emit_op OP_ASSERT, consume_statement_end]"

definition return_statement :: "p_context \<Rightarrow> p_step" where
  "return_statement cx p =
     bindR (cur_compiler p) (\<lambda>c.
     bindR (if cp_type c = TYPE_SCRIPT then error ''cannot return from top-level code'' (p\<lparr>ps_is_returning := True\<rparr>)
            else Inr (p\<lparr>ps_is_returning := True\<rparr>)) (\<lambda>p.
     bindR (if_match (Symbol SEMICOLON_TOKEN) emit_return
              (if_match (Symbol NEWLINE_TOKEN) emit_return
                (\<lambda>p. seqR [if cp_type c = TYPE_INITIALIZER then error ''cannot return value from constructor'' else Inr,
                           if ps_is_trying p then emit_op OP_POP_TRY else Inr,
                           expression cx, emit_op OP_RETURN, consume_statement_end] p)) p) (\<lambda>p.
       Inr (p\<lparr>ps_is_returning := False\<rparr>))))"

definition if_statement :: "p_context \<Rightarrow> p_step" where
  "if_statement cx p =
     bindR (expression cx p) (\<lambda>p.
     bindR (emit_jump OP_JUMP_IF_FALSE p) (\<lambda>(p, then_jump).
     bindR (seqR [emit_op OP_POP, cx_rec cx Statement] p) (\<lambda>p.
     bindR (emit_jump OP_JUMP p) (\<lambda>(p, else_jump).
       seqR [patch_jump then_jump, emit_op OP_POP,
             if_match (Keyword ELSE_TOKEN) (cx_rec cx Statement) Inr, patch_jump else_jump] p))))"

section \<open>Loops\<close>

definition set_loop :: "int \<Rightarrow> int \<Rightarrow> b_parser \<Rightarrow> b_parser" where
  "set_loop start depth p = p\<lparr>ps_innermost_loop_start := start, ps_innermost_loop_scope_depth := depth\<rparr>"

text \<open>The loop start and scope depth of the surrounding loop come back at the end.\<close>

definition restore_loop :: "b_parser \<Rightarrow> p_step" where
  "restore_loop old p =
     Inr (set_loop (ps_innermost_loop_start old) (ps_innermost_loop_scope_depth old) p)"

text \<open>\<open>while\<close> and \<open>do\<close> record where the loop starts but not its scope depth.\<close>

definition start_loop :: p_step where
  "start_loop p = bindR (blob_count p) (\<lambda>count. Inr (p\<lparr>ps_innermost_loop_start := count\<rparr>))"

definition start_scoped_loop :: p_step where
  "start_scoped_loop p =
     bindR (blob_count p) (\<lambda>count. bindR (scope_depth p) (\<lambda>depth. Inr (set_loop count depth p)))"

definition loop_back :: p_step where
  "loop_back p = emit_loop (ps_innermost_loop_start p) p"

definition while_statement :: "p_context \<Rightarrow> p_step" where
  "while_statement cx old =
     bindR (seqR [start_loop, expression cx] old) (\<lambda>p.
     bindR (emit_jump OP_JUMP_IF_FALSE p) (\<lambda>(p, exit_jump).
       seqR [emit_op OP_POP, cx_rec cx Statement, loop_back, patch_jump exit_jump, emit_op OP_POP, end_loop,
             restore_loop old] p))"

definition do_while_statement :: "p_context \<Rightarrow> p_step" where
  "do_while_statement cx old =
     bindR (seqR [start_loop, cx_rec cx Statement,
                  consume (Keyword WHILE_TOKEN) (''expecting '' @ [SQUOTE] @ ''while'' @ [SQUOTE] @ '' statement''),
                  expression cx] old) (\<lambda>p.
     bindR (emit_jump OP_JUMP_IF_FALSE p) (\<lambda>(p, exit_jump).
       seqR [emit_op OP_POP, loop_back, patch_jump exit_jump, emit_op OP_POP, end_loop, restore_loop old] p))"

definition iter_increment :: "p_context \<Rightarrow> p_step" where
  "iter_increment cx p =
     bindR (emit_jump OP_JUMP p) (\<lambda>(p, body_jump).
     bindR (blob_count p) (\<lambda>increment_start.
       seqR [expression cx, ignore_whitespace, emit_op OP_POP, loop_back,
             \<lambda>p. Inr (p\<lparr>ps_innermost_loop_start := increment_start\<rparr>), patch_jump body_jump] p))"

definition iter_statement :: "p_context \<Rightarrow> p_step" where
  "iter_statement cx p =
     bindR (seqR [begin_scope,
                  if_match (Symbol SEMICOLON_TOKEN) Inr
                    (if_match (Keyword VAR_TOKEN) (compile_var_declaration cx True)
                      (expression_statement cx True False))] p) (\<lambda>old.
     bindR (start_scoped_loop old) (\<lambda>p.
     bindR (match_p (Symbol SEMICOLON_TOKEN) p) (\<lambda>(p, no_condition).
     bindR (if no_condition then Inr (p, -1)
            else bindR (seqR [expression cx,
                              consume (Symbol SEMICOLON_TOKEN) (''expected '' @ [SQUOTE] @ '';'' @ [SQUOTE] @ '' after condition''),
                              ignore_whitespace] p) (\<lambda>p.
                 bindR (emit_jump OP_JUMP_IF_FALSE p) (\<lambda>(p, exit_jump).
                 bindR (emit_op OP_POP p) (\<lambda>p. Inr (p, exit_jump))))) (\<lambda>(p, exit_jump).
       seqR [\<lambda>p. if \<not> check_p p (Symbol LBRACE_TOKEN) then iter_increment cx p else Inr p,
             cx_rec cx Statement, loop_back,
             if exit_jump \<noteq> -1 then seqR [patch_jump exit_jump, emit_op OP_POP] else Inr,
             end_loop, restore_loop old, end_scope] p))))"

definition string_constant :: "string \<Rightarrow> b_parser \<Rightarrow> (b_parser \<times> int) res" where
  "string_constant s p = bindR (copy_string_p s p) (\<lambda>(p, a). make_constant (OBJ_VAL a) p)"

text \<open>The names of the key and the value; without a comma the key has a name no program can use.\<close>

definition for_names :: "b_parser \<Rightarrow> (b_parser \<times> string \<times> string) res" where
  "for_names p =
     bindR (consume IDENTIFIER_TOKEN (''expected variable name after '' @ [SQUOTE] @ ''for'' @ [SQUOTE]) p) (\<lambda>p.
       let name = tk_chars p (ps_previous p)
       in if \<not> check_p p (Symbol COMMA_TOKEN) then Inr (p, '' _ '', name)
          else bindR (seqR [consume (Symbol COMMA_TOKEN) '''',
                            consume IDENTIFIER_TOKEN (''expected variable name after '' @ [SQUOTE] @ '','' @ [SQUOTE])] p)
                 (\<lambda>p. Inr (p, name, tk_chars p (ps_previous p))))"

definition for_body :: "p_context \<Rightarrow> int \<Rightarrow> int \<Rightarrow> int \<Rightarrow> int \<Rightarrow> int \<Rightarrow> p_step" where
  "for_body cx iter iter_n iterator_slot key_slot value_slot old =
     bindR (seqR [start_scoped_loop,
                  emit_op_short OP_GET_LOCAL iterator_slot, emit_op_short OP_GET_LOCAL key_slot,
                  emit_op_short OP_INVOKE iter_n, emit_byte 1, emit_op_short OP_SET_LOCAL key_slot] old) (\<lambda>p.
     bindR (emit_jump OP_JUMP_IF_FALSE p) (\<lambda>(p, false_jump).
       seqR [emit_op OP_POP,
             emit_op_short OP_GET_LOCAL iterator_slot, emit_op_short OP_GET_LOCAL key_slot,
             emit_op_short OP_INVOKE iter, emit_byte 1, begin_scope,
             emit_op_short OP_SET_LOCAL value_slot, emit_op OP_POP,
             cx_rec cx Statement, end_scope, loop_back, patch_jump false_jump, emit_op OP_POP,
             end_loop, restore_loop old, end_scope] p))"

definition for_statement :: "p_context \<Rightarrow> p_step" where
  "for_statement cx p =
     bindR (begin_scope p) (\<lambda>p.
     bindR (string_constant ''@iter'' p) (\<lambda>(p, iter).
     bindR (string_constant ''@itern'' p) (\<lambda>(p, iter_n).
     bindR (for_names p) (\<lambda>(p, key_name, value_name).
     bindR (seqR [consume (Keyword IN_TOKEN) (''expected '' @ [SQUOTE] @ ''in'' @ [SQUOTE] @ '' after for loop variable(s)''),
                  ignore_whitespace, expression cx] p) (\<lambda>p.
     bindR (cur_compiler p) (\<lambda>c.
       if UINT8_COUNT < length (cp_locals c) + 3
       then error ''cannot declare more than %d variables in one scope'' p
       else bindR (add_local '' iterator '' p) (\<lambda>(p, i).
            bindR (seqR [define_variable 0, emit_op OP_NIL] p) (\<lambda>p.
            bindR (add_local key_name p) (\<lambda>(p, k).
            bindR (seqR [define_variable (k - 1), emit_op OP_NIL] p) (\<lambda>p.
            bindR (add_local value_name p) (\<lambda>(p, v).
              seqR [define_variable 0, for_body cx iter iter_n (i - 1) (k - 1) (v - 1)] p)))))))))))"

definition continue_statement :: p_step where
  "continue_statement p =
     seqR [if ps_innermost_loop_start p = -1
           then error ([SQUOTE] @ ''continue'' @ [SQUOTE] @ '' can only be used in a loop'') else Inr,
           discard_local (ps_innermost_loop_scope_depth p), emit_loop (ps_innermost_loop_start p),
           consume_statement_end] p"

definition break_statement :: p_step where
  "break_statement p =
     seqR [if ps_innermost_loop_start p = -1
           then error ([SQUOTE] @ ''break'' @ [SQUOTE] @ '' can only be used in a loop'') else Inr,
           \<lambda>p. bindR (emit_jump OP_BREAK_PL p) (\<lambda>(p, _). Inr p),
           consume_statement_end] p"

end
