(* ===== verification/Compiler.thy ===== *)
theory Compiler
  imports Compiler_Stmt
begin

text \<open>
  The rest of \<open>compiler.c\<close>: the statements \<open>using\<close>, \<open>try\<close> and \<open>import\<close>, the dispatch on the first token
  of a statement or declaration, error recovery, and \<open>compile\<close>. The compilation of an imported module is
  nested in that of the importing one: it works on the same machine and the same chain of compilers.
\<close>

section \<open>The using statement\<close>

definition MAX_USING_CASES :: nat where "MAX_USING_CASES = 256"

definition switch_at :: "heap \<Rightarrow> addr \<Rightarrow> b_obj_switch res" where
  "switch_at hp a = (case hp a of Some (OSwitch s) \<Rightarrow> Inr s | _ \<Rightarrow> Inl NullPointer)"

definition upd_switch :: "addr \<Rightarrow> (b_obj_switch \<Rightarrow> b_obj_switch) \<Rightarrow> p_step" where
  "upd_switch a f p =
     bindR (switch_at (vm_heap (ps_vm p)) a) (\<lambda>s. Inr (p\<lparr>ps_vm := vm_put (ps_vm p) a (OSwitch (f s))\<rparr>))"

definition set_case :: "addr \<Rightarrow> b_value \<Rightarrow> b_value \<Rightarrow> p_step" where
  "set_case sw key jump p =
     bindR (switch_at (vm_heap (ps_vm p)) sw) (\<lambda>s.
     bindR (table_set (vm_heap (ps_vm p)) (sw_table s) key jump) (\<lambda>(table, _).
       Inr (p\<lparr>ps_vm := vm_put (ps_vm p) sw (OSwitch (s\<lparr>sw_table := table\<rparr>))\<rparr>)))"

text \<open>One constant of a \<open>when\<close>; the result tells whether it is a constant.\<close>

definition when_constant :: "addr \<Rightarrow> int \<Rightarrow> b_parser \<Rightarrow> (b_parser \<times> bool) res" where
  "when_constant sw start_offset p =
     bindR (advance_p p) (\<lambda>p.
     bindR (blob_count p) (\<lambda>count.
       let jump = number_val (count - start_offset);
           t = tk_type (ps_previous p)
       in if t = Keyword TRUE_TOKEN then bindR (set_case sw TRUE_VAL jump p) (\<lambda>p. Inr (p, True))
          else if t = Keyword FALSE_TOKEN then bindR (set_case sw FALSE_VAL jump p) (\<lambda>p. Inr (p, True))
          else if t = LITERAL_TOKEN
          then bindR (compile_string p) (\<lambda>(p, str).
               bindR (with_hs (\<lambda>hs. copy_string hs str) p) (\<lambda>(p, a).
               bindR (seqR [push_p (OBJ_VAL a), set_case sw (OBJ_VAL a) jump, pop_p] p) (\<lambda>p. Inr (p, True))))
          else if check_number p then bindR (set_case sw (compile_number p) jump p) (\<lambda>p. Inr (p, True))
          else bindR (seqR [pop_p, error ''only constants can be used in when expressions''] p) (\<lambda>p. Inr (p, False))))"

definition when_constants :: "p_context \<Rightarrow> addr \<Rightarrow> int \<Rightarrow> b_parser \<Rightarrow> (b_parser \<times> bool) res" where
  "when_constants cx sw start_offset p =
     do_while (cx_fuel cx)
       (\<lambda>(p, _). bindR (when_constant sw start_offset p) (\<lambda>(p, ok).
          if ok then bindR (match_p (Symbol COMMA_TOKEN) p) (\<lambda>(p, again). Inr ((p, True), again))
          else Inr ((p, False), False)))
       (p, True)"

text \<open>A jump to the end of the statement, to be patched there.\<close>

definition case_end :: "b_parser \<times> int list \<Rightarrow> (b_parser \<times> int list) res" where
  "case_end = (\<lambda>(p, case_ends).
     bindR (emit_jump OP_JUMP p) (\<lambda>(p, j).
       if length case_ends < MAX_USING_CASES then Inr (p, case_ends @ [j]) else Inl OutOfBounds))"

text \<open>
  The states: 0 before all cases, 1 before a default, 2 after it. The last component is \<open>False\<close> when the
  statement was given up.
\<close>

definition using_case :: "p_context \<Rightarrow> addr \<Rightarrow> int \<Rightarrow> b_keyword \<Rightarrow> b_parser \<Rightarrow> nat \<Rightarrow> int list \<Rightarrow>
    (b_parser \<times> nat \<times> int list \<times> bool) res" where
  "using_case cx sw start_offset case_type p state case_ends =
     bindR (if state = 2 then error ''cannot have another case after a default case'' p else Inr p) (\<lambda>p.
     bindR (if state = 1 then case_end (p, case_ends) else Inr (p, case_ends)) (\<lambda>(p, case_ends).
       if case_type = WHEN_TOKEN
       then bindR (when_constants cx sw start_offset p) (\<lambda>(p, ok). Inr (p, 1, case_ends, ok))
       else bindR (blob_count p) (\<lambda>count.
            bindR (upd_switch sw (\<lambda>s. s\<lparr>sw_default_jump := count - start_offset\<rparr>) p) (\<lambda>p.
              Inr (p, 2, case_ends, True)))))"

definition using_round :: "p_context \<Rightarrow> addr \<Rightarrow> int \<Rightarrow> b_parser \<times> nat \<times> int list \<times> bool \<Rightarrow>
    ((b_parser \<times> nat \<times> int list \<times> bool) \<times> bool) res" where
  "using_round cx sw start_offset = (\<lambda>(p, state, case_ends, ok).
     if \<not> ok then Inr ((p, state, case_ends, ok), False)
     else bindR (match_p (Symbol RBRACE_TOKEN) p) (\<lambda>(p, closed).
       if closed \<or> check_p p EOF_TOKEN then Inr ((p, state, case_ends, ok), False)
       else bindR (match_p (Keyword WHEN_TOKEN) p) (\<lambda>(p, is_when).
            bindR (if is_when then Inr (p, True) else match_p (Keyword DEFAULT_TOKEN) p) (\<lambda>(p, is_case).
              if is_case
              then bindR (using_case cx sw start_offset (if is_when then WHEN_TOKEN else DEFAULT_TOKEN) p state case_ends)
                     (\<lambda>s. Inr (s, True))
              else bindR (if state = 0 then error ''cannot have statements before any case'' p else Inr p) (\<lambda>p.
                   bindR (cx_rec cx Statement p) (\<lambda>p. Inr ((p, state, case_ends, ok), True)))))))"

definition using_statement :: "p_context \<Rightarrow> p_step" where
  "using_statement cx p =
     bindR (seqR [expression cx,
                  consume (Symbol LBRACE_TOKEN) (''expected '' @ [SQUOTE] @ ''{'' @ [SQUOTE] @ '' after using expression''),
                  ignore_whitespace] p) (\<lambda>p.
     bindR (with_hs (\<lambda>hs. Inr (new_switch hs)) p) (\<lambda>(p, sw).
     bindR (push_p (OBJ_VAL sw) p) (\<lambda>p.
     bindR (emit_switch p) (\<lambda>(p, switch_code).
     bindR (blob_count p) (\<lambda>start_offset.
     bindR (do_while (cx_fuel cx) (using_round cx sw start_offset) (p, 0, [], True)) (\<lambda>(p, state, case_ends, ok).
       if \<not> ok then Inr p
       else bindR (if state = 1 then case_end (p, case_ends) else Inr (p, case_ends)) (\<lambda>(p, case_ends).
            bindR (seqR (map patch_jump case_ends) p) (\<lambda>p.
            bindR (blob_count p) (\<lambda>count.
            bindR (upd_switch sw (\<lambda>s. s\<lparr>sw_exit_jump := count - start_offset\<rparr>) p) (\<lambda>p.
            bindR (make_constant (OBJ_VAL sw) p) (\<lambda>(p, constant).
              seqR [patch_switch switch_code constant, pop_p] p)))))))))))"

section \<open>The try statement\<close>

definition set_trying :: "bool \<Rightarrow> p_step" where
  "set_trying b p = Inr (p\<lparr>ps_is_trying := b\<rparr>)"

text \<open>The catch clause; the result is the constant of the class name and the address of the handler.\<close>

definition catch_clause :: "p_context \<Rightarrow> b_parser \<Rightarrow> (b_parser \<times> int \<times> int) res" where
  "catch_clause cx p =
     bindR (seqR [begin_scope, consume IDENTIFIER_TOKEN ''missing exception class name''] p) (\<lambda>p.
     bindR (identifier_constant (tk_chars p (ps_previous p)) p) (\<lambda>(p, type).
     bindR (blob_count p) (\<lambda>address.
     bindR (match_p IDENTIFIER_TOKEN p) (\<lambda>(p, named).
     bindR (if named
            then bindR (add_local (tk_chars p (ps_previous p)) p) (\<lambda>(p, var).
                   seqR [mark_initialized, emit_op_short OP_SET_LOCAL (var - 1), emit_op OP_POP] p)
            else Inr p) (\<lambda>p.
     bindR (seqR [emit_op OP_POP_TRY, ignore_whitespace, cx_rec cx Statement, end_scope] p) (\<lambda>p.
       Inr (p, type, address)))))))"

text \<open>The finally clause; the result is its address.\<close>

definition finally_clause :: "p_context \<Rightarrow> b_parser \<Rightarrow> (b_parser \<times> int) res" where
  "finally_clause cx p =
     bindR (emit_op OP_FALSE p) (\<lambda>p.
     bindR (blob_count p) (\<lambda>fin.
     bindR (seqR [ignore_whitespace, cx_rec cx Statement] p) (\<lambda>p.
     bindR (emit_jump OP_JUMP_IF_FALSE p) (\<lambda>(p, continue_execution_address).
     bindR (seqR [emit_op OP_POP, emit_op OP_PUBLISH_TRY, patch_jump continue_execution_address, emit_op OP_POP] p) (\<lambda>p.
       Inr (p, fin))))))"

definition try_statement :: "p_context \<Rightarrow> p_step" where
  "try_statement cx p =
     bindR (cur_compiler p) (\<lambda>c.
     bindR (seqR [if cp_handler_count c = MAX_EXCEPTION_HANDLERS
                  then error ''maximum exception handler in scope exceeded'' else Inr,
                  upd_compiler (\<lambda>c. c\<lparr>cp_handler_count := cp_handler_count c + 1\<rparr>),
                  set_trying True, ignore_whitespace] p) (\<lambda>p.
     bindR (emit_try p) (\<lambda>(p, try_begins).
     bindR (seqR [cx_rec cx Statement, emit_op OP_POP_TRY] p) (\<lambda>p.
     bindR (emit_jump OP_JUMP p) (\<lambda>(p, exit_jump).
     bindR (seqR [set_trying False] p) (\<lambda>p.
     bindR (match_p (Keyword CATCH_TOKEN) p) (\<lambda>(p, catch_exists).
     bindR (if catch_exists then catch_clause cx p
            else bindR (string_constant ''Exception'' p) (\<lambda>(p, type). Inr (p, type, 0))) (\<lambda>(p, type, address).
     bindR (patch_jump exit_jump p) (\<lambda>p.
     bindR (match_p (Keyword FINALLY_TOKEN) p) (\<lambda>(p, final_exists).
     bindR (if final_exists then finally_clause cx p else Inr (p, 0)) (\<lambda>(p, fin).
       seqR [if \<not> final_exists \<and> \<not> catch_exists
             then error ''try block must contain at least one of catch or finally'' else Inr,
             patch_try try_begins type address fin] p)))))))))))"

section \<open>Imports\<close>

definition specific_name :: "string \<Rightarrow> bool \<Rightarrow> b_parser \<times> bool \<Rightarrow> ((b_parser \<times> bool) \<times> bool) res" where
  "specific_name module_name is_native = (\<lambda>(p, same_name).
     bindR (ignore_whitespace p) (\<lambda>p.
     bindR (match_p (Symbol MULTIPLY_TOKEN) p) (\<lambda>(p, all).
       if all
       then bindR (emit_op (if is_native then OP_IMPORT_ALL_NATIVE else OP_IMPORT_ALL) p) (\<lambda>p. Inr ((p, same_name), False))
       else bindR (parse_variable ''module object name expected'' p) (\<lambda>(p, name).
            let same_name = (same_name \<or> tk_chars p (ps_previous p) = module_name)
            in bindR (emit_op_short (if is_native then OP_SELECT_NATIVE_IMPORT else OP_SELECT_IMPORT) name p) (\<lambda>p.
               bindR (match_p (Symbol COMMA_TOKEN) p) (\<lambda>(p, again). Inr ((p, same_name), again)))))))"

definition parse_specific_import :: "p_context \<Rightarrow> string \<Rightarrow> int \<Rightarrow> bool \<Rightarrow> bool \<Rightarrow> p_step" where
  "parse_specific_import cx module_name import_constant was_renamed is_native =
     if_match (Symbol LBRACE_TOKEN)
       (\<lambda>p. if was_renamed then error ''selective import on renamed module'' p
            else bindR (emit_op_short OP_CONSTANT import_constant p) (\<lambda>p.
                 bindR (do_while (cx_fuel cx) (specific_name module_name is_native) (p, False)) (\<lambda>(p, same_name).
                   seqR [ignore_whitespace,
                         consume (Symbol RBRACE_TOKEN) (''expected '' @ [SQUOTE] @ ''}'' @ [SQUOTE] @ '' at end of selective import''),
                         if \<not> same_name
                         then emit_op_short (if is_native then OP_EJECT_NATIVE_IMPORT else OP_EJECT_IMPORT) import_constant
                         else Inr,
                         emit_op OP_POP, consume_statement_end] p)))
       Inr"

definition native_import :: "p_context \<Rightarrow> string \<Rightarrow> p_step" where
  "native_import cx module_name p =
     bindR (string_constant module_name p) (\<lambda>(p, module).
       seqR [emit_op_short OP_NATIVE_MODULE module, parse_specific_import cx module_name module False True] p)"

text \<open>
  One part of a module path. The file is the path so far; the last component tells that a native module
  ended the statement.
\<close>

record import_path =
  ip_name :: string
  ip_file :: "string option"
  ip_parts :: nat
  ip_relative :: bool
  ip_native :: bool

definition add_part :: "string \<Rightarrow> string option \<Rightarrow> string res" where
  "add_part name file =
     (case file of
        None \<Rightarrow> Inr name
      | Some f \<Rightarrow> if f = '''' then Inl OutOfBounds
                  else Inr ((if last f \<noteq> SLASH then f @ BLADE_PATH_SEPARATOR else f) @ name))"

definition import_part :: "p_context \<Rightarrow> b_parser \<times> import_path \<Rightarrow> ((b_parser \<times> import_path) \<times> bool) res" where
  "import_part cx = (\<lambda>(p, ip).
     let up = (tk_type (ps_previous p) = Symbol RANGE_TOKEN);
         ip = (if up then ip\<lparr>ip_relative := True,
                             ip_file := Some ((case ip_file ip of None \<Rightarrow> '''' | Some f \<Rightarrow> f) @ ''/../'')\<rparr> else ip)
     in bindR (consume IDENTIFIER_TOKEN ''module name expected'' p) (\<lambda>p.
        let name = tk_chars p (ps_previous p); ip = ip\<lparr>ip_name := name\<rparr>
        in if ip_parts ip = 0 \<and> name \<noteq> '''' \<and> hd name = CHR ''_'' \<and> \<not> ip_relative ip
           then bindR (native_import cx name p) (\<lambda>p. Inr ((p, ip\<lparr>ip_native := True\<rparr>), False))
           else bindR (add_part name (ip_file ip)) (\<lambda>file.
                let ip = ip\<lparr>ip_file := Some file, ip_parts := ip_parts ip + 1\<rparr>
                in bindR (match_p (Symbol DOT_TOKEN) p) (\<lambda>(p, dot).
                   bindR (if dot then Inr (p, True) else match_p (Symbol RANGE_TOKEN) p) (\<lambda>(p, again).
                     Inr ((p, ip), again))))))"

text \<open>\<open>compile\<close> on a parser that starts at the beginning of a source.\<close>

definition undefined_token :: b_token where
  "undefined_token = \<lparr>tk_type = UNDEFINED_TOKEN, tk_start = At 0, tk_length = 0, tk_line = 0\<rparr>"

definition new_parser :: "b_vm \<Rightarrow> b_compiler list \<Rightarrow> addr \<Rightarrow> string \<Rightarrow> b_parser" where
  "new_parser vm chain module source =
     \<lparr>ps_scanner = init_scanner source, ps_vm = vm, ps_compilers = chain, ps_current = undefined_token,
      ps_previous = undefined_token, ps_had_error = False, ps_panic_mode = False, ps_block_count = 0,
      ps_is_returning = False, ps_is_trying = False, ps_repl_can_echo = False, ps_classes = [],
      ps_innermost_loop_start = -1, ps_innermost_loop_scope_depth = 0, ps_module = module, ps_reports = []\<rparr>"

definition script_round :: "p_context \<Rightarrow> b_parser \<Rightarrow> (b_parser \<times> bool) res" where
  "script_round cx p =
     bindR (match_p EOF_TOKEN p) (\<lambda>(p, at_end).
       if at_end then Inr (p, False) else bindR (cx_rec cx Declaration p) (\<lambda>p. Inr (p, True)))"

definition compile_script :: "p_context \<Rightarrow> b_parser \<Rightarrow> (b_parser \<times> addr option) res" where
  "compile_script cx p =
     bindR (seqR [init_compiler TYPE_SCRIPT, advance_p, ignore_whitespace,
                  do_while (cx_fuel cx) (script_round cx)] p) (\<lambda>p.
     bindR (end_compiler p) (\<lambda>(p, function). Inr (p, if ps_had_error p then None else Some function)))"

text \<open>The importing parser goes on with the machine and the chain the nested compilation left.\<close>

definition compile_import :: "p_context \<Rightarrow> addr \<Rightarrow> string \<Rightarrow> b_parser \<Rightarrow> (b_parser \<times> addr option) res" where
  "compile_import cx module source p =
     bindR (compile_script cx (new_parser (ps_vm p) (ps_compilers p) module source)) (\<lambda>(q, function).
       Inr (p\<lparr>ps_vm := ps_vm q, ps_compilers := ps_compilers q, ps_reports := ps_reports p @ ps_reports q\<rparr>, function))"

definition import_module :: "p_context \<Rightarrow> string \<Rightarrow> string \<Rightarrow> string \<Rightarrow> bool \<Rightarrow> p_step" where
  "import_module cx module_name module_path source was_renamed p =
     bindR (with_hs (\<lambda>hs. Inr (new_module hs module_name module_path)) p) (\<lambda>(p, module).
     bindR (push_p (OBJ_VAL module) p) (\<lambda>p.
     bindR (compile_import cx module source p) (\<lambda>(p, function).
     bindR (pop_p p) (\<lambda>p.
       case function of
         None \<Rightarrow> error ''failed to import %s'' p
       | Some fn \<Rightarrow>
           bindR (seqR [upd_function_at fn (\<lambda>f. f\<lparr>f_name := None\<rparr>), push_p (OBJ_VAL fn)] p) (\<lambda>p.
           bindR (with_hs (\<lambda>hs. new_closure hs fn) p) (\<lambda>(p, closure).
           bindR (pop_p p) (\<lambda>p.
           bindR (make_constant (OBJ_VAL closure) p) (\<lambda>(p, import_constant).
             seqR [emit_op_short OP_CALL_IMPORT import_constant,
                   parse_specific_import cx module_name import_constant was_renamed False] p))))))))"

definition import_file :: "p_context \<Rightarrow> import_path \<Rightarrow> p_step" where
  "import_file cx ip p =
     bindR (match_p (Keyword AS_TOKEN) p) (\<lambda>(p, was_renamed).
     bindR (if was_renamed then consume IDENTIFIER_TOKEN ''module name expected'' p else Inr p) (\<lambda>p.
     let module_name = (if was_renamed then tk_chars p (ps_previous p) else ip_name ip)
     in bindR (some_ptr (ip_file ip)) (\<lambda>module_file.
        bindR (module_at (vm_heap (ps_vm p)) (ps_module p)) (\<lambda>m.
          case resolve_import_path (cx_files cx) module_file (m_file m) (ip_relative ip) of
            None \<Rightarrow>
              bindR (copy_string_p module_name p) (\<lambda>(p, final_module_name).
              bindR (table_get (vm_heap (ps_vm p)) (vm_modules (ps_vm p)) (OBJ_VAL final_module_name)) (\<lambda>md.
                if md \<noteq> None then native_import cx module_name p else error ''module not found'' p))
          | Some module_path \<Rightarrow>
              bindR (if \<not> check_p p (Symbol LBRACE_TOKEN) then consume_statement_end p else Inr p) (\<lambda>p.
                case fs_read (cx_files cx) module_path of
                  None \<Rightarrow> error ''could not read import file %s'' p
                | Some source \<Rightarrow> import_module cx module_name module_path source was_renamed p)))))"

definition import_statement :: "p_context \<Rightarrow> p_step" where
  "import_statement cx p =
     bindR (match_p (Symbol DOT_TOKEN) p) (\<lambda>(p, is_relative).
     bindR (match_p (Symbol RANGE_TOKEN) p) (\<lambda>(p, parent_path).
       if is_relative \<and> parent_path then error ''conflicting module path. Parent or current directory?'' p
       else bindR (do_while (cx_fuel cx) (import_part cx)
              (p, \<lparr>ip_name = '''', ip_file = None, ip_parts = 0, ip_relative = is_relative, ip_native = False\<rparr>)) (\<lambda>(p, ip).
              if ip_native ip then Inr p else import_file cx ip p)))"

section \<open>Statements and declarations\<close>

definition scoped_block :: "p_context \<Rightarrow> p_step" where
  "scoped_block cx = seqR [begin_scope, block cx, end_scope]"

text \<open>The statement that a keyword starts.\<close>

fun keyword_statement :: "p_context \<Rightarrow> b_keyword \<Rightarrow> p_step option" where
  "keyword_statement cx ECHO_TOKEN = Some (echo_statement cx)"
| "keyword_statement cx IF_TOKEN = Some (if_statement cx)"
| "keyword_statement cx DO_TOKEN = Some (do_while_statement cx)"
| "keyword_statement cx WHILE_TOKEN = Some (while_statement cx)"
| "keyword_statement cx ITER_TOKEN = Some (iter_statement cx)"
| "keyword_statement cx FOR_TOKEN = Some (for_statement cx)"
| "keyword_statement cx USING_TOKEN = Some (using_statement cx)"
| "keyword_statement cx CONTINUE_TOKEN = Some continue_statement"
| "keyword_statement cx BREAK_TOKEN = Some break_statement"
| "keyword_statement cx RETURN_TOKEN = Some (return_statement cx)"
| "keyword_statement cx ASSERT_TOKEN = Some (assert_statement cx)"
| "keyword_statement cx DIE_TOKEN = Some (die_statement cx)"
| "keyword_statement cx IMPORT_TOKEN = Some (import_statement cx)"
| "keyword_statement cx TRY_TOKEN = Some (try_statement cx)"
| "keyword_statement cx _ = None"

definition statement :: "p_context \<Rightarrow> p_step" where
  "statement cx p =
     bindR (seqR [set_echo False, ignore_whitespace] p) (\<lambda>p.
     bindR (case tk_type (ps_current p) of
              Symbol s \<Rightarrow> if s = LBRACE_TOKEN then seqR [advance_p, scoped_block cx] p
                          else expression_statement cx False False p
            | Keyword k \<Rightarrow> (case keyword_statement cx k of
                  Some f \<Rightarrow> seqR [advance_p, f] p
                | None \<Rightarrow> expression_statement cx False False p)
            | _ \<Rightarrow> expression_statement cx False False p) ignore_whitespace)"

definition starts_statement :: "b_keyword set" where
  "starts_statement =
     {CLASS_TOKEN, DEF_TOKEN, VAR_TOKEN, FOR_TOKEN, IF_TOKEN, USING_TOKEN, WHEN_TOKEN, ITER_TOKEN, DO_TOKEN,
      WHILE_TOKEN, ECHO_TOKEN, ASSERT_TOKEN, TRY_TOKEN, CATCH_TOKEN, DIE_TOKEN, RETURN_TOKEN, STATIC_TOKEN,
      SELF_TOKEN, PARENT_TOKEN, FINALLY_TOKEN, IN_TOKEN, IMPORT_TOKEN, AS_TOKEN}"

definition sync_point :: "b_tkn_type \<Rightarrow> bool" where
  "sync_point t =
     (t = EOF_TOKEN \<or> t = Symbol NEWLINE_TOKEN \<or> t = Symbol SEMICOLON_TOKEN \<or> t \<in> Keyword ` starts_statement)"

fun sync_loop :: "nat \<Rightarrow> p_step" where
  "sync_loop 0 p = Inl Divergence"
| "sync_loop (Suc n) p =
     (if sync_point (tk_type (ps_current p)) then Inr p else bindR (advance_p p) (sync_loop n))"

definition synchronize :: p_step where
  "synchronize p = sync_loop (text_left p + 2) (p\<lparr>ps_panic_mode := False\<rparr>)"

definition declaration_p :: "p_context \<Rightarrow> p_step" where
  "declaration_p cx p =
     bindR (ignore_whitespace p) (\<lambda>p.
     bindR (let t = tk_type (ps_current p)
            in if t = Keyword CLASS_TOKEN then seqR [advance_p, class_declaration cx] p
               else if t = Keyword DEF_TOKEN then seqR [advance_p, function_declaration cx] p
               else if t = Keyword VAR_TOKEN then seqR [advance_p, var_declaration cx] p
               else if t = Symbol LBRACE_TOKEN
               then bindR (advance_p p) (\<lambda>p. bindR (scope_depth p) (\<lambda>depth.
                      if \<not> check_p p (Symbol NEWLINE_TOKEN) \<and> depth = 0 then expression_statement cx False True p
                      else scoped_block cx p))
               else cx_rec cx Statement p) (\<lambda>p.
       seqR [ignore_whitespace, \<lambda>p. if ps_panic_mode p then synchronize p else Inr p, ignore_whitespace] p))"

definition run_call :: "p_context \<Rightarrow> p_call \<Rightarrow> p_step" where
  "run_call cx c =
     (case c of
        Parse_Precedence prec \<Rightarrow> parse_precedence cx prec
      | Parse_Precedence_No_Advance prec \<Rightarrow> parse_precedence_no_advance cx prec
      | Statement \<Rightarrow> statement cx
      | Declaration \<Rightarrow> declaration_p cx)"

fun parse :: "nat \<Rightarrow> b_files \<Rightarrow> p_call \<Rightarrow> p_step" where
  "parse 0 fs c p = Inl Divergence"
| "parse (Suc n) fs c p = run_call \<lparr>cx_fuel = n, cx_rec = parse n fs, cx_files = fs\<rparr> c p"

definition context_of :: "nat \<Rightarrow> b_files \<Rightarrow> p_context" where
  "context_of fuel fs = \<lparr>cx_fuel = fuel, cx_rec = parse fuel fs, cx_files = fs\<rparr>"

text \<open>
  The entry point. The result is the machine, the function of the script unless an error was reported,
  and the reports.
\<close>

definition compile :: "nat \<Rightarrow> b_files \<Rightarrow> b_vm \<Rightarrow> addr \<Rightarrow> string \<Rightarrow> (b_vm \<times> addr option \<times> (b_token \<times> string) list) res" where
  "compile fuel fs vm module source =
     bindR (compile_script (context_of fuel fs) (new_parser vm [] module source)) (\<lambda>(p, function).
       Inr (ps_vm p, function, ps_reports p))"

end
