(* ===== verification/Scanner_Correct.thy ===== *)
theory Scanner_Correct
  imports Scanner
begin

text \<open>
  The scanner keeps its positions inside the text and counts lines (\<open>scan_inv\<close>), makes progress with
  every token and therefore ends, classifies keywords as the keyword table says, and reads whole
  literals. The stack of interpolations overflows when eight are open.
\<close>

section \<open>Movement\<close>

definition newlines :: "string \<Rightarrow> nat" where
  "newlines w = length (filter (\<lambda>c. c = LF) w)"

definition pos_inv :: "b_scanner \<Rightarrow> bool" where
  "pos_inv s =
     (sc_current s \<le> length (sc_source s) \<and>
      sc_line s = Suc (newlines (take (sc_current s) (sc_source s))))"

text \<open>\<open>s'\<close> is \<open>s\<close> moved forward: nothing but the position and the line changes.\<close>

definition moved :: "b_scanner \<Rightarrow> b_scanner \<Rightarrow> bool" where
  "moved s s' =
     (sc_source s' = sc_source s \<and> sc_start s' = sc_start s \<and> sc_current s \<le> sc_current s' \<and>
      sc_interpolating_count s' = sc_interpolating_count s \<and> sc_interpolating s' = sc_interpolating s \<and>
      (pos_inv s \<longrightarrow> pos_inv s'))"

lemma moved_refl [simp, intro]: "moved s s"
  by (simp add: moved_def)

lemma moved_trans: "moved s1 s2 \<Longrightarrow> moved s2 s3 \<Longrightarrow> moved s1 s3"
  by (auto simp: moved_def)

lemma moved_simps:
  assumes "moved s s'"
  shows "sc_source s' = sc_source s" "sc_start s' = sc_start s" "sc_current s \<le> sc_current s'"
    "sc_interpolating_count s' = sc_interpolating_count s" "sc_interpolating s' = sc_interpolating s"
    "pos_inv s \<Longrightarrow> pos_inv s'"
  using assms by (auto simp: moved_def)

named_theorems moves \<open>the operations that only move the scanner forward\<close>

lemma moved_advance [moves]:
  assumes "cur s \<noteq> NUL"
  shows "moved s (advance s)"
  using cur_not_NUL [OF assms]
  by (auto simp: moved_def pos_inv_def advance_def newlines_def cur_def char_at_def take_Suc_conv_app_nth)

lemma cur_advance: "\<not> is_at_end s \<Longrightarrow> cur (advance s) = next_char s"
  by (simp add: cur_def next_char_def)

lemma moved_advance2 [moves]:
  assumes "cur s \<noteq> NUL" and "next_char s \<noteq> NUL"
  shows "moved s (advance (advance s))"
  using assms by (intro moved_trans [OF moved_advance moved_advance]) (auto simp: cur_advance is_at_end_def)

lemma moved_match [moves]: "moved s (fst (match_char s c))"
  by (auto simp: match_char_def is_at_end_def moved_advance)

lemma moved_while_char [moves]: "moved s (while_char p s)"
proof (induction p s rule: while_char.induct)
  case (1 p s)
  show ?case
  proof (cases "p (cur s) \<and> \<not> is_at_end s")
    case True
    with 1 moved_advance [of s] show ?thesis
      by (subst while_char.simps) (auto simp: is_at_end_def intro: moved_trans)
  qed (subst while_char.simps, auto)
qed

lemma moved_block_comment: "moved s (fst (block_comment_loop s n))"
proof (induction s n rule: block_comment_loop.induct)
  case (1 s n)
  then show ?case
    by (subst block_comment_loop.simps)
      (auto simp: is_at_end_def intro: moved_trans [OF moved_advance2] moved_trans [OF moved_advance])
qed

lemma moved_skip_block: "moved s (fst (skip_block_comments s))"
  using moved_block_comment [of s 1] by (auto simp: skip_block_comments_def split: prod.splits bool.splits)

lemma moved_skip_whitespace [moves]: "moved s (fst (skip_whitespace s))"
proof (induction s rule: skip_whitespace.induct)
  case (1 s)
  consider (ws) "cur s = CHR '' '' \<or> cur s = CHR 0x0D \<or> cur s = CHR 0x09"
    | (line) "cur s = CHR ''#''" | (block) "cur s = CHR ''/''" "next_char s = CHR ''*''"
    | (other) "\<not> (cur s = CHR '' '' \<or> cur s = CHR 0x0D \<or> cur s = CHR 0x09)" "cur s \<noteq> CHR ''#''"
        "\<not> (cur s = CHR ''/'' \<and> next_char s = CHR ''*'')" by blast
  then show ?case
  proof cases
    case ws
    then show ?thesis using 1(1) moved_advance [of s] by (subst skip_whitespace.simps) (auto intro: moved_trans)
  next
    case line
    then show ?thesis
      using 1(2) moved_while_char [of s "\<lambda>c. c \<noteq> LF"]
      by (subst skip_whitespace.simps) (auto simp: skip_line_comment_def intro: moved_trans)
  next
    case block
    then have "moved s (fst (skip_block_comments (advance (advance s))))"
      using moved_advance2 [of s] moved_skip_block by (auto intro: moved_trans)
    then show ?thesis
      using block 1(3) by (subst skip_whitespace.simps) (auto simp: Let_def intro: moved_trans)
  next
    case other
    then show ?thesis by (subst skip_whitespace.simps) auto
  qed
qed

text \<open>A token that was made of the text between the start and the position.\<close>

definition spans :: "b_scanner \<Rightarrow> b_token \<Rightarrow> bool" where
  "spans s tk =
     (case tk_start tk of
        At p \<Rightarrow> p = sc_start s \<and> p + tk_length tk \<le> sc_current s
      | Message m \<Rightarrow> tk_type tk = ERROR_TOKEN \<and> tk_length tk = length m)"

lemma spans_make [simp]: "sc_start s \<le> sc_current s \<Longrightarrow> spans s (make_token s type)"
  by (simp add: spans_def make_token_def)

lemma spans_error [simp]: "spans s (error_token s m)"
  by (simp add: spans_def error_token_def)

text \<open>An error during the skipping (an unclosed comment) is only reported after two characters.\<close>

lemma skip_whitespace_error:
  assumes "tk_type (snd (skip_whitespace s)) \<noteq> UNDEFINED_TOKEN"
  shows "sc_current s < sc_current (fst (skip_whitespace s)) \<and>
         tk_type (snd (skip_whitespace s)) = ERROR_TOKEN \<and> spans (fst (skip_whitespace s)) (snd (skip_whitespace s))"
  using assms
proof (induction s rule: skip_whitespace.induct)
  case (1 s)
  consider (ws) "cur s = CHR '' '' \<or> cur s = CHR 0x0D \<or> cur s = CHR 0x09"
    | (line) "cur s = CHR ''#''" | (block) "cur s = CHR ''/''" "next_char s = CHR ''*''"
    | (other) "\<not> (cur s = CHR '' '' \<or> cur s = CHR 0x0D \<or> cur s = CHR 0x09)" "cur s \<noteq> CHR ''#''"
        "\<not> (cur s = CHR ''/'' \<and> next_char s = CHR ''*'')" by blast
  then show ?case
  proof cases
    case ws
    then have e: "skip_whitespace s = skip_whitespace (advance s)" by (subst skip_whitespace.simps) auto
    show ?thesis using 1(1) [OF ws] 1(4) unfolding e by auto
  next
    case line
    then have e: "skip_whitespace s = skip_whitespace (skip_line_comment s)"
      by (subst skip_whitespace.simps) auto
    show ?thesis using 1(2) line 1(4) skip_line_comment_step [OF line] unfolding e by auto
  next
    case block
    let ?r = "skip_block_comments (advance (advance s))"
    have le: "sc_current s < sc_current (fst ?r)"
      using skip_block_comments_le [of "advance (advance s)"] by simp
    have e: "skip_whitespace s = (if tk_type (snd ?r) \<noteq> UNDEFINED_TOKEN then ?r else skip_whitespace (fst ?r))"
      using block by (subst skip_whitespace.simps) (auto simp: Let_def)
    show ?thesis
    proof (cases "tk_type (snd ?r) \<noteq> UNDEFINED_TOKEN")
      case True
      with le e show ?thesis
        by (auto simp: skip_block_comments_def error_token_def make_token_def spans_def split: prod.splits bool.splits)
    next
      case False
      with 1(3) [OF _ _ _ refl] block 1(4) le e show ?thesis by auto
    qed
  next
    case other
    then have e: "skip_whitespace s = (s, make_token s UNDEFINED_TOKEN)"
      by (subst skip_whitespace.simps) auto
    show ?thesis using 1(4) unfolding e by (simp add: make_token_def)
  qed
qed

section \<open>Tokens\<close>

text \<open>The result of an operation that moves on and makes a token of what it passed.\<close>

definition lexed :: "b_scanner \<Rightarrow> b_scanner \<times> b_token \<Rightarrow> bool" where
  "lexed s r = (moved s (fst r) \<and> spans (fst r) (snd r) \<and> tk_type (snd r) \<noteq> EOF_TOKEN)"

lemma lexed_make:
  assumes "moved s s'" and "sc_start s \<le> sc_current s" and "type \<noteq> EOF_TOKEN"
  shows "lexed s (s', make_token s' type)"
proof -
  have "sc_start s' \<le> sc_current s'" using moved_simps [OF assms(1)] assms(2) by simp
  with assms show ?thesis by (simp add: lexed_def make_token_def spans_def)
qed

lemma check_keyword_not_EOF: "type \<noteq> EOF_TOKEN \<Longrightarrow> check_keyword w a b r type \<noteq> EOF_TOKEN"
  by (simp add: check_keyword_def)

lemma identifier_type_not_EOF: "identifier_type w \<noteq> EOF_TOKEN"
  by (simp add: identifier_type_def Let_def check_keyword_not_EOF)

lemma lexed_identifier: "sc_start s \<le> sc_current s \<Longrightarrow> lexed s (scan_identifier s)"
  by (simp add: scan_identifier_def Let_def lexed_make moves identifier_type_not_EOF)

lemma lexed_decorator: "sc_start s \<le> sc_current s \<Longrightarrow> lexed s (decorator s)"
  by (simp add: decorator_def Let_def lexed_make moves)

lemma is_digit_NUL [simp]: "\<not> is_digit NUL" "\<not> is_alpha NUL"
  by (simp_all add: is_digit_def is_alpha_def)

lemma lexed_number:
  assumes "sc_start s \<le> sc_current s"
  shows "lexed s (scan_number s)"
proof -
  define s1 where "s1 = while_char is_digit s"
  define s3 where "s3 = while_char is_digit (advance s1)"
  define s2 where "s2 = (if cur s1 = CHR ''.'' \<and> is_digit (next_char s1)
     then if (cur s3 = CHR ''e'' \<or> cur s3 = CHR ''E'') \<and> (next_char s3 = CHR ''+'' \<or> next_char s3 = CHR ''-'')
          then while_char is_digit (advance (advance s3)) else s3 else s1)"
  have m1: "moved s s1" by (simp add: s1_def moves)
  have m3: "moved s s3" if "cur s1 = CHR ''.''"
    using moved_trans [OF moved_trans [OF m1 moved_advance] moved_while_char] that by (simp add: s3_def)
  have m4: "moved s (while_char is_digit (advance (advance s3)))"
    if "cur s1 = CHR ''.''" "cur s3 = CHR ''e'' \<or> cur s3 = CHR ''E''"
      "next_char s3 = CHR ''+'' \<or> next_char s3 = CHR ''-''"
    using moved_trans [OF moved_trans [OF m3 moved_advance2] moved_while_char] that by auto
  have "moved s s2" using m1 m3 m4 by (auto simp: s2_def)
  then have "lexed s (s2, make_token s2 REG_NUMBER_TOKEN)" using assms by (simp add: lexed_make)
  moreover have "lexed s (while_char p (fst (match_char s c)), make_token (while_char p (fst (match_char s c))) type)"
    if "type \<noteq> EOF_TOKEN" for p c type
    using assms that by (intro lexed_make moved_trans [OF moved_match moved_while_char]) auto
  ultimately show ?thesis
    unfolding scan_number_def Let_def s1_def [symmetric] s3_def [symmetric] s2_def [symmetric] by simp
qed

lemma lexed_op_eq:
  assumes "moved s0 s" and "sc_start s0 \<le> sc_current s0" and "eq \<noteq> EOF_TOKEN" and "plain \<noteq> EOF_TOKEN"
  shows "lexed s0 (op_eq s eq plain)"
  using lexed_make [OF moved_trans [OF assms(1) moved_match [of s "CHR ''=''"]] assms(2)] assms(3,4)
  by (auto simp: op_eq_def split: prod.splits)

lemma lexed_op_step:
  assumes "sc_start s \<le> sc_current s" and "dbl \<noteq> EOF_TOKEN" "eq \<noteq> EOF_TOKEN" and "plain \<noteq> EOF_TOKEN"
  shows "lexed s (op_step s c dbl eq plain)"
  using moved_match [of s c] assms
  by (auto simp: op_step_def split: prod.splits intro: lexed_make lexed_op_eq)

lemma lexed_op_double:
  assumes "sc_start s \<le> sc_current s" and "d \<noteq> EOF_TOKEN" "e \<noteq> EOF_TOKEN" "f \<noteq> EOF_TOKEN" "g \<noteq> EOF_TOKEN"
  shows "lexed s (op_double s c d e f g)"
  using moved_match [of s c] assms by (auto simp: op_double_def split: prod.splits intro: lexed_op_eq)

lemma lexed_op_dot:
  assumes "sc_start s \<le> sc_current s"
  shows "lexed s (op_dot s)"
  using moved_match [of s "CHR ''.''"] moved_match [of "fst (match_char s (CHR ''.''))" "CHR ''.''"] assms
  by (auto simp: op_dot_def split: prod.splits intro: lexed_make lexed_make [OF moved_trans])

section \<open>The invariant\<close>

text \<open>The open interpolations: their quotes are on the stack.\<close>

definition quotes_inv :: "b_scanner \<Rightarrow> bool" where
  "quotes_inv s =
     (-1 \<le> sc_interpolating_count s \<and> sc_interpolating_count s < 8 \<and> length (sc_interpolating s) = 8 \<and>
      (\<forall>i. int i \<le> sc_interpolating_count s \<longrightarrow>
         sc_interpolating s ! i = Some DQUOTE \<or> sc_interpolating s ! i = Some SQUOTE))"

definition scan_inv :: "b_scanner \<Rightarrow> bool" where
  "scan_inv s = (NUL \<notin> set (sc_source s) \<and> sc_start s \<le> sc_current s \<and> pos_inv s \<and> quotes_inv s)"

lemma scan_inv_init: "NUL \<notin> set src \<Longrightarrow> scan_inv (init_scanner src)"
  by (simp add: scan_inv_def init_scanner_def pos_inv_def quotes_inv_def newlines_def MAX_INTERPOLATION_NESTING_def)

lemma scan_inv_moved: "scan_inv s \<Longrightarrow> moved s s' \<Longrightarrow> scan_inv s'"
  using moved_simps [of s s'] by (simp add: scan_inv_def quotes_inv_def)

lemma scan_inv_end: "scan_inv s \<Longrightarrow> is_at_end s \<longleftrightarrow> sc_current s = length (sc_source s)"
  by (auto simp: scan_inv_def pos_inv_def is_at_end_def cur_def char_at_def) (metis le_neq_implies_less nth_mem)

text \<open>The result of reading a string: a moved scanner, perhaps with one more open interpolation.\<close>

definition string_result :: "b_scanner \<Rightarrow> char \<Rightarrow> (b_scanner \<times> b_token) res \<Rightarrow> bool" where
  "string_result s quote r =
     (case r of
        Inl e \<Rightarrow> e = OutOfBounds \<and> 7 \<le> sc_interpolating_count s
      | Inr (s', tk) \<Rightarrow>
          scan_inv s' \<and> spans s' tk \<and> tk_type tk \<noteq> EOF_TOKEN \<and> sc_source s' = sc_source s \<and>
          sc_start s' = sc_start s \<and> sc_current s \<le> sc_current s' \<and>
          sc_interpolating_count s \<le> sc_interpolating_count s' \<and>
          sc_interpolating_count s' \<le> sc_interpolating_count s + 1 \<and>
          (\<forall>i. int i \<le> sc_interpolating_count s \<longrightarrow> sc_interpolating s' ! i = sc_interpolating s ! i))"

lemma string_result_moved:
  assumes "moved s s'" and "string_result s' quote r"
  shows "string_result s quote r"
  using moved_simps [OF assms(1)] assms(2) by (auto simp: string_result_def split: sum.splits)

lemma pos_inv_skip2:
  assumes "pos_inv s" and "cur s = CHR ''$''" and "next_char s = CHR ''{''"
  shows "pos_inv (s\<lparr>sc_current := sc_current s + 2\<rparr>)"
proof -
  have "moved s (advance (advance s))" using assms by (intro moved_advance2) auto
  moreover have "sc_line (advance (advance s)) = sc_line s"
    using assms cur_advance [of s] by (simp add: advance_def is_at_end_def cur_def)
  ultimately show ?thesis using assms(1) by (auto simp: moved_def pos_inv_def)
qed

lemma start_interpolation_result:
  assumes inv: "scan_inv s" and "cur s = CHR ''$''" "next_char s = CHR ''{''" and q: "quote = DQUOTE \<or> quote = SQUOTE"
  shows "string_result s quote (start_interpolation s quote)"
proof (cases "sc_interpolating_count s < 7")
  case True
  let ?n = "sc_interpolating_count s + 1"
  have n: "0 \<le> ?n" "?n < 8" "length (sc_interpolating s) = 8" using inv True by (auto simp: scan_inv_def quotes_inv_def)
  let ?cs = "(sc_interpolating s)[nat ?n := Some quote]"
  let ?s1 = "s\<lparr>sc_interpolating_count := ?n, sc_interpolating := ?cs, sc_current := sc_current s + 1\<rparr>"
  have e: "start_interpolation s quote = Inr (?s1\<lparr>sc_current := sc_current s + 2\<rparr>, make_token ?s1 INTERPOLATION_TOKEN)"
    using n True by (simp add: start_interpolation_def MAX_INTERPOLATION_NESTING_def cell_set_def Let_def)
  have old: "?cs ! i = sc_interpolating s ! i" if "int i \<le> sc_interpolating_count s" for i
    using that n by (simp add: nth_list_update)
  have q: "?cs ! i = Some DQUOTE \<or> ?cs ! i = Some SQUOTE" if "int i \<le> ?n" for i
    using that n q inv by (cases "i = nat ?n") (auto simp: scan_inv_def quotes_inv_def nth_list_update)
  have "scan_inv (?s1\<lparr>sc_current := sc_current s + 2\<rparr>)"
    using inv n q pos_inv_skip2 [OF _ assms(2,3)] by (auto simp: scan_inv_def quotes_inv_def pos_inv_def)
  moreover have "spans (?s1\<lparr>sc_current := sc_current s + 2\<rparr>) (make_token ?s1 INTERPOLATION_TOKEN)"
    using inv by (simp add: spans_def make_token_def scan_inv_def)
  ultimately show ?thesis using old by (simp add: e string_result_def make_token_def)
next
  case False
  then have "sc_interpolating_count s = 7" using inv by (simp add: scan_inv_def quotes_inv_def)
  then show ?thesis
    using inv by (simp add: start_interpolation_def string_result_def MAX_INTERPOLATION_NESTING_def cell_set_def
        scan_inv_def quotes_inv_def)
qed

lemma string_result_token:
  assumes "scan_inv s"
  shows "string_result s quote (Inr (s, error_token s m))"
    and "string_result s quote (Inr (s, make_token s LITERAL_TOKEN))"
  using assms by (simp_all add: string_result_def spans_def error_token_def make_token_def scan_inv_def)

lemma scan_string_result:
  assumes "scan_inv s" and "quote = DQUOTE \<or> quote = SQUOTE"
  shows "string_result s quote (scan_string s quote)"
  using assms
proof (induction s quote rule: scan_string.induct)
  case (1 s quote)
  note inv = 1(3) and q = 1(4)
  consider (interp) "cur s = CHR ''$''" "next_char s = CHR ''{''" "previous s \<noteq> BACKSLASH"
    | (esc) "cur s \<noteq> quote" "cur s = BACKSLASH" "next_char s = quote \<or> next_char s = BACKSLASH"
    | (body) "cur s \<noteq> quote" "\<not> is_at_end s" "\<not> (cur s = CHR ''$'' \<and> next_char s = CHR ''{'' \<and> previous s \<noteq> BACKSLASH)"
        "\<not> (cur s = BACKSLASH \<and> (next_char s = quote \<or> next_char s = BACKSLASH))"
    | (fin) "cur s = quote \<or> is_at_end s" using q by blast
  then show ?case
  proof cases
    case interp
    then have "scan_string s quote = start_interpolation s quote"
      using q by (subst scan_string.simps) (auto simp: is_at_end_def)
    then show ?thesis using start_interpolation_result [OF inv interp(1,2) q] by simp
  next
    case esc
    then have e: "scan_string s quote = scan_string (advance (advance s)) quote"
      using q by (subst scan_string.simps) (auto simp: is_at_end_def)
    have m: "moved s (advance (advance s))" using esc q by (intro moved_advance2) auto
    show ?thesis
      unfolding e using 1(1) esc q scan_inv_moved [OF inv m] string_result_moved [OF m]
      by (auto simp: is_at_end_def)
  next
    case body
    then have e: "scan_string s quote = scan_string (advance s) quote"
      by (subst scan_string.simps) auto
    have m: "moved s (advance s)" using body by (intro moved_advance) (auto simp: is_at_end_def)
    show ?thesis
      unfolding e using 1(2) body q scan_inv_moved [OF inv m] string_result_moved [OF m] by auto
  next
    case fin
    show ?thesis
    proof (cases "is_at_end s")
      case True
      then have "scan_string s quote = Inr (s, error_token s ''unterminated string (opening quote not matched)'')"
        by (subst scan_string.simps) simp
      then show ?thesis using string_result_token [OF inv] by simp
    next
      case False
      let ?s = "fst (match_char s quote)"
      have "scan_string s quote = Inr (?s, make_token ?s LITERAL_TOKEN)"
        using fin False by (subst scan_string.simps) (auto simp: Let_def)
      then show ?thesis
        using string_result_moved [OF moved_match string_result_token(2) [OF scan_inv_moved [OF inv moved_match]]]
        by simp
    qed
  qed
qed

section \<open>One token\<close>

text \<open>
  What every call of \<open>scan_token\<close> gives: the invariant, a token that lies behind the old position
  and in front of the new one, and progress unless the text has ended.
\<close>

definition token_result :: "b_scanner \<Rightarrow> (b_scanner \<times> b_token) res \<Rightarrow> bool" where
  "token_result s r =
     (case r of
        Inl e \<Rightarrow> e = OutOfBounds \<and> 7 \<le> sc_interpolating_count s
      | Inr (s', tk) \<Rightarrow>
          scan_inv s' \<and> sc_source s' = sc_source s \<and> spans s' tk \<and>
          (tk_type tk \<noteq> ERROR_TOKEN \<longrightarrow> sc_current s \<le> sc_start s') \<and>
          (if tk_type tk = EOF_TOKEN then sc_current s' = length (sc_source s)
           else sc_current s < sc_current s'))"

lemma token_result_lexed:
  assumes inv: "scan_inv s2" and le: "sc_current s \<le> sc_start s2" "sc_start s2 < sc_current s2"
    and src: "sc_source s2 = sc_source s" and l: "lexed s2 r"
  shows "token_result s (Inr r)"
proof -
  obtain s' tk where r: "r = (s', tk)" by (cases r)
  have m: "moved s2 s'" "spans s' tk" "tk_type tk \<noteq> EOF_TOKEN" using l by (auto simp: lexed_def r)
  show ?thesis
    using scan_inv_moved [OF inv m(1)] moved_simps [OF m(1)] m le src by (auto simp: token_result_def r)
qed

lemma token_result_string:
  assumes le: "sc_current s \<le> sc_start s2" "sc_start s2 < sc_current s2"
    and src: "sc_source s2 = sc_source s" "sc_interpolating_count s2 = sc_interpolating_count s"
    and r: "string_result s2 q r"
  shows "token_result s r"
  using assms by (auto simp: token_result_def string_result_def split: sum.splits)

lemma token_result_close:
  assumes inv: "scan_inv s2" and open_interp: "-1 < sc_interpolating_count s2"
    and le: "sc_current s \<le> sc_start s2" "sc_start s2 < sc_current s2"
    and src: "sc_source s2 = sc_source s" "sc_interpolating_count s2 = sc_interpolating_count s"
  shows "token_result s (bindR (cell_get (sc_interpolating s2) (sc_interpolating_count s2))
           (\<lambda>quote. bindR (scan_string s2 quote)
             (\<lambda>(s', token). Inr (s'\<lparr>sc_interpolating_count := sc_interpolating_count s' - 1\<rparr>, token))))"
proof -
  let ?n = "nat (sc_interpolating_count s2)"
  have n: "sc_interpolating_count s2 < 8" "length (sc_interpolating s2) = 8"
    "sc_interpolating s2 ! ?n = Some DQUOTE \<or> sc_interpolating s2 ! ?n = Some SQUOTE"
    using inv open_interp by (auto simp: scan_inv_def quotes_inv_def)
  then obtain q where q: "cell_get (sc_interpolating s2) (sc_interpolating_count s2) = Inr q" "q = DQUOTE \<or> q = SQUOTE"
    using open_interp by (auto simp: cell_get_def)
  have r: "string_result s2 q (scan_string s2 q)" using scan_string_result [OF inv q(2)] .
  show ?thesis
  proof (cases "scan_string s2 q")
    case (Inl e)
    with r q(1) src show ?thesis by (simp add: token_result_def string_result_def)
  next
    case (Inr p)
    obtain s' tk where p: "p = (s', tk)" by (cases p)
    have "scan_inv s'" "0 \<le> sc_interpolating_count s'"
      using r Inr p open_interp by (auto simp: string_result_def)
    then have "scan_inv (s'\<lparr>sc_interpolating_count := sc_interpolating_count s' - 1\<rparr>)"
      by (auto simp: scan_inv_def quotes_inv_def pos_inv_def)
    with r Inr p q(1) src le show ?thesis
      by (auto simp: token_result_def string_result_def spans_def split: token_text.splits)
  qed
qed

lemma token_result_operator:
  assumes inv: "scan_inv s2" and le: "sc_current s \<le> sc_start s2" "sc_start s2 < sc_current s2"
    and src: "sc_source s2 = sc_source s" "sc_interpolating_count s2 = sc_interpolating_count s"
  shows "token_result s (scan_operator s2 c)"
proof -
  have st: "sc_start s2 \<le> sc_current s2" using le by simp
  note lexed = token_result_lexed [OF inv le src(1)]
  have t: "token_result s (Inr (s2, make_token s2 type))" if "type \<noteq> EOF_TOKEN" for type
    using that st by (intro lexed lexed_make) auto
  have e: "token_result s (Inr (s2, error_token s2 m))" for m
    by (intro lexed) (simp add: lexed_def error_token_def spans_def)
  have single: "type \<noteq> EOF_TOKEN" if "map_of single_tokens c = Some type" for type
    using map_of_SomeD [OF that] by (auto simp: single_tokens_def)
  note ops = lexed_op_eq [OF moved_refl st] lexed_op_step [OF st] lexed_op_double [OF st] lexed_op_dot [OF st]
    lexed_decorator [OF st]
  note strings = token_result_string [OF le src scan_string_result [OF inv]]
  show ?thesis
  proof (cases "map_of single_tokens c")
    case (Some type)
    then show ?thesis using t single by (simp add: scan_operator_def)
  next
    case None
    then show ?thesis
      using token_result_close [OF inv _ le src] t e ops [THEN lexed] strings
      by (simp add: scan_operator_def)
  qed
qed

lemma scan_token_result:
  assumes inv: "scan_inv s"
  shows "token_result s (scan_token s)"
proof -
  obtain s1 tk where sk: "skip_whitespace s = (s1, tk)" by (cases "skip_whitespace s")
  have m: "moved s s1" using moved_skip_whitespace [of s] sk by simp
  note ms = moved_simps [OF m]
  have inv1: "scan_inv s1" using scan_inv_moved [OF inv m] .
  show ?thesis
  proof (cases "tk_type tk = UNDEFINED_TOKEN")
    case False
    then have "scan_token s = Inr (s1, tk)" by (simp add: scan_token_def sk)
    moreover have "spans s1 tk"
      using skip_whitespace_error [of s] sk False by simp
    ultimately show ?thesis
      using skip_whitespace_error [of s] sk False inv1 ms by (auto simp: token_result_def)
  next
    case True
    let ?s2 = "s1\<lparr>sc_start := sc_current s1\<rparr>"
    have inv2: "scan_inv ?s2" using inv1 by (simp add: scan_inv_def pos_inv_def quotes_inv_def)
    show ?thesis
    proof (cases "is_at_end ?s2")
      case end_of_text: True
      then have "scan_token s = Inr (?s2, make_token ?s2 EOF_TOKEN)" using True by (simp add: scan_token_def sk Let_def)
      then show ?thesis
        using end_of_text inv2 ms scan_inv_end [OF inv2] by (simp add: token_result_def make_token_def spans_def)
    next
      case False
      let ?s3 = "advance ?s2"
      have m3: "moved ?s2 ?s3" using False by (intro moved_advance) (simp add: is_at_end_def)
      have inv3: "scan_inv ?s3" using scan_inv_moved [OF inv2 m3] .
      have le: "sc_current s \<le> sc_start ?s3" "sc_start ?s3 < sc_current ?s3" "sc_start ?s3 \<le> sc_current ?s3"
        using ms by simp_all
      have src: "sc_source ?s3 = sc_source s" "sc_interpolating_count ?s3 = sc_interpolating_count s" using ms by simp_all
      have "scan_token s = (if is_digit (cur ?s2) then Inr (scan_number ?s3)
             else if is_alpha (cur ?s2) then Inr (scan_identifier ?s3) else scan_operator ?s3 (cur ?s2))"
        using True False by (simp add: scan_token_def sk Let_def)
      then show ?thesis
        using token_result_lexed [OF inv3 le(1,2) src(1)] lexed_number [OF le(3)] lexed_identifier [OF le(3)]
          token_result_operator [OF inv3 le(1,2) src] by simp
    qed
  qed
qed

section \<open>Properties\<close>





text \<open>The keywords of the language.\<close>

definition keyword_table :: "(string \<times> b_keyword) list" where
  "keyword_table =
     [(''and'', AND_TOKEN), (''as'', AS_TOKEN), (''assert'', ASSERT_TOKEN), (''break'', BREAK_TOKEN),
      (''catch'', CATCH_TOKEN), (''class'', CLASS_TOKEN), (''continue'', CONTINUE_TOKEN),
      (''def'', DEF_TOKEN), (''default'', DEFAULT_TOKEN), (''die'', DIE_TOKEN), (''do'', DO_TOKEN),
      (''echo'', ECHO_TOKEN), (''else'', ELSE_TOKEN), (''false'', FALSE_TOKEN),
      (''finally'', FINALLY_TOKEN), (''for'', FOR_TOKEN), (''if'', IF_TOKEN), (''import'', IMPORT_TOKEN),
      (''in'', IN_TOKEN), (''iter'', ITER_TOKEN), (''nil'', NIL_TOKEN), (''or'', OR_TOKEN),
      (''parent'', PARENT_TOKEN), (''return'', RETURN_TOKEN), (''self'', SELF_TOKEN),
      (''static'', STATIC_TOKEN), (''true'', TRUE_TOKEN), (''try'', TRY_TOKEN), (''using'', USING_TOKEN),
      (''var'', VAR_TOKEN), (''when'', WHEN_TOKEN), (''while'', WHILE_TOKEN)]"

lemma check_keyword_rest:
  assumes "check_keyword w start len rest type \<noteq> IDENTIFIER_TOKEN"
  shows "w = map ((!) w) [0..<start] @ take len rest"
proof -
  have h: "length w = start + len" "drop start w = take len rest"
    using assms by (auto simp: check_keyword_def split: if_splits)
  have "w = take start w @ drop start w" by simp
  also have "take start w = map ((!) w) [0..<start]" using h(1) by (intro nth_equalityI) auto
  finally show ?thesis by (simp only: h(2))
qed

lemma keyword_known: "list_all (\<lambda>(w, k). identifier_type w = Keyword k) keyword_table"
  by code_simp

lemma upt_small: "[0..<1] = [0]" "[0..<2] = [0, 1]" "[0..<3] = [0, 1, 2]"
  by (simp_all add: upt_rec numeral_eq_Suc)

lemma keyword_only:
  assumes "identifier_type w \<noteq> IDENTIFIER_TOKEN"
  shows "w \<in> fst ` set keyword_table"
  using assms unfolding identifier_type_def Let_def keyword_table_def
  by (auto simp: upt_small dest!: check_keyword_rest split: if_splits)

lemma identifier_type_table:
  "identifier_type w = (case map_of keyword_table w of Some k \<Rightarrow> Keyword k | None \<Rightarrow> IDENTIFIER_TOKEN)"
proof (cases "map_of keyword_table w")
  case None
  then have "w \<notin> fst ` set keyword_table" by (simp add: map_of_eq_None_iff)
  with keyword_only [of w] None show ?thesis by auto
next
  case (Some k)
  then have "(w, k) \<in> set keyword_table" by (rule map_of_SomeD)
  with keyword_known Some show ?thesis by (auto simp: list_all_iff)
qed

text \<open>The text that lies ahead of the scanner.\<close>

definition ahead :: "b_scanner \<Rightarrow> string" where
  "ahead s = drop (sc_current s) (sc_source s)"

lemma ahead_Cons:
  assumes "ahead s = c # r"
  shows "cur s = c" and "ahead (advance s) = r" and "c \<noteq> NUL \<Longrightarrow> \<not> is_at_end s"
proof -
  have l: "sc_current s < length (sc_source s)"
    using assms by (cases "sc_current s < length (sc_source s)") (auto simp: ahead_def)
  with assms have "sc_source s ! sc_current s # drop (Suc (sc_current s)) (sc_source s) = c # r"
    by (simp add: ahead_def Cons_nth_drop_Suc)
  then show c: "cur s = c" and "ahead (advance s) = r" using l by (auto simp: cur_def char_at_def ahead_def)
  show "c \<noteq> NUL \<Longrightarrow> \<not> is_at_end s" using c by (simp add: is_at_end_def)
qed

lemma ahead_start [simp]: "ahead (s\<lparr>sc_start := n\<rparr>) = ahead s"
  by (simp add: ahead_def)

lemma ahead_next: "ahead s = c # d # r \<Longrightarrow> c \<noteq> NUL \<Longrightarrow> next_char s = d"
  using ahead_Cons [of s c "d # r"] ahead_Cons(1) [of "advance s" d r] cur_advance [of s] by simp

lemma while_char_word:
  assumes "ahead s = w @ rest" and "list_all p w" and "\<not> p NUL" and "rest = [] \<or> \<not> p (hd rest)"
  shows "sc_current (while_char p s) = sc_current s + length w \<and> moved s (while_char p s)"
  using assms(1,2)
proof (induction w arbitrary: s)
  case Nil
  have "\<not> p (cur s)"
  proof (cases rest)
    case Nil
    then have "cur s = NUL" using Nil.prems by (auto simp: ahead_def cur_def char_at_def)
    then show ?thesis using assms(3) by simp
  next
    case (Cons c r)
    then show ?thesis using Nil.prems(1) ahead_Cons(1) [of s] assms(4) by simp
  qed
  then show ?case by (simp add: while_char.simps)
next
  case (Cons c w)
  then have p: "p c" and c: "ahead s = c # (w @ rest)" by auto
  note a = ahead_Cons [OF c]
  have "c \<noteq> NUL" using p assms(3) by auto
  then have e: "while_char p s = while_char p (advance s)"
    using p a by (subst while_char.simps) (simp add: is_at_end_def)
  show ?case using Cons.IH [OF a(2)] Cons.prems(2) moved_while_char [of s p] by (simp add: e)
qed

lemma skip_whitespace_stop:
  assumes "cur s \<notin> set ('' /#'' @ [CHR 0x0D, CHR 0x09])"
  shows "skip_whitespace s = (s, make_token s UNDEFINED_TOKEN)"
  using assms by (subst skip_whitespace.simps) auto

lemma alpha_not_special:
  assumes "is_alpha c"
  shows "c \<notin> set ('' /#'' @ [CHR 0x0D, CHR 0x09])" and "\<not> is_digit c" and "c \<noteq> NUL"
  using assms order_trans [of "CHR ''a''" c "CHR ''9''"] order_trans [of "CHR ''A''" c "CHR ''9''"]
  by (auto simp: is_alpha_def is_digit_def)

text \<open>
  C30: A word (a letter or underscore, then letters, digits and underscores) followed by something
  else is read as one token of exactly its length, and its type is the one the keyword table gives,
  or that of an identifier.
\<close>

theorem scan_token_word:
  assumes "ahead s = w @ rest" and "w \<noteq> []" and "is_alpha (hd w)"
    and "list_all (\<lambda>c. is_alpha c \<or> is_digit c) w"
    and "rest = [] \<or> \<not> (is_alpha (hd rest) \<or> is_digit (hd rest))"
  shows "\<exists>s' tk. scan_token s = Inr (s', tk) \<and> tk_start tk = At (sc_current s) \<and> tk_length tk = length w \<and>
           tk_type tk = (case map_of keyword_table w of Some k \<Rightarrow> Keyword k | None \<Rightarrow> IDENTIFIER_TOKEN) \<and>
           sc_current s' = sc_current s + length w"
proof -
  obtain c v where w: "w = c # v" using assms(2) by (cases w) auto
  let ?s2 = "s\<lparr>sc_start := sc_current s\<rparr>"
  let ?p = "\<lambda>c. is_alpha c \<or> is_digit c"
  have a: "ahead ?s2 = c # (v @ rest)" using assms(1) w by simp
  note c = ahead_Cons [OF a]
  note al = alpha_not_special [of c]
  have alpha: "is_alpha c" using assms(3) w by simp
  have "cur s = c" using c(1) by (simp add: cur_def)
  then have sk: "skip_whitespace s = (s, make_token s UNDEFINED_TOKEN)"
    using al(1) alpha by (intro skip_whitespace_stop) simp
  let ?s4 = "while_char ?p (advance ?s2)"
  have s4: "sc_current ?s4 = sc_current s + length w" "sc_source ?s4 = sc_source s" "sc_start ?s4 = sc_current s"
    using while_char_word [OF c(2), of ?p] assms(4,5) w moved_simps [of "advance ?s2" ?s4] by auto
  then have "lexeme ?s4 = w" using assms(1) by (simp add: lexeme_def ahead_def)
  moreover have "scan_token s = Inr (?s4, make_token ?s4 (identifier_type (lexeme ?s4)))"
    using sk c al alpha by (simp add: scan_token_def Let_def make_token_def scan_identifier_def)
  ultimately show ?thesis
    using s4 by (simp add: make_token_def identifier_type_table)
qed

theorem scan_token_word_witness:
  "\<exists>s' tk. scan_token (init_scanner ''while x'') = Inr (s', tk) \<and> tk_type tk = Keyword WHILE_TOKEN \<and> tk_length tk = 5"
  using scan_token_word [of "init_scanner ''while x''" "''while''" "'' x''"]
  by (auto simp: ahead_def init_scanner_def is_alpha_def is_digit_def keyword_table_def)

lemma previous_advance: "previous (advance s) = cur s"
  by (simp add: previous_def cur_def)

text \<open>
  With fewer than eight open interpolations the text of an interpolated string is cut at its
  \<open>${\<close> and the quote is pushed; with eight open the guard of the code still lets it push, outside the
  stack (the error message for too deep a nesting is never produced).
\<close>

lemma scan_token_interpolation:
  assumes "scan_inv s" and "ahead s = DQUOTE # CHR ''$'' # CHR ''{'' # rest"
  shows "if sc_interpolating_count s < 7
         then \<exists>s' tk. scan_token s = Inr (s', tk) \<and> tk_type tk = INTERPOLATION_TOKEN \<and> tk_length tk = 2 \<and>
                sc_current s' = sc_current s + 3 \<and> sc_interpolating_count s' = sc_interpolating_count s + 1 \<and>
                sc_interpolating s' ! nat (sc_interpolating_count s') = Some DQUOTE
         else scan_token s = Inl OutOfBounds"
proof -
  let ?s2 = "s\<lparr>sc_start := sc_current s\<rparr>"
  have a: "ahead ?s2 = DQUOTE # CHR ''$'' # CHR ''{'' # rest" using assms(2) by simp
  note c = ahead_Cons [OF a] and d = ahead_Cons [OF ahead_Cons(2) [OF a]]
  have n: "next_char (advance ?s2) = CHR ''{''" by (rule ahead_next [OF c(2)]) simp
  have "cur s = DQUOTE" using c(1) by (simp add: cur_def)
  then have sk: "skip_whitespace s = (s, make_token s UNDEFINED_TOKEN)"
    by (intro skip_whitespace_stop) simp
  have "scan_token s = scan_string (advance ?s2) DQUOTE"
    using sk c by (simp add: scan_token_def Let_def make_token_def scan_operator_def single_tokens_def
        is_alpha_def is_digit_def)
  also have "\<dots> = start_interpolation (advance ?s2) DQUOTE"
    using d n c(1) by (subst scan_string.simps) (simp add: previous_advance)
  finally have e: "scan_token s = start_interpolation (advance ?s2) DQUOTE" .
  have i: "-1 \<le> sc_interpolating_count s" "sc_interpolating_count s < 8" "length (sc_interpolating s) = 8"
    using assms(1) by (auto simp: scan_inv_def quotes_inv_def)
  show ?thesis
    using i by (auto simp: e start_interpolation_def MAX_INTERPOLATION_NESTING_def cell_set_def Let_def make_token_def)
qed

lemma scan_token_interpolation_instance:
  "scan_token ((init_scanner (DQUOTE # ''${''))\<lparr>sc_interpolating_count := 7, sc_interpolating := replicate 8 (Some DQUOTE)\<rparr>)
   = Inl OutOfBounds"
proof -
  let ?s = "(init_scanner (DQUOTE # ''${''))\<lparr>sc_interpolating_count := 7, sc_interpolating := replicate 8 (Some DQUOTE)\<rparr>"
  have "scan_inv ?s"
    by (simp add: scan_inv_def init_scanner_def pos_inv_def quotes_inv_def newlines_def)
  moreover have "ahead ?s = DQUOTE # CHR ''$'' # CHR ''{'' # []" by (simp add: ahead_def init_scanner_def)
  ultimately show ?thesis using scan_token_interpolation [of ?s "[]"] by simp
qed

text \<open>A string body without quotes, backslashes and dollar signs is passed as it is.\<close>

lemma scan_string_plain:
  assumes "ahead s = w @ quote # rest" and "set w \<inter> {quote, BACKSLASH, CHR ''$'', NUL} = {}" and "quote \<noteq> NUL"
  shows "\<exists>s'. scan_string s quote = Inr (s', make_token s' LITERAL_TOKEN) \<and> moved s s' \<and>
           sc_current s' = sc_current s + length w + 1"
  using assms(1,2)
proof (induction w arbitrary: s)
  case Nil
  then have a: "ahead s = quote # rest" by simp
  note c = ahead_Cons [OF a]
  let ?s = "fst (match_char s quote)"
  have "scan_string s quote = Inr (?s, make_token ?s LITERAL_TOKEN)"
    using c assms(3) by (subst scan_string.simps) (simp add: Let_def)
  moreover have "sc_current ?s = sc_current s + 1" using c assms(3) by (simp add: match_char_def)
  ultimately show ?case using moved_match [of s quote] by auto
next
  case (Cons d w)
  then have a: "ahead s = d # (w @ quote # rest)" by simp
  note c = ahead_Cons [OF a]
  have d: "d \<noteq> quote" "d \<noteq> BACKSLASH" "d \<noteq> CHR ''$''" "d \<noteq> NUL" using Cons.prems(2) by auto
  then have e: "scan_string s quote = scan_string (advance s) quote"
    using c by (subst scan_string.simps) simp
  have m: "moved s (advance s)" using c(1) d by (intro moved_advance) simp
  have "set w \<inter> {quote, BACKSLASH, CHR ''$'', NUL} = {}" using Cons.prems(2) by auto
  from Cons.IH [OF c(2) this] m show ?case by (auto simp: e intro: moved_trans)
qed

text \<open>
  A quoted text without quotes, backslashes and dollar signs is read as one literal token that
  spans the text and both quotes, whatever follows.
\<close>

lemma scan_token_literal:
  assumes "ahead s = quote # w @ quote # rest" and "quote = DQUOTE \<or> quote = SQUOTE"
    and "set w \<inter> {quote, BACKSLASH, CHR ''$'', NUL} = {}"
  shows "\<exists>s' tk. scan_token s = Inr (s', tk) \<and> tk_type tk = LITERAL_TOKEN \<and>
           tk_start tk = At (sc_current s) \<and> tk_length tk = length w + 2 \<and>
           take (length w + 2) (drop (sc_current s) (sc_source s)) = quote # w @ [quote] \<and>
           sc_current s' = sc_current s + length w + 2"
proof -
  let ?s2 = "s\<lparr>sc_start := sc_current s\<rparr>"
  have a: "ahead ?s2 = quote # w @ quote # rest" using assms(1) by simp
  note c = ahead_Cons [OF a]
  have q: "quote \<noteq> NUL" using assms(2) by auto
  have "cur s = quote" using c(1) by (simp add: cur_def)
  then have sk: "skip_whitespace s = (s, make_token s UNDEFINED_TOKEN)"
    using assms(2) by (intro skip_whitespace_stop) auto
  have "scan_token s = scan_string (advance ?s2) quote"
    using sk c assms(2) by (auto simp: scan_token_def Let_def make_token_def scan_operator_def single_tokens_def
        is_alpha_def is_digit_def)
  with scan_string_plain [OF c(2) assms(3) q] obtain s' where
    s': "scan_token s = Inr (s', make_token s' LITERAL_TOKEN)" "moved (advance ?s2) s'"
    "sc_current s' = sc_current s + length w + 2" by auto
  have "take (length w + 2) (ahead s) = quote # w @ [quote]" using assms(1) by simp
  with s' moved_simps [OF s'(2)] show ?thesis by (simp add: make_token_def ahead_def)
qed

lemma scan_token_literal_instance:
  "\<exists>s' tk. scan_token (init_scanner (DQUOTE # ''hi'' @ [DQUOTE])) = Inr (s', tk) \<and>
     tk_type tk = LITERAL_TOKEN \<and> tk_length tk = 4"
  using scan_token_literal [of "init_scanner (DQUOTE # ''hi'' @ [DQUOTE])" DQUOTE "''hi''" "[]"]
  by (auto simp: ahead_def init_scanner_def)

end
