(* ===== verification/Compiler_Emit.thy ===== *)
theory Compiler_Emit
  imports Compiler Scanner_Correct
begin

text \<open>
  What the emission functions of the compiler do to the function under construction. \<open>emitted p p' code
  consts\<close> says that the parser went from \<open>p\<close> to \<open>p'\<close> by reading tokens and appending to the code and
  the constants of the current function, and did nothing else. It is reflexive and transitive, so the
  effect of a parser function follows from the effects of its parts. \<open>tokens p ts\<close> says which tokens the
  parser will see.
\<close>

section \<open>The function under construction\<close>

definition fn_of :: "b_compiler list \<Rightarrow> heap \<Rightarrow> (addr \<times> b_obj_func) option" where
  "fn_of cs hp =
     (case cs of
        [] \<Rightarrow> None
      | c # _ \<Rightarrow> (case function_at hp (cp_function c) of Inl _ \<Rightarrow> None | Inr fn \<Rightarrow> Some (cp_function c, fn)))"

lemma function_at_iff: "function_at hp a = Inr fn \<longleftrightarrow> hp a = Some (OFunction fn)"
  by (simp add: function_at_def split: option.splits b_obj.splits)

lemma fn_of_iff:
  "fn_of cs hp = Some (a, fn) \<longleftrightarrow> (\<exists>c cs'. cs = c # cs' \<and> a = cp_function c \<and> hp a = Some (OFunction fn))"
  using function_at_iff [of hp a fn] by (auto simp: fn_of_def split: list.splits sum.splits)

definition cur_fn :: "b_parser \<Rightarrow> (addr \<times> b_obj_func) option" where
  "cur_fn p = fn_of (ps_compilers p) (vm_heap (ps_vm p))"

definition with_blob :: "b_parser \<Rightarrow> b_blob \<Rightarrow> b_parser" where
  "with_blob p b =
     (case cur_fn p of
        None \<Rightarrow> p
      | Some (a, fn) \<Rightarrow> p\<lparr>ps_vm := vm_put (ps_vm p) a (OFunction (fn\<lparr>f_blob := b\<rparr>))\<rparr>)"

definition cur_blob :: "b_parser \<Rightarrow> b_blob option" where
  "cur_blob p = map_option (f_blob \<circ> snd) (cur_fn p)"

definition ready :: "b_parser \<Rightarrow> bool" where
  "ready p = (case cur_blob p of None \<Rightarrow> False | Some b \<Rightarrow> blob_inv b)"

lemma vm_put_put [simp]: "vm_put (vm_put vm a x) a y = vm_put vm a y"
  by (simp add: vm_put_def)

lemma with_blob_Some:
  assumes "cur_fn p = Some (a, fn)"
  shows "with_blob p b = p\<lparr>ps_vm := vm_put (ps_vm p) a (OFunction (fn\<lparr>f_blob := b\<rparr>))\<rparr>"
    and "cur_fn (with_blob p b) = Some (a, fn\<lparr>f_blob := b\<rparr>)"
proof -
  show *: "with_blob p b = p\<lparr>ps_vm := vm_put (ps_vm p) a (OFunction (fn\<lparr>f_blob := b\<rparr>))\<rparr>"
    using assms by (simp add: with_blob_def)
  show "cur_fn (with_blob p b) = Some (a, fn\<lparr>f_blob := b\<rparr>)"
    using assms unfolding * by (auto simp: cur_fn_def fn_of_iff vm_put_def)
qed

lemma cur_fn_with_blob [simp]: "cur_fn (with_blob p b) = map_option (\<lambda>(a, fn). (a, fn\<lparr>f_blob := b\<rparr>)) (cur_fn p)"
  by (cases "cur_fn p") (auto simp: with_blob_Some(2), simp add: with_blob_def)

lemma with_blob_twice [simp]: "with_blob (with_blob p b) b' = with_blob p b'"
proof (cases "cur_fn p")
  case (Some x)
  obtain a fn where "x = (a, fn)" by (cases x)
  with Some have "cur_fn p = Some (a, fn)" by simp
  note w = with_blob_Some [OF this]
  show ?thesis using with_blob_Some(1) [OF w(2), of b b'] w(1) by simp
qed (simp add: with_blob_def)

lemma cur_blob_with_blob [simp]: "cur_blob p \<noteq> None \<Longrightarrow> cur_blob (with_blob p b) = Some b"
  by (auto simp: cur_blob_def)

lemma with_blob_sel [simp]:
  "ps_scanner (with_blob p b) = ps_scanner p" "ps_current (with_blob p b) = ps_current p"
  "ps_previous (with_blob p b) = ps_previous p" "ps_compilers (with_blob p b) = ps_compilers p"
  "ps_is_trying (with_blob p b) = ps_is_trying p" "vm_is_repl (ps_vm (with_blob p b)) = vm_is_repl (ps_vm p)"
  "ps_had_error (with_blob p b) = ps_had_error p" "ps_panic_mode (with_blob p b) = ps_panic_mode p"
  "ps_block_count (with_blob p b) = ps_block_count p"
  by (auto simp: with_blob_def vm_put_def split: option.splits)

text \<open>The part of the parser state that reading tokens changes.\<close>

definition at_token :: "b_parser \<Rightarrow> b_scanner \<Rightarrow> b_token \<Rightarrow> b_token \<Rightarrow> b_parser" where
  "at_token p s t u = p\<lparr>ps_scanner := s, ps_current := t, ps_previous := u\<rparr>"

lemma at_token_sel [simp]:
  "ps_scanner (at_token p s t u) = s" "ps_current (at_token p s t u) = t" "ps_previous (at_token p s t u) = u"
  "ps_compilers (at_token p s t u) = ps_compilers p" "ps_vm (at_token p s t u) = ps_vm p"
  "ps_is_trying (at_token p s t u) = ps_is_trying p" "ps_block_count (at_token p s t u) = ps_block_count p"
  "at_token (at_token p s t u) s' t' u' = at_token p s' t' u'"
  by (simp_all add: at_token_def)

lemma cur_fn_at_token [simp]: "cur_fn (at_token p s t u) = cur_fn p" "cur_blob (at_token p s t u) = cur_blob p"
  "with_blob (at_token p s t u) b = at_token (with_blob p b) s t u"
  by (simp_all add: cur_fn_def cur_blob_def with_blob_def at_token_def split: option.splits)

lemma at_token_same: "at_token p (ps_scanner p) (ps_current p) (ps_previous p) = p"
  by (simp add: at_token_def)

lemma cur_blob_SomeE:
  assumes "cur_blob p = Some b"
  obtains c cs fn where "ps_compilers p = c # cs" "vm_heap (ps_vm p) (cp_function c) = Some (OFunction fn)" "f_blob fn = b"
    "cur_fn p = Some (cp_function c, fn)"
  using assms by (auto simp: cur_blob_def cur_fn_def fn_of_iff)

lemma with_blob_same: "cur_blob p = Some b \<Longrightarrow> with_blob p b = p"
  by (erule cur_blob_SomeE) (auto simp: with_blob_def vm_put_def map_upd_triv)

section \<open>Emission\<close>

lemma current_blob_eq: "cur_blob p = Some b \<Longrightarrow> current_blob p = Inr b"
  by (erule cur_blob_SomeE) (simp add: current_blob_def cur_compiler_def function_at_def)

lemma set_blob_eq: "cur_blob p \<noteq> None \<Longrightarrow> set_blob b p = Inr (with_blob p b)"
  by (auto elim!: cur_blob_SomeE simp: set_blob_def upd_function_def upd_function_at_def cur_compiler_def function_at_def with_blob_def)

definition emitted :: "b_parser \<Rightarrow> b_parser \<Rightarrow> byte list \<Rightarrow> b_value list \<Rightarrow> bool" where
  "emitted p p' code consts =
     (ready p \<and> (\<exists>b s t u. p' = at_token (with_blob p b) s t u \<and> blob_inv b \<and>
        blob_code b = blob_code (the (cur_blob p)) @ code \<and>
        varr_list (bl_constants b) = varr_list (bl_constants (the (cur_blob p))) @ consts))"

lemma ready_some: "ready p \<Longrightarrow> cur_blob p \<noteq> None"
  by (auto simp: ready_def split: option.splits)

lemma emitted_ready: "emitted p p' code consts \<Longrightarrow> ready p'"
  by (auto simp: emitted_def ready_def split: option.splits)

lemma emittedI:
  assumes "cur_blob p = Some b0" and "blob_inv b0" and "blob_inv b" and "blob_code b = blob_code b0 @ code"
    and "varr_list (bl_constants b) = varr_list (bl_constants b0) @ consts"
  shows "emitted p (at_token (with_blob p b) s t u) code consts" and "emitted p (with_blob p b) code consts"
proof -
  show *: "emitted p (at_token (with_blob p b) s t u) code consts" for s t u
    using assms unfolding emitted_def ready_def by auto
  show "emitted p (with_blob p b) code consts"
    using * [of "ps_scanner p" "ps_current p" "ps_previous p"] at_token_same [of "with_blob p b"] by simp
qed

lemma ready_obtain:
  assumes "ready p"
  obtains b where "cur_blob p = Some b" "blob_inv b"
  using assms by (auto simp: ready_def split: option.splits)

lemma emitted_refl: "ready p \<Longrightarrow> emitted p p [] []"
  by (erule ready_obtain) (metis append_Nil2 emittedI(2) with_blob_same)

lemma emitted_read: "ready p \<Longrightarrow> emitted p (at_token p s t u) [] []"
  by (erule ready_obtain) (metis append_Nil2 emittedI(1) with_blob_same)

lemma emitted_trans:
  assumes "emitted p q c1 k1" and "emitted q r c2 k2"
  shows "emitted p r (c1 @ c2) (k1 @ k2)"
proof -
  from assms(1) obtain b s t u where b: "q = at_token (with_blob p b) s t u" "blob_inv b" "ready p"
    "blob_code b = blob_code (the (cur_blob p)) @ c1" "varr_list (bl_constants b) = varr_list (bl_constants (the (cur_blob p))) @ k1"
    by (auto simp: emitted_def)
  have q: "cur_blob q = Some b" using ready_some [OF b(3)] by (auto simp: b(1))
  from assms(2) obtain b' s' t' u' where "r = at_token (with_blob q b') s' t' u'" "blob_inv b'"
    "blob_code b' = blob_code b @ c2" "varr_list (bl_constants b') = varr_list (bl_constants b) @ k2"
    by (auto simp: emitted_def q)
  then show ?thesis using b by (auto simp: emitted_def)
qed

lemma emitted_blob:
  assumes "emitted p p' code consts"
  shows "blob_code (the (cur_blob p')) = blob_code (the (cur_blob p)) @ code"
    and "varr_list (bl_constants (the (cur_blob p'))) = varr_list (bl_constants (the (cur_blob p))) @ consts"
  using assms by (auto simp: emitted_def dest: ready_some)

lemma emit_byte_emitted:
  assumes "ready p"
  shows "\<exists>b. emit_byte x p = Inr (with_blob p b) \<and> emitted p (with_blob p b) [x] []"
proof -
  obtain b where b: "cur_blob p = Some b" "blob_inv b" using assms by (auto simp: ready_def split: option.splits)
  from write_blob_correct [OF b(2), of x "int (tk_line (ps_previous p))"] obtain b' where
    b': "write_blob b x (int (tk_line (ps_previous p))) = Inr b'" "blob_inv b'" "blob_code b' = blob_code b @ [x]"
      "bl_constants b' = bl_constants b" by auto
  have "emit_byte x p = Inr (with_blob p b')"
    using b b' by (simp add: emit_byte_def current_blob_eq set_blob_eq)
  moreover have "emitted p (with_blob p b') [x] []" by (rule emittedI(2) [OF b]) (use b' in simp_all)
  ultimately show ?thesis by blast
qed

lemma emit_bytes_emitted:
  assumes "ready p"
  shows "\<exists>b. seqR (map emit_byte xs) p = Inr (with_blob p b) \<and> emitted p (with_blob p b) xs []"
  using assms
proof (induction xs arbitrary: p)
  case Nil
  then obtain b where "cur_blob p = Some b" by (auto simp: ready_def split: option.splits)
  then show ?case using Nil emitted_refl [of p] by (intro exI [of _ b]) (simp add: with_blob_same)
next
  case (Cons x xs)
  obtain b where b: "emit_byte x p = Inr (with_blob p b)" "emitted p (with_blob p b) [x] []"
    using emit_byte_emitted [OF Cons.prems] by blast
  from Cons.IH [OF emitted_ready [OF b(2)]] obtain b' where
    b': "seqR (map emit_byte xs) (with_blob p b) = Inr (with_blob p b')" "emitted (with_blob p b) (with_blob p b') xs []" by auto
  show ?case using b b' emitted_trans [OF b(2) b'(2)] by auto
qed

lemma emit_ops_emitted:
  assumes "ready p"
  shows "\<exists>b. emit_ops ops p = Inr (with_blob p b) \<and> emitted p (with_blob p b) (map byte_of_code ops) []"
  using emit_bytes_emitted [OF assms, of "map byte_of_code ops"] by (simp add: emit_ops_def comp_def)

lemma emit_constant_emitted:
  assumes "ready p" and "int (va_count (bl_constants (the (cur_blob p)))) < UINT16_MAX"
  shows "\<exists>b. emit_constant v p = Inr (with_blob p b) \<and>
           emitted p (with_blob p b) [byte_of_code OP_CONSTANT, hi_byte (int (va_count (bl_constants (the (cur_blob p))))),
             lo_byte (int (va_count (bl_constants (the (cur_blob p)))))] [v]"
proof -
  obtain b where b: "cur_blob p = Some b" "blob_inv b" using assms(1) by (auto simp: ready_def split: option.splits)
  let ?n = "int (va_count (bl_constants b))"
  from add_constant_correct [OF b(2), of v] obtain b' where
    b': "add_constant b v = Inr (b', va_count (bl_constants b))" "blob_inv b'"
      "varr_list (bl_constants b') = varr_list (bl_constants b) @ [v]" "bl_code b' = bl_code b" "bl_count b' = bl_count b" by blast
  let ?p = "with_blob p b'"
  have mk: "make_constant v p = Inr (?p, ?n)"
    using b b' assms(2) by (simp add: make_constant_def current_blob_eq set_blob_eq)
  have e: "emitted p ?p [] [v]"
    by (rule emittedI(2) [OF b]) (use b' in \<open>simp_all add: blob_code_def\<close>)
  from emit_bytes_emitted [OF emitted_ready [OF e], of "[byte_of_code OP_CONSTANT, hi_byte ?n, lo_byte ?n]"] obtain c where
    c: "emit_byte_and_short (byte_of_code OP_CONSTANT) ?n ?p = Inr (with_blob p c)"
      "emitted ?p (with_blob p c) [byte_of_code OP_CONSTANT, hi_byte ?n, lo_byte ?n] []"
    by (auto simp: emit_byte_and_short_def)
  show ?thesis using mk c emitted_trans [OF e c(2)] b(1) by (auto simp: emit_constant_def)
qed

section \<open>Tokens\<close>

fun feeds :: "b_scanner \<Rightarrow> b_token list \<Rightarrow> bool" where
  "feeds s [] = True"
| "feeds s (t # ts) = (\<exists>s'. scan_token s = Inr (s', t) \<and> tk_type t \<noteq> ERROR_TOKEN \<and> feeds s' ts)"

definition tokens :: "b_parser \<Rightarrow> b_token list \<Rightarrow> bool" where
  "tokens p ts = (scan_inv (ps_scanner p) \<and> (\<exists>t us. ts = t # us \<and> ps_current p = t \<and> feeds (ps_scanner p) us))"

lemma advance_tokens:
  assumes "tokens p (t # u # ts)"
  shows "\<exists>s. advance_p p = Inr (at_token p s u t) \<and> tokens (at_token p s u t) (u # ts) \<and> sc_source s = sc_source (ps_scanner p)"
proof -
  from assms obtain s where s: "scan_inv (ps_scanner p)" "ps_current p = t" "scan_token (ps_scanner p) = Inr (s, u)"
    "tk_type u \<noteq> ERROR_TOKEN" "feeds s ts" by (auto simp: tokens_def)
  have inv: "scan_inv s" "sc_source s = sc_source (ps_scanner p)"
    using scan_token_result [OF s(1)] s(3) by (auto simp: token_result_def split: if_splits)
  then show ?thesis using s by (intro exI [of _ s]) (simp add: advance_p_def tokens_def at_token_def)
qed

lemma tokens_with_blob [simp]: "tokens (with_blob p b) ts = tokens p ts"
  by (simp add: tokens_def)

lemma tokens_at_token [simp]: "tokens (at_token (with_blob p b) s t u) ts = tokens (at_token p s t u) ts"
  by (simp add: tokens_def)

lemma tokens_current: "tokens p (t # ts) \<Longrightarrow> ps_current p = t"
  by (simp add: tokens_def)

lemma skip_all_none: "tk_type (ps_current p) \<notin> set ts \<Longrightarrow> skip_all ts p = Inr p"
  by (simp add: skip_all_def numeral_2_eq_2)

lemma ignore_whitespace_none: "tk_type (ps_current p) \<noteq> Symbol NEWLINE_TOKEN \<Longrightarrow> ignore_whitespace p = Inr p"
  by (simp add: ignore_whitespace_def skip_all_none)

end
