(* ===== verification/Compiler_Expr_Correct.thy ===== *)
theory Compiler_Expr_Correct
  imports Compiler_Emit
begin

text \<open>
  The precedence parser on operator expressions. The trees \<open>expr\<close> are built from number and keyword
  literals with the binary and unary operators and parentheses, over the tokens of the source; \<open>toks\<close>
  reads the tokens off a tree and \<open>fits n\<close> says that the tree respects the precedence table at level \<open>n\<close>:
  operators of the same level group to the left. The parser then emits the code of the tree in postfix
  order (\<open>ecode\<close>), whatever follows.
\<close>

section \<open>Trees\<close>

datatype expr =
    ELit b_token
  | EBin expr b_token expr
  | EUn b_token expr
  | EGroup b_token expr b_token

fun toks :: "expr \<Rightarrow> b_token list" where
  "toks (ELit t) = [t]"
| "toks (EBin l t r) = toks l @ t # toks r"
| "toks (EUn t e) = t # toks e"
| "toks (EGroup t e u) = t # toks e @ [u]"

abbreviation level :: "b_token \<Rightarrow> nat" where
  "level t \<equiv> pr_precedence (get_rule (tk_type t))"

fun fits :: "nat \<Rightarrow> expr \<Rightarrow> bool" where
  "fits n (ELit t) = (tk_type t \<in> {REG_NUMBER_TOKEN, BIN_NUMBER_TOKEN, OCT_NUMBER_TOKEN, HEX_NUMBER_TOKEN} \<or>
                     tk_type t \<in> Keyword ` {NIL_TOKEN, TRUE_TOKEN, FALSE_TOKEN})"
| "fits n (EBin l t r) = (n \<le> level t \<and> pr_infix (get_rule (tk_type t)) = Some Binary \<and>
                         fits (level t) l \<and> fits (level t + 1) r)"
| "fits n (EUn t e) = (pr_prefix (get_rule (tk_type t)) = Some Unary \<and> fits PREC_UNARY e)"
| "fits n (EGroup t e u) = (tk_type t = Symbol LPAREN_TOKEN \<and> tk_type u = Symbol RPAREN_TOKEN \<and> fits PREC_ASSIGNMENT e)"

fun econsts :: "string \<Rightarrow> expr \<Rightarrow> b_value list" where
  "econsts src (ELit t) = (if literal_ops (tk_type t) = [] then [number_of_token src t] else [])"
| "econsts src (EBin l t r) = econsts src l @ econsts src r"
| "econsts src (EUn t e) = econsts src e"
| "econsts src (EGroup t e u) = econsts src e"

text \<open>The code, when \<open>k\<close> constants are there already.\<close>

fun ecode :: "string \<Rightarrow> nat \<Rightarrow> expr \<Rightarrow> byte list" where
  "ecode src k (ELit t) =
     (if literal_ops (tk_type t) = [] then [byte_of_code OP_CONSTANT, hi_byte (int k), lo_byte (int k)]
      else map byte_of_code (literal_ops (tk_type t)))"
| "ecode src k (EBin l t r) =
     ecode src k l @ ecode src (k + length (econsts src l)) r @ map byte_of_code (binary_ops (tk_type t))"
| "ecode src k (EUn t e) = ecode src k e @ map byte_of_code (unary_ops (tk_type t))"
| "ecode src k (EGroup t e u) = ecode src k e"

text \<open>The fuel: one unit for each nested call and each round of the loop over infix operators.\<close>

fun efuel :: "expr \<Rightarrow> nat" where
  "efuel (ELit t) = 2"
| "efuel (EBin l t r) = efuel l + efuel r"
| "efuel (EUn t e) = Suc (efuel e)"
| "efuel (EGroup t e u) = Suc (efuel e)"

fun rounds_of :: "expr \<Rightarrow> nat" where
  "rounds_of (EBin l t r) = Suc (rounds_of l)"
| "rounds_of _ = 0"

lemma rounds_efuel: "rounds_of e + 2 \<le> efuel e"
proof (induction e)
  case (EBin l t r)
  then show ?case by simp
qed simp_all

text \<open>The token behind an expression: it does not continue the last operand.\<close>

fun stops_at :: "expr \<Rightarrow> b_token \<Rightarrow> bool" where
  "stops_at (EBin l t r) u = (level u \<le> level t)"
| "stops_at (EUn t e) u = (level u < PREC_UNARY)"
| "stops_at _ u = True"

lemma fits_mono: "fits n e \<Longrightarrow> m \<le> n \<Longrightarrow> fits m e"
  by (cases e) auto

lemmas rule_defs = no_rule_def prefix_rule_def infix_rule_def both_rule_def

lemma symbol_level:
  "pr_infix (symbol_rule s) = Some Binary \<Longrightarrow> PREC_EQUALITY \<le> pr_precedence (symbol_rule s) \<and> pr_precedence (symbol_rule s) \<le> PREC_FACTOR"
  by (cases s) (simp_all add: rule_defs)

lemma keyword_not_binary: "pr_infix (keyword_rule k) \<noteq> Some Binary"
  by (cases k) (simp_all add: rule_defs)

lemma level_binary:
  "pr_infix (get_rule t) = Some Binary \<Longrightarrow> PREC_EQUALITY \<le> pr_precedence (get_rule t) \<and> pr_precedence (get_rule t) \<le> PREC_FACTOR"
  using symbol_level keyword_not_binary by (cases t) (auto simp: rule_defs)

lemma toks_not_Nil: "toks e \<noteq> []"
  by (cases e) auto

lemma hd_toks_not_newline: "fits n e \<Longrightarrow> tk_type (hd (toks e)) \<noteq> Symbol NEWLINE_TOKEN"
proof (induction e arbitrary: n)
  case (EBin l t r)
  then show ?case using toks_not_Nil [of l] by auto
qed (auto simp: rule_defs)

lemma hd_toks_prefix: "fits n e \<Longrightarrow> \<exists>f. pr_prefix (get_rule (tk_type (hd (toks e)))) = Some f"
proof (induction e arbitrary: n)
  case (EBin l t r)
  then show ?case using toks_not_Nil [of l] by auto
qed (auto simp: rule_defs)

section \<open>Parsing\<close>

definition const_count :: "b_parser \<Rightarrow> nat" where
  "const_count p = length (varr_list (bl_constants (the (cur_blob p))))"

lemma const_count_eq: "ready p \<Longrightarrow> va_count (bl_constants (the (cur_blob p))) = const_count p"
  by (erule ready_obtain) (auto simp: const_count_def blob_inv_def dest: varr_invD(3))

lemma const_count_emitted: "emitted p p' code consts \<Longrightarrow> const_count p' = const_count p + length consts"
  using emitted_blob(2) [of p p' code "consts"] by (simp add: const_count_def)

text \<open>The parser has read the tokens of \<open>e\<close>, emitted its code, and stands before \<open>ts\<close>.\<close>

definition parsed :: "b_parser \<Rightarrow> expr \<Rightarrow> b_parser \<Rightarrow> b_token list \<Rightarrow> bool" where
  "parsed p e p' ts =
     (emitted p p' (ecode (sc_source (ps_scanner p)) (const_count p) e) (econsts (sc_source (ps_scanner p)) e) \<and>
      tokens p' ts \<and> sc_source (ps_scanner p') = sc_source (ps_scanner p))"

lemma emitted_repl: "emitted p p' code consts \<Longrightarrow> vm_is_repl (ps_vm p') = vm_is_repl (ps_vm p)"
  by (auto simp: emitted_def)

text \<open>The first token and its prefix function.\<close>

definition prefix_part :: "p_context \<Rightarrow> bool \<Rightarrow> p_step" where
  "prefix_part cx can_assign p =
     (case pr_prefix (get_rule (tk_type (ps_previous p))) of None \<Rightarrow> error ''expected expression'' p | Some f \<Rightarrow> run_prefix cx f can_assign p)"

definition can_parse :: "nat \<Rightarrow> b_parser \<Rightarrow> expr \<Rightarrow> b_token \<Rightarrow> b_token list \<Rightarrow> bool" where
  "can_parse n p e u ts =
     (fits n e \<and> tokens p (toks e @ u # ts) \<and> ready p \<and> \<not> vm_is_repl (ps_vm p) \<and>
      int (const_count p + length (econsts (sc_source (ps_scanner p)) e)) \<le> UINT16_MAX)"

lemma tokens_shift:
  assumes "tokens p (t # u # ts)" and "ready p"
  shows "\<exists>s. advance_p p = Inr (at_token p s u t) \<and> tokens (at_token p s u t) (u # ts) \<and>
           sc_source s = sc_source (ps_scanner p) \<and> emitted p (at_token p s u t) [] []"
  using advance_tokens [OF assms(1)] emitted_read [OF assms(2)] by blast

lemma parse_literal:
  assumes "can_parse n p (ELit t) u ts"
  shows "\<exists>p'. seqR [advance_p, prefix_part cx can_assign] p = Inr p' \<and> parsed p (ELit t) p' (u # ts)"
proof -
  from assms have a: "fits n (ELit t)" "tokens p (t # u # ts)" "ready p"
    "int (const_count p + length (econsts (sc_source (ps_scanner p)) (ELit t))) \<le> UINT16_MAX" by (auto simp: can_parse_def)
  from tokens_shift [OF a(2,3)] obtain s where s: "advance_p p = Inr (at_token p s u t)"
    "tokens (at_token p s u t) (u # ts)" "sc_source s = sc_source (ps_scanner p)" "emitted p (at_token p s u t) [] []" by blast
  let ?q = "at_token p s u t"
  have q: "ready ?q" "const_count ?q = const_count p" using emitted_ready [OF s(4)] const_count_emitted [OF s(4)] by simp_all
  show ?thesis
  proof (cases "literal_ops (tk_type t) = []")
    case True
    with a(1) have t: "pr_prefix (get_rule (tk_type t)) = Some Number" by (auto simp: rule_defs)
    have "int (va_count (bl_constants (the (cur_blob ?q)))) < UINT16_MAX"
      using a(4) True const_count_eq [OF q(1)] q(2) by simp
    from emit_constant_emitted [OF q(1) this, of "compile_number ?q"] obtain b where
      b: "emit_constant (compile_number ?q) ?q = Inr (with_blob ?q b)"
        "emitted ?q (with_blob ?q b) [byte_of_code OP_CONSTANT, hi_byte (int (const_count p)), lo_byte (int (const_count p))]
           [compile_number ?q]" using const_count_eq [OF q(1)] q(2) by auto
    have "compile_number ?q = number_of_token (sc_source (ps_scanner p)) t" using s(3) by (simp add: compile_number_def)
    with b s t True emitted_trans [OF s(4) b(2)] show ?thesis
      by (simp add: prefix_part_def run_prefix_def number_def parsed_def)
  next
    case False
    with a(1) have t: "pr_prefix (get_rule (tk_type t)) = Some Literal" by (auto simp: rule_defs)
    from emit_ops_emitted [OF q(1), of "literal_ops (tk_type t)"] obtain b where
      b: "emit_ops (literal_ops (tk_type t)) ?q = Inr (with_blob ?q b)"
        "emitted ?q (with_blob ?q b) (map byte_of_code (literal_ops (tk_type t))) []" by blast
    with s t False emitted_trans [OF s(4) b(2)] show ?thesis
      by (simp add: prefix_part_def run_prefix_def literal_def parsed_def)
  qed
qed

text \<open>The loop over infix operators gets through the operators at the top of the tree.\<close>

definition spine :: "b_files \<Rightarrow> expr \<Rightarrow> bool" where
  "spine fs e =
     (\<forall>n M p u ts m ca. can_parse n p e u ts \<longrightarrow> stops_at e u \<longrightarrow> efuel e \<le> Suc M \<longrightarrow>
        (\<exists>p'. parsed p e p' (u # ts) \<and>
          seqR [advance_p, prefix_part (context_of M fs) ca, do_while (rounds_of e + m) (infix_round (context_of M fs) n ca)] p =
          do_while m (infix_round (context_of M fs) n ca) p'))"

lemma parse_Suc: "parse (Suc n) fs c p = run_call (context_of n fs) c p"
  by (simp add: context_of_def)

lemma seqR_snoc: "seqR [f, g, h] p = bindR (seqR [f, g] p) h"
  by (simp add: bindR_def split: sum.split)

lemma parse_of_spine:
  assumes "spine fs e" and "can_parse n p e u ts" and "level u < n" and "n \<le> PREC_UNARY"
    and "n \<le> PREC_ASSIGNMENT \<longrightarrow> tk_type u \<noteq> Symbol EQUAL_TOKEN" and "efuel e \<le> N"
  shows "\<exists>p'. parse N fs (Parse_Precedence n) p = Inr p' \<and> parsed p e p' (u # ts)"
proof -
  obtain M where N: "N = Suc M" "rounds_of e < M" using assms(6) rounds_efuel [of e] by (cases N) auto
  let ?cx = "context_of M fs" and ?ca = "n \<le> PREC_ASSIGNMENT"
  let ?round = "infix_round ?cx n ?ca"
  from assms(2) have c: "fits n e" "tokens p (toks e @ u # ts)" "\<not> vm_is_repl (ps_vm p)" by (auto simp: can_parse_def)
  have "stops_at e u" using c(1) assms(3,4) by (cases e) auto
  with assms(1,2,6) N(1) obtain p' where p': "parsed p e p' (u # ts)"
    "seqR [advance_p, prefix_part ?cx ?ca, do_while (rounds_of e + (M - rounds_of e)) ?round] p = do_while (M - rounds_of e) ?round p'"
    unfolding spine_def by blast
  have cur: "ps_current p' = u" using p'(1) tokens_current by (auto simp: parsed_def)
  obtain k where k: "M - rounds_of e = Suc k" using N(2) by (cases "M - rounds_of e") auto
  have "?round p' = Inr (p', False)" using assms(3) by (simp add: infix_round_def cur)
  then have loop: "seqR [advance_p, prefix_part ?cx ?ca, do_while M ?round] p = Inr p'"
    using p'(2) le_add_diff_inverse [OF less_imp_le [OF N(2)]] by (simp add: k)
  obtain t us where t: "toks e @ u # ts = t # us" "t = hd (toks e)" "us \<noteq> []"
    using toks_not_Nil [of e] by (cases "toks e") auto
  then obtain v vs where us: "us = v # vs" by (cases us) auto
  obtain s where q: "advance_p p = Inr (at_token p s v t)"
    using advance_tokens c(2) unfolding t(1) us by blast
  have run: "seqR [prefix_part ?cx ?ca, do_while M ?round] (at_token p s v t) = Inr p'" using loop q by simp
  obtain f where f: "pr_prefix (get_rule (tk_type t)) = Some f" using hd_toks_prefix [OF c(1)] t(2) by auto
  have "tk_type (ps_current p) \<noteq> Symbol NEWLINE_TOKEN"
    using hd_toks_not_newline [OF c(1)] toks_not_Nil [of e] c(2) by (cases "toks e") (auto simp: tokens_def)
  then have "parse N fs (Parse_Precedence n) p = Inr p'"
    using c(3) q run f assms(5) cur
    by (auto simp: N(1) parse_Suc run_call_def parse_precedence_def repl_at_end_def ignore_whitespace_none do_parse_precedence_def
        prefix_part_def if_match_def match_p_def check_p_def context_of_def bindR_Inr_iff simp del: parse.simps)
  then show ?thesis using p'(1) by blast
qed

lemma tokens_shift':
  assumes "tokens p (t # us)" and "us \<noteq> []" and "ready p"
  shows "\<exists>q. advance_p p = Inr q \<and> ps_previous q = t \<and> tokens q us \<and>
           sc_source (ps_scanner q) = sc_source (ps_scanner p) \<and> emitted p q [] []"
proof -
  obtain v vs where "us = v # vs" using assms(2) by (cases us) auto
  then show ?thesis using tokens_shift [of p t v vs] assms by auto
qed

lemma can_parse_after:
  assumes "emitted p q code ks" and "\<not> vm_is_repl (ps_vm p)" and "sc_source (ps_scanner q) = sc_source (ps_scanner p)"
    and "fits n e" and "tokens q (toks e @ u # ts)"
    and "int (const_count p + length ks + length (econsts (sc_source (ps_scanner p)) e)) \<le> UINT16_MAX"
  shows "can_parse n q e u ts"
  using assms emitted_ready [OF assms(1)] emitted_repl [OF assms(1)] const_count_emitted [OF assms(1)]
  by (simp add: can_parse_def)

lemma spine_literal: "spine fs (ELit t)"
  unfolding spine_def
proof (intro allI impI)
  fix n M p u ts m ca
  assume "can_parse n p (ELit t) u ts"
  from parse_literal [OF this, of "context_of M fs" ca] obtain p' where
    "seqR [advance_p, prefix_part (context_of M fs) ca] p = Inr p'" "parsed p (ELit t) p' (u # ts)" by blast
  then show "\<exists>p'. parsed p (ELit t) p' (u # ts) \<and>
      seqR [advance_p, prefix_part (context_of M fs) ca, do_while (rounds_of (ELit t) + m) (infix_round (context_of M fs) n ca)] p =
      do_while m (infix_round (context_of M fs) n ca) p'"
    unfolding seqR_snoc by (intro exI [of _ p']) simp
qed

lemma spine_unary:
  assumes "spine fs e"
  shows "spine fs (EUn t e)"
  unfolding spine_def
proof (intro allI impI)
  fix n M p u ts m ca
  assume c: "can_parse n p (EUn t e) u ts" and u: "stops_at (EUn t e) u" and M: "efuel (EUn t e) \<le> Suc M"
  let ?cx = "context_of M fs" and ?src = "sc_source (ps_scanner p)"
  from c have c': "pr_prefix (get_rule (tk_type t)) = Some Unary" "fits PREC_UNARY e" "tokens p (t # toks e @ u # ts)"
    "ready p" "\<not> vm_is_repl (ps_vm p)" by (auto simp: can_parse_def)
  from tokens_shift' [OF c'(3) _ c'(4)] obtain q where q: "advance_p p = Inr q" "ps_previous q = t"
    "tokens q (toks e @ u # ts)" "sc_source (ps_scanner q) = ?src" "emitted p q [] []" by auto
  have "can_parse PREC_UNARY q e u ts"
    using can_parse_after [OF q(5) c'(5) q(4) c'(2) q(3)] c by (simp add: can_parse_def)
  from parse_of_spine [OF assms this] u M obtain r where
    r: "parse M fs (Parse_Precedence PREC_UNARY) q = Inr r" "parsed q e r (u # ts)" by auto
  from r(2) have e: "emitted p r (ecode ?src (const_count p) e) (econsts ?src e)" "tokens r (u # ts)" "sc_source (ps_scanner r) = ?src"
    using emitted_trans [OF q(5)] const_count_emitted [OF q(5)] q(4) by (auto simp: parsed_def)
  from emit_ops_emitted [OF emitted_ready [OF e(1)], of "unary_ops (tk_type t)"] obtain b where
    b: "emit_ops (unary_ops (tk_type t)) r = Inr (with_blob r b)" "emitted r (with_blob r b) (map byte_of_code (unary_ops (tk_type t))) []"
    by blast
  have "parsed p (EUn t e) (with_blob r b) (u # ts)"
    using emitted_trans [OF e(1) b(2)] e(2,3) by (simp add: parsed_def)
  moreover have "seqR [advance_p, prefix_part ?cx ca] p = Inr (with_blob r b)"
    using q(1,2) c'(1) r(1) b(1) by (simp add: prefix_part_def run_prefix_def unary_def context_of_def)
  ultimately show "\<exists>p'. parsed p (EUn t e) p' (u # ts) \<and>
      seqR [advance_p, prefix_part ?cx ca, do_while (rounds_of (EUn t e) + m) (infix_round ?cx n ca)] p =
      do_while m (infix_round ?cx n ca) p'"
    unfolding seqR_snoc by (intro exI [of _ "with_blob r b"]) simp
qed

lemma spine_group:
  assumes "spine fs e"
  shows "spine fs (EGroup t e v)"
  unfolding spine_def
proof (intro allI impI)
  fix n M p u ts m ca
  assume c: "can_parse n p (EGroup t e v) u ts" and M: "efuel (EGroup t e v) \<le> Suc M"
  let ?cx = "context_of M fs" and ?src = "sc_source (ps_scanner p)"
  from c have c': "tk_type t = Symbol LPAREN_TOKEN" "tk_type v = Symbol RPAREN_TOKEN" "fits PREC_ASSIGNMENT e"
    "tokens p (t # toks e @ v # u # ts)" "ready p" "\<not> vm_is_repl (ps_vm p)" by (auto simp: can_parse_def)
  from tokens_shift' [OF c'(4) _ c'(5)] obtain q where q: "advance_p p = Inr q" "ps_previous q = t"
    "tokens q (toks e @ v # u # ts)" "sc_source (ps_scanner q) = ?src" "emitted p q [] []" by auto
  have "can_parse PREC_ASSIGNMENT q e v (u # ts)"
    using can_parse_after [OF q(5) c'(6) q(4) c'(3) q(3)] c c'(2) by (simp add: can_parse_def)
  from parse_of_spine [OF assms this] M c'(2) obtain r where
    r: "parse M fs (Parse_Precedence PREC_ASSIGNMENT) q = Inr r" "parsed q e r (v # u # ts)" by (auto simp: rule_defs)
  from r(2) have e: "emitted p r (ecode ?src (const_count p) e) (econsts ?src e)" "tokens r (v # u # ts)" "sc_source (ps_scanner r) = ?src"
    using emitted_trans [OF q(5)] const_count_emitted [OF q(5)] q(4) by (auto simp: parsed_def)
  from tokens_shift' [OF e(2) _ emitted_ready [OF e(1)]] obtain r' where
    r': "advance_p r = Inr r'" "tokens r' (u # ts)" "sc_source (ps_scanner r') = ?src" "emitted r r' [] []" using e(3) by auto
  have ws: "ignore_whitespace q = Inr q" "ignore_whitespace r = Inr r"
    using hd_toks_not_newline [OF c'(3)] toks_not_Nil [of e] q(3) e(2) c'(2)
    by (cases "toks e"; auto simp: tokens_def intro!: ignore_whitespace_none)+
  have "parsed p (EGroup t e v) r' (u # ts)"
    using emitted_trans [OF e(1) r'(4)] r'(2,3) by (simp add: parsed_def)
  moreover have "seqR [advance_p, prefix_part ?cx ca] p = Inr r'"
    using q(1,2) c'(1,2) r(1) r'(1) ws tokens_current [OF e(2)]
    by (simp add: prefix_part_def run_prefix_def grouping_def expression_def context_of_def consume_def check_p_def rule_defs)
  ultimately show "\<exists>p'. parsed p (EGroup t e v) p' (u # ts) \<and>
      seqR [advance_p, prefix_part ?cx ca, do_while (rounds_of (EGroup t e v) + m) (infix_round ?cx n ca)] p =
      do_while m (infix_round ?cx n ca) p'"
    unfolding seqR_snoc by (intro exI [of _ r']) simp
qed

lemma spine_binary:
  assumes "spine fs l" and "spine fs r"
  shows "spine fs (EBin l t r)"
  unfolding spine_def
proof (intro allI impI)
  fix n M p u ts m ca
  assume c: "can_parse n p (EBin l t r) u ts" and u: "stops_at (EBin l t r) u" and M: "efuel (EBin l t r) \<le> Suc M"
  let ?cx = "context_of M fs" and ?src = "sc_source (ps_scanner p)"
  let ?round = "infix_round ?cx n ca"
  from c have c': "n \<le> level t" "pr_infix (get_rule (tk_type t)) = Some Binary" "fits (level t) l" "fits (level t + 1) r"
    "tokens p (toks l @ t # toks r @ u # ts)" "ready p" "\<not> vm_is_repl (ps_vm p)"
    by (auto simp: can_parse_def)
  have lt: "level t < PREC_UNARY" "PREC_ASSIGNMENT < level t" "tk_type t \<noteq> Symbol NEWLINE_TOKEN"
    using level_binary [OF c'(2)] c'(2) by (auto simp: rule_defs)
  have "can_parse n p l t (toks r @ u # ts)"
    using c fits_mono [OF c'(3,1)] lt(3) by (simp add: can_parse_def)
  moreover have "stops_at l t" using c'(3) lt(1) by (cases l) auto
  moreover have "efuel l \<le> Suc M" using M by simp
  ultimately obtain q where q: "parsed p l q (t # toks r @ u # ts)"
    "seqR [advance_p, prefix_part ?cx ca, do_while (rounds_of l + Suc m) ?round] p = do_while (Suc m) ?round q"
    using assms(1) unfolding spine_def by blast
  then have e1: "emitted p q (ecode ?src (const_count p) l) (econsts ?src l)" "tokens q (t # toks r @ u # ts)"
    "sc_source (ps_scanner q) = ?src" by (auto simp: parsed_def)
  from tokens_shift' [OF e1(2) _ emitted_ready [OF e1(1)]] obtain q1 where q1: "advance_p q = Inr q1" "ps_previous q1 = t"
    "tokens q1 (toks r @ u # ts)" "sc_source (ps_scanner q1) = ?src" "emitted q q1 [] []" using e1(3) by auto
  have e2: "emitted p q1 (ecode ?src (const_count p) l) (econsts ?src l)" using emitted_trans [OF e1(1) q1(5)] by simp
  have "can_parse (level t + 1) q1 r u ts"
    using can_parse_after [OF e2 c'(7) q1(4) c'(4) q1(3)] c by (simp add: can_parse_def)
  from parse_of_spine [OF assms(2) this, of M] u M lt rounds_efuel [of l] obtain q2 where
    q2: "parse M fs (Parse_Precedence (level t + 1)) q1 = Inr q2" "parsed q1 r q2 (u # ts)" by auto
  then have e3: "emitted q1 q2 (ecode ?src (const_count p + length (econsts ?src l)) r) (econsts ?src r)"
    "tokens q2 (u # ts)" "sc_source (ps_scanner q2) = ?src"
    using const_count_emitted [OF e2] q1(4) by (auto simp: parsed_def)
  from emit_ops_emitted [OF emitted_ready [OF e3(1)], of "binary_ops (tk_type t)"] obtain b where
    b: "emit_ops (binary_ops (tk_type t)) q2 = Inr (with_blob q2 b)"
      "emitted q2 (with_blob q2 b) (map byte_of_code (binary_ops (tk_type t))) []" by blast
  have "parsed p (EBin l t r) (with_blob q2 b) (u # ts)"
    using emitted_trans [OF e2 emitted_trans [OF e3(1) b(2)]] e3(2,3) by (simp add: parsed_def)
  moreover have "?round q = Inr (with_blob q2 b, True)"
    using c'(1,2) q1(1,2) q2(1) b(1) lt(3) tokens_current [OF e1(2)]
    by (simp add: infix_round_def ignore_whitespace_none run_infix_def binary_def context_of_def)
  ultimately show "\<exists>p'. parsed p (EBin l t r) p' (u # ts) \<and>
      seqR [advance_p, prefix_part ?cx ca, do_while (rounds_of (EBin l t r) + m) ?round] p = do_while m ?round p'"
    using q(2) by (intro exI [of _ "with_blob q2 b"]) (simp del: seqR.simps)
qed

lemma spine_all: "spine fs e"
  by (induction e) (simp_all add: spine_literal spine_unary spine_group spine_binary)

end
