(* ===== verification/Value_Props.thy ===== *)
theory Value_Props
  imports Iteration
begin

text \<open>The tags of a NaN-boxed value, and what comes back from a value that was boxed.\<close>

lemma inf_cases:
  assumes "dbl_exp d = 2047" and "dbl_frac d = 0"
  shows "d = 0x7ff0000000000000 \<or> d = 0xfff0000000000000"
proof -
  have "unat d mod (2 ^ 52 * 2 ^ 11) = 2 ^ 52 * dbl_exp d + dbl_frac d"
    unfolding dbl_exp_def dbl_frac_def by (rule mod_mult2_eq)
  then have m: "unat d mod 2 ^ 63 = 0x7ff0000000000000" using assms by simp
  show ?thesis
  proof (cases "dbl_sign d")
    case True
    then have "d = 0xfff0000000000000" using m by (intro double_eqI) (simp_all add: dbl_sign_def)
    then show ?thesis ..
  next
    case False
    then have "d = 0x7ff0000000000000" using m by (intro double_eqI) (simp_all add: dbl_sign_def)
    then show ?thesis ..
  qed
qed

lemma not_nan_is_number:
  assumes "\<not> dbl_is_nan d"
  shows "IS_NUMBER d"
proof (cases "dbl_exp d = 2047")
  case False
  then show ?thesis by (rule IS_NUMBER_exp)
next
  case True
  then have "d = 0x7ff0000000000000 \<or> d = 0xfff0000000000000"
    using assms by (intro inf_cases) (simp_all add: dbl_is_nan_def)
  then show ?thesis by (auto simp: IS_NUMBER_def QNAN_def)
qed

definition value_tags :: "b_value \<Rightarrow> bool list" where
  "value_tags v = [IS_EMPTY v, IS_NIL v, IS_BOOL v, IS_NUMBER v, IS_OBJ v]"

lemma one_tag: "length (filter id (value_tags v)) \<le> 1"
proof -
  consider "IS_NUMBER v" | "IS_OBJ v" | "\<not> IS_NUMBER v" "\<not> IS_OBJ v" by blast
  then show ?thesis
  proof cases
    case 1
    then show ?thesis using number_not_singleton [of v] by (simp add: value_tags_def)
  next
    case 2
    then show ?thesis using obj_not_singleton [of v] by (simp add: value_tags_def)
  next
    case 3
    then show ?thesis
      by (auto simp: value_tags_def IS_BOOL_iff IS_EMPTY_def IS_NIL_def)
  qed
qed

text \<open>
  C26: A value has at most one of the tags empty, nil, boolean, number and object; and each kind of
  value survives boxing: every double that is not a NaN, every truth value and every address of 48
  bits is recognised as what it is and read back unchanged.
\<close>

theorem value_tags_exclusive:
  assumes "addr_ok p" and "\<not> dbl_is_nan d"
  shows "length (filter id (value_tags v)) \<le> 1 \<and> IS_EMPTY EMPTY_VAL \<and> IS_NIL NIL_VAL \<and>
         IS_BOOL (BOOL_VAL b) \<and> AS_BOOL (BOOL_VAL b) = b \<and>
         IS_NUMBER (number_to_value d) \<and> value_to_number (number_to_value d) = d \<and>
         IS_OBJ (OBJ_VAL p) \<and> AS_OBJ (OBJ_VAL p) = p"
  using one_tag [of v] not_nan_is_number [OF assms(2)] AS_OBJ_OBJ_VAL [OF assms(1)]
  by (auto simp: number_to_value_def value_to_number_def)

theorem value_tags_exclusive_witness:
  "length (filter id (value_tags 42)) \<le> 1 \<and> IS_EMPTY EMPTY_VAL \<and> IS_NIL NIL_VAL \<and>
   IS_BOOL (BOOL_VAL True) \<and> AS_BOOL (BOOL_VAL True) = True \<and>
   IS_NUMBER (number_to_value 0x7ff0000000000000) \<and> value_to_number (number_to_value 0x7ff0000000000000) = 0x7ff0000000000000 \<and>
   IS_OBJ (OBJ_VAL 4096) \<and> AS_OBJ (OBJ_VAL 4096) = 4096"
  by (rule value_tags_exclusive) (simp_all add: addr_ok_def val_consts dbl_is_nan_def dbl_frac_def)

end
