(* ===== verification/Expr_Run.thy ===== *)
theory Expr_Run
  imports Compiler_Expr_Correct Value_Props "HOL-Library.Sublist"
begin

text \<open>
  The machine on the code of operator expressions. \<open>evalE\<close> is the meaning of a tree: the operators on
  numbers and truth values as the language has them, without a stack and without code. The code that the
  compiler emits for a tree pushes this value and changes nothing else.
\<close>

section \<open>Meaning\<close>

definition arith :: "(double \<Rightarrow> double \<Rightarrow> double) \<Rightarrow> b_value \<Rightarrow> b_value \<Rightarrow> b_value option" where
  "arith f a b =
     (if number_or_bool a \<and> number_or_bool b then Some (number_to_value (f (to_double a) (to_double b))) else None)"

definition comparison :: "(double \<Rightarrow> double \<Rightarrow> bool) \<Rightarrow> b_value \<Rightarrow> b_value \<Rightarrow> b_value option" where
  "comparison f a b =
     (if number_or_bool a \<and> number_or_bool b then Some (BOOL_VAL (f (to_double a) (to_double b))) else None)"

fun bin_value :: "platform \<Rightarrow> b_tkn_type \<Rightarrow> b_value \<Rightarrow> b_value \<Rightarrow> b_value option" where
  "bin_value pf (Symbol PLUS_TOKEN) a b = arith (dbl_add (pf_nan pf)) a b"
| "bin_value pf (Symbol MINUS_TOKEN) a b = arith (dbl_sub (pf_nan pf)) a b"
| "bin_value pf (Symbol MULTIPLY_TOKEN) a b = arith (dbl_mul (pf_nan pf)) a b"
| "bin_value pf (Symbol DIVIDE_TOKEN) a b = arith (dbl_div (pf_nan pf)) a b"
| "bin_value pf (Symbol PERCENT_TOKEN) a b = arith (modulo (pf_nan pf)) a b"
| "bin_value pf (Symbol POW_TOKEN) a b = arith (pf_pow pf) a b"
| "bin_value pf (Symbol EQUAL_EQ_TOKEN) a b = Some (BOOL_VAL (values_equal a b))"
| "bin_value pf (Symbol BANG_EQ_TOKEN) a b = Some (BOOL_VAL (\<not> values_equal a b))"
| "bin_value pf (Symbol LESS_TOKEN) a b = comparison dbl_lt a b"
| "bin_value pf (Symbol GREATER_TOKEN) a b = comparison dbl_gt a b"
| "bin_value pf (Symbol LESS_EQ_TOKEN) a b = comparison (\<lambda>x y. \<not> dbl_gt x y) a b"
| "bin_value pf (Symbol GREATER_EQ_TOKEN) a b = comparison (\<lambda>x y. \<not> dbl_lt x y) a b"
| "bin_value pf _ a b = None"

fun un_value :: "heap \<Rightarrow> b_tkn_type \<Rightarrow> b_value \<Rightarrow> b_value option" where
  "un_value hp (Symbol MINUS_TOKEN) v = (if IS_NUMBER v then Some (number_to_value (dbl_neg (value_to_number v))) else None)"
| "un_value hp (Symbol BANG_TOKEN) v = Some (BOOL_VAL (is_false hp v))"
| "un_value hp (Symbol PLUS_TOKEN) v = Some v"
| "un_value hp _ v = None"

fun lit_value :: "string \<Rightarrow> b_token \<Rightarrow> b_tkn_type \<Rightarrow> b_value" where
  "lit_value src t (Keyword NIL_TOKEN) = NIL_VAL"
| "lit_value src t (Keyword TRUE_TOKEN) = TRUE_VAL"
| "lit_value src t (Keyword FALSE_TOKEN) = FALSE_VAL"
| "lit_value src t _ = number_of_token src t"

fun evalE :: "platform \<Rightarrow> heap \<Rightarrow> string \<Rightarrow> expr \<Rightarrow> b_value option" where
  "evalE pf hp src (ELit t) = Some (lit_value src t (tk_type t))"
| "evalE pf hp src (EBin l t r) =
     (case (evalE pf hp src l, evalE pf hp src r) of
        (Some a, Some b) \<Rightarrow> bin_value pf (tk_type t) a b
      | _ \<Rightarrow> None)"
| "evalE pf hp src (EUn t e) = (case evalE pf hp src e of Some v \<Rightarrow> un_value hp (tk_type t) v | None \<Rightarrow> None)"
| "evalE pf hp src (EGroup t e u) = evalE pf hp src e"

section \<open>The machine in a frame\<close>

text \<open>The machine with the instruction pointer of the frame and the stack replaced.\<close>

definition mach :: "b_vm \<Rightarrow> nat \<Rightarrow> nat \<Rightarrow> b_value list \<Rightarrow> b_vm" where
  "mach vm f ip st = vm\<lparr>vm_frames := (vm_frames vm)[f := (vm_frames vm ! f)\<lparr>cf_ip := ip\<rparr>], vm_stack := st\<rparr>"

lemma mach_sel [simp]:
  "vm_stack (mach vm f ip st) = st" "vm_heap (mach vm f ip st) = vm_heap vm"
  "vm_frame_count (mach vm f ip st) = vm_frame_count vm" "length (vm_frames (mach vm f ip st)) = length (vm_frames vm)"
  "(mach vm f ip st)\<lparr>vm_stack := st'\<rparr> = mach vm f ip st'"
  by (simp_all add: mach_def)

text \<open>The function of the frame has the given code from a position on, and the given constants.\<close>

definition holds_code :: "b_blob \<Rightarrow> nat \<Rightarrow> byte list \<Rightarrow> bool" where
  "holds_code b ip code = (\<forall>i < length code. cell_get (bl_code b) (int (ip + i)) = Inr (code ! i))"

definition holds_consts :: "b_blob \<Rightarrow> nat \<Rightarrow> b_value list \<Rightarrow> bool" where
  "holds_consts b k vs = (\<forall>i < length vs. cell_get (va_values (bl_constants b)) (int (k + i)) = Inr (vs ! i))"

definition runs_in :: "b_vm \<Rightarrow> nat \<Rightarrow> b_blob \<Rightarrow> bool" where
  "runs_in vm f b =
     (f < length (vm_frames vm) \<and> 0 < vm_frame_count vm \<and>
      (\<exists>fn. frame_function (vm_heap vm) (vm_frames vm ! f) = Inr fn \<and> f_blob fn = b))"

lemma frame_at_mach: "f < length (vm_frames vm) \<Longrightarrow> frame_at (mach vm f ip st) f = Inr ((vm_frames vm ! f)\<lparr>cf_ip := ip\<rparr>)"
  by (simp add: frame_at_def mach_def)

lemma move_ip_mach: "f < length (vm_frames vm) \<Longrightarrow> move_ip (mach vm f ip st) f (int n) = Inr (mach vm f (ip + n) st)"
  by (simp add: move_ip_def frame_at_mach) (simp add: put_frame_def mach_def nat_int_add)

lemma frame_function_ip: "frame_function hp (fr\<lparr>cf_ip := ip\<rparr>) = frame_function hp fr"
  by (simp add: frame_function_def)

lemma READ_BYTE_mach:
  assumes "runs_in vm f b" and "holds_code b ip (x # xs)"
  shows "READ_BYTE (mach vm f ip st) f = Inr (mach vm f (Suc ip) st, x)" and "holds_code b (Suc ip) xs"
proof -
  have "cell_get (bl_code b) (int ip) = Inr x" using assms(2) unfolding holds_code_def by (metis add.right_neutral length_Cons nth_Cons_0 zero_less_Suc)
  then show "READ_BYTE (mach vm f ip st) f = Inr (mach vm f (Suc ip) st, x)"
    using assms(1) move_ip_mach [of f vm ip st 1] by (auto simp: runs_in_def READ_BYTE_def frame_at_mach frame_function_ip)
  show "holds_code b (Suc ip) xs"
    using assms(2) unfolding holds_code_def by (metis Suc_less_eq add_Suc add_Suc_right length_Cons nth_Cons_Suc)
qed

lemma holds_code_append: "holds_code b ip (xs @ ys) \<longleftrightarrow> holds_code b ip xs \<and> holds_code b (ip + length xs) ys"
proof
  assume h: "holds_code b ip (xs @ ys)"
  have "cell_get (bl_code b) (int (ip + length xs + i)) = Inr (ys ! i)" if "i < length ys" for i
    using h [unfolded holds_code_def, rule_format, of "length xs + i"] that by (simp add: add.assoc nth_append)
  moreover have "cell_get (bl_code b) (int (ip + i)) = Inr (xs ! i)" if "i < length xs" for i
    using h [unfolded holds_code_def, rule_format, of i] that by (simp add: nth_append)
  ultimately show "holds_code b ip xs \<and> holds_code b (ip + length xs) ys" by (simp add: holds_code_def)
next
  assume h: "holds_code b ip xs \<and> holds_code b (ip + length xs) ys"
  show "holds_code b ip (xs @ ys)"
    unfolding holds_code_def
  proof (intro allI impI)
    fix i assume i: "i < length (xs @ ys)"
    show "cell_get (bl_code b) (int (ip + i)) = Inr ((xs @ ys) ! i)"
      using h i by (cases "i < length xs") (auto simp: holds_code_def nth_append dest: spec [of _ "i - length xs"])
  qed
qed

section \<open>Single instructions\<close>

lemma step_op:
  assumes "runs_in vm f b" and "holds_code b ip (byte_of_code op # xs)"
  shows "step pf (mach vm f ip st) f = exec pf op (mach vm f (Suc ip) st) f"
  using assms READ_BYTE_mach [OF assms] by (simp add: step_def runs_in_def code_of_byte_of_code)

lemma run_op:
  assumes "runs_in vm f b" and "holds_code b ip (byte_of_code op # xs)"
    and "exec pf op (mach vm f (Suc ip) st) f = Inr (Next (mach vm f ip' st') f)"
  shows "run_loop pf (Suc fuel) (mach vm f ip st) f = run_loop pf fuel (mach vm f ip' st') f"
  using step_op [OF assms(1,2)] assms(3) by simp

lemma stack_top [simp]:
  "peek (mach vm f ip (s @ [a, b])) 0 = Inr b" "peek (mach vm f ip (s @ [a, b])) (Suc 0) = Inr a"
  "pop_n (mach vm f ip (s @ [a, b])) 2 = Inr (mach vm f ip s)"
  "peek (mach vm f ip (s @ [a])) 0 = Inr a" "pop (mach vm f ip (s @ [a])) = Inr (mach vm f ip s, a)"
  "pop (mach vm f ip (s @ [a, b])) = Inr (mach vm f ip (s @ [a]), b)"
  by (simp_all add: peek_def pop_n_def pop_def nth_append butlast_append)

lemma push_next_mach: "length s < STACK_MAX \<Longrightarrow> push_next (mach vm f ip s) f v = Inr (Next (mach vm f ip (s @ [v])) f)"
  by (simp add: push_next_def push_def next_in_def)

lemma BINARY_OP_mach:
  assumes "number_or_bool a" and "number_or_bool b" and "F (to_double a) (to_double b) = Inr v" and "length s < STACK_MAX"
  shows "BINARY_OP (mach vm f ip (s @ [a, b])) f F = Inr (Next (mach vm f ip (s @ [v])) f)"
  using assms by (simp add: BINARY_OP_def push_next_mach)

lemma number_or_bool_not_obj: "number_or_bool v \<Longrightarrow> \<not> IS_OBJ v"
  using one_tag [of v] by (auto simp: value_tags_def number_or_bool_def split: if_splits)

lemma not_obj_types [simp]:
  assumes "number_or_bool v"
  shows "\<not> IS_STRING hp v" "\<not> IS_LIST hp v" "\<not> IS_BYTES hp v"
  using number_or_bool_not_obj [OF assms] by (simp_all add: IS_STRING_def IS_LIST_def IS_BYTES_def is_obj_type_def)

lemma exec_arith:
  assumes "number_or_bool a" and "number_or_bool b" and "length s < STACK_MAX"
  shows "exec pf OP_ADD (mach vm f ip (s @ [a, b])) f =
           Inr (Next (mach vm f ip (s @ [number_to_value (dbl_add (pf_nan pf) (to_double a) (to_double b))])) f)"
    and "exec pf OP_SUBTRACT (mach vm f ip (s @ [a, b])) f =
           Inr (Next (mach vm f ip (s @ [number_to_value (dbl_sub (pf_nan pf) (to_double a) (to_double b))])) f)"
    and "exec pf OP_MULTIPLY (mach vm f ip (s @ [a, b])) f =
           Inr (Next (mach vm f ip (s @ [number_to_value (dbl_mul (pf_nan pf) (to_double a) (to_double b))])) f)"
    and "exec pf OP_DIVIDE (mach vm f ip (s @ [a, b])) f =
           Inr (Next (mach vm f ip (s @ [number_to_value (dbl_div (pf_nan pf) (to_double a) (to_double b))])) f)"
    and "exec pf OP_REMINDER (mach vm f ip (s @ [a, b])) f =
           Inr (Next (mach vm f ip (s @ [number_to_value (modulo (pf_nan pf) (to_double a) (to_double b))])) f)"
    and "exec pf OP_POW (mach vm f ip (s @ [a, b])) f =
           Inr (Next (mach vm f ip (s @ [number_to_value (pf_pow pf (to_double a) (to_double b))])) f)"
    and "exec pf OP_LESS (mach vm f ip (s @ [a, b])) f =
           Inr (Next (mach vm f ip (s @ [BOOL_VAL (dbl_lt (to_double a) (to_double b))])) f)"
    and "exec pf OP_GREATER (mach vm f ip (s @ [a, b])) f =
           Inr (Next (mach vm f ip (s @ [BOOL_VAL (dbl_gt (to_double a) (to_double b))])) f)"
  using assms by (simp_all add: exec_def op_add_def op_multiply_def BINARY_OP_mach number_res_def)

lemma is_false_BOOL_VAL [simp]: "is_false hp (BOOL_VAL x) = (\<not> x)"
  by (cases x) (simp_all add: is_false_def BOOL_VAL_def IS_BOOL_def AS_BOOL_def val_consts)

lemma exec_plain:
  assumes "length s < STACK_MAX"
  shows "exec pf OP_EQUAL (mach vm f ip (s @ [a, b])) f = Inr (Next (mach vm f ip (s @ [BOOL_VAL (values_equal a b)])) f)"
    and "exec pf OP_NOT (mach vm f ip (s @ [a])) f = Inr (Next (mach vm f ip (s @ [BOOL_VAL (is_false (vm_heap vm) a)])) f)"
    and "exec pf OP_NIL (mach vm f ip s) f = Inr (Next (mach vm f ip (s @ [NIL_VAL])) f)"
    and "exec pf OP_TRUE (mach vm f ip s) f = Inr (Next (mach vm f ip (s @ [TRUE_VAL])) f)"
    and "exec pf OP_FALSE (mach vm f ip s) f = Inr (Next (mach vm f ip (s @ [FALSE_VAL])) f)"
    and "IS_NUMBER a \<Longrightarrow> exec pf OP_NEGATE (mach vm f ip (s @ [a])) f =
           Inr (Next (mach vm f ip (s @ [number_to_value (dbl_neg (value_to_number a))])) f)"
  using assms by (simp_all add: exec_def op_equal_def op_unary_def pop_push_def push_next_mach number_res_def BOOL_VAL_def)

lemma unat_byte_of_int: "unat (word_of_int (int n) :: byte) = n mod 256"
  by (simp add: unsigned_of_nat take_bit_eq_mod)

lemma hi_lo:
  assumes "k < 65536"
  shows "unat (hi_byte (int k)) * 256 + unat (lo_byte (int k)) = k"
proof -
  have "unat (hi_byte (int k)) = k div 256 mod 256"
    unfolding hi_byte_def using unat_byte_of_int [of "k div 256"] by (simp only: zdiv_int of_nat_numeral)
  moreover have "unat (lo_byte (int k)) = k mod 256" unfolding lo_byte_def by (rule unat_byte_of_int)
  moreover have "k div 256 < 256" using assms by (simp only: less_mult_imp_div_less)
  ultimately show ?thesis using div_mult_mod_eq [of k 256] by (simp only: mod_less)
qed

lemma exec_constant:
  assumes "runs_in vm f b" and "holds_code b ip [hi_byte (int k), lo_byte (int k)]" and "k < 65536"
    and "cell_get (va_values (bl_constants b)) (int k) = Inr v" and "length s < STACK_MAX"
  shows "exec pf OP_CONSTANT (mach vm f ip s) f = Inr (Next (mach vm f (ip + 2) (s @ [v])) f)"
proof -
  note h = READ_BYTE_mach [OF assms(1,2)]
  have r: "READ_SHORT (mach vm f ip s) f = Inr (mach vm f (ip + 2) s, k)"
    using h(1) READ_BYTE_mach(1) [OF assms(1) h(2)] hi_lo [OF assms(3)] by (simp add: READ_SHORT_def)
  then have "READ_CONSTANT (mach vm f ip s) f = Inr (mach vm f (ip + 2) s, v)"
    using assms(1,4) by (auto simp: READ_CONSTANT_def runs_in_def frame_at_mach frame_function_ip)
  then show ?thesis using assms(5) by (simp add: exec_def push_next_mach)
qed

section \<open>Operators\<close>

lemmas run_exec = exec_arith exec_plain

lemma run_ops1:
  assumes "runs_in vm f b" and "holds_code b ip [byte_of_code op]"
    and "exec pf op (mach vm f (Suc ip) st) f = Inr (Next (mach vm f (Suc ip) st') f)"
  shows "run_loop pf (Suc fuel) (mach vm f ip st) f = run_loop pf fuel (mach vm f (Suc ip) st') f"
  using run_op [OF assms] .

lemma run_ops2:
  assumes "runs_in vm f b" and "holds_code b ip [byte_of_code op1, byte_of_code op2]"
    and "exec pf op1 (mach vm f (Suc ip) st) f = Inr (Next (mach vm f (Suc ip) st1) f)"
    and "exec pf op2 (mach vm f (Suc (Suc ip)) st1) f = Inr (Next (mach vm f (Suc (Suc ip)) st2) f)"
  shows "run_loop pf (Suc (Suc fuel)) (mach vm f ip st) f = run_loop pf fuel (mach vm f (Suc (Suc ip)) st2) f"
  using run_op [OF assms(1,2,3)] run_op [OF assms(1) READ_BYTE_mach(2) [OF assms(1,2)] assms(4)] by simp

lemma run_binary:
  assumes "runs_in vm f blob" and "bin_value pf t a b = Some v"
    and "holds_code blob ip (map byte_of_code (binary_ops t))" and "length s < STACK_MAX"
  shows "run_loop pf (length (binary_ops t) + fuel) (mach vm f ip (s @ [a, b])) f =
         run_loop pf fuel (mach vm f (ip + length (binary_ops t)) (s @ [v])) f"
  using assms(2,3)
  by (induction pf t a b rule: bin_value.induct)
    (auto simp: arith_def comparison_def run_exec [where s = s] assms(4) split: if_splits simp del: run_loop.simps
      intro!: run_ops1 [OF assms(1)] run_ops2 [OF assms(1)])

lemma run_unary:
  assumes "runs_in vm f blob" and "un_value (vm_heap vm) t a = Some v"
    and "holds_code blob ip (map byte_of_code (unary_ops t))" and "length s < STACK_MAX"
  shows "run_loop pf (length (unary_ops t) + fuel) (mach vm f ip (s @ [a])) f =
         run_loop pf fuel (mach vm f (ip + length (unary_ops t)) (s @ [v])) f"
  using assms(2,3)
  by (induction "vm_heap vm" t a rule: un_value.induct)
    (auto simp: run_exec [where s = s] assms(4) split: if_splits simp del: run_loop.simps intro!: run_ops1 [OF assms(1)])

section \<open>Expressions\<close>

text \<open>The number of instructions and the room on the stack an expression takes.\<close>

fun esteps :: "expr \<Rightarrow> nat" where
  "esteps (ELit t) = 1"
| "esteps (EBin l t r) = esteps l + esteps r + length (binary_ops (tk_type t))"
| "esteps (EUn t e) = esteps e + length (unary_ops (tk_type t))"
| "esteps (EGroup t e u) = esteps e"

fun eroom :: "expr \<Rightarrow> nat" where
  "eroom (ELit t) = 1"
| "eroom (EBin l t r) = max (eroom l) (eroom r + 1)"
| "eroom (EUn t e) = eroom e"
| "eroom (EGroup t e u) = eroom e"

lemma eroom_pos: "0 < eroom e"
  by (induction e) auto

lemma holds_consts_append:
  "holds_consts b k (xs @ ys) \<Longrightarrow> holds_consts b k xs \<and> holds_consts b (k + length xs) ys"
proof -
  assume h: "holds_consts b k (xs @ ys)"
  have "cell_get (va_values (bl_constants b)) (int (k + length xs + i)) = Inr (ys ! i)" if "i < length ys" for i
    using h [unfolded holds_consts_def, rule_format, of "length xs + i"] that by (simp add: add.assoc nth_append)
  moreover have "cell_get (va_values (bl_constants b)) (int (k + i)) = Inr (xs ! i)" if "i < length xs" for i
    using h [unfolded holds_consts_def, rule_format, of i] that by (simp add: nth_append)
  ultimately show ?thesis by (simp add: holds_consts_def)
qed

lemma run_literal:
  assumes "runs_in vm f blob" and "fits n (ELit t)" and "holds_code blob ip (ecode src k (ELit t))"
    and "holds_consts blob k (econsts src (ELit t))" and "k + length (econsts src (ELit t)) \<le> 65536" and "length st < STACK_MAX"
  shows "run_loop pf (Suc fuel) (mach vm f ip st) f =
         run_loop pf fuel (mach vm f (ip + length (ecode src k (ELit t))) (st @ [lit_value src t (tk_type t)])) f"
proof (cases "literal_ops (tk_type t) = []")
  case True
  with assms(3) have h: "holds_code blob ip (byte_of_code OP_CONSTANT # [hi_byte (int k), lo_byte (int k)])" by simp
  have "cell_get (va_values (bl_constants blob)) (int k) = Inr (number_of_token src t)"
    using assms(4) True by (simp add: holds_consts_def)
  moreover have "k < 65536" using assms(5) True by simp
  ultimately have "exec pf OP_CONSTANT (mach vm f (Suc ip) st) f = Inr (Next (mach vm f (Suc ip + 2) (st @ [number_of_token src t])) f)"
    using exec_constant [OF assms(1) READ_BYTE_mach(2) [OF assms(1) h]] assms(6) by blast
  moreover have "lit_value src t (tk_type t) = number_of_token src t" using True assms(2) by auto
  ultimately show ?thesis using run_op [OF assms(1) h, of pf st "Suc (Suc (Suc ip))" "st @ [number_of_token src t]" fuel] True by simp
next
  case False
  with assms(2) consider "tk_type t = Keyword NIL_TOKEN" | "tk_type t = Keyword TRUE_TOKEN" | "tk_type t = Keyword FALSE_TOKEN" by auto
  then show ?thesis
    using assms(3,6) by cases (auto simp: exec_plain simp del: run_loop.simps intro!: run_ops1 [OF assms(1)])
qed

lemma run_expr:
  assumes "runs_in vm f blob"
  shows "fits n e \<Longrightarrow> evalE pf (vm_heap vm) src e = Some v \<Longrightarrow> holds_code blob ip (ecode src k e) \<Longrightarrow>
    holds_consts blob k (econsts src e) \<Longrightarrow> k + length (econsts src e) \<le> 65536 \<Longrightarrow> length st + eroom e \<le> STACK_MAX \<Longrightarrow>
    run_loop pf (esteps e + fuel) (mach vm f ip st) f = run_loop pf fuel (mach vm f (ip + length (ecode src k e)) (st @ [v])) f"
proof (induction e arbitrary: n v ip k st fuel)
  case (ELit t)
  then show ?case using run_literal [OF assms ELit(1,3,4,5), of st pf fuel] by (simp del: run_loop.simps)
next
  case (EBin l t r)
  from EBin.prems(2) obtain a b where ab: "evalE pf (vm_heap vm) src l = Some a" "evalE pf (vm_heap vm) src r = Some b"
    "bin_value pf (tk_type t) a b = Some v" by (auto split: option.splits)
  let ?k = "k + length (econsts src l)" and ?ip = "ip + length (ecode src k l)"
  let ?ip2 = "?ip + length (ecode src ?k r)"
  have h: "holds_code blob ip (ecode src k l)" "holds_code blob ?ip (ecode src ?k r)"
    "holds_code blob ?ip2 (map byte_of_code (binary_ops (tk_type t)))"
    using EBin.prems(3) by (simp_all add: holds_code_append add.assoc)
  have c: "holds_consts blob k (econsts src l)" "holds_consts blob ?k (econsts src r)"
    using EBin.prems(4) holds_consts_append by auto
  have "run_loop pf (esteps l + (esteps r + (length (binary_ops (tk_type t)) + fuel))) (mach vm f ip st) f =
      run_loop pf (esteps r + (length (binary_ops (tk_type t)) + fuel)) (mach vm f ?ip (st @ [a])) f"
    using EBin.prems by (intro EBin.IH(1) [OF _ ab(1) h(1) c(1)]) auto
  also have "\<dots> = run_loop pf (length (binary_ops (tk_type t)) + fuel) (mach vm f ?ip2 ((st @ [a]) @ [b])) f"
    using EBin.prems by (intro EBin.IH(2) [OF _ ab(2) h(2) c(2)]) auto
  also have "\<dots> = run_loop pf fuel (mach vm f (?ip2 + length (binary_ops (tk_type t))) (st @ [v])) f"
    using run_binary [OF assms ab(3) h(3), of st fuel] EBin.prems(6) eroom_pos [of r] by simp
  finally show ?case by (simp add: add.assoc)
next
  case (EUn t e)
  from EUn.prems(2) obtain a where a: "evalE pf (vm_heap vm) src e = Some a" "un_value (vm_heap vm) (tk_type t) a = Some v"
    by (auto split: option.splits)
  let ?ip = "ip + length (ecode src k e)"
  have h: "holds_code blob ip (ecode src k e)" "holds_code blob ?ip (map byte_of_code (unary_ops (tk_type t)))"
    using EUn.prems(3) by (simp_all add: holds_code_append)
  have "run_loop pf (esteps e + (length (unary_ops (tk_type t)) + fuel)) (mach vm f ip st) f =
      run_loop pf (length (unary_ops (tk_type t)) + fuel) (mach vm f ?ip (st @ [a])) f"
    using EUn.prems by (intro EUn.IH [OF _ a(1) h(1)]) auto
  also have "\<dots> = run_loop pf fuel (mach vm f (?ip + length (unary_ops (tk_type t))) (st @ [v])) f"
    using run_unary [OF assms a(2) h(2), of st pf fuel] EUn.prems(6) eroom_pos [of e] by simp
  finally show ?case by (simp add: add.assoc)
next
  case (EGroup t e u)
  then show ?case by (auto intro!: EGroup.IH)
qed

section \<open>Compiled and run\<close>

text \<open>A later state of a function: its code and constants start with those of an earlier one.\<close>

definition extends :: "b_blob \<Rightarrow> b_blob \<Rightarrow> bool" where
  "extends b' b =
     (blob_inv b' \<and> prefix (blob_code b) (blob_code b') \<and> prefix (varr_list (bl_constants b)) (varr_list (bl_constants b')))"

lemma blob_code_get: "blob_inv b \<Longrightarrow> i < length (blob_code b) \<Longrightarrow> cell_get (bl_code b) (int i) = Inr (blob_code b ! i)"
  by (auto simp: blob_inv_def blob_code_def cell_get_def)

lemma varr_list_get: "varr_inv a \<Longrightarrow> i < length (varr_list a) \<Longrightarrow> cell_get (va_values a) (int i) = Inr (varr_list a ! i)"
  using varr_invD(4) [of a] by (auto simp: cell_get_def cells_hold_iff)

lemma extends_holds:
  assumes "extends b' b" and "blob_code b = xs @ code" and "varr_list (bl_constants b) = vs @ ks"
  shows "holds_code b' (length xs) code" and "holds_consts b' (length vs) ks"
proof -
  from assms obtain ys ws where b': "blob_inv b'" "blob_code b' = xs @ code @ ys" "varr_list (bl_constants b') = vs @ ks @ ws"
    by (auto simp: extends_def prefix_def)
  show "holds_code b' (length xs) code"
    unfolding holds_code_def
    using blob_code_get [OF b'(1), of "length xs + i" for i] b'(2) by (simp add: nth_append del: of_nat_add cell_get_nat)
  have "varr_inv (bl_constants b')" using b'(1) by (simp add: blob_inv_def)
  from varr_list_get [OF this, of "length vs + i" for i] show "holds_consts b' (length vs) ks"
    unfolding holds_consts_def using b'(3) by (simp add: nth_append del: of_nat_add cell_get_nat)
qed

text \<open>
  C6: From the source to the value: the parser reads an operator expression over its tokens and emits
  code; when the machine comes to this code in the finished function, it pushes the value that the
  expression means, with the grouping and precedence of the operators, and goes on behind the code with
  everything else unchanged. The fuel of the parser is the size of the expression, that of the machine
  one unit for each instruction.
\<close>

theorem expression_compiled_and_run:
  assumes "fits PREC_ASSIGNMENT e" and "tokens p (toks e @ u # ts)" and "level u = PREC_NONE" and "tk_type u \<noteq> Symbol EQUAL_TOKEN"
    and "ready p" and "\<not> vm_is_repl (ps_vm p)" and "efuel e \<le> N"
    and "int (const_count p + length (econsts (sc_source (ps_scanner p)) e)) \<le> UINT16_MAX"
  shows "\<exists>p'. parse N fs (Parse_Precedence PREC_ASSIGNMENT) p = Inr p' \<and> tokens p' (u # ts) \<and> ready p' \<and>
           (\<forall>vm f b st v fuel. runs_in vm f b \<and> extends b (the (cur_blob p')) \<and>
              evalE pf (vm_heap vm) (sc_source (ps_scanner p)) e = Some v \<and> length st + eroom e \<le> STACK_MAX \<longrightarrow>
              run_loop pf (esteps e + fuel) (mach vm f (length (blob_code (the (cur_blob p)))) st) f =
              run_loop pf fuel (mach vm f (length (blob_code (the (cur_blob p')))) (st @ [v])) f)"
proof -
  let ?src = "sc_source (ps_scanner p)"
  have "can_parse PREC_ASSIGNMENT p e u ts" using assms by (simp add: can_parse_def)
  from parse_of_spine [OF spine_all this] assms obtain p' where
    p': "parse N fs (Parse_Precedence PREC_ASSIGNMENT) p = Inr p'" "parsed p e p' (u # ts)" by auto
  then have e: "emitted p p' (ecode ?src (const_count p) e) (econsts ?src e)" "tokens p' (u # ts)" by (auto simp: parsed_def)
  have run: "run_loop pf (esteps e + fuel) (mach vm f (length (blob_code (the (cur_blob p)))) st) f =
      run_loop pf fuel (mach vm f (length (blob_code (the (cur_blob p')))) (st @ [v])) f"
    if "runs_in vm f b" "extends b (the (cur_blob p'))" "evalE pf (vm_heap vm) ?src e = Some v" "length st + eroom e \<le> STACK_MAX"
    for vm f b st v fuel
  proof -
    note h = extends_holds [OF that(2) emitted_blob [OF e(1)]]
    show ?thesis
      using run_expr [OF that(1) assms(1) that(3) h(1) h(2) [folded const_count_def] _ that(4), of fuel] assms(8)
        emitted_blob(1) [OF e(1)] by (simp add: UINT16_MAX_def)
  qed
  show ?thesis using p'(1) e(2) emitted_ready [OF e(1)] run by blast
qed

lemma feeds_scan_tokens:
  "scan_tokens n s = Inr ts \<Longrightarrow> ERROR_TOKEN \<notin> tk_type ` set ts \<Longrightarrow> feeds s ts"
proof (induction n arbitrary: s ts)
  case (Suc n)
  then show ?case by (fastforce simp: bindR_Inr_iff split: if_splits)
qed simp

text \<open>The text \<open>1==true\<close>: its tokens, its tree, and a parser that stands before it.\<close>

definition sample_token :: "b_tkn_type \<Rightarrow> nat \<Rightarrow> nat \<Rightarrow> b_token" where
  "sample_token type start len = \<lparr>tk_type = type, tk_start = At start, tk_length = len, tk_line = 1\<rparr>"

definition sample_expr :: expr where
  "sample_expr = EBin (ELit (sample_token REG_NUMBER_TOKEN 0 1)) (sample_token (Symbol EQUAL_EQ_TOKEN) 1 2)
     (ELit (sample_token (Keyword TRUE_TOKEN) 3 4))"

definition sample_end :: b_token where
  "sample_end = sample_token EOF_TOKEN 7 0"

lemma scan_sample: "scan_tokens 4 (init_scanner ''1==true'') = Inr (toks sample_expr @ [sample_end])"
  by code_simp

definition sample_fn :: b_obj_func where
  "sample_fn = \<lparr>f_type = TYPE_SCRIPT, f_arity = 0, f_up_value_count = 0, f_is_variadic = False, f_blob = init_blob,
     f_name = None, f_module = None\<rparr>"

definition parser_on :: "string \<Rightarrow> b_parser" where
  "parser_on src =
     new_parser (empty_vm\<lparr>vm_heap := [32 \<mapsto> OFunction sample_fn]\<rparr>)
       [\<lparr>cp_function = 32, cp_type = TYPE_SCRIPT, cp_locals = [], cp_up_values = [], cp_scope_depth = 0, cp_handler_count = 0\<rparr>]
       0 src"

abbreviation sample_parser :: b_parser where
  "sample_parser \<equiv> parser_on ''1==true''"

text \<open>A machine that executes the function with the given code.\<close>

definition sample_machine :: "b_blob \<Rightarrow> b_vm" where
  "sample_machine b =
     empty_vm\<lparr>vm_frame_count := 1, vm_frames := [empty_frame\<lparr>cf_closure := 64\<rparr>],
              vm_heap := [32 \<mapsto> OFunction (sample_fn\<lparr>f_blob := b\<rparr>),
                          64 \<mapsto> OClosure \<lparr>c_up_value_count = 0, c_function = 32, c_up_values = []\<rparr>]\<rparr>"

lemma parser_on_ready:
  assumes "NUL \<notin> set src" and "scan_tokens n (init_scanner src) = Inr (t # ts)" and "ERROR_TOKEN \<notin> tk_type ` set (t # ts)"
  obtains p where "tokens p (t # ts)" "ready p" "\<not> vm_is_repl (ps_vm p)" "const_count p = 0" "sc_source (ps_scanner p) = src"
    "blob_code (the (cur_blob p)) = []" "advance_p (parser_on src) = Inr p"
proof -
  obtain s where s: "scan_token (init_scanner src) = Inr (s, t)" "tk_type t \<noteq> ERROR_TOKEN" "feeds s ts"
    using feeds_scan_tokens [OF assms(2,3)] by auto
  have inv: "scan_inv s" "sc_source s = src"
    using scan_token_result [OF scan_inv_init [OF assms(1)]] s(1) by (auto simp: token_result_def init_scanner_def split: if_splits)
  let ?p = "at_token (parser_on src) s t undefined_token"
  have c: "cur_blob ?p = Some init_blob"
    by (simp add: cur_blob_def cur_fn_def fn_of_def parser_on_def new_parser_def at_token_def function_at_def sample_fn_def)
  show ?thesis
  proof (rule that [of ?p])
    show "tokens ?p (t # ts)" using inv(1) s(3) by (simp add: tokens_def)
    show "advance_p (parser_on src) = Inr ?p"
      using s(1,2) by (simp add: advance_p_def parser_on_def new_parser_def at_token_def)
    show "ready ?p" using c by (simp add: ready_def)
    show "\<not> vm_is_repl (ps_vm ?p)" by (simp add: parser_on_def new_parser_def empty_vm_def)
  qed (use c inv in \<open>simp_all add: const_count_def blob_code_def init_blob_def\<close>)
qed

theorem expression_compiled_and_run_witness:
  "\<forall>fs pf fuel. \<exists>p p' v. advance_p sample_parser = Inr p \<and> parse 4 fs (Parse_Precedence PREC_ASSIGNMENT) p = Inr p' \<and>
     run_loop pf (3 + fuel) (mach (sample_machine (the (cur_blob p'))) 0 0 []) 0 =
     run_loop pf fuel (mach (sample_machine (the (cur_blob p'))) 0 (length (blob_code (the (cur_blob p')))) [v]) 0"
proof (intro allI)
  fix fs pf fuel
  obtain p where p: "tokens p (toks sample_expr @ [sample_end])" "ready p" "\<not> vm_is_repl (ps_vm p)" "const_count p = 0"
    "sc_source (ps_scanner p) = ''1==true''" "blob_code (the (cur_blob p)) = []" "advance_p sample_parser = Inr p"
  proof (rule parser_on_ready)
    show "scan_tokens 4 (init_scanner ''1==true'') = Inr (hd (toks sample_expr @ [sample_end]) # tl (toks sample_expr @ [sample_end]))"
      using scan_sample by (simp add: sample_expr_def)
  qed (auto simp: sample_expr_def sample_end_def sample_token_def)
  have e: "fits PREC_ASSIGNMENT sample_expr" "level sample_end = PREC_NONE" "tk_type sample_end \<noteq> Symbol EQUAL_TOKEN"
    "efuel sample_expr \<le> 4" "int (const_count p + length (econsts (sc_source (ps_scanner p)) sample_expr)) \<le> UINT16_MAX"
    "eroom sample_expr \<le> STACK_MAX" "esteps sample_expr = 3"
    using p(4) by (simp_all add: sample_expr_def sample_end_def sample_token_def rule_defs UINT16_MAX_def STACK_MAX_def FRAMES_MAX_def)
  from expression_compiled_and_run [OF e(1) p(1) e(2,3) p(2,3) e(4,5), of fs pf] obtain p' where
    p': "parse 4 fs (Parse_Precedence PREC_ASSIGNMENT) p = Inr p'" "ready p'"
      "\<And>vm f b st v fuel. runs_in vm f b \<and> extends b (the (cur_blob p')) \<and>
              evalE pf (vm_heap vm) (sc_source (ps_scanner p)) sample_expr = Some v \<and> length st + eroom sample_expr \<le> STACK_MAX \<longrightarrow>
              run_loop pf (esteps sample_expr + fuel) (mach vm f (length (blob_code (the (cur_blob p)))) st) f =
              run_loop pf fuel (mach vm f (length (blob_code (the (cur_blob p')))) (st @ [v])) f" by blast
  let ?b = "the (cur_blob p')"
  have "runs_in (sample_machine ?b) 0 ?b"
    by (simp add: runs_in_def sample_machine_def frame_function_def closure_at_def function_at_def empty_frame_def)
  moreover have "extends ?b ?b" using p'(2) by (auto elim!: ready_obtain simp: extends_def)
  moreover obtain v where "evalE pf (vm_heap (sample_machine ?b)) (sc_source (ps_scanner p)) sample_expr = Some v"
    by (simp add: sample_expr_def sample_token_def)
  ultimately show "\<exists>p p' v. advance_p sample_parser = Inr p \<and> parse 4 fs (Parse_Precedence PREC_ASSIGNMENT) p = Inr p' \<and>
     run_loop pf (3 + fuel) (mach (sample_machine (the (cur_blob p'))) 0 0 []) 0 =
     run_loop pf fuel (mach (sample_machine (the (cur_blob p'))) 0 (length (blob_code (the (cur_blob p')))) [v]) 0"
    using p'(1) p'(3) [of "sample_machine ?b" 0 ?b v "[]" fuel] p(6,7) e(6,7) by (auto simp del: run_loop.simps)
qed

end
