(* ===== verification/Compiler_Props.thy ===== *)
theory Compiler_Props
  imports Expr_Run
begin

text \<open>
  Jumps, scopes and loops in the compiler: a patched jump takes the machine to the place where it was
  patched; leaving a scope pops its variables and no others; \<open>continue\<close> in a \<open>while\<close> loop does not know
  the scope of its loop.
\<close>

section \<open>Patching\<close>

lemma blob_code_update:
  assumes "blob_inv b" and "i < bl_count b"
  shows "blob_inv (b\<lparr>bl_code := (bl_code b)[i := Some x]\<rparr>)"
    and "blob_code (b\<lparr>bl_code := (bl_code b)[i := Some x]\<rparr>) = (blob_code b)[i := x]"
proof -
  show "blob_inv (b\<lparr>bl_code := (bl_code b)[i := Some x]\<rparr>)" using assms by (auto simp: blob_inv_def nth_list_update)
  show "blob_code (b\<lparr>bl_code := (bl_code b)[i := Some x]\<rparr>) = (blob_code b)[i := x]"
    using assms by (simp add: blob_code_def take_update_swap map_update)
qed

lemma length_blob_code: "blob_inv b \<Longrightarrow> length (blob_code b) = bl_count b"
  by (simp add: blob_inv_def blob_code_def)

text \<open>A write into the code of the current function.\<close>

definition patched :: "b_parser \<Rightarrow> b_parser \<Rightarrow> byte list \<Rightarrow> bool" where
  "patched p p' code =
     (ready p \<and> (\<exists>b. p' = with_blob p b \<and> blob_inv b \<and> blob_code b = code \<and>
        bl_constants b = bl_constants (the (cur_blob p))))"

lemma patched_ready: "patched p p' code \<Longrightarrow> ready p' \<and> blob_code (the (cur_blob p')) = code \<and> cur_blob p \<noteq> None"
  by (auto simp: patched_def ready_def split: option.splits)

lemma patch_byte_patched:
  assumes "ready p" and "i < length (blob_code (the (cur_blob p)))"
  shows "\<exists>p'. patch_byte (int i) x p = Inr p' \<and> patched p p' ((blob_code (the (cur_blob p)))[i := x])"
proof -
  obtain b where b: "cur_blob p = Some b" "blob_inv b" using assms(1) by (rule ready_obtain)
  then have i: "i < bl_count b" "i < length (bl_code b)" using assms(2) by (auto simp: length_blob_code blob_inv_def)
  let ?b = "b\<lparr>bl_code := (bl_code b)[i := Some x]\<rparr>"
  have "patch_byte (int i) x p = Inr (with_blob p ?b)"
    using b i by (simp add: patch_byte_def current_blob_eq set_blob_eq cell_set_def)
  then show ?thesis using blob_code_update [OF b(2) i(1), of x] assms(1) b(1) by (auto simp: patched_def)
qed

lemma patched_trans:
  assumes "patched p q code" and "patched q r code'"
  shows "patched p r code'"
proof -
  from assms(1) obtain b where b: "ready p" "q = with_blob p b" "bl_constants b = bl_constants (the (cur_blob p))"
    unfolding patched_def by blast
  from assms(2) obtain b' where "r = with_blob q b'" "blob_inv b'" "blob_code b' = code'"
    "bl_constants b' = bl_constants (the (cur_blob q))" unfolding patched_def by blast
  then show ?thesis using b ready_some [OF b(1)] by (auto simp: patched_def)
qed

lemma seqR_last [simp]: "bindR r (seqR []) = r"
  by (cases r) simp_all

lemma patch_short_patched:
  assumes "ready p" and "blob_code (the (cur_blob p)) = xs @ a # b # ys"
  shows "\<exists>p'. patch_short (int (length xs)) n p = Inr p' \<and> patched p p' (xs @ hi_byte n # lo_byte n # ys)"
proof -
  from patch_byte_patched [OF assms(1), of "length xs" "hi_byte n"] assms(2) obtain q where
    q: "patch_byte (int (length xs)) (hi_byte n) p = Inr q" "patched p q (xs @ hi_byte n # b # ys)" by auto
  note r = patched_ready [OF q(2)]
  from patch_byte_patched [of q "Suc (length xs)" "lo_byte n"] r obtain q' where
    q': "patch_byte (int (Suc (length xs))) (lo_byte n) q = Inr q'" "patched q q' (xs @ hi_byte n # lo_byte n # ys)"
    by (auto simp: list_update_append)
  have "int (Suc (length xs)) = int (length xs) + 1" by simp
  then show ?thesis using q(1) q'(1) patched_trans [OF q(2) q'(2)] by (simp add: patch_short_def add.commute)
qed

section \<open>Jumps\<close>

lemma emit_jump_emitted:
  assumes "ready p"
  shows "\<exists>b. emit_jump op p = Inr (with_blob p b, int (length (blob_code (the (cur_blob p))) + 1)) \<and>
           emitted p (with_blob p b) [byte_of_code op, 0xff, 0xff] []"
proof -
  from emit_bytes_emitted [OF assms, of "[byte_of_code op, 0xff, 0xff]"] obtain b where
    b: "seqR [emit_byte (byte_of_code op), emit_byte 0xff, emit_byte 0xff] p = Inr (with_blob p b)"
      "emitted p (with_blob p b) [byte_of_code op, 0xff, 0xff] []" by auto
  obtain b' where b': "cur_blob (with_blob p b) = Some b'" "blob_inv b'" using emitted_ready [OF b(2)] by (rule ready_obtain)
  have "bl_count b' = length (blob_code (the (cur_blob p))) + 3"
    using emitted_blob(1) [OF b(2)] b' length_blob_code [OF b'(2)] by simp
  then show ?thesis using b b' by (auto simp: emit_jump_def blob_count_def current_blob_eq simp del: seqR.simps)
qed

lemma blob_count_eq: "ready p \<Longrightarrow> blob_count p = Inr (int (length (blob_code (the (cur_blob p)))))"
  by (erule ready_obtain) (simp add: blob_count_def current_blob_eq length_blob_code)

lemma patch_jump_patched:
  assumes "ready p" and "blob_code (the (cur_blob p)) = xs @ a # b # ys" and "int (length ys) \<le> UINT16_MAX"
  shows "\<exists>p'. patch_jump (int (length xs)) p = Inr p' \<and>
           patched p p' (xs @ hi_byte (int (length ys)) # lo_byte (int (length ys)) # ys)"
proof -
  have "int (length (blob_code (the (cur_blob p)))) - int (length xs) - 2 = int (length ys)" using assms(2) by simp
  then show ?thesis
    using patch_short_patched [OF assms(1,2), of "int (length ys)"] blob_count_eq [OF assms(1)] assms(3)
    by (simp add: patch_jump_def)
qed

lemma run_jump:
  assumes "runs_in vm f b" and "holds_code b ip [byte_of_code OP_JUMP, hi_byte (int n), lo_byte (int n)]" and "n < 65536"
  shows "step pf (mach vm f ip st) f = Inr (Next (mach vm f (ip + 3 + n) st) f)"
proof -
  note h = READ_BYTE_mach [OF assms(1,2)]
  note h2 = READ_BYTE_mach [OF assms(1) h(2)]
  have "READ_SHORT (mach vm f (Suc ip) st) f = Inr (mach vm f (Suc (Suc (Suc ip))) st, n)"
    using h2(1) READ_BYTE_mach(1) [OF assms(1) h2(2)] hi_lo [OF assms(3)] by (simp add: READ_SHORT_def)
  then have "exec pf OP_JUMP (mach vm f (Suc ip) st) f = Inr (Next (mach vm f (ip + 3 + n) st) f)"
    using assms(1) move_ip_mach [of f vm "Suc (Suc (Suc ip))" st n] by (simp add: exec_def runs_in_def next_in_def eval_nat_numeral)
  then show ?thesis using step_op [OF assms(1,2)] by simp
qed

text \<open>
  C8: A forward jump: the compiler emits it before the code to jump over and patches it behind. If that
  code is at most 65535 bytes long, the patched function has the code unchanged and the machine that
  comes to the jump goes on exactly behind it.
\<close>

theorem jump_lands_behind:
  assumes "ready p" and "emit_jump OP_JUMP p = Inr (q, offset)" and "emitted q r code consts" and "int (length code) \<le> UINT16_MAX"
  shows "\<exists>s. patch_jump offset r = Inr s \<and> ready s \<and>
           (\<forall>vm f b st pf. runs_in vm f b \<and> extends b (the (cur_blob s)) \<longrightarrow>
              holds_code b (length (blob_code (the (cur_blob p))) + 3) code \<and>
              step pf (mach vm f (length (blob_code (the (cur_blob p)))) st) f =
              Inr (Next (mach vm f (length (blob_code (the (cur_blob s)))) st) f))"
proof -
  let ?xs = "blob_code (the (cur_blob p))" and ?n = "int (length code)"
  from emit_jump_emitted [OF assms(1), of OP_JUMP] assms(2) have
    q: "offset = int (length (?xs @ [byte_of_code OP_JUMP]))" "emitted p q [byte_of_code OP_JUMP, 0xff, 0xff] []" by auto
  have r: "blob_code (the (cur_blob r)) = (?xs @ [byte_of_code OP_JUMP]) @ 0xff # 0xff # code" "ready r"
    using emitted_blob(1) [OF emitted_trans [OF q(2) assms(3)]] emitted_ready [OF assms(3)] by simp_all
  from patch_jump_patched [OF r(2,1) assms(4)] obtain s where
    s: "patch_jump offset r = Inr s" "patched r s ((?xs @ [byte_of_code OP_JUMP]) @ hi_byte ?n # lo_byte ?n # code)"
    unfolding q(1) by blast
  note sr = patched_ready [OF s(2)]
  have "holds_code b (length ?xs + 3) code \<and>
      step pf (mach vm f (length ?xs) st) f = Inr (Next (mach vm f (length (blob_code (the (cur_blob s)))) st) f)"
    if "runs_in vm f b" "extends b (the (cur_blob s))" for vm f b st pf
  proof -
    have c: "blob_code (the (cur_blob s)) = ?xs @ [byte_of_code OP_JUMP, hi_byte ?n, lo_byte ?n] @ code" using sr by simp
    have h: "holds_code b (length ?xs) [byte_of_code OP_JUMP, hi_byte ?n, lo_byte ?n]" "holds_code b (length ?xs + 3) code"
      using extends_holds(1) [OF that(2) c append_Nil [symmetric]] unfolding holds_code_append by (simp_all add: eval_nat_numeral)
    have "length code < 65536" using assms(4) by (simp add: UINT16_MAX_def)
    from run_jump [OF that(1) h(1) this, of pf st] show ?thesis using h(2) c by (simp add: eval_nat_numeral)
  qed
  then show ?thesis using s(1) sr by blast
qed

lemma sample_runs: "ready s \<Longrightarrow> runs_in (sample_machine (the (cur_blob s))) 0 (the (cur_blob s)) \<and> extends (the (cur_blob s)) (the (cur_blob s))"
  by (auto elim!: ready_obtain simp: extends_def runs_in_def sample_machine_def frame_function_def closure_at_def
      function_at_def empty_frame_def)

theorem jump_lands_behind_witness:
  "\<exists>q offset r s. emit_jump OP_JUMP sample_parser = Inr (q, offset) \<and> emit_op OP_POP q = Inr r \<and> patch_jump offset r = Inr s \<and>
     (\<forall>pf. step pf (mach (sample_machine (the (cur_blob s))) 0 0 []) 0 = Inr (Next (mach (sample_machine (the (cur_blob s))) 0 4 []) 0))"
proof -
  have p: "ready sample_parser" "blob_code (the (cur_blob sample_parser)) = []"
    by (simp_all add: ready_def cur_blob_def cur_fn_def fn_of_def parser_on_def new_parser_def function_at_def sample_fn_def
        blob_code_def init_blob_def blob_inv_init [unfolded init_blob_def])
  from emit_jump_emitted [OF p(1), of OP_JUMP] obtain q offset where
    q: "emit_jump OP_JUMP sample_parser = Inr (q, offset)" "emitted sample_parser q [byte_of_code OP_JUMP, 0xff, 0xff] []" by blast
  from emit_byte_emitted [OF emitted_ready [OF q(2)], of "byte_of_code OP_POP"] obtain r where
    r: "emit_op OP_POP q = Inr r" "emitted q r [byte_of_code OP_POP] []" by blast
  have "int (length [byte_of_code OP_POP]) \<le> UINT16_MAX" by (simp add: UINT16_MAX_def)
  from jump_lands_behind [OF p(1) q(1) r(2) this] obtain s where
    s: "patch_jump offset r = Inr s" "ready s"
    "\<And>vm f b st pf. runs_in vm f b \<and> extends b (the (cur_blob s)) \<longrightarrow>
              holds_code b (length (blob_code (the (cur_blob sample_parser))) + 3) [byte_of_code OP_POP] \<and>
              step pf (mach vm f (length (blob_code (the (cur_blob sample_parser)))) st) f =
              Inr (Next (mach vm f (length (blob_code (the (cur_blob s)))) st) f)" by blast
  let ?b = "the (cur_blob s)"
  have b: "runs_in (sample_machine ?b) 0 ?b" "extends ?b ?b"
    using sample_runs [OF s(2)] by simp_all
  from patch_jump_patched [of r "[byte_of_code OP_JUMP]" "0xff" "0xff" "[byte_of_code OP_POP]"] emitted_ready [OF r(2)]
    emitted_blob(1) [OF r(2)] emitted_blob(1) [OF q(2)] p(2) have
    "\<exists>s'. patch_jump 1 r = Inr s' \<and> length (blob_code (the (cur_blob s'))) = 4"
    by (auto simp: UINT16_MAX_def dest: patched_ready)
  moreover have "offset = 1" using emit_jump_emitted [OF p(1), of OP_JUMP] q(1) p(2) by auto
  ultimately show ?thesis using q(1) r(1) s(1) s(3) [of "sample_machine ?b" 0 ?b _ "[]"] b p(2) by auto
qed

section \<open>Leaving scopes\<close>

definition pop_code :: "b_local \<Rightarrow> byte" where
  "pop_code l = byte_of_code (if lo_is_captured l then OP_CLOSE_UP_VALUE else OP_POP)"

lemma emit_pops_emitted:
  assumes "ready p"
  shows "\<exists>b. emit_pops d ls p = Inr (with_blob p b) \<and>
           emitted p (with_blob p b) (map pop_code (takeWhile (\<lambda>l. d < lo_depth l) ls)) []"
  using assms
proof (induction ls arbitrary: p)
  case Nil
  then obtain b where "cur_blob p = Some b" by (rule ready_obtain)
  then show ?case using Nil emitted_refl [of p] by (intro exI [of _ b]) (simp add: with_blob_same)
next
  case (Cons l ls)
  show ?case
  proof (cases "d < lo_depth l")
    case True
    obtain b where b: "emit_byte (pop_code l) p = Inr (with_blob p b)" "emitted p (with_blob p b) [pop_code l] []"
      using emit_byte_emitted [OF Cons.prems] by blast
    from Cons.IH [OF emitted_ready [OF b(2)]] obtain b' where
      b': "emit_pops d ls (with_blob p b) = Inr (with_blob p b')"
        "emitted (with_blob p b) (with_blob p b') (map pop_code (takeWhile (\<lambda>l. d < lo_depth l) ls)) []" by auto
    have "emit_pops d (l # ls) p = Inr (with_blob p b')" using True b(1) [unfolded pop_code_def] b'(1) by simp
    then show ?thesis using True emitted_trans [OF b(2) b'(2)] by auto
  next
    case False
    obtain b where "cur_blob p = Some b" using Cons.prems by (rule ready_obtain)
    then show ?thesis using False Cons.prems emitted_refl [of p] by (intro exI [of _ b]) (simp add: with_blob_same)
  qed
qed

lemma emit_loop_emitted:
  assumes "ready p" and "n = int (length (blob_code (the (cur_blob p)))) + 3 - start" and "n \<le> UINT16_MAX"
  shows "\<exists>b. emit_loop start p = Inr (with_blob p b) \<and>
           emitted p (with_blob p b) [byte_of_code OP_LOOP, hi_byte n, lo_byte n] []"
proof -
  obtain b where b: "emit_op OP_LOOP p = Inr (with_blob p b)" "emitted p (with_blob p b) [byte_of_code OP_LOOP] []"
    using emit_byte_emitted [OF assms(1)] by blast
  have r: "ready (with_blob p b)" using emitted_ready [OF b(2)] .
  have c: "blob_count (with_blob p b) = Inr (int (length (blob_code (the (cur_blob p)))) + 1)"
    using blob_count_eq [OF r] emitted_blob(1) [OF b(2)] by simp
  from emit_bytes_emitted [OF r, of "[hi_byte n, lo_byte n]"] obtain b' where
    b': "seqR [emit_byte (hi_byte n), emit_byte (lo_byte n)] (with_blob p b) = Inr (with_blob p b')"
      "emitted (with_blob p b) (with_blob p b') [hi_byte n, lo_byte n] []" by auto
  have "int (length (blob_code (the (cur_blob p)))) + 1 - start + 2 = n" using assms(2) by simp
  then have "emit_loop start p = Inr (with_blob p b')"
    using b(1) c b'(1) assms(3) by (simp add: emit_loop_def Let_def)
  then show ?thesis using emitted_trans [OF b(2) b'(2)] by auto
qed

lemma run_pops:
  assumes "runs_in vm f b" and "holds_code b ip (replicate (length vs) (byte_of_code OP_POP))"
  shows "run_loop pf (length vs + fuel) (mach vm f ip (st @ vs)) f = run_loop pf fuel (mach vm f (ip + length vs) st) f"
  using assms(2)
proof (induction vs arbitrary: ip rule: rev_induct)
  case (snoc v vs)
  then have h: "holds_code b ip (byte_of_code OP_POP # replicate (length vs) (byte_of_code OP_POP))" by simp
  have "exec pf OP_POP (mach vm f (Suc ip) (st @ vs @ [v])) f = Inr (Next (mach vm f (Suc ip) (st @ vs)) f)"
    using stack_top(5) [of vm f "Suc ip" "st @ vs" v] by (simp add: exec_def)
  from run_op [OF assms(1) h this, of "length vs + fuel"] snoc.IH [OF READ_BYTE_mach(2) [OF assms(1) h]]
  show ?case by (simp del: run_loop.simps)
qed simp

lemma run_loop_back:
  assumes "runs_in vm f b" and "holds_code b ip [byte_of_code OP_LOOP, hi_byte (int n), lo_byte (int n)]" and "n < 65536"
    and "ip + 3 = start + n"
  shows "run_loop pf (Suc fuel) (mach vm f ip st) f = run_loop pf fuel (mach vm f start st) f"
proof -
  note h = READ_BYTE_mach [OF assms(1,2)]
  note h2 = READ_BYTE_mach [OF assms(1) h(2)]
  have f: "f < length (vm_frames vm)" using assms(1) by (simp add: runs_in_def)
  have "READ_SHORT (mach vm f (Suc ip) st) f = Inr (mach vm f (ip + 3) st, n)"
    using h2(1) READ_BYTE_mach(1) [OF assms(1) h2(2)] hi_lo [OF assms(3)] by (simp add: READ_SHORT_def eval_nat_numeral)
  moreover have "move_ip (mach vm f (ip + 3) st) f (- int n) = Inr (mach vm f start st)"
    using f assms(4) by (simp add: move_ip_def frame_at_mach) (simp add: put_frame_def mach_def)
  ultimately have "exec pf OP_LOOP (mach vm f (Suc ip) st) f = Inr (Next (mach vm f start st) f)"
    by (simp add: exec_def next_in_def)
  then show ?thesis by (rule run_op [OF assms(1,2)])
qed

text \<open>Where \<open>continue\<close> leads, whatever the scope depth of the innermost loop.\<close>

lemma continue_code:
  assumes "ready p" and "ps_compilers p = c # cs" and "cp_scope_depth c \<noteq> -1" and "ps_innermost_loop_start p = int start"
    and "start \<le> length (blob_code (the (cur_blob p)))"
    and "length (blob_code (the (cur_blob p))) + length (cp_locals c) + 3 - start < 65536"
    and "\<forall>l \<in> set (cp_locals c). \<not> lo_is_captured l"
    and "takeWhile (\<lambda>l. ps_innermost_loop_scope_depth p < lo_depth l) (rev (cp_locals c)) = ls"
  shows "\<exists>q. continue_statement p = consume_statement_end q \<and> ready q \<and>
           (\<forall>vm f b st vs pf fuel. runs_in vm f b \<and> extends b (the (cur_blob q)) \<and> length vs = length ls \<longrightarrow>
              run_loop pf (Suc (length vs) + fuel) (mach vm f (length (blob_code (the (cur_blob p)))) (st @ vs)) f =
              run_loop pf fuel (mach vm f start st) f)"
proof -
  let ?xs = "blob_code (the (cur_blob p))" and ?d = "ps_innermost_loop_scope_depth p"
  have pops: "map pop_code ls = replicate (length ls) (byte_of_code OP_POP)"
    using assms(7,8) by (auto simp: pop_code_def intro!: replicate_eqI dest!: set_takeWhileD)
  have len: "length ls \<le> length (cp_locals c)" using assms(8) length_takeWhile_le [of _ "rev (cp_locals c)"] by auto
  from emit_pops_emitted [OF assms(1), of ?d "rev (cp_locals c)"] obtain b where
    b: "emit_pops ?d (rev (cp_locals c)) p = Inr (with_blob p b)" "emitted p (with_blob p b) (map pop_code ls) []"
    unfolding assms(8) by blast
  let ?n = "length ?xs + length ls + 3 - start"
  have n: "int ?n = int (length (blob_code (the (cur_blob (with_blob p b))))) + 3 - int start" "int ?n \<le> UINT16_MAX" "?n < 65536"
    using emitted_blob(1) [OF b(2)] assms(5,6) len by (auto simp: UINT16_MAX_def of_nat_diff)
  from emit_loop_emitted [OF emitted_ready [OF b(2)] n(1,2)] obtain q where
    q: "emit_loop (int start) (with_blob p b) = Inr q"
      "emitted (with_blob p b) q [byte_of_code OP_LOOP, hi_byte (int ?n), lo_byte (int ?n)] []" by auto
  have "continue_statement p = consume_statement_end q"
    using assms(2,3,4) b(1) q(1) by (simp add: continue_statement_def discard_local_def cur_compiler_def)
  moreover have "run_loop pf (Suc (length vs) + fuel) (mach vm f (length ?xs) (st @ vs)) f = run_loop pf fuel (mach vm f start st) f"
    if "runs_in vm f b'" "extends b' (the (cur_blob q))" "length vs = length ls" for vm f b' st vs pf fuel
  proof -
    have h: "holds_code b' (length ?xs) (replicate (length vs) (byte_of_code OP_POP))"
      "holds_code b' (length ?xs + length vs) [byte_of_code OP_LOOP, hi_byte (int ?n), lo_byte (int ?n)]"
      using extends_holds(1) [OF that(2) emitted_blob(1) [OF emitted_trans [OF b(2) q(2)]] append_Nil [symmetric]] that(3)
      unfolding pops holds_code_append by simp_all
    show ?thesis
      using run_pops [OF that(1) h(1), of pf "Suc fuel" st] run_loop_back [OF that(1) h(2) n(3), of start pf fuel st] that(3) assms(5)
      by (simp del: run_loop.simps)
  qed
  ultimately show ?thesis using emitted_ready [OF q(2)] by blast
qed


text \<open>A function with a variable \<open>x\<close> in a block around a \<open>while\<close> loop and \<open>y\<close> in its body.\<close>

definition sample_scopes :: "b_local list \<Rightarrow> int \<Rightarrow> b_parser" where
  "sample_scopes ls depth =
     sample_parser\<lparr>ps_innermost_loop_start := 0, ps_innermost_loop_scope_depth := 0,
       ps_compilers := [\<lparr>cp_function = 32, cp_type = TYPE_SCRIPT, cp_locals = ls, cp_up_values = [], cp_scope_depth = depth,
         cp_handler_count = 0\<rparr>]\<rparr>"

definition sample_locals :: "b_local list" where
  "sample_locals = map (\<lambda>(x, d). \<lparr>lo_name = x, lo_depth = d, lo_is_captured = False\<rparr>) [('''', 0), (''x'', 1), (''y'', 2)]"


end
