(* ===== verification/Code_Scan.thy ===== *)
theory Code_Scan
  imports Debug Compiler_Props
begin

text \<open>
  The length of instructions: the compiler looks for the placeholders of \<open>break\<close> by walking over the
  instructions of a loop, and the disassembler walks over the code of a function. Both have a table of
  operand lengths of their own.
\<close>

section \<open>The two tables\<close>

definition debug_extra :: "b_code \<Rightarrow> int" where
  "debug_extra op =
     (if op = OP_RANGE \<or> op = OP_GET_SUPER then 2 else if op = OP_CLASS_PROPERTY then -1
      else if op = OP_BREAK_PL then -2 else 0)"

lemmas instruction_defs =
  simple_instruction_def constant_instruction_def short_instruction_def byte_instruction_def jump_instruction_def
  try_instruction_def invoke_instruction_def

lemma disassemble_op_length:
  assumes "disassemble_op fuel hp blob offset op = Inr (chars, stop)" and "op \<noteq> OP_CLOSURE"
  shows "stop = offset + 1 + int (code_args op) + debug_extra op"
  using assms by (cases op) (auto simp: instruction_defs bindR_Inr_iff code_args_def debug_extra_def)

lemma up_value_lines_length: "up_value_lines blob n offset = Inr (chars, stop) \<Longrightarrow> stop = offset + 3 * int n"
proof (induction n arbitrary: offset chars)
  case (Suc n)
  then show ?case by (auto simp: bindR_Inr_iff dest!: Suc.IH)
qed simp

lemma args_count_op:
  assumes "cell_get (bl_code blob) offset = Inr (byte_of_code op)" and "op \<noteq> OP_CLOSURE"
  shows "get_code_args_count hp blob offset = Inr (code_args op)"
  using assms by (cases op) (simp_all add: get_code_args_count_def code_of_byte_of_code)

text \<open>
  C16: The disassembler and the compiler's search for placeholders agree on where an instruction ends, for
  closures with their up-values too, but for four instructions: the disassembler takes two operand bytes
  too many for \<open>OP_RANGE\<close>, which has none, and one too few for \<open>OP_CLASS_PROPERTY\<close>; the compiler does not count the two
  operand bytes of \<open>OP_GET_SUPER\<close>; placeholders of \<open>break\<close> have no text.
\<close>

theorem disassembler_agrees:
  assumes "disassemble_instruction fuel hp blob offset = Inr (chars, stop)"
    and "cell_get (bl_code blob) offset = Inr (byte_of_code op)"
    and "get_code_args_count hp blob offset = Inr k"
  shows "stop = offset + 1 + int k + debug_extra op"
proof -
  from assms(1,2) obtain t where t: "disassemble_op fuel hp blob offset op = Inr (t, stop)"
    by (auto simp: disassemble_instruction_def bindR_Inr_iff code_of_byte_of_code)
  show ?thesis
  proof (cases "op = OP_CLOSURE")
    case True
    with t assms(2,3) show ?thesis
      by (auto simp: closure_instruction_def short_at_def code_at_def get_code_args_count_def code_of_byte_of_code
          debug_extra_def bindR_Inr_iff add.commute [of 2 offset] dest!: up_value_lines_length)
  next
    case False
    with disassemble_op_length [OF t False] args_count_op [OF assms(2) False] assms(3) show ?thesis by simp
  qed
qed

text \<open>A function whose code is a range instruction and two other bytes.\<close>

definition range_blob :: b_blob where
  "range_blob = init_blob\<lparr>bl_count := 3, bl_code := map Some [byte_of_code OP_RANGE, 0, 0], bl_lines := map Some [1, 1, 1]\<rparr>"

theorem disassembler_agrees_witness:
  "\<exists>chars. disassemble_instruction 1 Map.empty range_blob 0 = Inr (chars, 3) \<and> get_code_args_count Map.empty range_blob 0 = Inr 0"
proof -
  have c: "cell_get (bl_code range_blob) 0 = Inr (byte_of_code OP_RANGE)" by (simp add: range_blob_def cell_get_def)
  have k: "get_code_args_count Map.empty range_blob 0 = Inr 0" using args_count_op [OF c] by (simp add: code_args_def)
  have "\<exists>chars stop. disassemble_instruction 1 Map.empty range_blob 0 = Inr (chars, stop)"
    unfolding disassemble_instruction_def c bindR_simps code_of_byte_of_code
    by (simp add: line_column_def range_blob_def cell_get_def short_instruction_def short_at_def code_at_def)
  then obtain chars stop where d: "disassemble_instruction 1 Map.empty range_blob 0 = Inr (chars, stop)" by blast
  from disassembler_agrees [OF d c k] have "stop = 3" by (simp add: debug_extra_def)
  with d k show ?thesis by auto
qed

section \<open>The search for placeholders\<close>

type_synonym instr = "b_code \<times> byte list"

definition instr_ok :: "instr \<Rightarrow> bool" where
  "instr_ok i = (fst i \<noteq> OP_CLOSURE \<and> length (snd i) = code_args (fst i))"

definition instr_code :: "instr list \<Rightarrow> byte list" where
  "instr_code is = concat (map (\<lambda>(op, args). byte_of_code op # args) is)"

text \<open>Every placeholder becomes a jump over the instructions behind it.\<close>

fun breaks_patched :: "instr list \<Rightarrow> instr list" where
  "breaks_patched [] = []"
| "breaks_patched ((op, args) # is) =
     (if op = OP_BREAK_PL
      then (OP_JUMP, [hi_byte (int (length (instr_code is))), lo_byte (int (length (instr_code is)))]) else (op, args)) #
     breaks_patched is"

lemma instr_code_simps [simp]: "instr_code [] = []" "instr_code ((op, args) # is) = byte_of_code op # args @ instr_code is"
  by (simp_all add: instr_code_def)

lemma byte_of_code_inj: "byte_of_code op = byte_of_code op' \<Longrightarrow> op = op'"
  using code_of_byte_of_code by (metis option.inject)

lemma break_is_op: "byte_of_code op = byte_of_code OP_BREAK_PL \<longleftrightarrow> op = OP_BREAK_PL"
  using byte_of_code_inj by blast

lemma code_cell:
  assumes "ready p" and "blob_code (the (cur_blob p)) = xs @ b # ys"
  shows "current_blob p = Inr (the (cur_blob p))" and "cell_get (bl_code (the (cur_blob p))) (int (length xs)) = Inr b"
    and "int (length xs) < int (bl_count (the (cur_blob p)))"
proof -
  obtain bl where bl: "cur_blob p = Some bl" "blob_inv bl" using assms(1) by (rule ready_obtain)
  then show "current_blob p = Inr (the (cur_blob p))" by (simp add: current_blob_eq)
  show "cell_get (bl_code (the (cur_blob p))) (int (length xs)) = Inr b"
    using blob_code_get [OF bl(2), of "length xs"] assms(2) bl(1) by (simp del: cell_get_nat)
  show "int (length xs) < int (bl_count (the (cur_blob p)))"
    using length_blob_code [OF bl(2)] assms(2) bl(1) by simp
qed

lemma patched_refl: "ready p \<Longrightarrow> patched p p (blob_code (the (cur_blob p)))"
  by (elim ready_obtain) (auto simp: patched_def ready_def with_blob_same intro!: exI)

lemma scan_end:
  assumes "ready p" and "blob_code (the (cur_blob p)) = xs"
  shows "end_loop_from (Suc n) (int (length xs)) p = Inr p"
proof -
  obtain b where b: "cur_blob p = Some b" "blob_inv b" using assms(1) by (rule ready_obtain)
  then have "bl_count b = length xs" using length_blob_code [OF b(2)] assms(2) by simp
  then show ?thesis using b by (simp add: current_blob_eq)
qed

lemma scan_step:
  assumes "ready p" and "blob_code (the (cur_blob p)) = xs @ byte_of_code op # args @ ys" and "op \<noteq> OP_CLOSURE"
    and "op \<noteq> OP_BREAK_PL" and "length args = code_args op"
  shows "end_loop_from (Suc n) (int (length xs)) p = end_loop_from n (int (length (xs @ byte_of_code op # args))) p"
proof -
  note c = code_cell [OF assms(1,2)]
  have "get_code_args_count (vm_heap (ps_vm p)) (the (cur_blob p)) (int (length xs)) = Inr (length args)"
    using args_count_op [OF c(2) assms(3)] assms(5) by simp
  moreover have "int (length xs) + 1 + int (length args) = int (length (xs @ byte_of_code op # args))" by simp
  ultimately show ?thesis using c assms(4) by (simp add: break_is_op del: cell_get_nat of_nat_add length_append)
qed

lemma scan_break:
  assumes "ready p" and "blob_code (the (cur_blob p)) = xs @ byte_of_code OP_BREAK_PL # a # b # ys" and "int (length ys) \<le> UINT16_MAX"
  shows "\<exists>q. patched p q (xs @ byte_of_code OP_JUMP # hi_byte (int (length ys)) # lo_byte (int (length ys)) # ys) \<and>
     end_loop_from (Suc (Suc n)) (int (length xs)) p = end_loop_from n (int (length xs) + 3) q"
proof -
  note c = code_cell [OF assms(1,2)]
  from patch_byte_patched [OF assms(1), of "length xs" "byte_of_code OP_JUMP"] assms(2) obtain q where
    q: "patch_byte (int (length xs)) (byte_of_code OP_JUMP) p = Inr q" "patched p q (xs @ byte_of_code OP_JUMP # a # b # ys)" by auto
  have "blob_code (the (cur_blob q)) = (xs @ [byte_of_code OP_JUMP]) @ a # b # ys" "ready q" using patched_ready [OF q(2)] by simp_all
  from patch_jump_patched [OF this(2,1) assms(3)] obtain r where
    r: "patch_jump (int (length xs) + 1) q = Inr r"
      "patched q r (xs @ byte_of_code OP_JUMP # hi_byte (int (length ys)) # lo_byte (int (length ys)) # ys)" by (auto simp: add.commute)
  note pr = patched_trans [OF q(2) r(2)]
  have "end_loop_from (Suc (Suc n)) (int (length xs)) p = end_loop_from (Suc n) (int (length xs)) r"
    using c q(1) r(1) by (simp del: cell_get_nat)
  also have "\<dots> = end_loop_from n (int (length (xs @ byte_of_code OP_JUMP # [hi_byte (int (length ys)), lo_byte (int (length ys))]))) r"
    by (rule scan_step) (use patched_ready [OF pr] in \<open>simp_all add: code_args_def\<close>)
  also have "int (length (xs @ byte_of_code OP_JUMP # [hi_byte (int (length ys)), lo_byte (int (length ys))])) = int (length xs) + 3"
    by simp
  finally show ?thesis using pr by blast
qed

declare end_loop_from.simps [simp del]

lemma end_loop_from_patches:
  assumes "ready p" and "blob_code (the (cur_blob p)) = xs @ instr_code is" and "\<forall>i \<in> set is. instr_ok i"
    and "int (length (instr_code is)) \<le> UINT16_MAX" and "2 * length is < n"
  shows "\<exists>q. end_loop_from n (int (length xs)) p = Inr q \<and> patched p q (xs @ instr_code (breaks_patched is))"
  using assms
proof (induction "is" arbitrary: p xs n)
  case Nil
  then obtain m where "n = Suc m" by (cases n) auto
  moreover have "patched p p xs" using patched_refl [OF Nil.prems(1)] Nil.prems(2) by simp
  ultimately show ?case using scan_end [OF Nil.prems(1)] Nil.prems(2) by auto
next
  case (Cons i "is")
  obtain op args where i: "i = (op, args)" by (cases i)
  obtain m where n: "n = Suc (Suc m)" "2 * length is < m" using Cons.prems(5) by (cases n; cases "n - 1") auto
  have ok: "op \<noteq> OP_CLOSURE" "length args = code_args op" using Cons.prems(3) by (auto simp: instr_ok_def i)
  have rest: "\<forall>i \<in> set is. instr_ok i" "int (length (instr_code is)) \<le> UINT16_MAX" using Cons.prems(3,4) by (auto simp: i)
  let ?k = "int (length (instr_code is))"
  show ?case
  proof (cases "op = OP_BREAK_PL")
    case True
    with ok(2) obtain a b where ab: "args = [a, b]" by (auto simp: code_args_def length_Suc_conv numeral_2_eq_2)
    have code: "blob_code (the (cur_blob p)) = xs @ byte_of_code OP_BREAK_PL # a # b # instr_code is"
      using Cons.prems(2) by (simp add: i ab True)
    from scan_break [OF Cons.prems(1) code rest(2), of m] obtain q where
      q: "patched p q ((xs @ [byte_of_code OP_JUMP, hi_byte ?k, lo_byte ?k]) @ instr_code is)"
        "end_loop_from n (int (length xs)) p = end_loop_from m (int (length xs) + 3) q"
      by (auto simp: n(1))
    have l: "int (length xs) + 3 = int (length (xs @ [byte_of_code OP_JUMP, hi_byte ?k, lo_byte ?k]))" by simp
    have r: "ready q" "blob_code (the (cur_blob q)) = (xs @ [byte_of_code OP_JUMP, hi_byte ?k, lo_byte ?k]) @ instr_code is"
      using patched_ready [OF q(1)] by simp_all
    from Cons.IH [OF r rest n(2)] obtain q' where
      "end_loop_from n (int (length xs)) p = Inr q'"
      "patched q q' ((xs @ [byte_of_code OP_JUMP, hi_byte ?k, lo_byte ?k]) @ instr_code (breaks_patched is))"
      unfolding q(2) l by blast
    then show ?thesis using patched_trans [OF q(1)] True by (auto simp: i)
  next
    case False
    have code: "blob_code (the (cur_blob p)) = xs @ byte_of_code op # args @ instr_code is"
      using Cons.prems(2) by (simp add: i)
    then have code': "blob_code (the (cur_blob p)) = (xs @ byte_of_code op # args) @ instr_code is" by simp
    have "2 * length is < Suc m" using n(2) by simp
    from Cons.IH [OF Cons.prems(1) code' rest this] scan_step [OF Cons.prems(1) code ok(1) False ok(2), of "Suc m"]
    show ?thesis using False by (auto simp: i n(1))
  qed
qed

lemma scan_unknown:
  assumes "ready p" and "blob_code (the (cur_blob p)) = xs @ 0xff # ys"
  shows "end_loop_from (Suc n) (int (length xs)) p = end_loop_from n (int (length (xs @ [0xff]))) p"
proof -
  note c = code_cell [OF assms]
  have "get_code_args_count (vm_heap (ps_vm p)) (the (cur_blob p)) (int (length xs)) = Inr 0"
    by (simp add: get_code_args_count_def c(2) code_of_byte_def length_b_codes del: cell_get_nat)
  moreover have "0xff \<noteq> byte_of_code OP_BREAK_PL" by (simp add: byte_of_code_def b_codes_def)
  ultimately show ?thesis using c by (simp add: end_loop_from.simps(2) add.commute del: cell_get_nat)
qed

text \<open>The two bytes behind \<open>OP_GET_SUPER\<close> are read as instructions, which take the following ones as operands.\<close>

lemma scan_super:
  assumes "ready p"
    and "blob_code (the (cur_blob p)) =
      xs @ instr_code [(OP_GET_SUPER, [0, name]), (OP_CALL, [1]), (OP_POP, []), (OP_BREAK_PL, [0xff, 0xff])]"
  shows "end_loop_from (Suc (Suc (Suc (Suc (Suc (Suc n)))))) (int (length xs)) p = Inr p"
proof -
  have b: "byte_of_code OP_DEFINE_GLOBAL = 0" "byte_of_code OP_GET_GLOBAL = 1" by (simp_all add: byte_of_code_def b_codes_def)
  let ?x1 = "xs @ byte_of_code OP_GET_SUPER # []"
  let ?x2 = "?x1 @ byte_of_code OP_DEFINE_GLOBAL # [name, byte_of_code OP_CALL]"
  let ?x3 = "?x2 @ byte_of_code OP_GET_GLOBAL # [byte_of_code OP_POP, byte_of_code OP_BREAK_PL]"
  let ?c = "blob_code (the (cur_blob p))"
  have e: "?c = xs @ byte_of_code OP_GET_SUPER # [] @ tl (drop (length xs) ?c)" "?c = ?x1 @ byte_of_code OP_DEFINE_GLOBAL # [name, byte_of_code OP_CALL] @ drop 4 (drop (length xs) ?c)"
    "?c = ?x2 @ byte_of_code OP_GET_GLOBAL # [byte_of_code OP_POP, byte_of_code OP_BREAK_PL] @ [0xff, 0xff]"
    "?c = ?x3 @ 0xff # [0xff]" "?c = (?x3 @ [0xff]) @ 0xff # []" "?c = (?x3 @ [0xff]) @ [0xff]"
    by (simp_all add: assms(2) b)
  have "end_loop_from (Suc (Suc (Suc (Suc (Suc (Suc n)))))) (int (length xs)) p = end_loop_from (Suc (Suc (Suc (Suc (Suc n))))) (int (length ?x1)) p"
    by (rule scan_step [OF assms(1) e(1)]) (simp_all add: code_args_def)
  also have "\<dots> = end_loop_from (Suc (Suc (Suc (Suc n)))) (int (length ?x2)) p"
    by (rule scan_step [OF assms(1) e(2)]) (simp_all add: code_args_def)
  also have "\<dots> = end_loop_from (Suc (Suc (Suc n))) (int (length ?x3)) p"
    by (rule scan_step [OF assms(1) e(3)]) (simp_all add: code_args_def)
  also have "\<dots> = end_loop_from (Suc (Suc n)) (int (length (?x3 @ [0xff]))) p" by (rule scan_unknown [OF assms(1) e(4)])
  also have "\<dots> = end_loop_from (Suc n) (int (length ((?x3 @ [0xff]) @ [0xff]))) p" by (rule scan_unknown [OF assms(1) e(5)])
  also have "\<dots> = Inr p" by (rule scan_end [OF assms(1) e(6)])
  finally show ?thesis .
qed


lemma with_blob_loop: "ps_innermost_loop_start (with_blob p b) = ps_innermost_loop_start p"
  by (auto simp: with_blob_def vm_put_def split: option.splits)

lemma sample_code:
  obtains p where "seqR (map emit_byte code) (sample_scopes [] 0) = Inr p" "ready p" "blob_code (the (cur_blob p)) = [] @ code"
    "ps_innermost_loop_start p = int (length ([] :: byte list))"
proof -
  let ?p = "sample_scopes [] 0"
  have "cur_blob ?p = Some init_blob"
    by (simp add: cur_blob_def cur_fn_def fn_of_def sample_scopes_def parser_on_def new_parser_def function_at_def sample_fn_def)
  then have r: "ready ?p" "blob_code (the (cur_blob ?p)) = []"
    by (simp_all add: ready_def blob_inv_init) (simp add: blob_code_def init_blob_def)
  from emit_bytes_emitted [OF r(1), of code] obtain b where
    b: "seqR (map emit_byte code) ?p = Inr (with_blob ?p b)" "emitted ?p (with_blob ?p b) code []" by blast
  then show thesis
    using that [OF b(1) emitted_ready [OF b(2)]] emitted_blob(1) [OF b(2)] r(2)
    by (simp add: with_blob_loop) (simp add: sample_scopes_def)
qed


end
