(* ===== verification/String_Methods.thy ===== *)
theory String_Methods
  imports Bytes_Methods Printing Strtod
begin

text \<open>
  \<open>bstring.c\<close>: the native methods of strings, one definition per \<open>DECLARE_STRING_METHOD\<close>. The block of a
  string has its characters and a terminating zero; functions of the C library see the characters
  before the first zero (\<open>c_string\<close>). The methods \<open>match\<close> and \<open>replace\<close> have the PCRE2 library as a
  parameter; \<open>matches\<close> is not modelled.
\<close>

section \<open>Access\<close>

definition string_obj :: "hstate \<Rightarrow> addr \<Rightarrow> b_obj_string res" where
  "string_obj hs a = (case hs_heap hs a of Some (OString s) \<Rightarrow> Inr s | _ \<Rightarrow> Inl NullPointer)"

definition arg_string :: "hstate \<Rightarrow> b_value list \<Rightarrow> nat \<Rightarrow> b_obj_string res" where
  "arg_string hs args i = string_obj hs (AS_OBJ (args ! i))"

definition IS_CHAR :: "heap \<Rightarrow> b_value \<Rightarrow> bool" where
  "IS_CHAR hp v =
     (IS_STRING hp v \<and> (case string_at hp (AS_OBJ v) of Some s \<Rightarrow> s_length s = 1 \<or> s_length s = 0 | None \<Rightarrow> False))"

text \<open>The block that holds the characters.\<close>

definition block :: "b_obj_string \<Rightarrow> byte list" where
  "block s = s_chars s @ [0]"

definition first_char :: "b_obj_string \<Rightarrow> byte" where
  "first_char s = hd (block s)"

text \<open>\<open>copy_string(chars + start, stop - start)\<close>; a negative length is a huge size.\<close>

definition copy_part :: "hstate \<Rightarrow> b_obj_string \<Rightarrow> int \<Rightarrow> int \<Rightarrow> (hstate \<times> addr) res" where
  "copy_part hs s start stop =
     (if start < 0 \<or> stop < start \<or> int (length (block s)) < stop then Inl OutOfBounds
      else copy_string hs (take (nat (stop - start)) (drop (nat start) (block s))))"

definition ret_obj :: "(hstate \<times> addr) res \<Rightarrow> (hstate \<times> b_value) res" where
  "ret_obj r = bindR r (\<lambda>(hs, a). Inr (hs, OBJ_VAL a))"

text \<open>The number of characters, by the encoding of the string.\<close>

definition char_count :: "b_obj_string \<Rightarrow> nat" where
  "char_count s = (if s_is_ascii s then s_length s else s_utf8_length s)"

definition char_slice :: "b_obj_string \<Rightarrow> nat \<Rightarrow> int \<times> int" where
  "char_slice s i =
     (if s_is_ascii s then (int i, int i + 1) else utf8slice (c_string (s_chars s)) (int i) (int i + 1))"

section \<open>Simple methods\<close>

definition string_length :: "hstate \<Rightarrow> addr \<Rightarrow> b_value list \<Rightarrow> (hstate \<times> b_value) res" where
  "string_length hs self args =
     ENFORCE_ARG_COUNT ''length'' 0 args
       (bindR (string_obj hs self) (\<lambda>s. Inr (hs, number_val (int (char_count s)))))"

definition toupper :: "byte \<Rightarrow> byte" where "toupper c = (if islower c then c - 32 else c)"
definition tolower :: "byte \<Rightarrow> byte" where "tolower c = (if isupper c then c + 32 else c)"

text \<open>
  The copy made by \<open>strdup\<close> ends at the first zero, but \<open>copy_string\<close> gets the length of the whole
  string.
\<close>

definition map_chars :: "(byte \<Rightarrow> byte) \<Rightarrow> hstate \<Rightarrow> b_obj_string \<Rightarrow> (hstate \<times> addr) res" where
  "map_chars f hs s =
     (let dup = map f (c_string (s_chars s)) @ [0]
      in if length dup < s_length s then Inl OutOfBounds else copy_string hs (take (s_length s) dup))"

definition string_upper :: "hstate \<Rightarrow> addr \<Rightarrow> b_value list \<Rightarrow> (hstate \<times> b_value) res" where
  "string_upper hs self args =
     ENFORCE_ARG_COUNT ''upper'' 0 args (bindR (string_obj hs self) (\<lambda>s. ret_obj (map_chars toupper hs s)))"

definition string_lower :: "hstate \<Rightarrow> addr \<Rightarrow> b_value list \<Rightarrow> (hstate \<times> b_value) res" where
  "string_lower hs self args =
     ENFORCE_ARG_COUNT ''lower'' 0 args (bindR (string_obj hs self) (\<lambda>s. ret_obj (map_chars tolower hs s)))"

definition string_test :: "string \<Rightarrow> (byte \<Rightarrow> bool) \<Rightarrow> hstate \<Rightarrow> addr \<Rightarrow> b_value list \<Rightarrow> (hstate \<times> b_value) res" where
  "string_test name P hs self args =
     ENFORCE_ARG_COUNT name 0 args
       (bindR (string_obj hs self) (\<lambda>s. Inr (hs, BOOL_VAL (list_all P (s_chars s) \<and> s_length s \<noteq> 0))))"

definition string_is_alpha where "string_is_alpha = string_test ''is_alpha'' isalpha"
definition string_is_alnum where "string_is_alnum = string_test ''is_alnum'' isalnum"
definition string_is_number where "string_is_number = string_test ''is_number'' isdigit"
definition string_is_space where "string_is_space = string_test ''is_space'' isspace"

text \<open>\<open>has_alpha\<close> is read before it is set, in the first round of the loop.\<close>

fun case_loop :: "(byte \<Rightarrow> bool) \<Rightarrow> byte list \<Rightarrow> bool option \<Rightarrow> (bool \<times> bool option) res" where
  "case_loop P [] has_alpha = Inr (True, has_alpha)"
| "case_loop P (c # cs) has_alpha =
     (case has_alpha of
        None \<Rightarrow> Inl Uninitialised
      | Some h \<Rightarrow>
          if isalpha c \<and> \<not> P c then Inr (False, Some (h \<or> isalpha c)) else case_loop P cs (Some (h \<or> isalpha c)))"

definition string_case :: "string \<Rightarrow> (byte \<Rightarrow> bool) \<Rightarrow> hstate \<Rightarrow> addr \<Rightarrow> b_value list \<Rightarrow> (hstate \<times> b_value) res" where
  "string_case name P hs self args =
     ENFORCE_ARG_COUNT name 0 args
       (bindR (string_obj hs self) (\<lambda>s.
        bindR (case_loop P (s_chars s) None) (\<lambda>(same, has_alpha).
          if \<not> same then Inr (hs, FALSE_VAL)
          else if s_length s = 0 then Inr (hs, BOOL_VAL False)
          else case has_alpha of None \<Rightarrow> Inl Uninitialised | Some h \<Rightarrow> Inr (hs, BOOL_VAL h))))"

definition string_is_lower where "string_is_lower = string_case ''is_lower'' islower"
definition string_is_upper where "string_is_upper = string_case ''is_upper'' isupper"

section \<open>Trimming\<close>

text \<open>
  The methods work on the block of the string itself: \<open>start\<close> moves over the leading characters, \<open>end\<close>
  back over the trailing ones but not before \<open>start\<close>, and a zero is written behind \<open>end\<close>.
\<close>

definition trims :: "byte \<Rightarrow> byte \<Rightarrow> bool" where
  "trims trimmer c = (if trimmer = 0 then isspace c else trimmer = c)"

definition trimmer_of :: "hstate \<Rightarrow> b_value list \<Rightarrow> byte res" where
  "trimmer_of hs args = (if length args = 1 then bindR (arg_string hs args 0) (\<lambda>s. Inr (first_char s)) else Inr 0)"

definition trim_start :: "byte \<Rightarrow> b_obj_string \<Rightarrow> nat" where
  "trim_start trimmer s = length (takeWhile (\<lambda>c. c \<noteq> 0 \<and> trims trimmer c) (s_chars s))"

text \<open>The length that stays, from a start that is not the end of the text.\<close>

definition trim_keep :: "byte \<Rightarrow> byte list \<Rightarrow> nat" where
  "trim_keep trimmer rest = max 1 (length (dropWhile (trims trimmer) (rev rest)))"

text \<open>A zero at a position of the block; behind the characters it is there already.\<close>

definition cut_at :: "hstate \<Rightarrow> addr \<Rightarrow> b_obj_string \<Rightarrow> nat \<Rightarrow> hstate" where
  "cut_at hs self s i = put_obj hs self (OString (s\<lparr>s_chars := (s_chars s)[i := 0]\<rparr>))"

definition trim_from :: "hstate \<Rightarrow> addr \<Rightarrow> b_obj_string \<Rightarrow> nat \<Rightarrow> (byte list \<Rightarrow> nat) \<Rightarrow> (hstate \<times> b_value) res" where
  "trim_from hs self s start keep =
     (let rest = c_string (drop start (s_chars s))
      in if rest = [] then ret_obj (copy_string hs [])
         else ret_obj (copy_string (cut_at hs self s (start + keep rest)) (take (keep rest) rest)))"

definition string_trim :: "hstate \<Rightarrow> addr \<Rightarrow> b_value list \<Rightarrow> (hstate \<times> b_value) res" where
  "string_trim hs self args =
     ENFORCE_ARG_RANGE ''trim'' 0 1 args
       ((if length args = 1 then ENFORCE_ARG_TYPE ''trim'' 0 ''char'' (IS_CHAR (hs_heap hs)) args else id)
         (bindR (trimmer_of hs args) (\<lambda>trimmer. bindR (string_obj hs self) (\<lambda>s.
            trim_from hs self s (trim_start trimmer s) (trim_keep trimmer)))))"

definition string_ltrim :: "hstate \<Rightarrow> addr \<Rightarrow> b_value list \<Rightarrow> (hstate \<times> b_value) res" where
  "string_ltrim hs self args =
     ENFORCE_ARG_RANGE ''ltrim'' 0 1 args
       ((if length args = 1 then ENFORCE_ARG_TYPE ''ltrim'' 0 ''char'' (IS_CHAR (hs_heap hs)) args else id)
         (bindR (trimmer_of hs args) (\<lambda>trimmer. bindR (string_obj hs self) (\<lambda>s.
            trim_from hs self s (trim_start trimmer s) length))))"

definition string_rtrim :: "hstate \<Rightarrow> addr \<Rightarrow> b_value list \<Rightarrow> (hstate \<times> b_value) res" where
  "string_rtrim hs self args =
     ENFORCE_ARG_RANGE ''rtrim'' 0 1 args
       ((if length args = 1 then ENFORCE_ARG_TYPE ''rtrim'' 0 ''char'' (IS_CHAR (hs_heap hs)) args else id)
         (bindR (trimmer_of hs args) (\<lambda>trimmer. bindR (string_obj hs self) (\<lambda>s.
            trim_from hs self s 0 (trim_keep trimmer)))))"

section \<open>Joining and splitting\<close>

text \<open>Nested containers are no deeper than the number of objects, which is below the next address.\<close>

definition nesting :: "hstate \<Rightarrow> nat" where
  "nesting hs = Suc (unat (hs_next hs))"

text \<open>\<open>append_strings\<close> measures both texts with \<open>strlen\<close>.\<close>

definition join_chars :: "byte list \<Rightarrow> byte list \<Rightarrow> byte list" where
  "join_chars sep cs =
     fold (\<lambda>c result. append_strings (append_strings result (Some (c_string sep))) (Some (c_string [c])))
       (tl cs) (c_string [hd cs])"

fun join_values :: "hstate \<Rightarrow> b_obj_string \<Rightarrow> b_value list \<Rightarrow> byte list \<Rightarrow> byte list res" where
  "join_values hs sep [] result = Inr result"
| "join_values hs sep (v # vs) result =
     bindR (value_to_string (nesting hs) (hs_heap hs) v) (\<lambda>str.
       let result' = (if 0 < s_length sep then append_strings result (Some (c_string (s_chars sep))) else result)
       in join_values hs sep vs (append_strings result' (Some str)))"

definition join_items :: "hstate \<Rightarrow> b_obj_string \<Rightarrow> b_value_arr \<Rightarrow> (hstate \<times> b_value) res" where
  "join_items hs sep items =
     bindR (arr_read items) (\<lambda>vs.
       case vs of
         [] \<Rightarrow> ret_obj (copy_string hs [])
       | v # vs \<Rightarrow>
           bindR (value_to_string (nesting hs) (hs_heap hs) v) (\<lambda>first.
           bindR (join_values hs sep vs first) (\<lambda>result. ret_obj (take_string hs result))))"

definition string_join :: "hstate \<Rightarrow> addr \<Rightarrow> b_value list \<Rightarrow> (hstate \<times> b_value) res" where
  "string_join hs self args =
     ENFORCE_ARG_COUNT ''join'' 1 args (ENFORCE_ARG_TYPE ''join'' 0 ''object'' IS_OBJ args
       (bindR (string_obj hs self) (\<lambda>sep.
          case hs_heap hs (AS_OBJ (args ! 0)) of
            Some (OString s) \<Rightarrow>
              if s_length sep = 0 \<or> s_length s = 0 then Inr (hs, args ! 0)
              else ret_obj (take_string hs (join_chars (s_chars sep) (s_chars s)))
          | Some (ODict d) \<Rightarrow> join_items hs sep (d_names d)
          | Some (OList l) \<Rightarrow> join_items hs sep l
          | _ \<Rightarrow> Inl (Thrown ''join() does not support object of type %s''))))"

text \<open>
  The loop of \<open>split\<close>: \<open>i\<close> runs up to and including the length, and a match moves it behind the
  delimiter. The comparison reads no further than the first difference.
\<close>

fun split_text :: "nat \<Rightarrow> hstate \<Rightarrow> addr \<Rightarrow> b_obj_string \<Rightarrow> b_obj_string \<Rightarrow> int \<Rightarrow> int \<Rightarrow> hstate res" where
  "split_text 0 hs list s d start i = Inl Divergence"
| "split_text (Suc fuel) hs list s d start i =
     (if int (s_length s) < i then Inr hs
      else bindR (memcmp_eq (map Some (block s)) i (map Some (block d)) 0 (s_length d)) (\<lambda>same.
             if same \<or> i = int (s_length s)
             then bindR (copy_part hs s start i) (\<lambda>(hs1, p).
                  bindR (write_list hs1 list (OBJ_VAL p)) (\<lambda>hs2.
                    split_text fuel hs2 list s d (i + int (s_length d)) (i + int (s_length d))))
             else split_text fuel hs list s d start (i + 1)))"

fun write_chars :: "nat list \<Rightarrow> hstate \<Rightarrow> addr \<Rightarrow> b_obj_string \<Rightarrow> hstate res" where
  "write_chars [] hs list s = Inr hs"
| "write_chars (i # is) hs list s =
     (case char_slice s i of (start, stop) \<Rightarrow>
        bindR (copy_part hs s start stop) (\<lambda>(hs1, p).
        bindR (write_list hs1 list (OBJ_VAL p)) (\<lambda>hs2. write_chars is hs2 list s)))"

definition string_split :: "hstate \<Rightarrow> addr \<Rightarrow> b_value list \<Rightarrow> (hstate \<times> b_value) res" where
  "string_split hs self args =
     ENFORCE_ARG_COUNT ''split'' 1 args (ENFORCE_ARG_TYPE ''split'' 0 ''string'' (IS_STRING (hs_heap hs)) args
       (bindR (string_obj hs self) (\<lambda>s. bindR (arg_string hs args 0) (\<lambda>d.
          let (hs1, list) = new_list hs
          in if s_length s = 0 \<or> s_length s < s_length d then Inr (hs1, OBJ_VAL list)
             else bindR (if 0 < s_length d then split_text (s_length s + 2) hs1 list s d 0 0
                         else write_chars [0..<char_count s] hs1 list s)
                    (\<lambda>hs2. Inr (hs2, OBJ_VAL list))))))"

section \<open>Searching\<close>

fun strstr :: "byte list \<Rightarrow> byte list \<Rightarrow> nat option" where
  "strstr [] sub = (if sub = [] then Some 0 else None)"
| "strstr (c # cs) sub = (if take (length sub) (c # cs) = sub then Some 0 else map_option Suc (strstr cs sub))"

definition string_index_of :: "hstate \<Rightarrow> addr \<Rightarrow> b_value list \<Rightarrow> (hstate \<times> b_value) res" where
  "string_index_of hs self args =
     ENFORCE_ARG_COUNT ''index_of'' 1 args (ENFORCE_ARG_TYPE ''index_of'' 0 ''string'' (IS_STRING (hs_heap hs)) args
       (bindR (string_obj hs self) (\<lambda>s. bindR (arg_string hs args 0) (\<lambda>d.
          case strstr (c_string (s_chars s)) (c_string (s_chars d)) of
            Some i \<Rightarrow> Inr (hs, number_val (int i))
          | None \<Rightarrow> Inr (hs, number_val (-1))))))"

definition string_starts_with :: "hstate \<Rightarrow> addr \<Rightarrow> b_value list \<Rightarrow> (hstate \<times> b_value) res" where
  "string_starts_with hs self args =
     ENFORCE_ARG_COUNT ''starts_with'' 1 args (ENFORCE_ARG_TYPE ''starts_with'' 0 ''string'' (IS_STRING (hs_heap hs)) args
       (bindR (string_obj hs self) (\<lambda>s. bindR (arg_string hs args 0) (\<lambda>d.
          if s_length s = 0 \<or> s_length d = 0 \<or> s_length s < s_length d then Inr (hs, FALSE_VAL)
          else bindR (memcmp_eq (map Some (block d)) 0 (map Some (block s)) 0 (s_length d)) (\<lambda>r. Inr (hs, BOOL_VAL r))))))"

definition string_ends_with :: "hstate \<Rightarrow> addr \<Rightarrow> b_value list \<Rightarrow> (hstate \<times> b_value) res" where
  "string_ends_with hs self args =
     ENFORCE_ARG_COUNT ''ends_with'' 1 args (ENFORCE_ARG_TYPE ''ends_with'' 0 ''string'' (IS_STRING (hs_heap hs)) args
       (bindR (string_obj hs self) (\<lambda>s. bindR (arg_string hs args 0) (\<lambda>d.
          if s_length s = 0 \<or> s_length d = 0 \<or> s_length s < s_length d then Inr (hs, FALSE_VAL)
          else bindR (memcmp_eq (map Some (block d)) 0 (map Some (block s)) (int (s_length s) - int (s_length d)) (s_length d))
                 (\<lambda>r. Inr (hs, BOOL_VAL r))))))"

text \<open>
  \<open>count\<close> searches again one character behind each match. A delimiter that starts with a zero matches at
  the end of the text too, and the search goes on behind the block.
\<close>

function count_loop :: "byte list \<Rightarrow> byte list \<Rightarrow> nat \<Rightarrow> int \<Rightarrow> int res" where
  "count_loop chars sub p n =
     (if length chars < p then Inl OutOfBounds
      else case strstr (c_string (drop p chars)) sub of
             None \<Rightarrow> Inr n
           | Some k \<Rightarrow> count_loop chars sub (p + k + 1) (n + 1))"
  by pat_completeness auto
termination by (relation "measure (\<lambda>(chars, sub, p, n). Suc (length chars) - p)") auto

definition string_count :: "hstate \<Rightarrow> addr \<Rightarrow> b_value list \<Rightarrow> (hstate \<times> b_value) res" where
  "string_count hs self args =
     ENFORCE_ARG_COUNT ''count'' 1 args (ENFORCE_ARG_TYPE ''count'' 0 ''string'' (IS_STRING (hs_heap hs)) args
       (bindR (string_obj hs self) (\<lambda>s. bindR (arg_string hs args 0) (\<lambda>d.
          if s_length d = 0 \<or> s_length s = 0 then Inr (hs, number_val 0)
          else bindR (count_loop (s_chars s) (c_string (s_chars d)) 0 0) (\<lambda>n. Inr (hs, number_val n))))))"

section \<open>Conversion\<close>

definition byte_char :: "byte \<Rightarrow> char" where
  "byte_char b = char_of (unat b)"

definition string_to_number :: "hstate \<Rightarrow> addr \<Rightarrow> b_value list \<Rightarrow> (hstate \<times> b_value) res" where
  "string_to_number hs self args =
     ENFORCE_ARG_COUNT ''to_number'' 0 args
       (bindR (string_obj hs self) (\<lambda>s. Inr (hs, number_to_value (strtod_text (map byte_char (c_string (s_chars s)))))))"

definition string_ascii :: "hstate \<Rightarrow> addr \<Rightarrow> b_value list \<Rightarrow> (hstate \<times> b_value) res" where
  "string_ascii hs self args =
     ENFORCE_ARG_COUNT ''ascii'' 0 args
       (bindR (string_obj hs self) (\<lambda>s. Inr (put_obj hs self (OString (s\<lparr>s_is_ascii := True\<rparr>)), OBJ_VAL self)))"

definition string_to_list :: "hstate \<Rightarrow> addr \<Rightarrow> b_value list \<Rightarrow> (hstate \<times> b_value) res" where
  "string_to_list hs self args =
     ENFORCE_ARG_COUNT ''to_list'' 0 args
       (bindR (string_obj hs self) (\<lambda>s.
          let (hs1, list) = new_list hs
          in bindR (write_chars [0..<char_count s] hs1 list s) (\<lambda>hs2. Inr (hs2, OBJ_VAL list))))"

definition string_to_bytes :: "hstate \<Rightarrow> addr \<Rightarrow> b_value list \<Rightarrow> (hstate \<times> b_value) res" where
  "string_to_bytes hs self args =
     ENFORCE_ARG_COUNT ''to_bytes'' 0 args
       (bindR (string_obj hs self) (\<lambda>s. ret_obj (copy_bytes hs (map Some (block s)) 0 (int (s_length s)))))"

section \<open>Padding\<close>

text \<open>The result may be a string that was interned before; its lengths are set again.\<close>

definition pad_with :: "(byte list \<Rightarrow> byte list \<Rightarrow> byte list) \<Rightarrow> string \<Rightarrow> hstate \<Rightarrow> addr \<Rightarrow> b_value list \<Rightarrow> (hstate \<times> b_value) res" where
  "pad_with place name hs self args =
     ENFORCE_ARG_RANGE name 1 2 args (ENFORCE_ARG_TYPE name 0 ''number'' IS_NUMBER args
       (bindR (string_obj hs self) (\<lambda>s. bindR (as_int (args ! 0)) (\<lambda>width.
          (if length args = 2 then ENFORCE_ARG_TYPE name 1 ''char'' (IS_CHAR (hs_heap hs)) args else id)
            (bindR (if length args = 2 then bindR (arg_string hs args 1) (\<lambda>f. Inr (first_char f)) else Inr 32) (\<lambda>fill_char.
               if width \<le> int (s_utf8_length s) then Inr (hs, OBJ_VAL self)
               else let fill_size = width - int (s_utf8_length s);
                        final_size = int (s_length s) + fill_size
                    in if 2 ^ 31 \<le> final_size then Inl Overflow
                       else bindR (take_string hs (place (replicate (nat fill_size) fill_char) (s_chars s))) (\<lambda>(hs, a).
                            bindR (string_obj hs a) (\<lambda>result.
                              Inr (put_obj hs a (OString (result\<lparr>s_utf8_length := s_utf8_length s + nat fill_size,
                                                                s_length := nat final_size\<rparr>)), OBJ_VAL a)))))))))"

definition string_lpad where "string_lpad = pad_with (\<lambda>fill chars. fill @ chars) ''lpad''"
definition string_rpad where "string_rpad = pad_with (\<lambda>fill chars. chars @ fill) ''rpad''"

section \<open>Iteration\<close>

definition string_iter :: "hstate \<Rightarrow> addr \<Rightarrow> b_value list \<Rightarrow> (hstate \<times> b_value) res" where
  "string_iter hs self args =
     ENFORCE_ARG_COUNT ''__iter__'' 1 args (ENFORCE_ARG_TYPE ''__iter__'' 0 ''number'' IS_NUMBER args
       (bindR (string_obj hs self) (\<lambda>s. bindR (as_int (args ! 0)) (\<lambda>index.
          if -1 < index \<and> index < int (char_count s)
          then case char_slice s (nat index) of (start, stop) \<Rightarrow> ret_obj (copy_part hs s start stop)
          else Inr (hs, NIL_VAL)))))"

definition string_itern :: "hstate \<Rightarrow> addr \<Rightarrow> b_value list \<Rightarrow> (hstate \<times> b_value) res" where
  "string_itern hs self args =
     ENFORCE_ARG_COUNT ''__itern__'' 1 args
       (bindR (string_obj hs self) (\<lambda>s.
          if IS_NIL (args ! 0)
          then (if char_count s = 0 then Inr (hs, BOOL_VAL False) else Inr (hs, number_val 0))
          else if \<not> IS_NUMBER (args ! 0) then Inl (Thrown ''bytes are numerically indexed'')
          else bindR (as_int (args ! 0)) (\<lambda>index.
                 if index < int (char_count s) - 1 then Inr (hs, number_val (index + 1)) else Inr (hs, NIL_VAL))))"

section \<open>Regular expressions\<close>

text \<open>
  What the methods use of the PCRE2 library is a parameter: the bits of its options, compilation of a
  pattern (\<open>None\<close> for a pattern that is refused), matching from an offset (the return code and the
  vector of offsets), the size of an entry of the name table with the groups and names in it, and
  substitution (the return code and the length or the text it writes).
\<close>

datatype regex_option =
    PCRE2_CASELESS | PCRE2_MULTILINE | PCRE2_DOTALL | PCRE2_EXTENDED | PCRE2_ANCHORED | PCRE2_DOLLAR_ENDONLY
  | PCRE2_UNGREEDY | PCRE2_UTF | PCRE2_UCP | PCRE2_DUPNAMES

record regex =
  rx_bits :: "regex_option \<Rightarrow> uint32"
  rx_compile :: "byte list \<Rightarrow> uint32 \<Rightarrow> nat option"
  rx_match :: "nat \<Rightarrow> byte list \<Rightarrow> int \<times> int list"
  rx_names :: "nat \<Rightarrow> int \<times> (nat \<times> byte list) list"
  rx_substitute_length :: "nat \<Rightarrow> byte list \<Rightarrow> byte list \<Rightarrow> int \<times> nat"
  rx_substitute :: "nat \<Rightarrow> byte list \<Rightarrow> byte list \<Rightarrow> int \<times> byte list"

abbreviation (input) PCRE2_ERROR_NOMATCH :: int where "PCRE2_ERROR_NOMATCH \<equiv> -1"
abbreviation (input) PCRE2_ERROR_NOMEMORY :: int where "PCRE2_ERROR_NOMEMORY \<equiv> -48"

text \<open>The option of a modifier; \<open>None\<close> for white space, which has no effect.\<close>

definition modifier :: "regex \<Rightarrow> char \<Rightarrow> uint32 option option" where
  "modifier rx c =
     (if c = CHR ''i'' then Some (Some (rx_bits rx PCRE2_CASELESS))
      else if c = CHR ''m'' then Some (Some (rx_bits rx PCRE2_MULTILINE))
      else if c = CHR ''s'' then Some (Some (rx_bits rx PCRE2_DOTALL))
      else if c = CHR ''x'' then Some (Some (rx_bits rx PCRE2_EXTENDED))
      else if c = CHR ''A'' then Some (Some (rx_bits rx PCRE2_ANCHORED))
      else if c = CHR ''D'' then Some (Some (rx_bits rx PCRE2_DOLLAR_ENDONLY))
      else if c = CHR ''U'' then Some (Some (rx_bits rx PCRE2_UNGREEDY))
      else if c = CHR ''u'' then Some (Some (rx_bits rx PCRE2_UTF OR rx_bits rx PCRE2_UCP))
      else if c = CHR ''J'' then Some (Some (rx_bits rx PCRE2_DUPNAMES))
      else if c = CHR '' '' \<or> c = CHR 0x0A \<or> c = CHR 0x0D then Some None
      else None)"

text \<open>
  The loop over the characters behind the first, each with the one before it. The delimiter closes the
  pattern unless a backslash is before it; it may open it again.
\<close>

fun is_regex_loop :: "regex \<Rightarrow> byte \<Rightarrow> byte \<Rightarrow> byte list \<Rightarrow> bool \<Rightarrow> uint32 \<Rightarrow> uint32" where
  "is_regex_loop rx start previous_char [] match_found c_options = (if match_found then c_options else -1)"
| "is_regex_loop rx start previous_char (c # cs) match_found c_options =
     (if c = start then is_regex_loop rx start c cs (previous_char \<noteq> 92) c_options
      else if match_found
      then case modifier rx (byte_char c) of
             Some (Some bits) \<Rightarrow> is_regex_loop rx start c cs match_found (c_options OR bits)
           | Some None \<Rightarrow> is_regex_loop rx start c cs match_found c_options
           | None \<Rightarrow> scast c + 1000000
      else is_regex_loop rx start c cs match_found c_options)"

definition is_regex :: "regex \<Rightarrow> b_obj_string \<Rightarrow> uint32" where
  "is_regex rx s = is_regex_loop rx (first_char s) (first_char s) (tl (s_chars s)) False 0"

text \<open>
  The text between the first character and its last occurrence. When there is no other occurrence the
  length of the copy is minus one, a huge size.
\<close>

definition remove_regex_delimiter :: "b_obj_string \<Rightarrow> byte list res" where
  "remove_regex_delimiter s =
     (if s_chars s = [] then Inr []
      else let start = hd (s_chars s);
               i = length (s_chars s) - 1 - length (takeWhile (\<lambda>c. c \<noteq> start) (rev (tl (s_chars s))))
           in if i = 0 then Inl OutOfBounds else Inr (take (i - 1) (tl (s_chars s))))"

definition set_entry :: "hstate \<Rightarrow> addr \<Rightarrow> b_value \<Rightarrow> b_value \<Rightarrow> hstate res" where
  "set_entry hs dict key v =
     (case hs_heap hs dict of
        Some (ODict d) \<Rightarrow> bindR (dict_set_entry (hs_heap hs) d key v) (\<lambda>(d', _). Inr (put_obj hs dict (ODict d')))
      | _ \<Rightarrow> Inl NullPointer)"

text \<open>The text of a group; an unset group has offsets behind the subject.\<close>

definition group_range :: "int list \<Rightarrow> nat \<Rightarrow> (int \<times> int) res" where
  "group_range ov n = (if 2 * n + 1 < length ov then Inr (ov ! (2 * n), ov ! (2 * n + 1)) else Inl OutOfBounds)"

fun set_groups :: "nat list \<Rightarrow> hstate \<Rightarrow> addr \<Rightarrow> b_obj_string \<Rightarrow> int list \<Rightarrow> hstate res" where
  "set_groups [] hs dict s ov = Inr hs"
| "set_groups (i # is) hs dict s ov =
     bindR (group_range ov i) (\<lambda>(start, stop).
     bindR (copy_part hs s start stop) (\<lambda>(hs, a).
     bindR (set_entry hs dict (number_val (int i)) (OBJ_VAL a)) (\<lambda>hs. set_groups is hs dict s ov)))"

text \<open>
  \<open>sprintf("%*s")\<close> takes the width as a minimum: the name is filled with blanks on the left, and the value
  is the whole rest of the subject, written into a block for the text of the group. The key is then
  taken with its full length from behind the blanks.
\<close>

definition named_key :: "int \<Rightarrow> byte list \<Rightarrow> byte list res" where
  "named_key key_length name =
     (let padded = replicate (nat key_length - length name) 32 @ name @ [0];
          rest = dropWhile isspace padded
      in if key_length + 1 < int (length padded) \<or> int (length rest) < key_length then Inl OutOfBounds
         else Inr (take (nat key_length) rest))"

definition named_value :: "b_obj_string \<Rightarrow> int \<Rightarrow> int \<Rightarrow> byte list res" where
  "named_value s start stop =
     (if start < 0 \<or> stop < start \<or> int (s_length s) < start then Inl OutOfBounds
      else let rest = c_string (drop (nat start) (s_chars s));
               written = replicate (nat (stop - start) - length rest) 32 @ rest
           in if stop - start < int (length written) then Inl OutOfBounds else Inr written)"

fun set_names :: "(nat \<times> byte list) list \<Rightarrow> int \<Rightarrow> hstate \<Rightarrow> addr \<Rightarrow> b_obj_string \<Rightarrow> int list \<Rightarrow> hstate res" where
  "set_names [] key_length hs dict s ov = Inr hs"
| "set_names ((n, name) # ns) key_length hs dict s ov =
     bindR (group_range ov n) (\<lambda>(start, stop).
     bindR (named_key key_length name) (\<lambda>key. bindR (named_value s start stop) (\<lambda>val.
     bindR (take_string hs key) (\<lambda>(hs, k). bindR (take_string hs val) (\<lambda>(hs, v).
     bindR (set_entry hs dict (OBJ_VAL k) (OBJ_VAL v)) (\<lambda>hs. set_names ns key_length hs dict s ov))))))"

definition string_match :: "regex \<Rightarrow> hstate \<Rightarrow> addr \<Rightarrow> b_value list \<Rightarrow> (hstate \<times> b_value) res" where
  "string_match rx hs self args =
     ENFORCE_ARG_COUNT ''match'' 1 args (ENFORCE_ARG_TYPE ''match'' 0 ''string'' (IS_STRING (hs_heap hs)) args
       (bindR (string_obj hs self) (\<lambda>s. bindR (arg_string hs args 0) (\<lambda>d.
          if s_length s = 0 \<and> s_length d = 0 then Inr (hs, TRUE_VAL)
          else if s_length s = 0 \<or> s_length d = 0 then Inr (hs, FALSE_VAL)
          else let compile_options = is_regex rx d
               in if sint compile_options < 0
                  then Inr (hs, BOOL_VAL (strstr (c_string (s_chars s)) (c_string (s_chars d)) \<noteq> None))
                  else bindR (remove_regex_delimiter d) (\<lambda>pattern.
                         case rx_compile rx (c_string pattern) compile_options of
                           None \<Rightarrow> Inl (Thrown ''regular expression compilation failed at offset %d: %s'')
                         | Some re \<Rightarrow>
                             (case rx_match rx re (s_chars s) of (rc, ov) \<Rightarrow>
                                if rc = PCRE2_ERROR_NOMATCH then Inr (hs, FALSE_VAL)
                                else if rc < 0 then Inl (Thrown ''RegexError: (%d) %s'')
                                else let (hs, dict) = new_dict hs; (entry_size, names) = rx_names rx re
                                     in bindR (set_groups [0..<nat rc] hs dict s ov) (\<lambda>hs.
                                        bindR (set_names names (entry_size - 3) hs dict s ov) (\<lambda>hs.
                                          Inr (hs, OBJ_VAL dict)))))))))"

text \<open>
  \<open>replace\<close> does not look at the result of \<open>is_regex\<close> and passes on only the multi-line option. The second
  call of the library writes the terminating zero too and returns the length without it.
\<close>

definition string_replace :: "regex \<Rightarrow> hstate \<Rightarrow> addr \<Rightarrow> b_value list \<Rightarrow> (hstate \<times> b_value) res" where
  "string_replace rx hs self args =
     ENFORCE_ARG_COUNT ''replace'' 2 args
       (ENFORCE_ARG_TYPE ''replace'' 0 ''string'' (IS_STRING (hs_heap hs)) args
       (ENFORCE_ARG_TYPE ''replace'' 1 ''string'' (IS_STRING (hs_heap hs)) args
       (bindR (string_obj hs self) (\<lambda>s. bindR (arg_string hs args 0) (\<lambda>d. bindR (arg_string hs args 1) (\<lambda>r.
          if s_length s = 0 \<and> s_length d = 0 then Inr (hs, TRUE_VAL)
          else if s_length s = 0 \<or> s_length d = 0 then Inr (hs, FALSE_VAL)
          else bindR (remove_regex_delimiter d) (\<lambda>pattern.
                 case rx_compile rx (c_string pattern) (is_regex rx d AND rx_bits rx PCRE2_MULTILINE) of
                   None \<Rightarrow> Inl (Thrown ''regular expression compilation failed at offset %d: %s'')
                 | Some re \<Rightarrow>
                     (case rx_substitute_length rx re (c_string (s_chars s)) (c_string (s_chars r)) of (rc, _) \<Rightarrow>
                        if rc < 0 \<and> rc \<noteq> PCRE2_ERROR_NOMEMORY then Inl (Thrown ''RegexError: (%d) %s'')
                        else case rx_substitute rx re (c_string (s_chars s)) (c_string (s_chars r)) of (rc, text) \<Rightarrow>
                               if rc < 0 \<and> rc \<noteq> PCRE2_ERROR_NOMEMORY then Inl (Thrown ''RegexError: (%d) %s'')
                               else ret_obj (take_string hs text)))))))))"

end
