(* ===== verification/Native_Functions.thy ===== *)
theory Native_Functions
  imports VM_Call String_Methods Iteration
begin

text \<open>
  \<open>native.c\<close>: the builtin functions, one definition per \<open>DECLARE_NATIVE\<close>. A function that only needs its
  arguments and the heap has the type of the native methods; \<open>as_native\<close> puts it on the machine: the
  arguments are on the stack, the result goes into the slot below them, and an error is thrown after the
  arguments are popped. Functions that look for a method of their argument work on the machine
  (\<open>METHOD_OVERRIDE\<close>). \<open>time\<close>, \<open>microtime\<close>, \<open>rand\<close> and \<open>id\<close> depend on the clock, the random numbers and the
  addresses of the process and are not modelled.
\<close>

section \<open>Calling convention\<close>

definition native_args :: "b_vm \<Rightarrow> nat \<Rightarrow> b_value list" where
  "native_args vm arg_count = drop (length (vm_stack vm) - arg_count) (vm_stack vm)"

text \<open>\<open>args[-1] = v\<close>; after an error the slot may be above the top of the stack, where nothing reads it.\<close>

definition set_result :: "nat \<Rightarrow> b_value \<Rightarrow> b_vm \<Rightarrow> b_vm" where
  "set_result slot v vm = vm\<lparr>vm_stack := (vm_stack vm)[slot := v]\<rparr>"

definition RETURN_ERROR :: "b_vm \<Rightarrow> nat \<Rightarrow> string \<Rightarrow> (b_vm \<times> bool) res" where
  "RETURN_ERROR vm arg_count message =
     bindR (pop_n vm arg_count) (\<lambda>vm'.
     bindR (do_throw_exception vm' message) (\<lambda>(vm', _).
       Inr (set_result (length (vm_stack vm) - arg_count - 1) FALSE_VAL vm', False)))"

definition as_native :: "(hstate \<Rightarrow> b_value list \<Rightarrow> (hstate \<times> b_value) res) \<Rightarrow> b_vm \<Rightarrow> nat \<Rightarrow> (b_vm \<times> bool) res" where
  "as_native f vm arg_count =
     (if length (vm_stack vm) \<le> arg_count then Inl OutOfBounds
      else case f (vm_hs vm) (native_args vm arg_count) of
             Inr (hs, v) \<Rightarrow> Inr (set_result (length (vm_stack vm) - arg_count - 1) v (vm_with vm hs), True)
           | Inl (Thrown message) \<Rightarrow> RETURN_ERROR vm arg_count message
           | Inl e \<Rightarrow> Inl e)"

text \<open>A method has its object in the slot below the arguments.\<close>

definition as_method :: "(hstate \<Rightarrow> addr \<Rightarrow> b_value list \<Rightarrow> (hstate \<times> b_value) res) \<Rightarrow> b_vm \<Rightarrow> nat \<Rightarrow> (b_vm \<times> bool) res" where
  "as_method f vm arg_count =
     bindR (peek vm arg_count) (\<lambda>object. as_native (\<lambda>hs. f hs (AS_OBJ object)) vm arg_count)"

abbreviation IS_INSTANCE :: "heap \<Rightarrow> b_value \<Rightarrow> bool" where "IS_INSTANCE hp v \<equiv> is_obj_type hp v OBJ_INSTANCE"
abbreviation IS_CLASS :: "heap \<Rightarrow> b_value \<Rightarrow> bool" where "IS_CLASS hp v \<equiv> is_obj_type hp v OBJ_CLASS"

text \<open>
  The method \<open>@override\<close> of an instance is called with the instance as its object; the name is copied with
  a length given by hand. A missing method throws an exception, and the function goes on when no handler
  takes it.
\<close>

definition METHOD_OVERRIDE ::
    "native_fns \<Rightarrow> string \<Rightarrow> nat \<Rightarrow> (b_vm \<Rightarrow> nat \<Rightarrow> (b_vm \<times> bool) res) \<Rightarrow> b_vm \<Rightarrow> nat \<Rightarrow> (b_vm \<times> bool) res" where
  "METHOD_OVERRIDE natives override i k vm arg_count =
     (let v = native_args vm arg_count ! 0 in
      if IS_INSTANCE (vm_heap vm) v
      then bindR (instance_at (vm_heap vm) (AS_OBJ v)) (\<lambda>instance_obj.
           bindR (copy_string (vm_hs vm) (take (i + 1) (cstr (CHR 0x40 # override)))) (\<lambda>(hs, name).
           bindR (invoke_from_class natives (class_depth vm) (vm_with vm hs) (i_klass instance_obj) name 0) (\<lambda>(vm', ok).
             if ok then Inr (set_result (length (vm_stack vm) - arg_count - 1) TRUE_VAL vm', False)
             else k vm' arg_count)))
      else k vm arg_count)"

text \<open>The check of the number of arguments, before a method is looked for.\<close>

definition counted_native :: "string \<Rightarrow> nat \<Rightarrow> (b_vm \<Rightarrow> nat \<Rightarrow> (b_vm \<times> bool) res) \<Rightarrow> b_vm \<Rightarrow> nat \<Rightarrow> (b_vm \<times> bool) res" where
  "counted_native name d k vm arg_count =
     (if length (vm_stack vm) \<le> arg_count then Inl OutOfBounds
      else if arg_count \<noteq> d then RETURN_ERROR vm arg_count (name @ ''() expects %d arguments, %d given'')
      else k vm arg_count)"

definition ENFORCE_MIN_ARG :: "string \<Rightarrow> nat \<Rightarrow> b_value list \<Rightarrow> 'a res \<Rightarrow> 'a res" where
  "ENFORCE_MIN_ARG name d args k =
     (if length args < d then Inl (Thrown (name @ ''() expects minimum of %d arguments, %d given'')) else k)"

section \<open>Properties of instances\<close>

definition instance_of_arg :: "hstate \<Rightarrow> b_value list \<Rightarrow> b_obj_instance res" where
  "instance_of_arg hs args = instance_at (hs_heap hs) (AS_OBJ (args ! 0))"

definition prop_args :: "string \<Rightarrow> nat \<Rightarrow> hstate \<Rightarrow> b_value list \<Rightarrow> 'a res \<Rightarrow> 'a res" where
  "prop_args name n hs args k =
     ENFORCE_ARG_COUNT name n args
       (ENFORCE_ARG_TYPE name 0 ''instance'' (IS_INSTANCE (hs_heap hs)) args
       (ENFORCE_ARG_TYPE name 1 ''string'' (IS_STRING (hs_heap hs)) args k))"

definition native_hasprop :: "hstate \<Rightarrow> b_value list \<Rightarrow> (hstate \<times> b_value) res" where
  "native_hasprop hs args =
     prop_args ''hasprop'' 2 hs args
       (bindR (instance_of_arg hs args) (\<lambda>i.
        bindR (table_get (hs_heap hs) (i_properties i) (args ! 1)) (\<lambda>found. Inr (hs, BOOL_VAL (found \<noteq> None)))))"

definition native_getprop :: "hstate \<Rightarrow> b_value list \<Rightarrow> (hstate \<times> b_value) res" where
  "native_getprop hs args =
     prop_args ''getprop'' 2 hs args
       (bindR (instance_of_arg hs args) (\<lambda>i.
        bindR (table_get (hs_heap hs) (i_properties i) (args ! 1)) (\<lambda>found.
          case found of
            Some v \<Rightarrow> Inr (hs, v)
          | None \<Rightarrow>
              bindR (class_at (hs_heap hs) (i_klass i)) (\<lambda>k.
              bindR (table_get (hs_heap hs) (k_methods k) (args ! 1)) (\<lambda>found.
                Inr (hs, case found of Some v \<Rightarrow> v | None \<Rightarrow> NIL_VAL))))))"

definition native_setprop :: "hstate \<Rightarrow> b_value list \<Rightarrow> (hstate \<times> b_value) res" where
  "native_setprop hs args =
     prop_args ''setprop'' 3 hs args
       (bindR (instance_of_arg hs args) (\<lambda>i.
        bindR (table_set (hs_heap hs) (i_properties i) (args ! 1) (args ! 2)) (\<lambda>(t, is_new).
          Inr (put_obj hs (AS_OBJ (args ! 0)) (OInstance (i\<lparr>i_properties := t\<rparr>)), BOOL_VAL is_new))))"

definition native_delprop :: "hstate \<Rightarrow> b_value list \<Rightarrow> (hstate \<times> b_value) res" where
  "native_delprop hs args =
     prop_args ''delprop'' 2 hs args
       (bindR (instance_of_arg hs args) (\<lambda>i.
        bindR (table_delete (hs_heap hs) (i_properties i) (args ! 1)) (\<lambda>(t, found).
          Inr (put_obj hs (AS_OBJ (args ! 0)) (OInstance (i\<lparr>i_properties := t\<rparr>)), BOOL_VAL found))))"

section \<open>Numbers\<close>

text \<open>The loops check the type of an argument when they come to it.\<close>

fun fold_numbers :: "string \<Rightarrow> (double \<Rightarrow> double \<Rightarrow> double) \<Rightarrow> double \<Rightarrow> b_value list \<Rightarrow> double res" where
  "fold_numbers name f x [] = Inr x"
| "fold_numbers name f x (v # vs) =
     (if \<not> IS_NUMBER v then Inl (Thrown (name @ ''() expects argument %d as number, %s given''))
      else fold_numbers name f (f x (value_to_number v)) vs)"

definition native_max :: "hstate \<Rightarrow> b_value list \<Rightarrow> (hstate \<times> b_value) res" where
  "native_max hs args =
     ENFORCE_MIN_ARG ''max'' 2 args (ENFORCE_ARG_TYPE ''max'' 0 ''number'' IS_NUMBER args
       (bindR (fold_numbers ''max'' (\<lambda>m x. if dbl_gt x m then x else m) (value_to_number (args ! 0)) (tl args))
         (\<lambda>m. Inr (hs, number_to_value m))))"

definition native_min :: "hstate \<Rightarrow> b_value list \<Rightarrow> (hstate \<times> b_value) res" where
  "native_min hs args =
     ENFORCE_MIN_ARG ''min'' 2 args (ENFORCE_ARG_TYPE ''min'' 0 ''number'' IS_NUMBER args
       (bindR (fold_numbers ''min'' (\<lambda>m x. if dbl_lt x m then x else m) (value_to_number (args ! 0)) (tl args))
         (\<lambda>m. Inr (hs, number_to_value m))))"

definition native_sum :: "double \<Rightarrow> hstate \<Rightarrow> b_value list \<Rightarrow> (hstate \<times> b_value) res" where
  "native_sum nan hs args =
     ENFORCE_MIN_ARG ''sum'' 2 args
       (bindR (fold_numbers ''sum'' (dbl_add nan) 0 args) (\<lambda>s. Inr (hs, number_to_value s)))"

definition abs_value :: "hstate \<Rightarrow> b_value list \<Rightarrow> (hstate \<times> b_value) res" where
  "abs_value hs args =
     ENFORCE_ARG_TYPE ''abs'' 0 ''number'' IS_NUMBER args
       (let x = value_to_number (args ! 0)
        in Inr (hs, if dbl_gt x (double_of_int (-1)) then args ! 0 else number_to_value (dbl_neg x)))"

definition native_abs :: "native_fns \<Rightarrow> b_vm \<Rightarrow> nat \<Rightarrow> (b_vm \<times> bool) res" where
  "native_abs natives = counted_native ''abs'' 1 (METHOD_OVERRIDE natives ''to_abs'' 6 (as_native abs_value))"

definition int_value :: "string \<Rightarrow> hstate \<Rightarrow> b_value list \<Rightarrow> (hstate \<times> b_value) res" where
  "int_value name hs args =
     ENFORCE_ARG_TYPE name 0 ''number'' IS_NUMBER args (bindR (as_int (args ! 0)) (\<lambda>n. Inr (hs, number_val n)))"

definition native_int :: "native_fns \<Rightarrow> b_vm \<Rightarrow> nat \<Rightarrow> (b_vm \<times> bool) res" where
  "native_int natives vm arg_count =
     (if length (vm_stack vm) \<le> arg_count then Inl OutOfBounds
      else if 1 < arg_count then RETURN_ERROR vm arg_count ''int() expects between %d and %d arguments, %d given''
      else if arg_count = 0 then as_native (\<lambda>hs args. Inr (hs, number_val 0)) vm arg_count
      else METHOD_OVERRIDE natives ''to_number'' 9 (as_native (int_value ''int'')) vm arg_count)"

definition native_to_int :: "native_fns \<Rightarrow> b_vm \<Rightarrow> nat \<Rightarrow> (b_vm \<times> bool) res" where
  "native_to_int natives = counted_native ''to_int'' 1 (METHOD_OVERRIDE natives ''to_int'' 6 (as_native (int_value ''to_int'')))"

text \<open>The conversion of a double to \<open>long\<close> or \<open>long long\<close>.\<close>

definition as_long :: "b_value \<Rightarrow> int res" where
  "as_long v =
     (case dbl_trunc (value_to_number v) of
        None \<Rightarrow> Inl InvalidCast
      | Some n \<Rightarrow> if - (2 ^ 63) \<le> n \<and> n < 2 ^ 63 then Inr n else Inl InvalidCast)"

fun bin_digits :: "nat \<Rightarrow> string" where
  "bin_digits n = (if n < 2 then [if n = 1 then CHR ''1'' else CHR ''0''] else bin_digits (n div 2) @ bin_digits (n mod 2))"

fun oct_digits :: "nat \<Rightarrow> string" where
  "oct_digits n = (if n < 8 then [char_of (48 + n)] else oct_digits (n div 8) @ oct_digits (n mod 8))"

declare bin_digits.simps [simp del] oct_digits.simps [simp del]

text \<open>The terminating zero is counted in the length of the string.\<close>

definition bin_to_string :: "hstate \<Rightarrow> int \<Rightarrow> (hstate \<times> addr) res" where
  "bin_to_string hs n = copy_string hs (cstr ((if n < 0 then ''-'' else []) @ ''0b'' @ bin_digits (nat \<bar>n\<bar>)) @ [0])"

text \<open>\<open>%llo\<close> and \<open>%llx\<close> print the unsigned value.\<close>

definition number_to_oct :: "hstate \<Rightarrow> int \<Rightarrow> bool \<Rightarrow> (hstate \<times> addr) res" where
  "number_to_oct hs n numeric = copy_string hs (cstr ((if numeric then ''0c'' else []) @ oct_digits (nat (n mod 2 ^ 64))))"

definition number_to_hex :: "hstate \<Rightarrow> int \<Rightarrow> bool \<Rightarrow> (hstate \<times> addr) res" where
  "number_to_hex hs n numeric = copy_string hs (cstr ((if numeric then ''0x'' else []) @ hex_nat (nat (n mod 2 ^ 64))))"

definition digits_value_of :: "string \<Rightarrow> (hstate \<Rightarrow> int \<Rightarrow> (hstate \<times> addr) res) \<Rightarrow> hstate \<Rightarrow> b_value list \<Rightarrow> (hstate \<times> b_value) res" where
  "digits_value_of name f hs args =
     ENFORCE_ARG_TYPE name 0 ''number'' IS_NUMBER args (bindR (as_long (args ! 0)) (\<lambda>n. ret_obj (f hs n)))"

definition native_bin :: "native_fns \<Rightarrow> b_vm \<Rightarrow> nat \<Rightarrow> (b_vm \<times> bool) res" where
  "native_bin natives =
     counted_native ''bin'' 1 (METHOD_OVERRIDE natives ''to_bin'' 6 (as_native (digits_value_of ''bin'' bin_to_string)))"

definition native_oct :: "native_fns \<Rightarrow> b_vm \<Rightarrow> nat \<Rightarrow> (b_vm \<times> bool) res" where
  "native_oct natives =
     counted_native ''oct'' 1
       (METHOD_OVERRIDE natives ''to_oct'' 6 (as_native (digits_value_of ''oct'' (\<lambda>hs n. number_to_oct hs n False))))"

definition native_hex :: "native_fns \<Rightarrow> b_vm \<Rightarrow> nat \<Rightarrow> (b_vm \<times> bool) res" where
  "native_hex natives =
     counted_native ''hex'' 1
       (METHOD_OVERRIDE natives ''to_hex'' 6 (as_native (digits_value_of ''hex'' (\<lambda>hs n. number_to_hex hs n False))))"

section \<open>Conversions\<close>

definition native_to_bool :: "native_fns \<Rightarrow> b_vm \<Rightarrow> nat \<Rightarrow> (b_vm \<times> bool) res" where
  "native_to_bool natives =
     counted_native ''to_bool'' 1 (METHOD_OVERRIDE natives ''to_bool'' 7
       (as_native (\<lambda>hs args. Inr (hs, BOOL_VAL (\<not> is_false (hs_heap hs) (args ! 0))))))"

definition string_value :: "hstate \<Rightarrow> b_value list \<Rightarrow> (hstate \<times> b_value) res" where
  "string_value hs args =
     bindR (value_to_string (nesting hs) (hs_heap hs) (args ! 0)) (\<lambda>result. ret_obj (take_string hs (c_string result)))"

definition native_to_string :: "native_fns \<Rightarrow> b_vm \<Rightarrow> nat \<Rightarrow> (b_vm \<times> bool) res" where
  "native_to_string natives =
     counted_native ''to_string'' 1 (METHOD_OVERRIDE natives ''to_string'' 9 (as_native string_value))"

text \<open>
  \<open>strtol\<close> on a block: white space, a sign, the prefix of base 16 and digits are read, and the character
  that ends them. A block without such a character is read past its end.
\<close>

definition strtol_block :: "byte list \<Rightarrow> nat \<Rightarrow> int res" where
  "strtol_block t base =
     (let cs = map byte_char t;
          u = snd (take_sign (dropWhile is_space cs));
          w = (if base = 16 \<and> has_hex_prefix u then drop 2 u else u)
      in if dropWhile (is_digit_of base) w = [] then Inl OutOfBounds else Inr (strtol cs base))"

text \<open>
  The copy behind the two characters of the prefix has two bytes less than the text. With a sign the
  terminating zero is one of them, without a sign it is not.
\<close>

definition text_to_number :: "byte list \<Rightarrow> b_value res" where
  "text_to_number v =
     (let len = length v;
          neg = (take 1 v = [45]);
          start = (if neg then 1 else 0);
          stop = (if neg then 2 else 1);
          text = Inr (number_to_value (strtod_text (map byte_char v)))
      in if stop + 1 < len \<and> v ! start = 48
         then let t = take (len - 2) (drop (stop + 1) (v @ [0]));
                  convert = (\<lambda>base. bindR (strtol_block t base) (\<lambda>n.
                    let m = (if neg then - n else n)
                    in if 2 ^ 63 \<le> m then Inl Overflow else Inr (number_to_value (double_of_long m))))
              in if v ! stop = 98 then convert 2
                 else if v ! stop = 120 then convert 16
                 else if v ! stop = 99 then convert 8
                 else text
         else text)"

definition number_value :: "hstate \<Rightarrow> b_value list \<Rightarrow> (hstate \<times> b_value) res" where
  "number_value hs args =
     (let v = args ! 0
      in if IS_NUMBER v then Inr (hs, v)
         else if IS_BOOL v then Inr (hs, number_val (if AS_BOOL v then 1 else 0))
         else if IS_NIL v then Inr (hs, number_val (-1))
         else bindR (value_to_string (nesting hs) (hs_heap hs) v) (\<lambda>chars.
              bindR (text_to_number (c_string chars)) (\<lambda>n. Inr (hs, n))))"

definition native_to_number :: "native_fns \<Rightarrow> b_vm \<Rightarrow> nat \<Rightarrow> (b_vm \<times> bool) res" where
  "native_to_number natives =
     counted_native ''to_number'' 1 (METHOD_OVERRIDE natives ''to_number'' 9 (as_native number_value))"

text \<open>The pairs of a dictionary; the value of a name that is not found is indeterminate.\<close>

fun write_pairs :: "hstate \<Rightarrow> addr \<Rightarrow> b_obj_dict \<Rightarrow> b_value list \<Rightarrow> hstate res" where
  "write_pairs hs list d [] = Inr hs"
| "write_pairs hs list d (k # ks) =
     bindR (table_get (hs_heap hs) (d_items d) k) (\<lambda>found.
       case found of
         None \<Rightarrow> Inl Uninitialised
       | Some v \<Rightarrow>
           bindR (new_list_of hs [k, v]) (\<lambda>(hs1, p).
           bindR (write_list hs1 list (OBJ_VAL p)) (\<lambda>hs2. write_pairs hs2 list d ks)))"

fun write_values :: "hstate \<Rightarrow> addr \<Rightarrow> b_value list \<Rightarrow> hstate res" where
  "write_values hs list [] = Inr hs"
| "write_values hs list (v # vs) = bindR (write_list hs list v) (\<lambda>hs. write_values hs list vs)"

text \<open>The numbers from the lower bound towards the upper one, which is left out.\<close>

definition range_numbers :: "b_obj_range \<Rightarrow> int list" where
  "range_numbers r =
     (if r_lower r < r_upper r then [r_lower r..r_upper r - 1] else rev [r_upper r + 1..r_lower r])"

definition list_value :: "hstate \<Rightarrow> b_value list \<Rightarrow> (hstate \<times> b_value) res" where
  "list_value hs args =
     (let v = args ! 0
      in if IS_LIST (hs_heap hs) v then Inr (hs, v)
         else let (hs1, list) = new_list hs
              in bindR (if IS_OBJ v
                        then case hs_heap hs (AS_OBJ v) of
                               Some (ODict d) \<Rightarrow> bindR (arr_read (d_names d)) (write_pairs hs1 list d)
                             | Some (OString s) \<Rightarrow> write_chars [0..<s_utf8_length s] hs1 list (s\<lparr>s_is_ascii := False\<rparr>)
                             | Some (ORange r) \<Rightarrow> write_values hs1 list (map number_val (range_numbers r))
                             | _ \<Rightarrow> write_list hs1 list v
                        else write_list hs1 list v)
                   (\<lambda>hs2. Inr (hs2, OBJ_VAL list)))"

text \<open>The length of the name is given as zero: the method that is looked for is called \<open>@\<close>.\<close>

definition native_to_list :: "native_fns \<Rightarrow> b_vm \<Rightarrow> nat \<Rightarrow> (b_vm \<times> bool) res" where
  "native_to_list natives = counted_native ''to_list'' 1 (METHOD_OVERRIDE natives ''to_list'' 0 (as_native list_value))"

definition dict_of_value :: "hstate \<Rightarrow> b_value list \<Rightarrow> (hstate \<times> b_value) res" where
  "dict_of_value hs args =
     (if IS_DICT (hs_heap hs) (args ! 0) then Inr (hs, args ! 0)
      else let (hs1, dict) = new_dict hs
           in bindR (set_entry hs1 dict (number_val 0) (args ! 0)) (\<lambda>hs2. Inr (hs2, OBJ_VAL dict)))"

definition native_to_dict :: "native_fns \<Rightarrow> b_vm \<Rightarrow> nat \<Rightarrow> (b_vm \<times> bool) res" where
  "native_to_dict natives = counted_native ''to_dict'' 1 (METHOD_OVERRIDE natives ''to_dict'' 7 (as_native dict_of_value))"

definition native_chr :: "hstate \<Rightarrow> b_value list \<Rightarrow> (hstate \<times> b_value) res" where
  "native_chr hs args =
     ENFORCE_ARG_COUNT ''chr'' 1 args (ENFORCE_ARG_TYPE ''chr'' 0 ''number'' IS_NUMBER args
       (bindR (as_int (args ! 0)) (\<lambda>n. ret_obj (copy_string hs (c_string (utf8_encode (word_of_int n)))))))"

text \<open>\<open>(int) chars[0] < 1\<close> holds for the bytes from 128 on and for zero.\<close>

definition native_ord :: "hstate \<Rightarrow> b_value list \<Rightarrow> (hstate \<times> b_value) res" where
  "native_ord hs args =
     ENFORCE_ARG_COUNT ''ord'' 1 args (ENFORCE_ARG_TYPE ''ord'' 0 ''string'' (IS_STRING (hs_heap hs)) args
       (bindR (arg_string hs args 0) (\<lambda>s.
          let max_length = (if 1 < s_length s \<and> sint (first_char s) < 1 then 3 else 1)
          in if max_length < s_length s then Inl (Thrown ''ord() expects character as argument, string given'')
             else if first_char s AND 0xc0 = 0x80 then Inr (hs, number_val (-1))
             else bindR (utf8_decode (block s) (of_nat (s_length s))) (\<lambda>n. Inr (hs, number_val n)))))"

section \<open>Types\<close>

definition native_typeof :: "hstate \<Rightarrow> b_value list \<Rightarrow> (hstate \<times> b_value) res" where
  "native_typeof hs args =
     ENFORCE_ARG_COUNT ''typeof'' 1 args
       (case value_type (hs_heap hs) (args ! 0) of
          None \<Rightarrow> Inl NullPointer
        | Some t \<Rightarrow> ret_obj (copy_string hs t))"

definition type_test :: "string \<Rightarrow> (heap \<Rightarrow> b_value \<Rightarrow> bool) \<Rightarrow> hstate \<Rightarrow> b_value list \<Rightarrow> (hstate \<times> b_value) res" where
  "type_test name P hs args = ENFORCE_ARG_COUNT name 1 args (Inr (hs, BOOL_VAL (P (hs_heap hs) (args ! 0))))"

definition is_type :: "b_obj_type list \<Rightarrow> heap \<Rightarrow> b_value \<Rightarrow> bool" where
  "is_type ts hp v = list_ex (is_obj_type hp v) ts"

definition native_is_callable where
  "native_is_callable = type_test ''is_callable'' (is_type [OBJ_CLASS, OBJ_FUNCTION, OBJ_CLOSURE, OBJ_BOUND_METHOD, OBJ_NATIVE])"
definition native_is_bool where "native_is_bool = type_test ''is_bool'' (\<lambda>hp. IS_BOOL)"
definition native_is_number where "native_is_number = type_test ''is_number'' (\<lambda>hp. IS_NUMBER)"
definition native_is_string where "native_is_string = type_test ''is_string'' IS_STRING"
definition native_is_bytes where "native_is_bytes = type_test ''is_bytes'' IS_BYTES"
definition native_is_list where "native_is_list = type_test ''is_list'' IS_LIST"
definition native_is_dict where "native_is_dict = type_test ''is_dict'' IS_DICT"
definition native_is_object where "native_is_object = type_test ''is_object'' (\<lambda>hp. IS_OBJ)"
definition native_is_function where
  "native_is_function = type_test ''is_function'' (is_type [OBJ_FUNCTION, OBJ_CLOSURE, OBJ_BOUND_METHOD, OBJ_NATIVE])"
definition native_is_class where "native_is_class = type_test ''is_class'' (is_type [OBJ_CLASS])"
definition native_is_file where "native_is_file = type_test ''is_file'' IS_FILE"
definition native_is_instance where "native_is_instance = type_test ''is_instance'' (is_type [OBJ_INSTANCE])"

definition native_is_int :: "hstate \<Rightarrow> b_value list \<Rightarrow> (hstate \<times> b_value) res" where
  "native_is_int hs args =
     ENFORCE_ARG_COUNT ''is_int'' 1 args
       (if IS_NUMBER (args ! 0)
        then bindR (as_int (args ! 0)) (\<lambda>n. Inr (hs, BOOL_VAL (dbl_eq (double_of_int n) (value_to_number (args ! 0)))))
        else Inr (hs, BOOL_VAL False))"

text \<open>The second method is looked for when the first is there.\<close>

definition has_method :: "hstate \<Rightarrow> b_obj_class \<Rightarrow> string \<Rightarrow> (hstate \<times> bool) res" where
  "has_method hs k name =
     bindR (copy_string hs (cstr name)) (\<lambda>(hs, a).
     bindR (table_get (hs_heap hs) (k_methods k) (OBJ_VAL a)) (\<lambda>found. Inr (hs, found \<noteq> None)))"

definition native_is_iterable :: "hstate \<Rightarrow> b_value list \<Rightarrow> (hstate \<times> b_value) res" where
  "native_is_iterable hs args =
     ENFORCE_ARG_COUNT ''is_iterable'' 1 args
       (if is_type [OBJ_LIST, OBJ_DICT, OBJ_STRING, OBJ_BYTES] (hs_heap hs) (args ! 0) then Inr (hs, BOOL_VAL True)
        else if IS_INSTANCE (hs_heap hs) (args ! 0)
        then bindR (instance_of_arg hs args) (\<lambda>i. bindR (class_at (hs_heap hs) (i_klass i)) (\<lambda>k.
             bindR (has_method hs k (CHR 0x40 # ''iter'')) (\<lambda>(hs, first).
               if first then bindR (has_method hs k (CHR 0x40 # ''itern'')) (\<lambda>(hs, second). Inr (hs, BOOL_VAL second))
               else Inr (hs, BOOL_VAL False))))
        else Inr (hs, BOOL_VAL False))"

definition native_instance_of :: "hstate \<Rightarrow> b_value list \<Rightarrow> (hstate \<times> b_value) res" where
  "native_instance_of hs args =
     ENFORCE_ARG_COUNT ''instance_of'' 2 args
       (ENFORCE_ARG_TYPE ''instance_of'' 0 ''instance'' (IS_INSTANCE (hs_heap hs)) args
       (ENFORCE_ARG_TYPE ''instance_of'' 1 ''class'' (IS_CLASS (hs_heap hs)) args
       (bindR (instance_of_arg hs args) (\<lambda>i.
        bindR (class_at (hs_heap hs) (AS_OBJ (args ! 1))) (\<lambda>k. bindR (c_name (hs_heap hs) (k_name k)) (\<lambda>name.
        bindR (is_instance_of (nesting hs) (hs_heap hs) (Some (i_klass i)) name) (\<lambda>r. Inr (hs, BOOL_VAL r))))))))"

section \<open>Printing\<close>

fun print_args :: "b_vm \<Rightarrow> b_value list \<Rightarrow> byte list res" where
  "print_args vm [] = Inr []"
| "print_args vm (v # vs) =
     bindR (print_value (class_depth vm) (vm_heap vm) False v) (\<lambda>chars.
     bindR (print_args vm vs) (\<lambda>rest. Inr (chars @ (if vs = [] then [] else [32]) @ rest)))"

definition native_print :: "b_vm \<Rightarrow> nat \<Rightarrow> (b_vm \<times> bool) res" where
  "native_print vm arg_count =
     (if length (vm_stack vm) \<le> arg_count then Inl OutOfBounds
      else bindR (print_args vm (native_args vm arg_count)) (\<lambda>chars.
        let out = vm_out vm @ chars @ (if vm_is_repl vm then [10] else [])
        in Inr (set_result (length (vm_stack vm) - arg_count - 1) EMPTY_VAL (vm\<lparr>vm_out := out\<rparr>), True)))"

end
