(* ===== verification/Base64.thy ===== *)
theory Base64
  imports Native_Functions Bytes_Methods VM_Index
begin

text \<open>
  \<open>standard/base64.c\<close>: the native module \<open>_base64\<close>. The encoder works on the bytes of a byte array, the
  decoder on the characters of a string, whose block has a terminating zero. \<open>malloc\<close> is taken to succeed.
\<close>

definition base64_encoding_table :: string where
  "base64_encoding_table =
     ''ABCDEFGHIJKLMNOPQRSTUVWXYZabcdefghijklmnopqrstuvwxyz0123456789+/''"

definition base64_decoding_table :: "byte list" where
  "base64_decoding_table =
     [0x00, 0x00, 0x00, 0x00, 0x00, 0x00, 0x00, 0x00, 0x00, 0x00, 0x00, 0x00, 0x00, 0x00, 0x00, 0x00,
      0x00, 0x00, 0x00, 0x00, 0x00, 0x00, 0x00, 0x00, 0x00, 0x00, 0x00, 0x00, 0x00, 0x00, 0x00, 0x00,
      0x00, 0x00, 0x00, 0x00, 0x00, 0x00, 0x00, 0x00, 0x00, 0x00, 0x00, 0x3e, 0x00, 0x00, 0x00, 0x3f,
      0x34, 0x35, 0x36, 0x37, 0x38, 0x39, 0x3a, 0x3b, 0x3c, 0x3d, 0x00, 0x00, 0x00, 0x00, 0x00, 0x00,
      0x00, 0x00, 0x01, 0x02, 0x03, 0x04, 0x05, 0x06, 0x07, 0x08, 0x09, 0x0a, 0x0b, 0x0c, 0x0d, 0x0e,
      0x0f, 0x10, 0x11, 0x12, 0x13, 0x14, 0x15, 0x16, 0x17, 0x18, 0x19, 0x00, 0x00, 0x00, 0x00, 0x00,
      0x00, 0x1a, 0x1b, 0x1c, 0x1d, 0x1e, 0x1f, 0x20, 0x21, 0x22, 0x23, 0x24, 0x25, 0x26, 0x27, 0x28,
      0x29, 0x2a, 0x2b, 0x2c, 0x2d, 0x2e, 0x2f, 0x30, 0x31, 0x32, 0x33, 0x00, 0x00, 0x00, 0x00, 0x00,
      0x00, 0x00, 0x00, 0x00, 0x00, 0x00, 0x00, 0x00, 0x00, 0x00, 0x00, 0x00, 0x00, 0x00, 0x00, 0x00,
      0x00, 0x00, 0x00, 0x00, 0x00, 0x00, 0x00, 0x00, 0x00, 0x00, 0x00, 0x00, 0x00, 0x00, 0x00, 0x00,
      0x00, 0x00, 0x00, 0x00, 0x00, 0x00, 0x00, 0x00, 0x00, 0x00, 0x00, 0x00, 0x00, 0x00, 0x00, 0x00,
      0x00, 0x00, 0x00, 0x00, 0x00, 0x00, 0x00, 0x00, 0x00, 0x00, 0x00, 0x00, 0x00, 0x00, 0x00, 0x00,
      0x00, 0x00, 0x00, 0x00, 0x00, 0x00, 0x00, 0x00, 0x00, 0x00, 0x00, 0x00, 0x00, 0x00, 0x00, 0x00,
      0x00, 0x00, 0x00, 0x00, 0x00, 0x00, 0x00, 0x00, 0x00, 0x00, 0x00, 0x00, 0x00, 0x00, 0x00, 0x00,
      0x00, 0x00, 0x00, 0x00, 0x00, 0x00, 0x00, 0x00, 0x00, 0x00, 0x00, 0x00, 0x00, 0x00, 0x00, 0x00,
      0x00, 0x00, 0x00, 0x00, 0x00, 0x00, 0x00, 0x00, 0x00, 0x00, 0x00, 0x00, 0x00, 0x00, 0x00, 0x00]"

section \<open>Encoding\<close>

definition encode_char :: "uint32 \<Rightarrow> nat \<Rightarrow> byte" where
  "encode_char triple k = of_char (base64_encoding_table ! unat (drop_bit (k * 6) triple AND 0x3F))"

definition encode_triple :: "byte \<Rightarrow> byte \<Rightarrow> byte \<Rightarrow> byte list" where
  "encode_triple octet_a octet_b octet_c =
     (let triple = push_bit 0x10 (ucast octet_a) + push_bit 0x08 (ucast octet_b) + ucast octet_c :: uint32
      in [encode_char triple 3, encode_char triple 2, encode_char triple 1, encode_char triple 0])"

text \<open>The loop takes three bytes at a time, with zeros behind the end.\<close>

fun encode_triples :: "byte list \<Rightarrow> byte list" where
  "encode_triples [] = []"
| "encode_triples [a] = encode_triple a 0 0"
| "encode_triples [a, b] = encode_triple a b 0"
| "encode_triples (a # b # c # bs) = encode_triple a b c @ encode_triples bs"

definition base64_encode :: "byte list \<Rightarrow> byte list res" where
  "base64_encode bs =
     (let input_length = length bs;
          padding = [0, 2, 1] ! (input_length mod 3)
      in bindR (c_int (int input_length + 2)) (\<lambda>_.
         bindR (c_int (4 * ((int input_length + 2) div 3))) (\<lambda>output_length.
           Inr (take (nat output_length - padding) (encode_triples bs) @ replicate padding (of_char (CHR ''=''))))))"

section \<open>Decoding\<close>

text \<open>A character from 128 on is a negative index.\<close>

definition sextet :: "byte \<Rightarrow> uint32 res" where
  "sextet c =
     (if c = of_char (CHR ''='') then Inr 0
      else if sint c < 0 then Inl OutOfBounds
      else Inr (ucast (base64_decoding_table ! unat c)))"

definition decode_bytes :: "uint32 \<Rightarrow> byte list" where
  "decode_bytes triple =
     [ucast (drop_bit 16 triple AND 0xFF), ucast (drop_bit 8 triple AND 0xFF), ucast (drop_bit 0 triple AND 0xFF)]"

fun decode_quads :: "byte list \<Rightarrow> byte list res" where
  "decode_quads (a # b # c # d # cs) =
     bindR (sextet a) (\<lambda>sextet_a. bindR (sextet b) (\<lambda>sextet_b.
     bindR (sextet c) (\<lambda>sextet_c. bindR (sextet d) (\<lambda>sextet_d.
     bindR (decode_quads cs) (\<lambda>rest.
       Inr (decode_bytes (push_bit 18 sextet_a + push_bit 12 sextet_b + push_bit 6 sextet_c + push_bit 0 sextet_d) @ rest))))))"
| "decode_quads _ = Inr []"

text \<open>\<open>None\<close> for \<open>NULL\<close>. The last two characters are read before the length is known to be positive.\<close>

definition base64_decode :: "byte list \<Rightarrow> byte list option res" where
  "base64_decode cs =
     (let n = length cs; equals = of_char (CHR ''='')
      in if n mod 4 \<noteq> 0 then Inr None
         else if n = 0 then Inl OutOfBounds
         else let output_length =
                    n div 4 * 3 - (if cs ! (n - 1) = equals then 1 else 0) - (if cs ! (n - 2) = equals then 1 else 0)
              in bindR (decode_quads cs) (\<lambda>bs. Inr (Some (take output_length bs))))"

section \<open>The module functions\<close>

definition ENFORCE_CONSTRUCTOR_ARG_TYPE :: "string \<Rightarrow> nat \<Rightarrow> string \<Rightarrow> (b_value \<Rightarrow> bool) \<Rightarrow> b_value list \<Rightarrow> 'a res \<Rightarrow> 'a res" where
  "ENFORCE_CONSTRUCTOR_ARG_TYPE name i type P args k =
     (if P (args ! i) then k
      else Inl (Thrown (name @ ''() expects argument %d to class constructor as '' @ type @ '', %s given'')))"

definition base64__decode :: "hstate \<Rightarrow> b_value list \<Rightarrow> (hstate \<times> b_value) res" where
  "base64__decode hs args =
     ENFORCE_ARG_COUNT ''decode'' 1 args
       (ENFORCE_CONSTRUCTOR_ARG_TYPE ''decode'' 0 ''string'' (IS_STRING (hs_heap hs)) args
       (bindR (arg_string hs args 0) (\<lambda>s.
        bindR (base64_decode (s_chars s)) (\<lambda>data.
          case data of
            None \<Rightarrow> Inr (hs, NIL_VAL)
          | Some bs \<Rightarrow>
              let n = int (length bs); (hs, b) = new_bytes hs n
              in Inr (put_obj hs b (OBytes ((init_byte_arr n)\<lparr>ba_bytes := map Some bs\<rparr>)), OBJ_VAL b)))))"

definition base64__encode :: "hstate \<Rightarrow> b_value list \<Rightarrow> (hstate \<times> b_value) res" where
  "base64__encode hs args =
     ENFORCE_ARG_COUNT ''encode'' 1 args
       (ENFORCE_CONSTRUCTOR_ARG_TYPE ''encode'' 0 ''bytes'' (IS_BYTES (hs_heap hs)) args
       (bindR (bytes_at hs (AS_OBJ (args ! 0))) (\<lambda>b.
        bindR (bytes_read b) (\<lambda>bs.
        bindR (base64_encode bs) (\<lambda>data. ret_obj (take_string hs data))))))"

end
