(* ===== verification/Bytes_Correct.thy ===== *)
theory Bytes_Correct
  imports Bytes_Methods List_Correct
begin

text \<open>
  What the byte array methods do to the bytes an array stands for (\<open>bytes_contents\<close>). A byte array is
  an indexed container, so loops over it visit every byte in order; a list of byte values survives
  the way through a byte array and back; \<open>split\<close> compares behind the end of the block.
\<close>

definition bytes_inv :: "b_byte_arr \<Rightarrow> byte list \<Rightarrow> bool" where
  "bytes_inv b bs = (ba_count b = int (length bs) \<and> cells_hold (ba_bytes b) bs \<and> int (length bs) \<le> 2 ^ 31)"

definition bytes_contents :: "hstate \<Rightarrow> addr \<Rightarrow> byte list option" where
  "bytes_contents hs a =
     (case hs_heap hs a of
        Some (OBytes b) \<Rightarrow>
          (let bs = map the (take (nat (ba_count b)) (ba_bytes b)) in if bytes_inv b bs then Some bs else None)
      | _ \<Rightarrow> None)"

lemma bytes_inv_the: "bytes_inv b bs \<Longrightarrow> map the (take (nat (ba_count b)) (ba_bytes b)) = bs"
  by (simp add: bytes_inv_def cells_hold_def)

lemma bytes_contents_iff:
  "bytes_contents hs a = Some bs \<longleftrightarrow> (\<exists>b. hs_heap hs a = Some (OBytes b) \<and> bytes_inv b bs)"
proof -
  have "(\<exists>b. hs_heap hs a = Some (OBytes b) \<and> bytes_inv b bs) \<Longrightarrow> bytes_contents hs a = Some bs"
    by (auto simp: bytes_contents_def Let_def bytes_inv_the)
  moreover have "\<exists>b. hs_heap hs a = Some (OBytes b) \<and> bytes_inv b bs" if s: "bytes_contents hs a = Some bs"
  proof (cases "hs_heap hs a")
    case (Some ob)
    with s show ?thesis by (cases ob) (auto simp: bytes_contents_def Let_def split: if_splits)
  qed (use s in \<open>simp add: bytes_contents_def\<close>)
  ultimately show ?thesis by blast
qed

lemma bytes_contentsE:
  assumes "bytes_contents hs a = Some bs"
  obtains b where "hs_heap hs a = Some (OBytes b)" and "bytes_at hs a = Inr b" and "bytes_inv b bs"
  using assms that by (auto simp: bytes_contents_iff at_iffs)

lemma bytes_get_cell: "bytes_inv b bs \<Longrightarrow> i < length bs \<Longrightarrow> cell_get (ba_bytes b) (int i) = Inr (bs ! i)"
  by (auto simp: bytes_inv_def cells_hold_iff)

lemma bytes_read_correct: "bytes_inv b bs \<Longrightarrow> bytes_read b = Inr bs"
proof -
  assume b: "bytes_inv b bs"
  have "bytes_read b = Inr (map (\<lambda>i. bs ! i) [0..<length bs])"
    unfolding bytes_read_def using b
    by (simp add: bytes_inv_def [THEN iffD1, THEN conjunct1, OF b] del: cell_get_nat)
      (intro mapR_Inr, simp add: bytes_get_cell del: cell_get_nat)
  then show ?thesis by (simp add: map_nth)
qed

section \<open>Iteration\<close>

definition byte_items :: "hstate \<Rightarrow> addr \<Rightarrow> b_value list option" where
  "byte_items hs a = map_option (map byte_val) (bytes_contents hs a)"

interpretation bytes_it: indexed_iterable bytes_itern bytes_iter byte_items
proof
  fix hs a xs
  assume "byte_items hs a = Some xs"
  then obtain bs where bs: "bytes_contents hs a = Some bs" and xs: "xs = map byte_val bs"
    by (auto simp: byte_items_def)
  from bs obtain b where b: "hs_heap hs a = Some (OBytes b)" "bytes_at hs a = Inr b" "bytes_inv b bs"
    by (rule bytes_contentsE)
  then have n: "ba_count b = int (length xs)" "int (length xs) \<le> 2 ^ 31" by (auto simp: bytes_inv_def xs)
  then show "int (length xs) \<le> 2 ^ 31" by simp
  show "bytes_itern hs a [NIL_VAL] = Inr (hs, if xs = [] then BOOL_VAL False else number_val 0)"
    using b n by (simp add: bytes_itern_def enforce_defs)
  fix i assume i: "i < length xs"
  then have r: "int_range (int i)" using n by (simp add: int_range_def)
  show "bytes_itern hs a [number_val (int i)] =
        Inr (hs, if i + 1 < length xs then number_val (int (i + 1)) else NIL_VAL)"
    using b i r n number_val_tests [OF r] by (simp add: bytes_itern_def enforce_defs add.commute)
  have "cell_get (ba_bytes b) (int i) = Inr (bs ! i)"
    using b(3) i by (intro bytes_get_cell) (simp_all add: xs)
  then show "bytes_iter hs a [number_val (int i)] = Inr (hs, xs ! i)"
    using b i r n by (simp add: bytes_iter_def enforce_defs xs del: cell_get_nat)
qed

section \<open>Lists of bytes\<close>

lemma byte_int_range [simp]: "int_range (uint (c :: byte))"
proof -
  have "- (2 ^ 31) \<le> uint c" by (rule order_trans [of _ 0]) simp_all
  moreover have "uint c < 2 ^ 31" using uint_range_size [of c] by (simp add: word_size)
  ultimately show ?thesis by (simp add: int_range_def)
qed

lemma list_byte_val [simp]: "list_byte (byte_val c) = Inr c"
proof -
  have "dbl_trunc (double_of_int (uint c)) = Some (uint c)"
    by (rule dbl_trunc_of_int) (rule int_range_exact, simp)
  moreover have "uint c < 256" using uint_range_size [of c] by (simp add: word_size)
  ultimately show ?thesis
    by (simp add: list_byte_def byte_val_def byte_of_double_def value_to_number_def)
       (simp add: number_val_def number_to_value_def)
qed

lemma cells_hold_map: "cells_hold (map Some bs) bs"
  by (simp add: cells_hold_def)

lemma alloc_list_contents:
  assumes "varr_inv l" and "varr_list l = xs" and "int (length xs) \<le> 2 ^ 31"
  shows "list_contents (fst (alloc_obj hs (OList l))) (hs_next hs) = Some xs"
  using assms varr_list_length [OF assms(1)] by (auto simp: list_contents_def)

text \<open>
  A list of byte values becomes an array of exactly these bytes, and the array turns back into
  a list of the same values; neither conversion changes an existing object.
\<close>

lemma bytes_list_roundtrip:
  assumes "list_contents hs a = Some (map byte_val bs)" and "addr_ok a" and "fresh_ok hs"
    and "fresh_ok (hs\<lparr>hs_next := hs_next hs + 32\<rparr>)"
  shows "\<exists>hs1 p hs2 q. bytes_native hs [OBJ_VAL a] = Inr (hs1, OBJ_VAL p) \<and> bytes_contents hs1 p = Some bs \<and>
           only_changes {p} hs hs1 \<and> hs_heap hs p = None \<and>
           bytes_to_list hs1 p [] = Inr (hs2, OBJ_VAL q) \<and> list_contents hs2 q = Some (map byte_val bs) \<and>
           only_changes {q} hs1 hs2 \<and> hs_heap hs1 q = None"
proof -
  from assms(1) obtain l where l: "hs_heap hs a = Some (OList l)" "list_at hs a = Inr l" "varr_inv l"
    "varr_list l = map byte_val bs" "va_count l = length (map byte_val bs)"
    "int (length (map byte_val bs)) \<le> 2 ^ 31" by (rule list_contentsE)
  have "mapR list_byte (map byte_val bs) = Inr bs" by (induction bs) auto
  then have e1: "bytes_native hs [OBJ_VAL a] =
      (let (hs', p) = alloc_obj hs (OBytes \<lparr>ba_count = int (length bs), ba_bytes = map Some bs\<rparr>)
       in Inr (hs', OBJ_VAL p))"
    using l assms(2) obj_not_singleton(4) [of "OBJ_VAL a"]
    by (simp add: bytes_native_def enforce_defs IS_LIST_def is_obj_type_def AS_OBJ_OBJ_VAL)
  let ?b = "\<lparr>ba_count = int (length bs), ba_bytes = map Some bs\<rparr>"
  define hs1 where "hs1 = fst (alloc_obj hs (OBytes ?b))"
  have b: "bytes_inv ?b bs" using l(6) by (simp add: bytes_inv_def cells_hold_map)
  have at1: "hs_heap hs1 (hs_next hs) = Some (OBytes ?b)" "hs_next hs1 = hs_next hs + 32"
    by (simp_all add: hs1_def)
  from new_list_of_correct [of hs1 "map byte_val bs"] obtain m where
    m: "new_list_of hs1 (map byte_val bs) = Inr (alloc_obj hs1 (OList m))" "varr_inv m"
    "varr_list m = map byte_val bs" by blast
  define hs2 where "hs2 = fst (alloc_obj hs1 (OList m))"
  have "bytes_at hs1 (hs_next hs) = Inr ?b" using at1 by (simp add: at_iffs)
  then have "bytes_to_list hs1 (hs_next hs) [] = Inr (hs2, OBJ_VAL (hs_next hs1))"
    using m(1) bytes_read_correct [OF b]
    by (simp add: bytes_to_list_def enforce_defs hs2_def) (simp add: alloc_obj_def)
  moreover have "list_contents hs2 (hs_next hs1) = Some (map byte_val bs)"
    unfolding hs2_def by (rule alloc_list_contents [OF m(2,3)]) (use l(6) in simp)
  moreover have "bytes_native hs [OBJ_VAL a] = Inr (hs1, OBJ_VAL (hs_next hs))"
    unfolding e1 hs1_def by (simp add: alloc_obj_def)
  moreover have "bytes_contents hs1 (hs_next hs) = Some bs" using at1(1) b by (auto simp: bytes_contents_iff)
  moreover have "only_changes {hs_next hs} hs hs1" "only_changes {hs_next hs1} hs1 hs2"
    by (simp_all add: only_changes_def hs1_def hs2_def)
  moreover have "hs_heap hs (hs_next hs) = None" "hs_heap hs1 (hs_next hs1) = None"
    using assms(3,4) by (auto simp: fresh_ok_def hs1_def)
  ultimately show ?thesis by blast
qed

lemma bytes_list_roundtrip_instance:
  "\<exists>hs1 p hs2 q. bytes_native (sample_list [byte_val 7, byte_val 255]) [OBJ_VAL 16] = Inr (hs1, OBJ_VAL p) \<and>
     bytes_contents hs1 p = Some [7, 255] \<and> bytes_to_list hs1 p [] = Inr (hs2, OBJ_VAL q) \<and>
     list_contents hs2 q = Some [byte_val 7, byte_val 255]"
proof -
  let ?hs = "sample_list (map byte_val [7, 255])"
  have "list_contents ?hs 16 = Some (map byte_val [7, 255])" by (rule sample_list_contents) simp
  moreover have "addr_ok 16" "fresh_ok ?hs" "fresh_ok (?hs\<lparr>hs_next := hs_next ?hs + 32\<rparr>)"
    by (simp_all add: fresh_ok_def sample_list_def addr_ok_def val_consts)
  ultimately show ?thesis using bytes_list_roundtrip [of ?hs 16 "[7, 255]"] by auto
qed

section \<open>Extending\<close>

lemma memcpy_append:
  assumes "cells_hold dst xs" and "cells_hold src ys" and "length dst = length xs + length ys"
  shows "\<exists>cs. memcpy dst (int (length xs)) src 0 (length ys) = Inr cs \<and> cells_hold cs (xs @ ys) \<and>
           length cs = length dst"
  using assms by (auto simp: memcpy_def cells_hold_def)

text \<open>
  Extending an array appends the bytes of the other one, also when both are the same object;
  two empty arrays make it fail with \<open>out of memory\<close>.
\<close>

lemma bytes_extend_correct:
  assumes "bytes_contents hs a = Some xs" and "bytes_contents hs b = Some ys" and "addr_ok b"
    and "int (length xs + length ys) \<le> 2 ^ 31"
  shows "if xs = [] \<and> ys = [] then bytes_extend hs a [OBJ_VAL b] = Inl (Thrown ''out of memory'')
         else \<exists>hs'. bytes_extend hs a [OBJ_VAL b] = Inr (hs', OBJ_VAL a) \<and>
                bytes_contents hs' a = Some (xs @ ys) \<and> only_changes {a} hs hs'"
proof -
  from assms(1) obtain m where m: "hs_heap hs a = Some (OBytes m)" "bytes_at hs a = Inr m" "bytes_inv m xs"
    by (rule bytes_contentsE)
  from assms(2) obtain n where n: "hs_heap hs b = Some (OBytes n)" "bytes_at hs b = Inr n" "bytes_inv n ys"
    by (rule bytes_contentsE)
  let ?cs = "grow_bytes (ba_bytes m) (ba_count m + ba_count n)"
  have total: "ba_count m + ba_count n = int (length xs + length ys)"
    using m(3) n(3) by (simp add: bytes_inv_def)
  have grown: "cells_hold ?cs xs" "length ?cs = length xs + length ys"
    unfolding total grow_bytes_def using m(3) by (auto simp: bytes_inv_def intro: cells_hold_resize)
  define src where "src = (if a = b then ?cs else ba_bytes n)"
  have "cells_hold src ys"
    using grown(1) m n by (auto simp: src_def bytes_inv_def cells_hold_def split: if_splits)
  from memcpy_append [OF grown(1) this] grown(2) obtain cs where
    cs: "memcpy ?cs (int (length xs)) src 0 (length ys) = Inr cs" "cells_hold cs (xs @ ys)" by auto
  let ?hs1 = "put_obj hs a (OBytes (m\<lparr>ba_bytes := ?cs\<rparr>))"
  have at: "bytes_at ?hs1 b = Inr (n\<lparr>ba_bytes := src\<rparr>)"
    using m n by (auto simp: bytes_at_def src_def)
  let ?T = "ba_count m + ba_count n"
  have u: "bytes_extend hs a [OBJ_VAL b] =
    (if ?T = 0 then Inl (Thrown ''out of memory'')
     else bindR (bytes_at ?hs1 b) (\<lambda>src.
       bindR (memcpy ?cs (ba_count m) (ba_bytes src) 0 (nat (ba_count src)))
         (\<lambda>cs. Inr (put_obj ?hs1 a (OBytes \<lparr>ba_count = ?T, ba_bytes = cs\<rparr>), OBJ_VAL a))))"
    using m(1,2) n(1,2) assms(3)
    by (simp add: bytes_extend_def enforce_defs IS_BYTES_def is_obj_type_def AS_OBJ_OBJ_VAL Let_def)
  have c: "ba_count m = int (length xs)" "ba_count n = int (length ys)" using m(3) n(3) by (auto simp: bytes_inv_def)
  have e: "bytes_extend hs a [OBJ_VAL b] =
    (if length xs + length ys = 0 then Inl (Thrown ''out of memory'')
     else Inr (put_obj hs a (OBytes \<lparr>ba_count = int (length xs + length ys), ba_bytes = cs\<rparr>), OBJ_VAL a))"
    unfolding u at bindR_simps using cs(1)
    by (simp add: c flip: of_nat_add)
  have "bytes_contents (put_obj hs a (OBytes \<lparr>ba_count = int (length xs + length ys), ba_bytes = cs\<rparr>)) a = Some (xs @ ys)"
    using cs(2) assms(4) by (simp add: bytes_contents_iff bytes_inv_def)
  with e show ?thesis by auto
qed

definition sample_bytes :: "byte list \<Rightarrow> byte list \<Rightarrow> hstate" where
  "sample_bytes bs ds =
     \<lparr>hs_heap = [16 \<mapsto> OBytes \<lparr>ba_count = int (length bs), ba_bytes = map Some bs\<rparr>,
                 32 \<mapsto> OBytes \<lparr>ba_count = int (length ds), ba_bytes = map Some ds\<rparr>],
      hs_next = 64, hs_strings = init_table\<rparr>"

lemma sample_bytes_contents:
  assumes "int (length bs) \<le> 2 ^ 31" and "int (length ds) \<le> 2 ^ 31"
  shows "bytes_contents (sample_bytes bs ds) 16 = Some bs" "bytes_contents (sample_bytes bs ds) 32 = Some ds"
  using assms by (auto simp: bytes_contents_iff sample_bytes_def bytes_inv_def cells_hold_map)

lemma addr_ok_32: "addr_ok 32"
  by (simp add: addr_ok_def val_consts)

lemma bytes_extend_correct_instance:
  "(\<exists>hs'. bytes_extend (sample_bytes [1] [2]) 16 [OBJ_VAL 32] = Inr (hs', OBJ_VAL 16) \<and>
      bytes_contents hs' 16 = Some [1, 2]) \<and>
   bytes_extend (sample_bytes [] []) 16 [OBJ_VAL 32] = Inl (Thrown ''out of memory'')"
  using bytes_extend_correct [OF sample_bytes_contents addr_ok_32, of "[1]" "[2]"]
    bytes_extend_correct [OF sample_bytes_contents addr_ok_32, of "[]" "[]"] by auto

section \<open>Splitting\<close>

lemma memcmp_tight:
  assumes "cells_hold dc ds" and "j + n \<le> length ds" and "i \<le> length bs"
  shows "memcmp_eq (map Some bs) (int i) dc (int j) n = Inl OutOfBounds \<or>
         (\<exists>r. memcmp_eq (map Some bs) (int i) dc (int j) n = Inr r \<and> (r \<longrightarrow> i + n \<le> length bs))"
  using assms(2,3)
proof (induction n arbitrary: i j)
  case (Suc n)
  show ?case
  proof (cases "i < length bs")
    case True
    have d: "cell_get dc (int j) = Inr (ds ! j)" using assms(1) Suc.prems by (auto simp: cells_hold_iff)
    from Suc.IH [of "Suc j" "Suc i"] Suc.prems True d show ?thesis by (auto simp: add.commute)
  qed (use Suc.prems in simp)
qed auto

lemma memcmp_at_end: "0 < n \<Longrightarrow> memcmp_eq (map Some bs) (int (length bs)) dc j n = Inl OutOfBounds"
  by (cases n) simp_all

lemma next_not_back:
  assumes "m < 2 ^ 58"
  shows "(n :: addr) + of_nat (32 * Suc m) \<noteq> n"
proof
  assume "n + of_nat (32 * Suc m) = n"
  then have "(of_nat (32 * Suc m) :: addr) = 0" by (metis add_left_cancel add.right_neutral)
  then have "unat (of_nat (32 * Suc m) :: addr) = 0" by simp
  moreover have "32 * Suc m < 2 ^ LENGTH(64)" using assms by simp
  ultimately have "32 * Suc m = 0" by (simp only: unsigned_of_nat take_bit_nat_eq_self of_nat_id)
  then show False by simp
qed

lemma split_loop_tight:
  assumes b: "bytes_inv b bs" "ba_bytes b = map Some bs" and d: "bytes_inv d ds" "ds \<noteq> []"
    and "list_contents hs l = Some xs" and "hs_next hs = l + of_nat (32 * Suc (length xs))"
    and "start \<le> i" and "i \<le> length bs" and "length xs \<le> i" and "length bs - i < fuel"
  shows "split_loop fuel hs l b d (int start) (int i) = Inl OutOfBounds"
  using assms(5-)
proof (induction fuel arbitrary: hs xs start i)
  case 0
  then show ?case by simp
next
  case (Suc fuel)
  have n: "ba_count b = int (length bs)" "ba_count d = int (length ds)" "int (length bs) \<le> 2 ^ 31"
    and dc: "cells_hold (ba_bytes d) ds" using b d by (auto simp: bytes_inv_def)
  let ?m = "memcmp_eq (map Some bs) (int i) (ba_bytes d) 0 (length ds)"
  from memcmp_tight [OF dc, of 0 "length ds" i bs] Suc.prems consider
      (oob) "?m = Inl OutOfBounds"
    | (res) r where "?m = Inr r" "r \<longrightarrow> i + length ds \<le> length bs" by auto
  then show ?case
  proof cases
    case oob
    then show ?thesis using n b Suc.prems by simp
  next
    case res
    have lt: "i < length bs"
      using res memcmp_at_end [of "length ds" bs "ba_bytes d" 0] d(2) Suc.prems by (cases "i = length bs") auto
    show ?thesis
    proof (cases r)
      case False
      have "split_loop fuel hs l b d (int start) (int (i + 1)) = Inl OutOfBounds"
        using Suc.prems lt by (intro Suc.IH) auto
      then show ?thesis using res False lt n b by (simp add: add.commute)
    next
      case True
      let ?nb = "OBytes \<lparr>ba_count = int (i - start), ba_bytes = take (i - start) (drop start (map Some bs))\<rparr>"
      define hs1 where "hs1 = fst (alloc_obj hs ?nb)"
      have cp: "copy_bytes hs (map Some bs) (int start) (int i - int start) = Inr (hs1, hs_next hs)"
        using lt Suc.prems(3) by (simp add: copy_bytes_def init_byte_arr_def memcpy_def hs1_def alloc_obj_def
            Let_def flip: of_nat_diff of_nat_add)
      have ne: "l \<noteq> hs_next hs"
        unfolding Suc.prems(2) using Suc.prems(3-5) n(3) next_not_back [of "length xs" l] by auto
      have l1: "list_contents hs1 l = Some xs"
        using Suc.prems(1) ne by (simp add: list_contents_def hs1_def)
      have "int (length xs) < 2 ^ 31" using Suc.prems(5) lt n(3) by linarith
      from write_list_correct [OF l1 this, of "OBJ_VAL (hs_next hs)"] obtain hs2 where
        hs2: "write_list hs1 l (OBJ_VAL (hs_next hs)) = Inr hs2"
        "list_contents hs2 l = Some (xs @ [OBJ_VAL (hs_next hs)])" "hs_next hs2 = hs_next hs1" by blast
      have "1 \<le> length ds" using d(2) by (simp add: Suc_leI)
      then have "length (xs @ [OBJ_VAL (hs_next hs)]) \<le> i + length ds" "length bs - (i + length ds) < fuel"
        using Suc.prems(5,6) lt by auto
      then have "split_loop fuel hs2 l b d (int (i + length ds)) (int (i + length ds)) = Inl OutOfBounds"
        using Suc.prems hs2 res True by (intro Suc.IH [OF hs2(2)]) (auto simp: hs1_def algebra_simps)
      then show ?thesis using res True lt n b cp hs2(1) by simp
    qed
  qed
qed

definition bytes_tight :: "hstate \<Rightarrow> addr \<Rightarrow> bool" where
  "bytes_tight hs a = (case hs_heap hs a of Some (OBytes b) \<Rightarrow> ba_count b = int (length (ba_bytes b)) | _ \<Rightarrow> False)"

text \<open>
  Splitting an array whose block is exactly as long as its contents (as every new array is) by
  a delimiter that is neither empty nor longer always reads behind the block: the comparison for
  the position behind the last byte comes before the test for the end.
\<close>

lemma bytes_split_overrun:
  assumes "bytes_contents hs a = Some bs" and "bytes_contents hs b = Some ds" and "addr_ok b"
    and "bytes_tight hs a" and "ds \<noteq> []" and "length ds \<le> length bs"
  shows "bytes_split hs a [OBJ_VAL b] = Inl OutOfBounds"
proof -
  from assms(1) obtain m where m: "hs_heap hs a = Some (OBytes m)" "bytes_at hs a = Inr m" "bytes_inv m bs"
    by (rule bytes_contentsE)
  from assms(2) obtain n where n: "hs_heap hs b = Some (OBytes n)" "bytes_at hs b = Inr n" "bytes_inv n ds"
    by (rule bytes_contentsE)
  have c: "ba_count m = int (length bs)" "ba_count n = int (length ds)" using m(3) n(3) by (auto simp: bytes_inv_def)
  have cells: "ba_bytes m = map Some bs"
    using m assms(4) by (simp add: bytes_tight_def bytes_inv_def cells_hold_def)
  let ?l = "hs_next hs" and ?hs = "fst (new_list hs)"
  have "list_contents ?hs ?l = Some []"
    unfolding new_list_def by (rule alloc_list_contents) simp_all
  from split_loop_tight [OF m(3) cells n(3) assms(5) this, of 0 0 "nat (int (length bs) + 2)"]
  have "split_loop (nat (int (length bs) + 2)) ?hs ?l m n 0 0 = Inl OutOfBounds"
    by (simp add: new_list_def)
  moreover have "new_list hs = (?hs, ?l)" by (simp add: new_list_def alloc_obj_def)
  ultimately show ?thesis
    using m n assms(3,5,6) c
    by (auto simp: bytes_split_def enforce_defs IS_BYTES_def is_obj_type_def AS_OBJ_OBJ_VAL Let_def split: prod.splits)
qed

lemma bytes_split_overrun_instance:
  "bytes_split (sample_bytes [1, 2, 3] [2]) 16 [OBJ_VAL 32] = Inl OutOfBounds"
  by (rule bytes_split_overrun [OF sample_bytes_contents addr_ok_32])
    (simp_all add: bytes_tight_def sample_bytes_def)

end
