(* ===== verification/String_Correct.thy ===== *)
theory String_Correct
  imports String_Methods List_Correct
begin

text \<open>
  The string methods: splitting a text and joining the pieces with the same delimiter gives back the
  same string object; \<open>trim\<close> returns the trimmed text but cuts the text of the string it is called on;
  \<open>replace\<close> fails on plain text.
\<close>

section \<open>Keeping the interned strings\<close>

text \<open>Objects that are not strings do not matter for the table of interned strings.\<close>

lemma strings_inv_keep:
  assumes inv: "strings_inv hs" and same: "hs_strings hs' = hs_strings hs"
    and keep: "\<And>a s. string_at (hs_heap hs) a = Some s \<Longrightarrow> string_at (hs_heap hs') a = Some s"
  shows "strings_inv hs'"
proof -
  let ?t = "hs_strings hs"
  from inv have ok: "intern_ok (hs_heap hs) ?t" "no_tombstones ?t" "texts_once (hs_heap hs) ?t" by (auto simp: strings_inv_def)
  have key: "IS_OBJ k \<and> key_text (hs_heap hs') k = key_text (hs_heap hs) k \<and> hash_value (hs_heap hs') k = hash_value (hs_heap hs) k \<and>
      (\<exists>s. string_at (hs_heap hs') (AS_OBJ k) = Some s \<and> string_ok s)" if k: "tbl_map ?t k \<noteq> None" for k
  proof -
    obtain s where s: "IS_OBJ k" "string_at (hs_heap hs) (AS_OBJ k) = Some s" "string_ok s" using ok(1) k by (rule strings_keyE)
    from keep [OF s(2)] show ?thesis using s hash_string_key [OF s(1,2)] hash_string_key [OF s(1) keep [OF s(2)]] by (simp add: key_text_def)
  qed
  have "tbl_inv (hs_heap hs') ?t"
  proof (rule tbl_inv_hash_on)
    show "\<forall>e \<in> set (t_entries ?t). live e \<longrightarrow> hash_value (hs_heap hs) (e_key e) = hash_value (hs_heap hs') (e_key e)"
      using key live_tbl_map [of _ ?t] by auto
    show "tbl_inv (hs_heap hs) ?t" using ok(1) by (simp add: intern_ok_def)
  qed
  then have "intern_ok (hs_heap hs') ?t" using key unfolding intern_ok_iff by blast
  moreover have "texts_once (hs_heap hs') ?t" using ok(3) key unfolding texts_once_def by metis
  ultimately show ?thesis using ok(2) same by (simp add: strings_inv_def)
qed

text \<open>Addresses for a number of new objects.\<close>

fun fresh_run :: "addr set \<Rightarrow> addr \<Rightarrow> nat \<Rightarrow> bool" where
  "fresh_run D a 0 = True"
| "fresh_run D a (Suc n) = (a \<notin> D \<and> addr_ok a \<and> fresh_run (insert a D) (a + 32) n)"

lemma fresh_run_less: "fresh_run D a n \<Longrightarrow> m \<le> n \<Longrightarrow> fresh_run D a m"
proof (induction n arbitrary: D a m)
  case (Suc n)
  then show ?case by (cases m) auto
qed simp

abbreviation fresh_for :: "hstate \<Rightarrow> nat \<Rightarrow> bool" where
  "fresh_for hs n \<equiv> fresh_run (dom (hs_heap hs)) (hs_next hs) n"

lemma fresh_for_ok: "fresh_for hs (Suc n) \<Longrightarrow> fresh_ok hs"
  by (auto simp: fresh_ok_def)

lemma copy_string_dom:
  assumes "copy_string hs cs = Inr (hs', a)"
  shows "hs' = hs \<or> (dom (hs_heap hs') = insert (hs_next hs) (dom (hs_heap hs)) \<and> hs_next hs' = hs_next hs + 32)"
  using assms
  by (auto simp: copy_string_def allocate_string_def alloc_obj_def bindR_Inr_iff Let_def split: option.splits)

lemma copy_string_run:
  assumes "strings_inv hs" and "fresh_for hs (Suc n)" and "tbl_room (hs_strings hs) (Suc m)"
  shows "\<exists>hs' a. copy_string hs cs = Inr (hs', a) \<and> string_copied hs cs hs' a \<and> fresh_for hs' n \<and> tbl_room (hs_strings hs') m"
proof -
  from copy_string_result [OF assms(1) fresh_for_ok [OF assms(2)] assms(3)] obtain hs' a where
    c: "copy_string hs cs = Inr (hs', a)" "string_copied hs cs hs' a" "tbl_room (hs_strings hs') m" by blast
  have "fresh_for hs n" using fresh_run_less [OF assms(2), of n] by simp
  then have "fresh_for hs' n" using copy_string_dom [OF c(1)] assms(2) by auto
  then show ?thesis using c by blast
qed

section \<open>Pieces of a text\<close>

lemma strstr_Some:
  "strstr cs d = Some k \<Longrightarrow> take (length d) (drop k cs) = d \<and> k + length d \<le> length cs \<and> (\<forall>j < k. take (length d) (drop j cs) \<noteq> d)"
proof (induction cs arbitrary: k)
  case (Cons c cs)
  show ?case
  proof (cases "take (length d) (c # cs) = d")
    case True
    then have "length d \<le> length (c # cs)" by (metis length_take min.absorb_iff2 nat_le_linear take_all_iff)
    with True Cons.prems show ?thesis by auto
  next
    case False
    with Cons.prems obtain k' where k': "strstr cs d = Some k'" "k = Suc k'" by auto
    have "take (length d) (drop j (c # cs)) \<noteq> d" if "j < k" for j
      using that False Cons.IH [OF k'(1)] k'(2) by (cases j) auto
    with Cons.IH [OF k'(1)] k'(2) show ?thesis by auto
  qed
qed (auto split: if_splits)

lemma strstr_None: "strstr cs d = None \<Longrightarrow> j \<le> length cs \<Longrightarrow> take (length d) (drop j cs) \<noteq> d"
proof (induction cs arbitrary: j)
  case (Cons c cs)
  then show ?case by (cases j) (auto split: if_splits)
qed (auto split: if_splits)

lemma strstr_first:
  assumes "take (length d) (drop k cs) = d" and "k \<le> length cs" and "\<And>j. j < k \<Longrightarrow> take (length d) (drop j cs) \<noteq> d"
  shows "strstr cs d = Some k"
proof (cases "strstr cs d")
  case None
  then show ?thesis using strstr_None [OF None assms(2)] assms(1) by simp
next
  case (Some k')
  note s = strstr_Some [OF Some]
  have "\<not> k' < k" "\<not> k < k'" using s assms(1,3) by blast+
  then show ?thesis using Some by simp
qed

function pieces :: "byte list \<Rightarrow> byte list \<Rightarrow> byte list list" where
  "pieces d cs =
     (case strstr cs d of
        None \<Rightarrow> [cs]
      | Some k \<Rightarrow> if d = [] then [cs] else take k cs # pieces d (drop (k + length d) cs))"
  by pat_completeness auto
termination
proof (relation "measure (\<lambda>(d, cs). length cs)")
  fix d cs :: "byte list" and k
  assume "strstr cs d = Some k" "d \<noteq> []"
  then show "((d, drop (k + length d) cs), (d, cs)) \<in> measure (\<lambda>(d, cs). length cs)"
    using strstr_Some [of cs d k] by (cases cs) auto
qed simp

declare pieces.simps [simp del]

lemma pieces_not_Nil: "pieces d cs \<noteq> []"
  by (subst pieces.simps) (auto split: option.splits)

lemma join_pieces: "join_with d (pieces d cs) = cs"
proof (induction d cs rule: pieces.induct)
  case (1 d cs)
  show ?case
  proof (cases "strstr cs d")
    case (Some k)
    show ?thesis
    proof (cases "d = []")
      case False
      note s = strstr_Some [OF Some]
      obtain x xs where p: "pieces d (drop (k + length d) cs) = x # xs" using pieces_not_Nil by (meson neq_Nil_conv)
      have "cs = take k cs @ take (length d) (drop k cs) @ drop (length d) (drop k cs)" by (simp only: append_take_drop_id)
      then have "take k cs @ d @ drop (k + length d) cs = cs" using s by (simp add: add.commute)
      then show ?thesis using 1 [OF Some False] p Some False by (subst pieces.simps) simp
    qed (use Some in \<open>simp add: pieces.simps\<close>)
  qed (simp add: pieces.simps)
qed

lemma pieces_no_zero: "0 \<notin> set cs \<Longrightarrow> t \<in> set (pieces d cs) \<Longrightarrow> 0 \<notin> set t"
proof (induction d cs rule: pieces.induct)
  case (1 d cs)
  then show ?case
    by (subst (asm) (2) pieces.simps) (auto split: option.splits if_splits dest: in_set_takeD in_set_dropD)
qed

lemma memcmp_block:
  assumes "0 \<notin> set ys"
  shows "memcmp_eq (map Some (pre @ xs @ [0])) (int (length pre)) (map Some (pre' @ ys @ rest)) (int (length pre')) (length ys) =
           Inr (take (length ys) xs = ys)"
  using assms
proof (induction ys arbitrary: xs pre pre')
  case (Cons y ys)
  have b: "cell_get (map Some (pre' @ (y # ys) @ rest)) (int (length pre')) = Inr y"
    by (subst cell_get_nat) (simp_all add: nth_append)
  show ?case
  proof (cases xs)
    case Nil
    have "cell_get (map Some (pre @ xs @ [0])) (int (length pre)) = Inr 0"
      using Nil by (subst cell_get_nat) (simp_all add: nth_append)
    then show ?thesis using b Nil Cons.prems by (simp del: cell_get_nat map_append list.map)
  next
    case (Cons x xs')
    have "cell_get (map Some (pre @ xs @ [0])) (int (length pre)) = Inr x"
      using Cons by (subst cell_get_nat) (simp_all add: nth_append)
    moreover have "memcmp_eq (map Some (pre @ xs @ [0])) (int (length pre) + 1) (map Some (pre' @ (y # ys) @ rest)) (int (length pre') + 1) (length ys) =
        Inr (take (length ys) xs' = ys)"
      using Cons.IH [of "pre @ [x]" xs' "pre' @ [y]"] Cons.prems Cons by (simp add: add.commute)
    ultimately show ?thesis using b Cons by (cases "x = y") (simp_all del: cell_get_nat map_append list.map)
  qed
qed simp

section \<open>Splitting\<close>

text \<open>A list of interned strings with the given texts, and room for more.\<close>

definition text_list :: "hstate \<Rightarrow> addr \<Rightarrow> byte list list \<Rightarrow> nat \<Rightarrow> bool" where
  "text_list hs l ts n =
     (strings_inv hs \<and> fresh_for hs n \<and> tbl_room (hs_strings hs) n \<and>
      (\<exists>as. list_contents hs l = Some (map OBJ_VAL as) \<and> map (text_at hs) as = map Some ts \<and> (\<forall>a \<in> set as. addr_ok a)))"

lemma text_list_less: "text_list hs l ts n \<Longrightarrow> m \<le> n \<Longrightarrow> text_list hs l ts m"
  by (auto simp: text_list_def tbl_room_def intro: fresh_run_less)

definition strings_kept :: "hstate \<Rightarrow> hstate \<Rightarrow> bool" where
  "strings_kept hs hs' =
     ((\<forall>a s. string_at (hs_heap hs) a = Some s \<longrightarrow> string_at (hs_heap hs') a = Some s) \<and>
      (\<forall>a. interned hs a \<longrightarrow> interned hs' a))"

lemma strings_kept_trans: "strings_kept h1 h2 \<Longrightarrow> strings_kept h2 h3 \<Longrightarrow> strings_kept h1 h3"
  by (simp add: strings_kept_def)

lemma strings_kept_text: "strings_kept hs hs' \<Longrightarrow> text_at hs a = Some t \<Longrightarrow> text_at hs' a = Some t"
  by (auto simp: strings_kept_def text_at_def)

lemma write_list_effect:
  assumes "write_list hs l v = Inr hs'"
  shows "hs_strings hs' = hs_strings hs" "dom (hs_heap hs') = dom (hs_heap hs)" "hs_next hs' = hs_next hs"
    "string_at (hs_heap hs') a = string_at (hs_heap hs) a"
  using assms by (auto simp: write_list_def bindR_Inr_iff put_obj_def list_at_def string_at_def split: option.splits b_obj.splits if_splits)

lemma add_text:
  assumes "text_list hs l ts (Suc n)" and "int (length ts) < 2 ^ 31"
  shows "\<exists>hs1 a hs2. copy_string hs t = Inr (hs1, a) \<and> write_list hs1 l (OBJ_VAL a) = Inr hs2 \<and>
           text_list hs2 l (ts @ [t]) n \<and> strings_kept hs hs2"
proof -
  from assms(1) obtain as where inv: "strings_inv hs" "fresh_for hs (Suc n)" "tbl_room (hs_strings hs) (Suc n)"
    "list_contents hs l = Some (map OBJ_VAL as)" "map (text_at hs) as = map Some ts" "\<forall>a \<in> set as. addr_ok a"
    by (auto simp: text_list_def)
  from copy_string_run [OF inv(1-3), of t] obtain hs1 a where
    c: "copy_string hs t = Inr (hs1, a)" "string_copied hs t hs1 a" "fresh_for hs1 n" "tbl_room (hs_strings hs1) n" by blast
  have keep: "\<And>c. hs_heap hs c \<noteq> None \<Longrightarrow> hs_heap hs1 c = hs_heap hs c" using c(2) by (simp add: string_copied_def)
  have l1: "list_contents hs1 l = Some (map OBJ_VAL as)"
    using inv(4) keep [of l] by (auto simp: list_contents_def split: option.splits)
  have len: "length as = length ts" using inv(5) by (metis length_map)
  from write_list_correct [OF l1, of "OBJ_VAL a"] assms(2) len obtain hs2 where
    w: "write_list hs1 l (OBJ_VAL a) = Inr hs2" "list_contents hs2 l = Some (map OBJ_VAL as @ [OBJ_VAL a])" by auto
  note e = write_list_effect [OF w(1)]
  have kept: "strings_kept hs hs2"
    unfolding strings_kept_def
  proof (intro conjI allI impI)
    fix b s assume s: "string_at (hs_heap hs) b = Some s"
    then have "hs_heap hs b \<noteq> None" by (auto simp: string_at_def split: option.splits)
    then show "string_at (hs_heap hs2) b = Some s" using s keep [of b] e(4) by (simp add: string_at_def)
  next
    fix b assume "interned hs b"
    then show "interned hs2 b" using c(2) e(1) by (simp add: string_copied_def interned_def)
  qed
  have "strings_inv hs2" by (rule strings_inv_keep [of hs1]) (use c(2) e in \<open>simp_all add: string_copied_def\<close>)
  moreover have "map (text_at hs2) (as @ [a]) = map Some (ts @ [t])"
  proof -
    have "map (text_at hs2) as = map (text_at hs) as"
    proof (rule map_cong [OF refl])
      fix b assume "b \<in> set as"
      then obtain x where "text_at hs b = Some x" using inv(5) by (metis (no_types, lifting) imageE image_eqI list.set_map)
      then show "text_at hs2 b = text_at hs b" using strings_kept_text [OF kept] by simp
    qed
    moreover have "text_at hs2 a = Some t" using c(2) e(4) by (simp add: text_at_def string_copied_def)
    ultimately show ?thesis using inv(5) by simp
  qed
  ultimately have "text_list hs2 l (ts @ [t]) n"
    unfolding text_list_def using c e w(2) inv(6)
    by (auto simp: string_copied_def intro!: exI [of _ "as @ [a]"])
  then show ?thesis using c(1) w(1) kept by blast
qed

lemma copy_part_text:
  assumes "s_chars s = cs" and "start \<le> i" and "i \<le> length cs"
  shows "copy_part hs s (int start) (int i) = copy_string hs (take (i - start) (drop start cs))"
proof -
  have "take (i - start) (drop start (cs @ [0])) = take (i - start) (drop start cs)" using assms(2,3) by simp
  then show ?thesis using assms by (simp add: copy_part_def block_def nat_diff_distrib)
qed

lemma split_compare:
  assumes "s_chars s = cs" and "s_chars d = ds" and "s_length d = length ds" and "0 \<notin> set ds" and "i \<le> length cs"
  shows "memcmp_eq (map Some (block s)) (int i) (map Some (block d)) 0 (s_length d) = Inr (take (length ds) (drop i cs) = ds)"
proof -
  have eq: "take i cs @ drop i cs @ [0] = cs @ [0]" by (simp flip: append_assoc)
  from memcmp_block [OF assms(4), of "take i cs" "drop i cs" "[]" "[0]", unfolded eq] assms show ?thesis
    by (simp add: block_def min_absorb2)
qed

lemma pieces_split:
  assumes "take (length ds) (drop i cs) = ds" and "start \<le> i" and "i \<le> length cs" and "ds \<noteq> []"
    and "\<And>j. start \<le> j \<Longrightarrow> j < i \<Longrightarrow> take (length ds) (drop j cs) \<noteq> ds"
  shows "pieces ds (drop start cs) = take (i - start) (drop start cs) # pieces ds (drop (i + length ds) cs)"
proof -
  have "strstr (drop start cs) ds = Some (i - start)"
    by (rule strstr_first) (use assms in \<open>auto simp: less_diff_conv add.commute\<close>)
  then show ?thesis using assms(2,4) by (subst pieces.simps) (simp add: add.commute)
qed

lemma pieces_last:
  assumes "start \<le> length cs" and "ds \<noteq> []" and "\<And>j. start \<le> j \<Longrightarrow> j < length cs \<Longrightarrow> take (length ds) (drop j cs) \<noteq> ds"
  shows "pieces ds (drop start cs) = [drop start cs]"
proof -
  have "strstr (drop start cs) ds = None"
  proof (rule ccontr)
    assume "strstr (drop start cs) ds \<noteq> None"
    then obtain k where k: "strstr (drop start cs) ds = Some k" by blast
    have "k + length ds \<le> length cs - start" "0 < length ds" using strstr_Some [OF k] assms(2) by simp_all
    then have "start + k < length cs" using assms(1) by linarith
    then show False using strstr_Some [OF k] assms(3) [of "start + k"] by (simp add: add.commute)
  qed
  then show ?thesis by (simp add: pieces.simps)
qed

lemma split_text_pieces:
  assumes "s_chars s = cs" and "s_length s = length cs" and "s_chars d = ds" and "s_length d = length ds" and "0 \<notin> set ds" and "ds \<noteq> []"
  shows "\<lbrakk>text_list hs l ts (length cs + 1 - start + n); start \<le> i; i \<le> length cs; length cs + 2 - i \<le> fuel;
           \<And>j. start \<le> j \<Longrightarrow> j < i \<Longrightarrow> take (length ds) (drop j cs) \<noteq> ds; int (length ts + length cs) + 1 < 2 ^ 31 + int start\<rbrakk> \<Longrightarrow>
         \<exists>hs'. split_text fuel hs l s d (int start) (int i) = Inr hs' \<and>
           text_list hs' l (ts @ pieces ds (drop start cs)) n \<and> strings_kept hs hs'"
proof (induction fuel arbitrary: hs ts start i)
  case 0
  then show ?case by simp
next
  case (Suc fuel)
  let ?hit = "take (length ds) (drop i cs) = ds" and ?t = "take (i - start) (drop start cs)"
  have cmp: "memcmp_eq (map Some (block s)) (int i) (map Some (block d)) 0 (s_length d) = Inr ?hit"
    by (rule split_compare) (use assms Suc.prems in simp_all)
  show ?case
  proof (cases "?hit \<or> i = length cs")
    case False
    then have "\<exists>hs'. split_text fuel hs l s d (int start) (int (i + 1)) = Inr hs' \<and>
           text_list hs' l (ts @ pieces ds (drop start cs)) n \<and> strings_kept hs hs'"
      using Suc.prems by (intro Suc.IH) (auto simp: less_Suc_eq)
    then show ?thesis using cmp False Suc.prems(3) assms(2) by (simp add: add.commute del: cell_get_nat)
  next
    case True
    have len: "length cs + 1 - start = Suc (length cs - start)" using Suc.prems(2,3) by simp
    from Suc.prems(1) have room: "text_list hs l ts (Suc (length cs - start + n))" unfolding len by simp
    from add_text [OF room, of ?t] Suc.prems(2,3,6) obtain hs1 a hs2 where
      a: "copy_string hs ?t = Inr (hs1, a)" "write_list hs1 l (OBJ_VAL a) = Inr hs2"
        "text_list hs2 l (ts @ [?t]) (length cs - start + n)" "strings_kept hs hs2" by auto
    have run: "split_text (Suc fuel) hs l s d (int start) (int i) = split_text fuel hs2 l s d (int (i + length ds)) (int (i + length ds))"
      using cmp True Suc.prems(2,3) assms(1,2,4) a(1,2) copy_part_text [OF assms(1) Suc.prems(2,3), of hs]
      by (auto simp: assms(2) simp del: cell_get_nat)
    show ?thesis
    proof (cases ?hit)
      case hit: True
      have ds: "1 \<le> length ds" using assms(6) by (cases ds) auto
      have "length ds \<le> length (drop i cs)" using arg_cong [OF hit, of length] by simp
      then have i': "i + length ds \<le> length cs" using Suc.prems(3) by simp
      let ?i = "i + length ds"
      have "length cs + 1 - ?i + n \<le> length cs - start + n" using Suc.prems(2) assms(6) by (cases ds) auto
      note m = text_list_less [OF a(3) this]
      have "\<exists>hs'. split_text fuel hs2 l s d (int ?i) (int ?i) = Inr hs' \<and>
          text_list hs' l ((ts @ [?t]) @ pieces ds (drop ?i cs)) n \<and> strings_kept hs2 hs'"
        using Suc.prems i' ds by (intro Suc.IH [OF m]) auto
      then show ?thesis
        using run pieces_split [OF hit Suc.prems(2,3) assms(6) Suc.prems(5)] strings_kept_trans [OF a(4)] by fastforce
    next
      case False
      then have i: "i = length cs" using True by simp
      have "fuel \<noteq> 0" using Suc.prems(4) i by simp
      then obtain m where "fuel = Suc m" by (cases fuel) auto
      then have "split_text fuel hs2 l s d (int (i + length ds)) (int (i + length ds)) = Inr hs2"
        using i assms(2,6) by simp
      moreover have "pieces ds (drop start cs) = [?t]"
        using pieces_last [of start cs ds] Suc.prems(2,5) assms(6) i by auto
      moreover have "text_list hs2 l (ts @ [?t]) n"
        by (rule text_list_less [OF a(3)]) simp
      ultimately show ?thesis using run a(4) by auto
    qed
  qed
qed

section \<open>Joining\<close>

lemma c_string_plain: "0 \<notin> set cs \<Longrightarrow> c_string cs = cs"
  by (auto simp: c_string_def takeWhile_eq_all_conv)

lemma value_to_string_text:
  assumes "text_at hs a = Some t" and "addr_ok a" and "0 \<notin> set t"
  shows "value_to_string (nesting hs) (hs_heap hs) (OBJ_VAL a) = Inr t"
proof -
  from assms(1) obtain s where s: "hs_heap hs a = Some (OString s)" "s_chars s = t"
    by (auto simp: text_at_def string_at_def split: option.splits b_obj.splits)
  then show ?thesis
    using assms(2,3) obj_not_singleton [OF IS_OBJ_OBJ_VAL [of a]]
    by (simp add: nesting_def AS_OBJ_OBJ_VAL c_string_plain)
qed

lemma join_values_texts:
  assumes "s_chars sep = ds" and "s_length sep = length ds" and "ds \<noteq> []" and "0 \<notin> set ds"
  shows "\<lbrakk>map (text_at hs) as = map Some ts; \<forall>a \<in> set as. addr_ok a; \<forall>t \<in> set ts. 0 \<notin> set t\<rbrakk> \<Longrightarrow>
    join_values hs sep (map OBJ_VAL as) r = Inr (r @ concat (map (\<lambda>t. ds @ t) ts))"
proof (induction as arbitrary: r ts)
  case (Cons a as)
  then obtain t us where ts: "ts = t # us" "text_at hs a = Some t" "map (text_at hs) as = map Some us" by (cases ts) auto
  have "value_to_string (nesting hs) (hs_heap hs) (OBJ_VAL a) = Inr t"
    using value_to_string_text [OF ts(2)] Cons.prems(2,3) ts(1) by simp
  moreover have "c_string ds = ds" using assms(4) c_string_plain by blast
  ultimately show ?case using Cons.IH [OF ts(3)] Cons.prems(2,3) ts(1) assms by (simp add: append_strings_def)
qed simp

lemma join_with_concat: "join_with ds (t # ts) = t @ concat (map (\<lambda>t. ds @ t) ts)"
  by (induction ts arbitrary: t) auto

section \<open>Properties\<close>

lemma string_obj_iff: "string_obj hs a = Inr s \<longleftrightarrow> string_at (hs_heap hs) a = Some s"
  by (simp add: string_obj_def string_at_def split: option.splits b_obj.splits)

text \<open>A text without zero bytes in an interned string object.\<close>

definition plain_string :: "hstate \<Rightarrow> addr \<Rightarrow> byte list \<Rightarrow> bool" where
  "plain_string hs a cs =
     (addr_ok a \<and> interned hs a \<and> 0 \<notin> set cs \<and>
      (\<exists>s. hs_heap hs a = Some (OString s) \<and> s_chars s = cs \<and> s_length s = length cs))"

lemma plain_stringE:
  assumes "plain_string hs a cs"
  obtains s where "string_obj hs a = Inr s" "hs_heap hs a = Some (OString s)" "s_chars s = cs" "s_length s = length cs" "addr_ok a"
    "interned hs a" "0 \<notin> set cs" "text_at hs a = Some cs" "string_at (hs_heap hs) a = Some s"
  using assms that by (auto simp: plain_string_def string_obj_def text_at_def string_at_def)


lemma interned_plain:
  assumes "strings_inv hs" and "interned hs a" and "text_at hs a = Some cs" and "addr_ok a" and "0 \<notin> set cs"
  shows "plain_string hs a cs"
proof -
  have "intern_ok (hs_heap hs) (hs_strings hs)" "tbl_map (hs_strings hs) (OBJ_VAL a) \<noteq> None"
    using assms(1,2) by (simp_all add: strings_inv_def interned_def)
  then obtain s where s: "string_at (hs_heap hs) (AS_OBJ (OBJ_VAL a)) = Some s" "string_ok s" by (rule strings_keyE)
  then have "hs_heap hs a = Some (OString s)" "s_chars s = cs"
    using assms(3,4) by (auto simp: AS_OBJ_OBJ_VAL text_at_def string_at_def split: option.splits b_obj.splits)
  then show ?thesis using assms s(2) by (simp add: plain_string_def string_ok_def)
qed

lemma no_strings_ready: "strings_inv no_strings" "fresh_for no_strings 8" "tbl_room (hs_strings no_strings) 8"
proof -
  show "strings_inv no_strings"
    by (simp add: strings_inv_def no_strings_def intern_ok_iff no_tombstones_def texts_once_def) (simp add: init_table_def)
  have 8: "8 = Suc (Suc (Suc (Suc (Suc (Suc (Suc (Suc 0)))))))" by simp
  show "fresh_for no_strings 8" unfolding 8 by (simp add: no_strings_def addr_ok_def val_consts)
  show "tbl_room (hs_strings no_strings) 8" by (simp add: no_strings_def tbl_room_def init_table_def)
qed


section \<open>Trimming\<close>

lemma hash_value_put:
  assumes "hp a = Some (OString s)" and "s_hash s' = s_hash s"
  shows "hash_value (hp(a \<mapsto> OString s')) = hash_value hp"
proof
  fix v
  have "string_at (hp(a \<mapsto> OString s')) c = (if c = a then Some s' else string_at hp c)" for c by simp
  moreover have "string_at hp a = Some s" using assms(1) by (simp add: string_at_def)
  ultimately show "hash_value (hp(a \<mapsto> OString s')) v = hash_value hp v"
    using assms by (auto simp: hash_value_def hash_object_def split: option.splits b_obj.splits)
qed

lemma find_entry_hash: "hash_value hp' = hash_value hp \<Longrightarrow> find_entry hp' = find_entry hp"
  by (intro ext) (simp add: find_entry_def)

lemma rehash_hash: "hash_value hp' = hash_value hp \<Longrightarrow> rehash hp' c old es n = rehash hp c old es n"
  by (induction old arbitrary: es n) (simp_all add: find_entry_hash [of hp' hp])

lemma table_set_hash: "hash_value hp' = hash_value hp \<Longrightarrow> table_set hp' t k v = table_set hp t k v"
  by (simp add: table_set_def adjust_capacity_def rehash_hash [of hp' hp] find_entry_hash [of hp' hp])

lemma find_string_put:
  assumes "hp a = Some (OString s)" and "s_hash s' = s_hash s" and "s_length s' = s_length s" and "s_length s \<noteq> length cs"
  shows "find_string_loop (hp(a \<mapsto> OString s')) n es c cs h i = find_string_loop hp n es c cs h i"
proof -
  have "string_at hp a = Some s" using assms(1) by (simp add: string_at_def)
  then show ?thesis using assms(2-4)
    by (induction hp n es c cs h i rule: find_string_loop.induct) (auto simp: Let_def split: option.splits)
qed

text \<open>Copying another text does not see the change of a string.\<close>

lemma copy_string_put:
  assumes "hs_heap hs a = Some (OString s)" and "s_hash s' = s_hash s" and "s_length s' = s_length s" and "s_length s \<noteq> length cs"
    and "copy_string hs cs = Inr (hs', b)" and "fresh_ok hs"
  shows "copy_string (put_obj hs a (OString s')) cs = Inr (put_obj hs' a (OString s'), b)"
proof -
  have find: "table_find_string ((hs_heap hs)(a \<mapsto> OString s')) t cs h = table_find_string (hs_heap hs) t cs h" for t h
    using find_string_put [of "hs_heap hs" a s s' cs] assms(1-4) by (simp add: table_find_string_def)
  have ne: "hs_next hs \<noteq> a" using assms(1,6) by (auto simp: fresh_ok_def)
  have set: "table_set (((hs_heap hs)(a \<mapsto> OString s'))(hs_next hs \<mapsto> ob)) t k v = table_set ((hs_heap hs)(hs_next hs \<mapsto> ob)) t k v" for ob t k v
    using table_set_hash [OF hash_value_put [of "(hs_heap hs)(hs_next hs \<mapsto> ob)" a s s']] assms(1,2) ne by (simp add: fun_upd_twist)
  show ?thesis
    using assms(5) ne unfolding copy_string_def Let_def
    by (auto simp: find set allocate_string_def alloc_obj_def put_obj_def bindR_Inr_iff fun_upd_twist split: option.splits)
qed

lemma isspace_not_0: "isspace c \<Longrightarrow> c \<noteq> 0"
  by (auto simp: isspace_def)

text \<open>
  C22: \<open>trim\<close> without an argument returns the string of the text between the white space, but it works on
  the block of the string it is called on: when the text ends with white space, that string has a zero
  byte behind the trimmed text from then on, while its length and its hash stay as they were.
\<close>

theorem trim_cuts_receiver:
  assumes "strings_inv hs" and "fresh_ok hs" and "tbl_room (hs_strings hs) 1" and "hs_heap hs self = Some (OString s)"
    and "s_length s = length (s_chars s)" and "s_chars s = pre @ body @ post" and "\<forall>c \<in> set pre \<union> set post. isspace c"
    and "body \<noteq> []" and "\<not> isspace (hd body)" and "\<not> isspace (last body)" and "0 \<notin> set body" and "post \<noteq> []"
  shows "\<exists>hs' a. string_trim hs self [] = Inr (hs', OBJ_VAL a) \<and> text_at hs' a = Some body \<and>
           hs_heap hs' self = Some (OString (s\<lparr>s_chars := pre @ body @ 0 # tl post\<rparr>))"
proof -
  obtain x xs where t: "body = x # xs" using assms(8) by (cases body) auto
  have "takeWhile (\<lambda>c. c \<noteq> 0 \<and> trims 0 c) (pre @ body @ post) = pre"
    using assms(7,9) t isspace_not_0 by (auto simp: trims_def takeWhile_append2)
  then have start: "trim_start 0 s = length pre" using assms(6) by (simp add: trim_start_def)
  have rest: "c_string (drop (length pre) (s_chars s)) = body @ post"
  proof -
    have "0 \<notin> set post" using assms(7) isspace_not_0 [of 0] by auto
    then show ?thesis using assms(6,11) by (auto intro!: c_string_plain)
  qed
  have "dropWhile isspace (rev (body @ post)) = rev body"
    using assms(7,8,10) dropWhile_append2 [of "rev post" isspace "rev body"] dropWhile_eq_self_iff [of isspace "rev body"]
    by (simp add: hd_rev)
  then have keep: "trim_keep 0 (body @ post) = length body" using t by (simp add: trim_keep_def trims_def [abs_def])
  let ?s = "s\<lparr>s_chars := pre @ body @ 0 # tl post\<rparr>"
  obtain y ys where post: "post = y # ys" using assms(12) by (cases post) auto
  have cut: "cut_at hs self s (length pre + length body) = put_obj hs self (OString ?s)"
    using assms(6) post by (simp add: cut_at_def list_update_append)
  from copy_string_result [OF assms(1,2), of 0 body] assms(3) obtain hs1 a where
    c: "copy_string hs body = Inr (hs1, a)" "string_copied hs body hs1 a" by auto
  have ne: "s_length s \<noteq> length body" using assms(5,6) post by simp
  have copy: "copy_string (put_obj hs self (OString ?s)) body = Inr (put_obj hs1 self (OString ?s), a)"
    by (rule copy_string_put [OF assms(4)]) (use c(1) ne assms(2) in simp_all)
  have "text_at hs1 self = Some (s_chars s)" using c(2) assms(4) by (auto simp: string_copied_def text_at_def string_at_def)
  then have "a \<noteq> self" using c(2) assms(5) ne by (auto simp: string_copied_def)
  then have "text_at (put_obj hs1 self (OString ?s)) a = Some body" using c(2) by (simp add: string_copied_def text_at_def)
  moreover have "string_trim hs self [] = Inr (put_obj hs1 self (OString ?s), OBJ_VAL a)"
    using assms(4) start rest keep cut copy t
    by (simp add: string_trim_def ENFORCE_ARG_RANGE_def trimmer_of_def string_obj_def trim_from_def ret_obj_def)
  ultimately show ?thesis by auto
qed

theorem trim_cuts_receiver_witness:
  "\<exists>hs1 a hs' b s. copy_string no_strings (cstr ''ab '') = Inr (hs1, a) \<and> string_trim hs1 a [] = Inr (hs', OBJ_VAL b) \<and>
     text_at hs' b = Some (cstr ''ab'') \<and> hs_heap hs' a = Some (OString s) \<and> s_chars s = cstr ''ab'' @ [0] \<and> s_length s = 3"
proof -
  have n: "8 = Suc 7" by simp
  from copy_string_run [OF no_strings_ready [unfolded n], of "cstr ''ab ''"] obtain hs1 a where
    a: "copy_string no_strings (cstr ''ab '') = Inr (hs1, a)" "string_copied no_strings (cstr ''ab '') hs1 a" "fresh_for hs1 7"
      "tbl_room (hs_strings hs1) 7" by auto
  have i: "strings_inv hs1" "interned hs1 a" "text_at hs1 a = Some (cstr ''ab '')" "addr_ok a" using a(2) by (simp_all add: string_copied_def)
  have "0 \<notin> set (cstr ''ab '')" by (simp add: cstr_def)
  with i obtain s where s: "hs_heap hs1 a = Some (OString s)" "s_chars s = cstr ''ab ''" "s_length s = length (cstr ''ab '')"
    using interned_plain [OF i] by (auto simp: plain_string_def)
  have "7 = Suc 6" by simp
  note fresh = fresh_for_ok [OF a(3) [unfolded this]]
  have f: "fresh_ok hs1" "tbl_room (hs_strings hs1) 1" "s_length s = length (s_chars s)" "s_chars s = [] @ cstr ''ab'' @ cstr '' ''"
    "\<forall>c \<in> set [] \<union> set (cstr '' ''). isspace c" "cstr ''ab'' \<noteq> []" "\<not> isspace (hd (cstr ''ab''))" "\<not> isspace (last (cstr ''ab''))"
    "0 \<notin> set (cstr ''ab'')" "cstr '' '' \<noteq> []"
    using fresh a(4) s by (simp_all add: cstr_def isspace_def tbl_room_def)
  from trim_cuts_receiver [OF i(1) f(1,2) s(1) f(3-)] obtain hs' b where
    "string_trim hs1 a [] = Inr (hs', OBJ_VAL b)" "text_at hs' b = Some (cstr ''ab'')"
    "hs_heap hs' a = Some (OString (s\<lparr>s_chars := [] @ cstr ''ab'' @ 0 # tl (cstr '' '')\<rparr>))" by blast
  then show ?thesis using a(1) s(3) by (auto simp: cstr_def)
qed

section \<open>Replacing\<close>

text \<open>
  \<open>replace\<close> fails for plain text: when the text to replace is not empty and does not repeat its first
  character, the method removes delimiters that are not there and copies minus one bytes, whatever the
  regular expression library does.
\<close>

lemma replace_plain_overrun:
  assumes "hs_heap hs self = Some (OString s)" and "s_length s \<noteq> 0" and "plain_string hs a (c # cs)" and "c \<notin> set cs"
    and "plain_string hs b rs"
  shows "string_replace rx hs self [OBJ_VAL a, OBJ_VAL b] = Inl OutOfBounds"
proof -
  obtain d where d: "string_obj hs a = Inr d" "hs_heap hs a = Some (OString d)" "s_chars d = c # cs" "s_length d = length (c # cs)"
    "addr_ok a" using assms(3) by (rule plain_stringE)
  obtain r where r: "string_obj hs b = Inr r" "hs_heap hs b = Some (OString r)" "addr_ok b" using assms(5) by (rule plain_stringE)
  have "takeWhile (\<lambda>x. x \<noteq> c) (rev cs) = rev cs" using assms(4) by (auto simp: takeWhile_eq_all_conv)
  then have "length (takeWhile (\<lambda>x. x \<noteq> c) (rev cs)) = length cs" by (simp only: length_rev)
  then have "remove_regex_delimiter d = Inl OutOfBounds" using d(3) by (simp add: remove_regex_delimiter_def)
  then show ?thesis
    using d r assms(1,2)
    by (simp add: string_replace_def ENFORCE_ARG_COUNT_def ENFORCE_ARG_TYPE_def IS_STRING_def is_obj_type_def AS_OBJ_OBJ_VAL
        arg_string_def string_obj_def)
qed

lemma replace_plain_overrun_instance:
  "\<exists>hs1 a hs2 b. copy_string no_strings (cstr ''abc'') = Inr (hs1, a) \<and> copy_string hs1 (cstr ''b'') = Inr (hs2, b) \<and>
     (\<forall>rx. string_replace rx hs2 a [OBJ_VAL b, OBJ_VAL b] = Inl OutOfBounds)"
proof -
  have n: "8 = Suc 7" "7 = Suc 6" by simp_all
  from copy_string_run [OF no_strings_ready [unfolded n(1)], of "cstr ''abc''"] obtain hs1 a where
    a: "copy_string no_strings (cstr ''abc'') = Inr (hs1, a)" "string_copied no_strings (cstr ''abc'') hs1 a" "fresh_for hs1 7"
      "tbl_room (hs_strings hs1) 7" by auto
  have i: "strings_inv hs1" "interned hs1 a" "text_at hs1 a = Some (cstr ''abc'')" "addr_ok a" using a(2) by (simp_all add: string_copied_def)
  from copy_string_run [OF i(1) a(3,4) [unfolded n(2)], of "cstr ''b''"] obtain hs2 b where
    b: "copy_string hs1 (cstr ''b'') = Inr (hs2, b)" "string_copied hs1 (cstr ''b'') hs2 b" by auto
  have "0 \<notin> set (cstr ''abc'')" "0 \<notin> set (cstr ''b'')" by (simp_all add: cstr_def)
  then have "plain_string hs1 a (cstr ''abc'')" "plain_string hs2 b (cstr ''b'')"
    using interned_plain [OF i] interned_plain [of hs2 b] b(2) by (simp_all add: string_copied_def)
  moreover from this(1) obtain s where "hs_heap hs1 a = Some (OString s)" "s_length s \<noteq> 0" by (auto simp: plain_string_def cstr_def)
  moreover from this(1) have "hs_heap hs2 a = Some (OString s)" using b(2) by (auto simp: string_copied_def)
  moreover have "cstr ''b'' = 98 # []" by (simp add: cstr_def)
  ultimately have "string_replace rx hs2 a [OBJ_VAL b, OBJ_VAL b] = Inl OutOfBounds" for rx
    using replace_plain_overrun [of hs2 a s b 98 "[]" b "[98]" rx] by simp
  then show ?thesis using a(1) b(1) by blast
qed

end
