(* ===== verification/Base64_Correct.thy ===== *)
theory Base64_Correct
  imports Base64 Bytes_Correct String_Correct
begin

text \<open>The decoder of the module \<open>_base64\<close> inverts the encoder.\<close>

section \<open>Arithmetic of the triples\<close>

lemma unat_small: "n < 2 ^ 32 \<Longrightarrow> unat (word_of_nat n :: uint32) = n"
  by (simp add: unsigned_of_nat take_bit_nat_eq_self)

lemma unat_field: "unat (drop_bit k (t :: uint32) AND mask n) = unat t div 2 ^ k mod 2 ^ n"
proof -
  have "unat (drop_bit k t AND mask n) = take_bit n (drop_bit k (unat t))"
    by (simp only: take_bit_eq_mask [symmetric] unsigned_take_bit_eq unat_drop_bit_eq)
  then show ?thesis by (simp only: take_bit_eq_mod drop_bit_eq_div)
qed

lemma unat_sextet: "unat (drop_bit k (t :: uint32) AND 0x3F) = unat t div 2 ^ k mod 64"
  using unat_field [of k t 6] by (simp add: mask_eq_exp_minus_1)

lemma unat_octet: "unat (ucast (drop_bit k (t :: uint32) AND 0xFF) :: byte) = unat t div 2 ^ k mod 256"
proof -
  have "unat (drop_bit k t AND 0xFF) = unat t div 2 ^ k mod 256" using unat_field [of k t 8] by (simp add: mask_eq_exp_minus_1)
  then show ?thesis by (simp only: unsigned_ucast_eq take_bit_eq_mod) simp
qed

lemma unat_triple:
  fixes a b c :: byte
  shows "unat (push_bit 16 (ucast a) + push_bit 8 (ucast b) + ucast c :: uint32) = unat a * 65536 + unat b * 256 + unat c"
proof -
  have w: "push_bit 16 (ucast a) + push_bit 8 (ucast b) + ucast c = (word_of_nat (unat a * 65536 + unat b * 256 + unat c) :: uint32)"
    by (simp add: push_bit_eq_mult)
  have "unat a < 256" "unat b < 256" "unat c < 256" using unsigned_less [of a] unsigned_less [of b] unsigned_less [of c] by simp_all
  then show ?thesis unfolding w by (intro unat_small) simp
qed

lemma unat_quad:
  assumes "a < 64" "b < 64" "c < 64" "d < 64"
  shows "unat (push_bit 18 (word_of_nat a) + push_bit 12 (word_of_nat b) + push_bit 6 (word_of_nat c) + push_bit 0 (word_of_nat d) :: uint32) =
    a * 262144 + b * 4096 + c * 64 + d"
proof -
  have w: "push_bit 18 (word_of_nat a) + push_bit 12 (word_of_nat b) + push_bit 6 (word_of_nat c) + push_bit 0 (word_of_nat d) =
      (word_of_nat (a * 262144 + b * 4096 + c * 64 + d) :: uint32)"
    by (simp add: push_bit_eq_mult)
  show ?thesis unfolding w using assms by (intro unat_small) simp
qed

lemma triple_parts:
  fixes t :: nat
  assumes "t < 2 ^ 24"
  shows "t div 2 ^ 18 mod 64 * 262144 + t div 2 ^ 12 mod 64 * 4096 + t div 2 ^ 6 mod 64 * 64 + t div 2 ^ 0 mod 64 = t"
proof -
  have d: "t div 2 ^ 12 = t div 64 div 64" "t div 2 ^ 18 = t div 64 div 64 div 64" "t div 2 ^ 6 = t div 64" "t div 2 ^ 0 = t"
    by (simp_all add: div_mult2_eq [symmetric])
  have "t div 64 div 64 div 64 mod 64 = t div 64 div 64 div 64" using assms by (simp add: div_mult2_eq [symmetric])
  with div_mult_mod_eq [of t 64] div_mult_mod_eq [of "t div 64" 64] div_mult_mod_eq [of "t div 64 div 64" 64]
  show ?thesis unfolding d by linarith
qed

lemma octet_parts:
  fixes a b c :: nat
  assumes "a < 256" "b < 256" "c < 256"
  shows "(a * 65536 + b * 256 + c) div 2 ^ 16 mod 256 = a" "(a * 65536 + b * 256 + c) div 2 ^ 8 mod 256 = b"
    "(a * 65536 + b * 256 + c) div 2 ^ 0 mod 256 = c" "a * 65536 + b * 256 + c < 2 ^ 24"
proof -
  have t: "a * 65536 + b * 256 + c = (a * 256 + b) * 256 + c" by simp
  have d: "((a * 256 + b) * 256 + c) div 256 = a * 256 + b" using assms by simp
  have "((a * 256 + b) * 256 + c) div 2 ^ 16 = ((a * 256 + b) * 256 + c) div 256 div 256" by (simp add: div_mult2_eq [symmetric])
  then have "((a * 256 + b) * 256 + c) div 2 ^ 16 = a" unfolding d using assms by simp
  then show "(a * 65536 + b * 256 + c) div 2 ^ 16 mod 256 = a" unfolding t using assms(1) by simp
  show "(a * 65536 + b * 256 + c) div 2 ^ 8 mod 256 = b" unfolding t using d assms by simp
  show "(a * 65536 + b * 256 + c) div 2 ^ 0 mod 256 = c"
    unfolding t using assms(3) by (simp only: power_0 div_by_1 mod_mult_self3 mod_less)
  show "a * 65536 + b * 256 + c < 2 ^ 24" using assms by simp
qed

section \<open>The tables are inverse\<close>

lemma tables_inverse:
  "\<forall>k < 64. sextet (of_char (base64_encoding_table ! k)) = Inr (word_of_nat k) \<and>
            of_char (base64_encoding_table ! k) \<noteq> (of_char (CHR ''='') :: byte)"
proof -
  have "list_all (\<lambda>k. sextet (of_char (base64_encoding_table ! k)) = Inr (word_of_nat k) \<and>
            of_char (base64_encoding_table ! k) \<noteq> (of_char (CHR ''='') :: byte)) [0..<64]"
    by code_simp
  then show ?thesis by (simp add: list_all_iff)
qed

section \<open>Triples\<close>

lemma zero_octets: "word_of_nat 0 = (0 :: uint32)" "(of_char (CHR ''='') :: byte) = 0x3D"
  by simp_all

lemma encode_char_value:
  "sextet (encode_char t k) = Inr (word_of_nat (unat t div 2 ^ (k * 6) mod 64))" "encode_char t k \<noteq> of_char (CHR ''='')"
  using tables_inverse by (simp_all add: encode_char_def unat_sextet)

lemma decode_triple:
  assumes "unat t < 2 ^ 24"
  shows "push_bit 18 (word_of_nat (unat t div 2 ^ 18 mod 64)) + push_bit 12 (word_of_nat (unat t div 2 ^ 12 mod 64)) +
     push_bit 6 (word_of_nat (unat t div 2 ^ 6 mod 64)) + push_bit 0 (word_of_nat (unat t div 2 ^ 0 mod 64)) = (t :: uint32)"
  by (rule word_unat_eq_iff [THEN iffD2], rule trans [OF unat_quad triple_parts [OF assms]]) simp_all

definition triple_of :: "byte \<Rightarrow> byte \<Rightarrow> byte \<Rightarrow> uint32" where
  "triple_of a b c = push_bit 16 (ucast a) + push_bit 8 (ucast b) + ucast c"

lemma unat_byte: "unat (a :: byte) < 256"
  using unsigned_less [of a] by simp

lemma decode_bytes_triple: "decode_bytes (triple_of a b c) = [a, b, c]"
proof -
  note p = octet_parts [OF unat_byte unat_byte unat_byte, of a b c]
  have u: "unat (triple_of a b c) = unat a * 65536 + unat b * 256 + unat c" by (simp only: triple_of_def unat_triple)
  have "ucast (drop_bit 16 (triple_of a b c) AND 0xFF) = a" "ucast (drop_bit 8 (triple_of a b c) AND 0xFF) = b"
    "ucast (drop_bit 0 (triple_of a b c) AND 0xFF) = c"
    unfolding word_unat_eq_iff unat_octet u by (simp_all only: p)
  then show ?thesis by (simp only: decode_bytes_def)
qed

lemma triple_bound: "unat (triple_of a b c) < 2 ^ 24"
  unfolding triple_of_def unat_triple by (intro octet_parts(4) unat_byte)

lemma encode_triple_chars: "encode_triple a b c = map (encode_char (triple_of a b c)) [3, 2, 1, 0]"
  by (simp add: encode_triple_def triple_of_def Let_def)

lemma decode_encode_triple:
  "decode_quads (encode_triple a b c @ cs) = bindR (decode_quads cs) (\<lambda>rest. Inr (a # b # c # rest))"
  using decode_triple [OF triple_bound [of a b c]]
  by (simp add: encode_triple_chars encode_char_value decode_bytes_triple del: mult_numeral_left)

section \<open>Padding\<close>

fun padded :: "byte list \<Rightarrow> byte list" where
  "padded [] = []"
| "padded [a] = take 2 (encode_triple a 0 0) @ [0x3D, 0x3D]"
| "padded [a, b] = take 3 (encode_triple a b 0) @ [0x3D]"
| "padded (a # b # c # bs) = encode_triple a b c @ padded bs"

definition padding :: "byte list \<Rightarrow> nat" where
  "padding bs = [0, 2, 1] ! (length bs mod 3)"

lemma padding_simps [simp]: "padding [] = 0" "padding [a] = 2" "padding [a, b] = 1" "padding (a # b # c # bs) = padding bs"
proof -
  have "Suc (Suc (Suc (length bs))) = length bs + 3" by simp
  then have "Suc (Suc (Suc (length bs))) mod 3 = length bs mod 3" by (simp only: mod_add_self2)
  then show "padding (a # b # c # bs) = padding bs" by (simp add: padding_def)
qed (simp_all add: padding_def numeral_2_eq_2)

lemma encode_triple_length [simp]: "length (encode_triple a b c) = 4"
  by (simp add: encode_triple_chars)

lemma length_round: "(5 + n) div 3 = Suc (Suc (Suc n) div (3 :: nat))"
  using div_add_self2 [of 3 "n + 2"] by simp

lemma encode_triples_length: "length (encode_triples bs) = 4 * ((length bs + 2) div 3)"
  by (induction bs rule: encode_triples.induct) (simp_all add: length_round)

lemma padding_le: "padding bs \<le> length (encode_triples bs)"
  by (induction bs rule: encode_triples.induct) (simp_all add: trans_le_add2)

lemma padded_triples: "padded bs = take (length (encode_triples bs) - padding bs) (encode_triples bs) @ replicate (padding bs) 0x3D"
proof (induction bs rule: padded.induct)
  case (4 a b c bs)
  have e: "length (encode_triples (a # b # c # bs)) - padding bs = 4 + (length (encode_triples bs) - padding bs)"
    using padding_le [of bs] by simp
  have t: "take (4 + m) (encode_triple a b c @ ys) = encode_triple a b c @ take m ys" for m ys
    unfolding take_append by simp
  show ?case unfolding padding_simps e unfolding encode_triples.simps t padded.simps by (simp only: 4 append_assoc)
qed (simp_all add: numeral_2_eq_2)

lemma sextet_equals: "sextet 0x3D = Inr 0"
  by (simp add: sextet_def)

lemma tail_sextets:
  "sextet (encode_char (triple_of a 0 0) 1) = Inr 0" "sextet (encode_char (triple_of a b 0) 0) = Inr 0"
proof -
  have "unat (triple_of a 0 0) div 2 ^ (1 * 6) mod 64 = 0" unfolding triple_of_def unat_triple by simp
  moreover have "unat (triple_of a b 0) div 2 ^ (0 * 6) mod 64 = 0" unfolding triple_of_def unat_triple by (simp add: mod_mult_left_eq)
  ultimately show "sextet (encode_char (triple_of a 0 0) 1) = Inr 0" "sextet (encode_char (triple_of a b 0) 0) = Inr 0"
    unfolding encode_char_value by simp_all
qed

lemma decode_padded: "decode_quads (padded bs) = Inr (bs @ replicate (padding bs) 0)"
proof (induction bs rule: padded.induct)
  case (2 a)
  show ?case
    using decode_encode_triple [of a 0 0 "[]"] tail_sextets(1) [of a] tail_sextets(2) [of a 0]
    by (simp add: encode_triple_chars sextet_equals numeral_2_eq_2)
next
  case (3 a b)
  show ?case
    using decode_encode_triple [of a b 0 "[]"] tail_sextets(2) [of a b]
    by (simp add: encode_triple_chars sextet_equals)
next
  case (4 a b c bs)
  then show ?case by (simp add: decode_encode_triple)
qed simp

lemma length_padded: "length (padded bs) = 4 * ((length bs + 2) div 3)"
  using padding_le [of bs] by (simp add: padded_triples encode_triples_length)

text \<open>The last two characters tell the padding.\<close>

lemma padded_end:
  assumes "bs \<noteq> []"
  shows "\<exists>cs y z. padded bs = cs @ [y, z] \<and> (if z = 0x3D then 1 else 0) + (if y = 0x3D then 1 else 0) = padding bs"
  using assms
proof (induction bs rule: padded.induct)
  case (2 a)
  show ?case by (intro exI [of _ "take 2 (encode_triple a 0 0)"] exI [of _ "0x3D"]) simp
next
  case (3 a b)
  show ?case
    using encode_char_value(2) [of "triple_of a b 0" 1]
    by (intro exI [of _ "take 2 (encode_triple a b 0)"] exI [of _ "encode_char (triple_of a b 0) 1"] exI [of _ "0x3D"])
      (simp add: encode_triple_chars)
next
  case (4 a b c bs)
  show ?case
  proof (cases "bs = []")
    case True
    then show ?thesis
      using encode_char_value(2) [of "triple_of a b c" 1] encode_char_value(2) [of "triple_of a b c" 0]
      by (intro exI [of _ "take 2 (encode_triple a b c)"] exI [of _ "encode_char (triple_of a b c) 1"]
          exI [of _ "encode_char (triple_of a b c) 0"]) (simp add: encode_triple_chars)
  next
    case False
    from 4(1) [OF False] obtain cs y z where "padded bs = cs @ [y, z]"
      "(if z = 0x3D then 1 else 0) + (if y = 0x3D then 1 else 0) = padding bs" by blast
    then show ?thesis
      by (intro exI [of _ "encode_triple a b c @ cs"] exI [of _ y] exI [of _ z]) (simp only: padded.simps padding_simps append_assoc simp_thms)
  qed
qed simp

section \<open>The round trip\<close>

lemma encode_padded:
  assumes "length bs < 2 ^ 30"
  shows "base64_encode bs = Inr (padded bs)"
proof -
  have b: "4 * ((length bs + 2) div 3) < 2 ^ 31" using assms by (simp add: div_less_iff_less_mult)
  have n: "4 * ((int (length bs) + 2) div 3) = int (length (encode_triples bs))" by (simp add: encode_triples_length zdiv_int)
  have "c_int (int (length bs) + 2) = Inr (int (length bs) + 2)" using assms by (simp add: c_int_def)
  moreover have "c_int (int (length (encode_triples bs))) = Inr (int (length (encode_triples bs)))"
    using b by (simp add: c_int_def encode_triples_length)
  ultimately show ?thesis
    by (simp only: base64_encode_def Let_def n bindR_simps nat_int padding_def [symmetric] padded_triples zero_octets(2))
qed

lemma padding_fills: "length bs + padding bs = 3 * ((length bs + 2) div 3)"
  by (induction bs rule: encode_triples.induct) (simp_all add: length_round)

lemma decode_of_padded:
  "base64_decode (padded bs) = (if bs = [] then Inl OutOfBounds else Inr (Some bs))"
proof (cases "bs = []")
  case False
  from padded_end [OF this] obtain cs y z where e: "padded bs = cs @ [y, z]"
    "(if z = 0x3D then 1 else 0) + (if y = 0x3D then 1 else 0) = padding bs" by blast
  define q where "q = (length bs + 2) div 3"
  have q: "length (padded bs) = 4 * q" by (simp add: q_def length_padded)
  have len: "length bs + padding bs = 3 * q" unfolding q_def by (rule padding_fills)
  have last: "padded bs ! (4 * q - 1) = z" "padded bs ! (4 * q - 2) = y" "0 < q"
    using q e(1) by (simp_all add: nth_append) (use e(1) q in \<open>auto simp: nth_append\<close>)
  have "q * 3 - (if z = 0x3D then 1 else 0) - (if y = 0x3D then 1 else 0) = length bs"
    using len e(2) by simp
  then show ?thesis
    using False last q decode_padded [of bs] by (simp add: base64_decode_def Let_def)
qed (simp add: base64_decode_def)



end
