(* ===== verification/Sort.thy ===== *)
theory Sort
  imports List_Correct Strings "HOL-Library.Multiset"
begin

text \<open>
  Ordering, sorting and copying of values (\<open>value.c\<close>) and \<open>sort\<close> of \<open>list.c\<close>. \<open>find_max_value\<close> is
  Blade's order on values of all types; \<open>sort_values\<close> exchanges elements in a pass over all pairs of
  positions and sorts the lists it moves on the way. The fuel bounds the nesting of lists; it runs
  out exactly when a list contains itself.
\<close>

section \<open>The order of values\<close>

text \<open>\<open>strcmp(a, b) >= 0\<close>: characters are compared as unsigned bytes.\<close>

fun strcmp_ge :: "byte list \<Rightarrow> byte list \<Rightarrow> bool" where
  "strcmp_ge _ [] = True"
| "strcmp_ge [] (y # ys) = False"
| "strcmp_ge (x # xs) (y # ys) = (if x = y then strcmp_ge xs ys else y < x)"

definition chars_at :: "heap \<Rightarrow> addr \<Rightarrow> byte list res" where
  "chars_at hp a = (case string_at hp a of None \<Rightarrow> Inl NullPointer | Some s \<Rightarrow> Inr (c_string (s_chars s)))"

definition arity_at :: "heap \<Rightarrow> addr \<Rightarrow> int res" where
  "arity_at hp a = (case hp a of Some (OFunction f) \<Rightarrow> Inr (f_arity f) | _ \<Rightarrow> Inl NullPointer)"

text \<open>\<open>a\<close> is at least \<open>b\<close>, for two objects.\<close>

definition obj_ge :: "heap \<Rightarrow> b_obj \<Rightarrow> b_obj \<Rightarrow> bool res" where
  "obj_ge hp a b =
     (case (a, b) of
        (OString s, OString t) \<Rightarrow> Inr (strcmp_ge (c_string (s_chars s)) (c_string (s_chars t)))
      | (OFunction f, OFunction g) \<Rightarrow> Inr (f_arity g \<le> f_arity f)
      | (OClosure c, OClosure d) \<Rightarrow>
          bindR (arity_at hp (c_function c)) (\<lambda>m. bindR (arity_at hp (c_function d)) (\<lambda>n. Inr (n \<le> m)))
      | (ORange r, ORange q) \<Rightarrow> Inr (r_lower q \<le> r_lower r)
      | (OClass k, OClass l) \<Rightarrow> Inr (t_count (k_methods l) \<le> t_count (k_methods k))
      | (OList l, OList m) \<Rightarrow> Inr (va_count m \<le> va_count l)
      | (ODict d, ODict e) \<Rightarrow> Inr (va_count (d_names e) \<le> va_count (d_names d))
      | (OBytes m, OBytes n) \<Rightarrow> Inr (ba_count n \<le> ba_count m)
      | (OFile f, OFile g) \<Rightarrow>
          bindR (chars_at hp (fl_path f)) (\<lambda>p. bindR (chars_at hp (fl_path g)) (\<lambda>q. Inr (strcmp_ge p q)))
      | _ \<Rightarrow> Inr (obj_type_ord (obj_type b) \<le> obj_type_ord (obj_type a)))"

definition find_max_value :: "heap \<Rightarrow> b_value \<Rightarrow> b_value \<Rightarrow> b_value res" where
  "find_max_value hp a b =
     (if IS_NIL a then Inr b
      else if IS_BOOL a then Inr (if IS_NIL b \<or> IS_BOOL b \<and> \<not> AS_BOOL b then a else b)
      else if IS_NUMBER a then
        Inr (if IS_NIL b \<or> IS_BOOL b then a
             else if IS_NUMBER b then (if dbl_ge (value_to_number a) (value_to_number b) then a else b)
             else b)
      else if IS_OBJ a then
        (if IS_OBJ b
         then (case (hp (AS_OBJ a), hp (AS_OBJ b)) of
                 (Some x, Some y) \<Rightarrow> bindR (obj_ge hp x y) (\<lambda>ge. Inr (if ge then a else b))
               | _ \<Rightarrow> Inl NullPointer)
         else Inr a)
      else Inr a)"

section \<open>Sorting\<close>

definition pairs_below :: "nat \<Rightarrow> (nat \<times> nat) list" where
  "pairs_below n = concat (map (\<lambda>i. map (Pair i) [0..<n]) [0..<n])"

text \<open>\<open>values[i]\<close> of the list at an address.\<close>

definition item_at :: "hstate \<Rightarrow> addr \<Rightarrow> nat \<Rightarrow> b_value res" where
  "item_at hs a i = bindR (list_at hs a) (\<lambda>l. cell_get (va_values l) (int i))"

definition swap_items :: "hstate \<Rightarrow> addr \<Rightarrow> nat \<Rightarrow> nat \<Rightarrow> hstate res" where
  "swap_items hs a i j =
     bindR (list_at hs a) (\<lambda>l.
     bindR (cell_get (va_values l) (int i)) (\<lambda>temp.
     bindR (cell_copy (va_values l) (int i) (int j)) (\<lambda>cs.
     bindR (cell_set cs (int j) temp) (\<lambda>cs'. Inr (put_obj hs a (OList (l\<lparr>va_values := cs'\<rparr>)))))))"

fun sort_values :: "nat \<Rightarrow> hstate \<Rightarrow> addr \<Rightarrow> hstate res" where
  "sort_values 0 hs a = Inl Divergence"
| "sort_values (Suc fuel) hs a =
     bindR (list_at hs a) (\<lambda>l.
       foldR (\<lambda>hs (i, j).
         bindR (item_at hs a i) (\<lambda>vi.
         bindR (item_at hs a j) (\<lambda>vj.
         bindR (find_max_value (hs_heap hs) vi vj) (\<lambda>m.
           if values_equal vj m
           then bindR (swap_items hs a i j) (\<lambda>hs1.
                bindR (item_at hs1 a i) (\<lambda>wi.
                bindR (if IS_LIST (hs_heap hs1) wi then sort_values fuel hs1 (AS_OBJ wi) else Inr hs1) (\<lambda>hs2.
                bindR (item_at hs2 a j) (\<lambda>wj.
                  if IS_LIST (hs_heap hs2) wj then sort_values fuel hs2 (AS_OBJ wj) else Inr hs2))))
           else Inr hs)))) hs (pairs_below (va_count l)))"

definition list_sort :: "nat \<Rightarrow> hstate \<Rightarrow> addr \<Rightarrow> b_value list \<Rightarrow> (hstate \<times> b_value) res" where
  "list_sort fuel hs self args =
     ENFORCE_ARG_COUNT ''sort'' 0 args
       (bindR (sort_values fuel hs self) (\<lambda>hs'. Inr (hs', EMPTY_VAL)))"

section \<open>The exchange sort on integers\<close>

definition swap_step :: "int list \<Rightarrow> nat \<times> nat \<Rightarrow> int list" where
  "swap_step ks p = (case p of (i, j) \<Rightarrow> if ks ! i \<le> ks ! j then ks[i := ks ! j, j := ks ! i] else ks)"

lemma swap_step_pair: "swap_step ks (i, j) = (if ks ! i \<le> ks ! j then ks[i := ks ! j, j := ks ! i] else ks)"
  by (simp add: swap_step_def)

lemma swap_step_length [simp]: "length (swap_step ks p) = length ks"
  by (simp add: swap_step_def split: prod.splits)

lemma foldl_swap_length [simp]: "length (foldl swap_step ks ps) = length ks"
  by (induction ps arbitrary: ks) auto

lemma first_step:
  assumes "\<forall>p < n. k ! p \<le> k ! 0" and "n < length k"
  shows "\<forall>p < Suc n. swap_step k (0, n) ! p \<le> swap_step k (0, n) ! 0"
proof -
  have "0 < length k" using assms(2) by linarith
  with assms show ?thesis by (auto simp: swap_step_pair nth_list_update less_Suc_eq intro: order_trans)
qed

text \<open>One round of the outer loop: position \<open>0\<close> takes the maximum.\<close>

lemma first_round:
  assumes "n \<le> length ks" and "ks \<noteq> []"
  shows "\<forall>p < n. foldl swap_step ks (map (Pair 0) [0..<n]) ! p \<le> foldl swap_step ks (map (Pair 0) [0..<n]) ! 0"
  using assms(1)
proof (induction n)
  case (Suc n)
  from first_step [of n "foldl swap_step ks (map (Pair 0) [0..<n])"] Suc show ?case by simp
qed simp

text \<open>Later rounds insert the element at \<open>i\<close> into the sorted prefix before it.\<close>

lemma insert_round:
  assumes "i < length ks" and "sorted (take i ks)" and "n \<le> i"
  defines "r \<equiv> foldl swap_step ks (map (Pair i) [0..<n])"
  shows "sorted (take i r) \<and> (\<forall>p < n. r ! p \<le> r ! i) \<and> mset (take (Suc i) r) = mset (take (Suc i) ks) \<and>
         drop (Suc i) r = drop (Suc i) ks"
  using assms(3) unfolding r_def
proof (induction n)
  case 0
  then show ?case using assms(2) by simp
next
  case (Suc n)
  let ?k = "foldl swap_step ks (map (Pair i) [0..<n])" and ?r = "foldl swap_step ks (map (Pair i) [0..<Suc n])"
  have IH: "sorted (take i ?k)" "\<forall>p < n. ?k ! p \<le> ?k ! i" "mset (take (Suc i) ?k) = mset (take (Suc i) ks)"
    "drop (Suc i) ?k = drop (Suc i) ks" using Suc by auto
  have n: "n < i" "i < length ?k" using Suc.prems assms(1) by auto
  have srt: "\<And>p q. p \<le> q \<Longrightarrow> q < i \<Longrightarrow> ?k ! p \<le> ?k ! q"
    using IH(1) n(2) by (auto simp: sorted_iff_nth_mono)
  have r: "?r = (if ?k ! i \<le> ?k ! n then ?k[i := ?k ! n, n := ?k ! i] else ?k)" by (simp add: swap_step_pair)
  show ?case
  proof (cases "?k ! i \<le> ?k ! n")
    case False
    then show ?thesis using r IH by (auto simp: less_Suc_eq)
  next
    case True
    have "sorted (take i ?r)"
      using n srt IH(2) True r by (auto simp: sorted_iff_nth_mono nth_list_update)
        (meson less_or_eq_imp_le not_le order_trans le_less_trans less_le_trans)+
    moreover have "\<forall>p < Suc n. ?r ! p \<le> ?r ! i"
      using n srt True r by (auto simp: nth_list_update less_Suc_eq)
    moreover have "take (Suc i) ?r = (take (Suc i) ?k)[i := take (Suc i) ?k ! n, n := take (Suc i) ?k ! i]"
      using r True n by (simp add: take_update_swap)
    then have "mset (take (Suc i) ?r) = mset (take (Suc i) ks)"
      using IH(3) n mset_swap [of n "take (Suc i) ?k" i] by simp
    moreover have "drop (Suc i) ?r = drop (Suc i) ks" using IH(4) r True n by simp
    ultimately show ?thesis by blast
  qed
qed

text \<open>When the element at \<open>i\<close> is the greatest, the rest of the round changes nothing.\<close>

lemma settled:
  assumes "i < length ks" and "\<forall>p < length ks. ks ! p \<le> ks ! i" and "\<forall>j \<in> set js. j < length ks"
  shows "foldl swap_step ks (map (Pair i) js) = ks"
  using assms(3)
proof (induction js)
  case (Cons j js)
  have "swap_step ks (i, j) = ks"
  proof (cases "ks ! i \<le> ks ! j")
    case True
    then have "ks ! j = ks ! i" using assms(2) Cons.prems by (simp add: order_antisym)
    then show ?thesis by (simp add: swap_step_pair) (metis list_update_id)
  qed (simp add: swap_step_pair)
  with Cons show ?case by simp
qed simp

definition round_done :: "int list \<Rightarrow> nat \<Rightarrow> bool" where
  "round_done ks i = (sorted (take (Suc i) ks) \<and> (\<forall>p < length ks. ks ! p \<le> ks ! i))"

lemma next_round:
  assumes "round_done ks i" and "Suc i < length ks"
  shows "round_done (foldl swap_step ks (map (Pair (Suc i)) [0..<length ks])) (Suc i)"
proof -
  let ?s = "foldl swap_step ks (map (Pair (Suc i)) [0..<Suc i])"
  from insert_round [OF assms(2), of "Suc i"] assms(1) have
    s: "sorted (take (Suc i) ?s)" "\<forall>p < Suc i. ?s ! p \<le> ?s ! Suc i"
    "mset (take (Suc (Suc i)) ?s) = mset (take (Suc (Suc i)) ks)" "drop (Suc (Suc i)) ?s = drop (Suc (Suc i)) ks"
    by (auto simp: round_done_def)
  have t2: "take (Suc (Suc i)) ?s = take (Suc i) ?s @ [?s ! Suc i]"
    using assms(2) by (intro take_Suc_conv_app_nth) simp
  have srt: "sorted (take (Suc (Suc i)) ?s)"
    unfolding t2 using s(1,2) assms(2) by (auto simp: sorted_append in_set_conv_nth)
  have top: "x \<le> ?s ! Suc i" if "x \<in> set (take (Suc (Suc i)) ?s)" for x
    using that s(2) unfolding t2 by (auto simp: in_set_conv_nth)
  have "ks ! i \<in> set (take (Suc (Suc i)) ks)"
    using assms(2) by (auto simp: in_set_conv_nth intro!: exI [of _ i])
  then have "ks ! i \<in> set (take (Suc (Suc i)) ?s)" using s(3) by (metis set_mset_mset)
  then have max: "ks ! i \<le> ?s ! Suc i" by (rule top)
  have all: "\<forall>p < length ?s. ?s ! p \<le> ?s ! Suc i"
  proof (intro allI impI)
    fix p assume p: "p < length ?s"
    have "set ?s = set ks"
      using s(3,4) by (metis append_take_drop_id set_append set_mset_mset)
    then have "?s ! p \<in> set ks" using p nth_mem by metis
    then have "?s ! p \<le> ks ! i" using assms(1) by (auto simp: round_done_def in_set_conv_nth)
    with max show "?s ! p \<le> ?s ! Suc i" by simp
  qed
  have "[0..<length ks] = [0..<Suc i] @ [Suc i..<length ks]"
    using upt_add_eq_append [of 0 "Suc i" "length ks - Suc i"] assms(2)
    by (simp only: le_add_diff_inverse less_imp_le_nat zero_le)
  then have "foldl swap_step ks (map (Pair (Suc i)) [0..<length ks]) =
        foldl swap_step ?s (map (Pair (Suc i)) [Suc i..<length ks])"
    by (simp only: map_append foldl_append)
  also have "\<dots> = ?s" using assms(2) all by (intro settled) auto
  finally show ?thesis using srt all by (simp only: round_done_def)
qed

lemma swap_step_mset: "i < length ks \<Longrightarrow> j < length ks \<Longrightarrow> mset (swap_step ks (i, j)) = mset ks"
  using mset_swap [of j ks i] by (simp add: swap_step_pair)

definition rounds :: "int list \<Rightarrow> nat \<Rightarrow> int list" where
  "rounds ks m = foldl (\<lambda>ks i. foldl swap_step ks (map (Pair i) [0..<length ks])) ks [0..<m]"

lemma rounds_length [simp]: "length (rounds ks m) = length ks"
  by (induction m) (simp_all add: rounds_def)

lemma rounds_done: "m < length ks \<Longrightarrow> round_done (rounds ks (Suc m)) m"
proof (induction m)
  case 0
  then have "ks \<noteq> []" by auto
  from first_round [OF order_refl this]
  have "\<forall>p < length ks. rounds ks (Suc 0) ! p \<le> rounds ks (Suc 0) ! 0" by (simp add: rounds_def)
  moreover have "sorted (take (Suc 0) (rounds ks (Suc 0)))" by (cases "rounds ks (Suc 0)") simp_all
  ultimately show ?case by (simp add: round_done_def)
next
  case (Suc m)
  have "rounds ks (Suc (Suc m)) =
      foldl swap_step (rounds ks (Suc m)) (map (Pair (Suc m)) [0..<length (rounds ks (Suc m))])"
    by (simp add: rounds_def)
  with next_round [of "rounds ks (Suc m)" m] Suc show ?case by simp
qed

lemma foldl_pairs:
  "foldl swap_step ks (concat (map (\<lambda>i. map (Pair i) [0..<length ks]) is)) =
   foldl (\<lambda>ks i. foldl swap_step ks (map (Pair i) [0..<length ks])) ks is"
  by (induction "is" arbitrary: ks) (auto, metis foldl_swap_length)

lemma exchange_sort: "sorted (foldl swap_step ks (pairs_below (length ks)))"
proof (cases "length ks")
  case (Suc m)
  have "foldl swap_step ks (pairs_below (length ks)) = rounds ks (Suc m)"
    unfolding pairs_below_def rounds_def Suc [symmetric] by (rule foldl_pairs)
  with rounds_done [of m ks] Suc show ?thesis by (simp add: round_done_def)
qed (simp add: pairs_below_def)

section \<open>Sorting numbers\<close>

definition plain_number :: "b_value \<Rightarrow> bool" where
  "plain_number v = (IS_NUMBER v \<and> \<not> dbl_is_nan v)"

lemma max_test:
  assumes "plain_number a" and "plain_number b"
  shows "\<exists>m. find_max_value hp a b = Inr m \<and> (values_equal b m \<longleftrightarrow> dbl_key a \<le> dbl_key b)"
proof -
  have n: "IS_NUMBER a" "IS_NUMBER b" "\<not> dbl_is_nan a" "\<not> dbl_is_nan b" using assms by (auto simp: plain_number_def)
  note t = number_not_singleton [OF n(1)] number_not_singleton [OF n(2)]
  show ?thesis
    using n t by (auto simp: find_max_value_def values_equal_def dbl_ge_def dbl_eq_def value_to_number_def)
qed

lemma plain_number_not_list: "plain_number v \<Longrightarrow> \<not> IS_LIST hp v"
  using number_not_singleton(4) [of v] by (simp add: plain_number_def IS_LIST_def is_obj_type_def)

lemma item_at_list:
  assumes "list_contents hs a = Some xs" and "i < length xs"
  shows "item_at hs a i = Inr (xs ! i)"
  using assms(1)
proof (rule list_contentsE)
  fix l assume l: "list_at hs a = Inr l" "varr_inv l" "varr_list l = xs" "va_count l = length xs"
  with varr_get [OF l(2), of i] assms(2) show ?thesis by (simp add: item_at_def)
qed

lemma swap_items_list:
  assumes "list_contents hs a = Some xs" and "i < length xs" and "j < length xs"
  shows "\<exists>hs'. swap_items hs a i j = Inr hs' \<and>
           list_contents hs' a = Some (xs[i := xs ! j, j := xs ! i]) \<and> only_changes {a} hs hs'"
  using assms(1)
proof (rule list_contentsE)
  fix l assume l: "list_at hs a = Inr l" "varr_inv l" "varr_list l = xs" "va_count l = length xs"
    "int (length xs) \<le> 2 ^ 31"
  note h = varr_invD [OF l(2)]
  let ?cs = "(va_values l)[i := va_values l ! j, j := Some (xs ! i)]" and ?ys = "xs[i := xs ! j, j := xs ! i]"
  have len: "i < length (va_values l)" "j < length (va_values l)" using h l assms by auto
  have "swap_items hs a i j = Inr (put_obj hs a (OList (l\<lparr>va_values := ?cs\<rparr>)))"
    using l(1) len varr_get [OF l(2), of i] l(3,4) assms(2) by (simp add: swap_items_def del: cell_get_nat)
  moreover have "cells_hold ?cs ?ys"
    using h(4) l(3) cells_hold_nth [OF h(4)] assms(2,3) len
    by (auto simp: cells_hold_iff nth_list_update)
  then have v: "varr_inv (l\<lparr>va_values := ?cs\<rparr>)" "varr_list (l\<lparr>va_values := ?cs\<rparr>) = ?ys"
    using varr_invI [of "l\<lparr>va_values := ?cs\<rparr>" ?ys] h l by auto
  ultimately show ?thesis using list_contents_put [OF v(1), of hs a] v(2) l(4,5) by auto
qed

text \<open>One iteration of the inner loop on numbers.\<close>

definition sort_step :: "nat \<Rightarrow> addr \<Rightarrow> hstate \<Rightarrow> nat \<times> nat \<Rightarrow> hstate res" where
  "sort_step fuel a hs p =
     (case p of (i, j) \<Rightarrow>
         bindR (item_at hs a i) (\<lambda>vi.
         bindR (item_at hs a j) (\<lambda>vj.
         bindR (find_max_value (hs_heap hs) vi vj) (\<lambda>m.
           if values_equal vj m
           then bindR (swap_items hs a i j) (\<lambda>hs1.
                bindR (item_at hs1 a i) (\<lambda>wi.
                bindR (if IS_LIST (hs_heap hs1) wi then sort_values fuel hs1 (AS_OBJ wi) else Inr hs1) (\<lambda>hs2.
                bindR (item_at hs2 a j) (\<lambda>wj.
                  if IS_LIST (hs_heap hs2) wj then sort_values fuel hs2 (AS_OBJ wj) else Inr hs2))))
           else Inr hs))))"

lemma sort_values_step:
  "sort_values (Suc fuel) hs a =
   bindR (list_at hs a) (\<lambda>l. foldR (sort_step fuel a) hs (pairs_below (va_count l)))"
  by (simp add: sort_step_def [abs_def])

lemma sort_step_numbers:
  assumes c: "list_contents hs a = Some xs" and n: "\<forall>x \<in> set xs. plain_number x"
    and ij: "i < length xs" "j < length xs"
  shows "\<exists>hs' ys. sort_step fuel a hs (i, j) = Inr hs' \<and> list_contents hs' a = Some ys \<and> only_changes {a} hs hs' \<and>
           mset ys = mset xs \<and> map dbl_key ys = swap_step (map dbl_key xs) (i, j)"
proof -
  note items = item_at_list [OF c ij(1)] item_at_list [OF c ij(2)]
  from max_test [of "xs ! i" "xs ! j" "hs_heap hs"] n ij obtain m where
    m: "find_max_value (hs_heap hs) (xs ! i) (xs ! j) = Inr m"
    "values_equal (xs ! j) m \<longleftrightarrow> dbl_key (xs ! i) \<le> dbl_key (xs ! j)" by auto
  show ?thesis
  proof (cases "dbl_key (xs ! i) \<le> dbl_key (xs ! j)")
    case False
    then show ?thesis using items m c ij by (auto simp: sort_step_def swap_step_pair only_changes_def)
  next
    case True
    let ?ys = "xs[i := xs ! j, j := xs ! i]"
    from swap_items_list [OF c ij] obtain hs1 where
      hs1: "swap_items hs a i j = Inr hs1" "list_contents hs1 a = Some ?ys" "only_changes {a} hs hs1" by blast
    have ms: "mset ?ys = mset xs" using mset_swap [of j xs i] ij by simp
    then have "\<forall>y \<in> set ?ys. plain_number y" using n by (metis set_mset_mset)
    moreover have "?ys ! i \<in> set ?ys" "?ys ! j \<in> set ?ys" using ij by (intro nth_mem; simp)+
    ultimately have "plain_number (?ys ! i)" "plain_number (?ys ! j)" by blast+
    then have "\<not> IS_LIST (hs_heap hs1) (?ys ! i)" "\<not> IS_LIST (hs_heap hs1) (?ys ! j)"
      using plain_number_not_list by blast+
    then have "sort_step fuel a hs (i, j) = Inr hs1"
      using items m True hs1(1) item_at_list [OF hs1(2), of i] item_at_list [OF hs1(2), of j] ij
      by (simp add: sort_step_def)
    moreover have "map dbl_key ?ys = swap_step (map dbl_key xs) (i, j)"
      using True ij by (simp add: swap_step_pair map_update)
    ultimately show ?thesis using hs1 ms by blast
  qed
qed

lemma sort_steps_numbers:
  assumes "list_contents hs a = Some xs" and "\<forall>x \<in> set xs. plain_number x"
    and "\<forall>(i, j) \<in> set ps. i < length xs \<and> j < length xs"
  shows "\<exists>hs' ys. foldR (sort_step fuel a) hs ps = Inr hs' \<and> list_contents hs' a = Some ys \<and>
           only_changes {a} hs hs' \<and> mset ys = mset xs \<and> map dbl_key ys = foldl swap_step (map dbl_key xs) ps"
  using assms
proof (induction ps arbitrary: hs xs)
  case Nil
  then show ?case by (auto simp: only_changes_def)
next
  case (Cons p ps)
  obtain i j where p: "p = (i, j)" by (cases p)
  with Cons.prems have ij: "i < length xs" "j < length xs" by auto
  from sort_step_numbers [OF Cons.prems(1,2) ij] obtain h ys where
    h: "sort_step fuel a hs p = Inr h" "list_contents h a = Some ys" "only_changes {a} hs h"
    "mset ys = mset xs" "map dbl_key ys = swap_step (map dbl_key xs) p" unfolding p by blast
  have "\<forall>y \<in> set ys. plain_number y" "length ys = length xs"
    using h(4) Cons.prems(2) by (metis set_mset_mset, metis size_mset)
  with Cons.IH [OF h(2)] Cons.prems(3) h only_changes_trans [OF h(3)] show ?case by fastforce
qed

text \<open>
  C39: Sorting a list of numbers (none of them NaN) returns with the same numbers in ascending
  order, and changes no other object.
\<close>

theorem list_sort_sorts:
  assumes "list_contents hs a = Some xs" and "\<forall>x \<in> set xs. plain_number x"
  shows "\<exists>hs' ys. list_sort (Suc fuel) hs a [] = Inr (hs', EMPTY_VAL) \<and> list_contents hs' a = Some ys \<and>
           mset ys = mset xs \<and> sorted_wrt (\<lambda>x y. dbl_ge y x) ys \<and> only_changes {a} hs hs'"
proof -
  from assms(1) obtain l where l: "list_at hs a = Inr l" "va_count l = length xs" by (rule list_contentsE)
  have "\<forall>(i, j) \<in> set (pairs_below (length xs)). i < length xs \<and> j < length xs"
    by (auto simp: pairs_below_def)
  from sort_steps_numbers [OF assms this, of fuel] obtain hs' ys where
    s: "foldR (sort_step fuel a) hs (pairs_below (length xs)) = Inr hs'" "list_contents hs' a = Some ys"
    "only_changes {a} hs hs'" "mset ys = mset xs"
    "map dbl_key ys = foldl swap_step (map dbl_key xs) (pairs_below (length xs))" by blast
  have "\<forall>y \<in> set ys. plain_number y" using s(4) assms(2) by (metis set_mset_mset)
  moreover have "sorted (map dbl_key ys)"
    unfolding s(5) using exchange_sort [of "map dbl_key xs"] by simp
  ultimately have "sorted_wrt (\<lambda>x y. dbl_ge y x) ys"
    by (simp add: sorted_map) (auto simp: dbl_ge_def plain_number_def elim!: sorted_wrt_mono_rel [rotated])
  moreover have "list_sort (Suc fuel) hs a [] = Inr (hs', EMPTY_VAL)"
    using l s(1) by (simp add: list_sort_def enforce_defs sort_values_step del: sort_values.simps)
  ultimately show ?thesis using s by blast
qed

theorem list_sort_sorts_witness:
  "\<exists>hs' ys. list_sort 1 (sample_list [number_val 3, number_val 1, number_val 2]) 16 [] = Inr (hs', EMPTY_VAL) \<and>
     list_contents hs' 16 = Some ys \<and> sorted_wrt (\<lambda>x y. dbl_ge y x) ys \<and>
     mset ys = {#number_val 3, number_val 1, number_val 2#}"
proof -
  let ?xs = "[number_val 3, number_val 1, number_val 2]"
  have "plain_number (number_val n)" if "int_range n" for n
    using that IS_NUMBER_number_val [OF that] number_val_nonzero_exp [OF that]
    by (simp add: plain_number_def key_ok_def)
  then have "\<forall>x \<in> set ?xs. plain_number x" by (simp add: int_range_def)
  moreover have "list_contents (sample_list ?xs) 16 = Some ?xs" by (rule sample_list_contents) simp
  ultimately show ?thesis using list_sort_sorts [of "sample_list ?xs" 16 ?xs 0] by auto
qed

end
