(* ===== verification/Builtin.thy ===== *)
theory Builtin
  imports Native_Functions Sort Dict_Methods Bytes_Methods Range_Methods VM_Init
begin

text \<open>
  The binding of the native functions: \<open>init_builtin_functions\<close> and \<open>init_builtin_methods\<close> store function
  pointers, which the machine keeps as the names of the C functions; \<open>builtins\<close> gives the model of the
  function behind a name. \<open>file\<close> and the methods of files, \<open>id\<close>, \<open>time\<close>, \<open>microtime\<close>, \<open>rand\<close> and the string
  method \<open>matches\<close> remain a parameter. A native function that runs code (an override of a conversion) takes
  one unit of fuel.
\<close>

type_synonym method_fn = "hstate \<Rightarrow> addr \<Rightarrow> b_value list \<Rightarrow> (hstate \<times> b_value) res"
type_synonym function_fn = "hstate \<Rightarrow> b_value list \<Rightarrow> (hstate \<times> b_value) res"

section \<open>Tables of functions\<close>

definition string_table :: "regex \<Rightarrow> (string \<times> method_fn) list" where
  "string_table re =
     [(''length'', string_length), (''upper'', string_upper), (''lower'', string_lower),
      (''is_alpha'', string_is_alpha), (''is_alnum'', string_is_alnum), (''is_number'', string_is_number),
      (''is_lower'', string_is_lower), (''is_upper'', string_is_upper), (''is_space'', string_is_space),
      (''trim'', string_trim), (''ltrim'', string_ltrim), (''rtrim'', string_rtrim), (''join'', string_join),
      (''split'', string_split), (''index_of'', string_index_of), (''starts_with'', string_starts_with),
      (''ends_with'', string_ends_with), (''count'', string_count), (''to_number'', string_to_number),
      (''to_list'', string_to_list), (''to_bytes'', string_to_bytes), (''lpad'', string_lpad),
      (''rpad'', string_rpad), (''match'', string_match re), (''replace'', string_replace re),
      (''ascii'', string_ascii), (''__iter__'', string_iter), (''__itern__'', string_itern)]"

definition list_table :: "nat \<Rightarrow> (string \<times> method_fn) list" where
  "list_table fuel =
     [(''length'', list_length), (''append'', list_append), (''clear'', list_clear), (''clone'', list_clone),
      (''count'', list_count), (''extend'', list_extend fuel), (''index_of'', list_index_of),
      (''insert'', list_insert), (''pop'', list_pop), (''shift'', list_shift),
      (''remove_at'', list_remove_at), (''remove'', list_remove), (''reverse'', list_reverse),
      (''sort'', list_sort fuel), (''contains'', list_contains), (''delete'', list_delete),
      (''first'', list_first), (''last'', list_last), (''is_empty'', list_is_empty), (''take'', list_take),
      (''get'', list_get), (''compact'', list_compact), (''unique'', list_unique), (''zip'', list_zip),
      (''to_dict'', list_to_dict), (''__iter__'', list_iter), (''__itern__'', list_itern)]"

definition dict_table :: "nat \<Rightarrow> (string \<times> method_fn) list" where
  "dict_table fuel =
     [(''length'', dict_length), (''add'', dict_add), (''set'', dict_set), (''clear'', dict_clear),
      (''clone'', dict_clone), (''compact'', dict_compact), (''contains'', dict_contains),
      (''extend'', dict_extend fuel), (''get'', dict_get), (''keys'', dict_keys), (''values'', dict_values),
      (''remove'', dict_remove), (''is_empty'', dict_is_empty), (''find_key'', dict_find_key),
      (''to_list'', dict_to_list), (''__iter__'', dict_iter), (''__itern__'', dict_itern)]"

definition bytes_table :: "(string \<times> method_fn) list" where
  "bytes_table =
     [(''length'', bytes_length), (''append'', bytes_append), (''clone'', bytes_clone),
      (''extend'', bytes_extend), (''pop'', bytes_pop), (''remove'', bytes_remove),
      (''reverse'', bytes_reverse), (''first'', bytes_first), (''last'', bytes_last), (''get'', bytes_get),
      (''split'', bytes_split), (''dispose'', bytes_dispose), (''is_alpha'', bytes_is_alpha),
      (''is_alnum'', bytes_is_alnum), (''is_number'', bytes_is_number), (''is_lower'', bytes_is_lower),
      (''is_upper'', bytes_is_upper), (''is_space'', bytes_is_space), (''to_list'', bytes_to_list),
      (''to_string'', bytes_to_string), (''__iter__'', bytes_iter), (''__itern__'', bytes_itern)]"

definition range_table :: "(string \<times> method_fn) list" where
  "range_table =
     [(''lower'', range_lower), (''upper'', range_upper), (''__iter__'', range_iter),
      (''__itern__'', range_itern)]"

text \<open>The functions on their arguments and the heap, and the functions that look for a method of an instance.\<close>

definition function_table :: "double \<Rightarrow> (string \<times> function_fn) list" where
  "function_table nan =
     [(''bytes'', bytes_native), (''chr'', native_chr), (''delprop'', native_delprop),
      (''getprop'', native_getprop), (''hasprop'', native_hasprop), (''is_bool'', native_is_bool),
      (''is_callable'', native_is_callable), (''is_class'', native_is_class), (''is_dict'', native_is_dict),
      (''is_function'', native_is_function), (''is_instance'', native_is_instance),
      (''is_int'', native_is_int), (''is_list'', native_is_list), (''is_number'', native_is_number),
      (''is_object'', native_is_object), (''is_string'', native_is_string), (''is_bytes'', native_is_bytes),
      (''is_file'', native_is_file), (''is_iterable'', native_is_iterable),
      (''instance_of'', native_instance_of), (''max'', native_max), (''min'', native_min),
      (''ord'', native_ord), (''setprop'', native_setprop), (''sum'', native_sum nan),
      (''typeof'', native_typeof)]"

definition override_table :: "(string \<times> (native_fns \<Rightarrow> b_vm \<Rightarrow> nat \<Rightarrow> (b_vm \<times> bool) res)) list" where
  "override_table =
     [(''abs'', native_abs), (''bin'', native_bin), (''hex'', native_hex), (''int'', native_int),
      (''oct'', native_oct), (''to_bool'', native_to_bool), (''to_dict'', native_to_dict),
      (''to_int'', native_to_int), (''to_list'', native_to_list), (''to_number'', native_to_number),
      (''to_string'', native_to_string)]"

definition with_prefix :: "string \<Rightarrow> (string \<times> 'a) list \<Rightarrow> (string \<times> 'a) list" where
  "with_prefix prefix xs = map (\<lambda>(name, f). (prefix @ name, f)) xs"

definition builtin_methods :: "regex \<Rightarrow> nat \<Rightarrow> (string \<times> method_fn) list" where
  "builtin_methods re fuel =
     with_prefix ''native_method_string'' (string_table re) @ with_prefix ''native_method_list'' (list_table fuel) @
     with_prefix ''native_method_dict'' (dict_table fuel) @ with_prefix ''native_method_bytes'' bytes_table @
     with_prefix ''native_method_range'' range_table"

fun builtins :: "regex \<Rightarrow> double \<Rightarrow> native_fns \<Rightarrow> nat \<Rightarrow> native_fns" where
  "builtins re nan other 0 name vm arg_count = Inl Divergence"
| "builtins re nan other (Suc fuel) name vm arg_count =
     (case map_of (builtin_methods re fuel) name of
        Some f \<Rightarrow> as_method f vm arg_count
      | None \<Rightarrow>
          (case map_of (with_prefix ''native_fn_'' (function_table nan)) name of
             Some f \<Rightarrow> as_native f vm arg_count
           | None \<Rightarrow>
               (case map_of (with_prefix ''native_fn_'' override_table) name of
                  Some f \<Rightarrow> f (builtins re nan other fuel) vm arg_count
                | None \<Rightarrow> if name = ''native_fn_print'' then native_print vm arg_count else other name vm arg_count)))"

text \<open>Every function that the machine registers is in a table, \<open>print\<close>, or one of those left as a parameter.\<close>

lemma override_names: "map fst override_table = [''abs'', ''bin'', ''hex'', ''int'', ''oct'', ''to_bool'', ''to_dict'', ''to_int'', ''to_list'', ''to_number'', ''to_string'']"
  unfolding override_table_def list.map fst_conv by (rule refl)

lemma functions_bound:
  "map fst (function_table nan) =
     filter (\<lambda>f. f \<notin> set ([''print'', ''file'', ''id'', ''microtime'', ''rand'', ''time''] @ map fst override_table)) builtin_functions"
  unfolding function_table_def override_names list.map fst_conv by code_simp

lemma methods_bound:
  "map fst (list_table fuel) = list_methods @ [''__iter__'', ''__itern__'']"
  "map fst (dict_table fuel) = dict_methods @ [''__iter__'', ''__itern__'']"
  "map fst bytes_table = bytes_methods @ [''__iter__'', ''__itern__'']"
  "map fst range_table = range_methods @ [''__iter__'', ''__itern__'']"
  unfolding list_table_def list_methods_def dict_table_def dict_methods_def bytes_table_def bytes_methods_def
    range_table_def range_methods_def list.map fst_conv append_Cons append_Nil by (rule refl)+

lemma string_methods_bound:
  "map fst (string_table re) = filter (\<lambda>f. f \<noteq> ''matches'') string_methods @ [''__iter__'', ''__itern__'']"
  unfolding string_table_def list.map fst_conv by code_simp

end
