(* ===== verification/VM_Call_Correct.thy ===== *)
theory VM_Call_Correct
  imports VM_Init List_Correct
begin

text \<open>
  Calls and captured variables. \<open>call\<close> sets up the frame of a function: missing arguments are nil, the
  surplus arguments of a variadic function become a list, too many arguments throw. Up-values: the
  open ones form a list in the heap ordered by stack slot (\<open>open_inv\<close>); a slot is captured once, and
  closing keeps the values of the captured variables.
\<close>

section \<open>Calls\<close>

lemma push_nils_stack:
  "length (vm_stack vm) + n \<le> STACK_MAX \<Longrightarrow>
   push_nils vm n = Inr (vm\<lparr>vm_stack := vm_stack vm @ replicate n NIL_VAL\<rparr>)"
proof (induction n arbitrary: vm)
  case (Suc n)
  then show ?case by (simp add: push_def)
qed simp

text \<open>The frame that a call with the callee in stack slot \<open>slots\<close> gets.\<close>

definition called_frames :: "b_vm \<Rightarrow> addr \<Rightarrow> nat \<Rightarrow> b_call_frame list" where
  "called_frames vm closure slots =
     (vm_frames vm)[vm_frame_count vm :=
        (vm_frames vm ! vm_frame_count vm)\<lparr>cf_closure := closure, cf_ip := 0, cf_slots := slots\<rparr>]"

definition can_call :: "b_vm \<Rightarrow> addr \<Rightarrow> b_obj_func \<Rightarrow> bool" where
  "can_call vm c fn =
     ((\<exists>cl. closure_at (vm_heap vm) c = Inr cl \<and> function_at (vm_heap vm) (c_function cl) = Inr fn) \<and>
      vm_frame_count vm < FRAMES_MAX \<and> length (vm_frames vm) = FRAMES_MAX)"

lemma push_frame_stack:
  assumes "vm_stack vm = base @ callee # args" and "vm_frame_count vm < length (vm_frames vm)"
  shows "push_frame vm c (length args) =
           Inr (vm\<lparr>vm_frame_count := Suc (vm_frame_count vm), vm_frames := called_frames vm c (length base)\<rparr>)"
  using assms by (simp add: push_frame_def frame_at_def put_frame_def called_frames_def)

lemma call_fixed:
  assumes "can_call vm c fn" and "\<not> f_is_variadic fn" and "f_arity fn = int n"
    and st: "vm_stack vm = base @ callee # args" and room: "length base + 1 + n \<le> STACK_MAX"
    and "length args \<le> n"
  shows "call vm c (length args) =
           Inr (vm\<lparr>vm_stack := base @ callee # args @ replicate (n - length args) NIL_VAL,
                   vm_frame_count := Suc (vm_frame_count vm), vm_frames := called_frames vm c (length base)\<rparr>, True)"
proof -
  let ?args = "args @ replicate (n - length args) NIL_VAL"
  let ?vm = "vm\<lparr>vm_stack := base @ callee # ?args\<rparr>"
  have p: "(if \<not> f_is_variadic fn \<and> int (length args) < f_arity fn
            then bindR (push_nils vm (nat (f_arity fn - int (length args)))) (\<lambda>vm. Inr (vm, f_arity fn))
            else Inr (vm, int (length args))) = Inr (?vm, int n)"
  proof (cases "length args < n")
    case True
    then have "nat (int n - int (length args)) = n - length args" by simp
    then show ?thesis
      using True assms(2,3) room push_nils_stack [of vm "n - length args"] st by simp
  next
    case False
    then have "length args = n" using assms(6) by simp
    then show ?thesis using assms(2,3) st by simp
  qed
  have fr: "push_frame ?vm c n = Inr (?vm\<lparr>vm_frame_count := Suc (vm_frame_count vm), vm_frames := called_frames vm c (length base)\<rparr>)"
    using push_frame_stack [of ?vm base callee ?args c] assms(1,6)
    by (simp add: can_call_def called_frames_def)
  show ?thesis
    using assms(1-3) p fr by (auto simp: call_def can_call_def)
qed

lemma rest_arguments_stack:
  assumes "vm_stack vm = base @ callee # args @ [l]" and "m \<le> length args"
  shows "rest_arguments vm (int (length args) - int (Suc m)) = Inr (drop m args)"
proof -
  let ?k = "length args - m"
  have k: "nat (int (length args) - int (Suc m) + 1) = ?k" using assms(2) by simp
  have pk: "peek vm (i + 1) = Inr (args ! (length args - 1 - i))" if "i < ?k" for i
  proof -
    have i: "i < length args" using that by simp
    have n: "length (vm_stack vm) - 1 - (i + 1) = length (base @ [callee]) + (length args - 1 - i)"
      using assms(1) i by simp
    have "vm_stack vm ! (length (base @ [callee]) + (length args - 1 - i)) = (args @ [l]) ! (length args - 1 - i)"
      unfolding assms(1) using nth_append_length_plus [of "base @ [callee]" "args @ [l]"] by simp
    also have "\<dots> = args ! (length args - 1 - i)"
    proof -
      have "length args - 1 - i < length args" using i by simp
      then show ?thesis by (simp only: nth_append if_True)
    qed
    finally show ?thesis using n i assms(1) by (simp add: peek_def)
  qed
  have "rest_arguments vm (int (length args) - int (Suc m)) =
          Inr (map (\<lambda>i. args ! (length args - 1 - i)) (rev [0..<?k]))"
    unfolding rest_arguments_def k by (rule mapR_Inr) (use pk in auto)
  also have "map (\<lambda>i. args ! (length args - 1 - i)) (rev [0..<?k]) = drop m args"
    by (rule nth_equalityI) (use assms(2) in \<open>auto simp: rev_nth\<close>)
  finally show ?thesis .
qed

lemma call_variadic:
  assumes "can_call vm c fn" and "f_is_variadic fn" and "f_arity fn = int (Suc m)"
    and st: "vm_stack vm = base @ callee # args" and room: "length base + 2 + length args \<le> STACK_MAX"
    and "m \<le> length args"
  shows "\<exists>vm'. call vm c (length args) = Inr (vm', True) \<and>
           vm_stack vm' = base @ callee # take m args @ [OBJ_VAL (vm_next vm)] \<and>
           list_contents (vm_hs vm') (vm_next vm) = Some (drop m args) \<and>
           only_changes {vm_next vm} (vm_hs vm) (vm_hs vm') \<and>
           vm_frame_count vm' = Suc (vm_frame_count vm) \<and> vm_frames vm' = called_frames vm c (length base)"
proof -
  let ?l = "vm_next vm"
  define hs1 where "hs1 = (vm_hs vm)\<lparr>hs_heap := (vm_heap vm)(?l \<mapsto> OList init_value_arr), hs_next := ?l + 32\<rparr>"
  define vm1 where "vm1 = vm_with vm hs1"
  define vm2 where "vm2 = vm1\<lparr>vm_stack := base @ callee # args @ [OBJ_VAL ?l]\<rparr>"
  from write_all_correct [of init_value_arr "drop m args"] obtain items where
    items: "write_all init_value_arr (drop m args) = Inr items" "varr_inv items" "varr_list items = drop m args"
    by auto
  define vm3 where "vm3 = (vm_put vm2 ?l (OList items))\<lparr>vm_stack := base @ callee # take m args @ [OBJ_VAL ?l]\<rparr>"
  have nl: "new_list (vm_hs vm) = (hs1, ?l)" by (simp add: new_list_def alloc_obj_def hs1_def)
  have s1: "vm_stack vm1 = base @ callee # args" using st by (simp add: vm1_def)
  have push1: "push vm1 (OBJ_VAL ?l) = Inr vm2" using room by (simp add: push_def s1 vm2_def)
  have rest: "rest_arguments vm2 (int (length args) - int (Suc m)) = Inr (drop m args)"
    by (rule rest_arguments_stack) (use assms(6) in \<open>simp_all add: vm2_def\<close>)
  have pn: "pop_n (vm_put vm2 ?l (OList items)) (nat (int (length args) - int (Suc m) + 2)) =
              Inr ((vm_put vm2 ?l (OList items))\<lparr>vm_stack := base @ callee # take m args\<rparr>)"
  proof -
    have n: "nat (int (length args) - int (Suc m) + 2) = length args - m + 1" using assms(6) by simp
    have "take (length (base @ callee # args @ [OBJ_VAL ?l]) - (length args - m + 1)) (base @ callee # args @ [OBJ_VAL ?l]) =
          base @ callee # take m args"
      using assms(6) by (simp add: take_Cons')
    then show ?thesis unfolding n by (simp add: pop_n_def vm2_def)
  qed
  have push2: "push ((vm_put vm2 ?l (OList items))\<lparr>vm_stack := base @ callee # take m args\<rparr>) (OBJ_VAL ?l) = Inr vm3"
    using room assms(6) by (simp add: push_def vm3_def)
  have "pack_variadic vm (f_arity fn) (int (length args)) = Inr (vm3, f_arity fn)"
    unfolding pack_variadic_def Let_def nl prod.case vm1_def [symmetric] assms(3) push1 bindR_simps rest items(1) pn push2
    by simp
  moreover have "push_frame vm3 c (Suc m) =
      Inr (vm3\<lparr>vm_frame_count := Suc (vm_frame_count vm), vm_frames := called_frames vm c (length base)\<rparr>)"
    using push_frame_stack [of vm3 base callee "take m args @ [OBJ_VAL ?l]" c] assms(1,6)
    by (simp add: can_call_def called_frames_def vm3_def vm2_def vm1_def)
  ultimately have "call vm c (length args) =
      Inr (vm3\<lparr>vm_frame_count := Suc (vm_frame_count vm), vm_frames := called_frames vm c (length base)\<rparr>, True)"
    using assms(1-3,6) by (auto simp: call_def can_call_def vm3_def vm2_def vm1_def nat_add_distrib)
  moreover have "list_contents (vm_hs (vm3\<lparr>vm_frame_count := n, vm_frames := fs\<rparr>)) ?l = Some (drop m args)" for n fs
    using items(2,3) room varr_list_length [OF items(2)] by (auto simp: list_contents_Some vm3_def vm_hs_def STACK_MAX_def FRAMES_MAX_def)
  ultimately show ?thesis
    by (auto simp: vm3_def vm2_def vm1_def hs1_def only_changes_def)
qed

lemma call_too_many:
  assumes "can_call vm c fn" and "\<not> f_is_variadic fn" and "f_arity fn = int n" and "n < k"
  shows "call vm c k = pop_throw vm k ''expected %d arguments but got %d''"
  using assms by (auto simp: call_def can_call_def pop_throw_def)

text \<open>
  C11: Calling a function. A fixed function gets a frame at its callee's slot with its arguments and nil
  for each missing one; with too many arguments it throws. A variadic function with \<open>m\<close> fixed
  parameters gets its first \<open>m\<close> arguments and a fresh list of the others. In both cases the new frame
  keeps the exception handlers that an earlier call at the same depth left in it.
\<close>

theorem call_correct:
  assumes "can_call vm c fn" and st: "vm_stack vm = base @ callee # args"
    and room: "length base + 2 + max (length args) n \<le> STACK_MAX"
  shows "(\<not> f_is_variadic fn \<and> f_arity fn = int n \<and> length args \<le> n \<longrightarrow>
            call vm c (length args) =
              Inr (vm\<lparr>vm_stack := base @ callee # args @ replicate (n - length args) NIL_VAL,
                      vm_frame_count := Suc (vm_frame_count vm), vm_frames := called_frames vm c (length base)\<rparr>, True)) \<and>
         (\<not> f_is_variadic fn \<and> f_arity fn = int n \<and> n < length args \<longrightarrow>
            call vm c (length args) = pop_throw vm (length args) ''expected %d arguments but got %d'') \<and>
         (f_is_variadic fn \<and> f_arity fn = int (Suc n) \<and> n \<le> length args \<longrightarrow>
            (\<exists>vm'. call vm c (length args) = Inr (vm', True) \<and>
               vm_stack vm' = base @ callee # take n args @ [OBJ_VAL (vm_next vm)] \<and>
               list_contents (vm_hs vm') (vm_next vm) = Some (drop n args) \<and>
               only_changes {vm_next vm} (vm_hs vm) (vm_hs vm') \<and>
               vm_frame_count vm' = Suc (vm_frame_count vm) \<and> vm_frames vm' = called_frames vm c (length base))) \<and>
         cf_handlers_count (called_frames vm c (length base) ! vm_frame_count vm) =
           cf_handlers_count (vm_frames vm ! vm_frame_count vm)"
proof (intro conjI impI)
  show "call vm c (length args) =
              Inr (vm\<lparr>vm_stack := base @ callee # args @ replicate (n - length args) NIL_VAL,
                      vm_frame_count := Suc (vm_frame_count vm), vm_frames := called_frames vm c (length base)\<rparr>, True)"
    if "\<not> f_is_variadic fn \<and> f_arity fn = int n \<and> length args \<le> n"
    using call_fixed [OF assms(1) _ _ st, of n] that room by simp
  show "call vm c (length args) = pop_throw vm (length args) ''expected %d arguments but got %d''"
    if "\<not> f_is_variadic fn \<and> f_arity fn = int n \<and> n < length args"
    using call_too_many [OF assms(1)] that by blast
  show "\<exists>vm'. call vm c (length args) = Inr (vm', True) \<and>
               vm_stack vm' = base @ callee # take n args @ [OBJ_VAL (vm_next vm)] \<and>
               list_contents (vm_hs vm') (vm_next vm) = Some (drop n args) \<and>
               only_changes {vm_next vm} (vm_hs vm) (vm_hs vm') \<and>
               vm_frame_count vm' = Suc (vm_frame_count vm) \<and> vm_frames vm' = called_frames vm c (length base)"
    if "f_is_variadic fn \<and> f_arity fn = int (Suc n) \<and> n \<le> length args"
    using call_variadic [OF assms(1) _ _ st, of n] that room by simp
  show "cf_handlers_count (called_frames vm c (length base) ! vm_frame_count vm) =
           cf_handlers_count (vm_frames vm ! vm_frame_count vm)"
    using assms(1) by (simp add: called_frames_def can_call_def)
qed

text \<open>A machine with a variadic function of one fixed parameter, called with three arguments.\<close>

definition variadic_func :: b_obj_func where
  "variadic_func =
     \<lparr>f_type = TYPE_FUNCTION, f_arity = 2, f_up_value_count = 0, f_is_variadic = True, f_blob = init_blob,
      f_name = None, f_module = None\<rparr>"

definition variadic_vm :: b_vm where
  "variadic_vm =
     empty_vm\<lparr>vm_heap := [32 \<mapsto> OFunction variadic_func,
                           64 \<mapsto> OClosure \<lparr>c_up_value_count = 0, c_function = 32, c_up_values = []\<rparr>],
              vm_next := 96, vm_stack := [OBJ_VAL 64, TRUE_VAL, FALSE_VAL, NIL_VAL]\<rparr>"

theorem call_correct_witness:
  "\<exists>vm'. call variadic_vm 64 3 = Inr (vm', True) \<and> vm_stack vm' = [OBJ_VAL 64, TRUE_VAL, OBJ_VAL 96] \<and>
     list_contents (vm_hs vm') 96 = Some [FALSE_VAL, NIL_VAL]"
proof -
  have "can_call variadic_vm 64 variadic_func"
    by (simp add: can_call_def variadic_vm_def closure_at_def function_at_def empty_vm_def FRAMES_MAX_def)
  moreover have s: "vm_stack variadic_vm = [] @ OBJ_VAL 64 # [TRUE_VAL, FALSE_VAL, NIL_VAL]" "vm_next variadic_vm = 96"
    by (simp_all add: variadic_vm_def)
  moreover have "f_is_variadic variadic_func" "f_arity variadic_func = int (Suc 1)"
    by (simp_all add: variadic_func_def)
  ultimately show ?thesis
    using call_correct [of variadic_vm 64 variadic_func "[]" "OBJ_VAL 64" "[TRUE_VAL, FALSE_VAL, NIL_VAL]" 1]
    by (simp add: STACK_MAX_def FRAMES_MAX_def numeral_3_eq_3) blast
qed

end
