(* ===== verification/Native_Correct.thy ===== *)
theory Native_Correct
  imports Builtin String_Correct VM_Call_Correct
begin

text \<open>
  What the native functions promise to the machine and to each other: the stack after a call, the stack
  after a conversion that an instance overrides, and the round trips of \<open>chr\<close> and \<open>ord\<close>, \<open>bin\<close> and
  \<open>to_number\<close>.
\<close>

section \<open>The stack after a native call\<close>

text \<open>The calling convention: a native function \<open>fn\<close> that computes \<open>f\<close> from the object and the arguments.\<close>

lemma vm_with_protected [simp]: "vm_gc_protected (vm_with vm hs) = vm_gc_protected vm"
  by (simp add: vm_with_def Let_def)

lemma no_protection: "vm_gc_protected vm = 0 \<Longrightarrow> vm\<lparr>vm_gc_protected := 0\<rparr> = vm"
  by (cases vm) simp

lemma vm_hs_stack [simp]: "vm_hs (vm\<lparr>vm_stack := st\<rparr>) = vm_hs vm"
  by (simp add: vm_hs_def)

locale native_protocol =
  fixes natives :: native_fns and fn :: string and f :: method_fn
  assumes bound: "natives fn vm n = as_method f vm n"
begin

lemma native_run:
  assumes "vm_stack vm = base @ object # args"
  shows "natives fn vm (length args) =
     (case f (vm_hs vm) (AS_OBJ object) args of
        Inr (hs, v) \<Rightarrow> Inr ((vm_with vm hs)\<lparr>vm_stack := base @ v # args\<rparr>, True)
      | Inl (Thrown message) \<Rightarrow>
          bindR (do_throw_exception (vm\<lparr>vm_stack := base @ [object]\<rparr>) message) (\<lambda>(vm', _).
            Inr (set_result (length base) FALSE_VAL vm', False))
      | Inl e \<Rightarrow> Inl e)"
  using assms
  by (simp add: bound as_method_def peek_def as_native_def native_args_def RETURN_ERROR_def set_result_def pop_n_def
      nth_append split: sum.splits b_error.splits)

lemma call_native:
  assumes "vm_stack vm = base @ object # args" and "vm_gc_protected vm = 0" and "n_function native = fn"
  shows "call_native_method natives vm native (length args) =
     (case f (vm_hs vm) (AS_OBJ object) args of
        Inr (hs, v) \<Rightarrow> Inr ((vm_with vm hs)\<lparr>vm_stack := base @ [v]\<rparr>, True)
      | Inl (Thrown message) \<Rightarrow>
          bindR (do_throw_exception (vm\<lparr>vm_stack := base @ [object]\<rparr>) message) (\<lambda>(vm', _).
            Inr (set_result (length base) FALSE_VAL vm', True))
      | Inl e \<Rightarrow> Inl e)"
  using assms(2,3) native_run [OF assms(1)]
    no_protection [of "vm_with vm hs\<lparr>vm_stack := base @ v # args\<rparr>" for hs v]
  by (simp add: call_native_method_def gc_clear_protection_def pop_n_def bindR_assoc split_def
      split: sum.splits b_error.splits)

end

text \<open>Every method in the tables of the builtin types follows the convention.\<close>

locale builtin_method =
  fixes re :: regex and nan :: double and other :: native_fns and fuel :: nat and fn :: string and f :: method_fn
  assumes listed: "map_of (builtin_methods re fuel) fn = Some f"

sublocale builtin_method \<subseteq> native_protocol "builtins re nan other (Suc fuel)" fn f
  by unfold_locales (simp add: listed)


lemma with_prefix_Some: "map_of (with_prefix p xs) (p @ n) = map_of xs n"
  by (induction xs) (auto simp: with_prefix_def)

lemma with_prefix_None: "take (length p) n \<noteq> p \<Longrightarrow> map_of (with_prefix p xs) n = None"
  by (induction xs) (auto simp: with_prefix_def)

lemma list_method_bound:
  assumes "map_of (list_table fuel) m = Some f"
  shows "map_of (builtin_methods re fuel) (''native_method_list'' @ m) = Some f"
proof -
  have "map_of (with_prefix ''native_method_string'' (string_table re)) (''native_method_list'' @ m) = None"
    "map_of (with_prefix ''native_method_dict'' (dict_table fuel)) (''native_method_list'' @ m) = None"
    "map_of (with_prefix ''native_method_bytes'' bytes_table) (''native_method_list'' @ m) = None"
    "map_of (with_prefix ''native_method_range'' range_table) (''native_method_list'' @ m) = None"
    by (rule with_prefix_None, simp)+
  then show ?thesis
    unfolding builtin_methods_def map_of_append map_add_def
    by (simp only: with_prefix_Some assms option.case)
qed

interpretation append_call: builtin_method re nan other fuel "''native_method_list'' @ ''append''" list_append
  for re nan other fuel
  by unfold_locales (rule list_method_bound, simp add: list_table_def)

text \<open>A machine with a list and a value on its stack.\<close>

definition append_vm :: b_vm where
  "append_vm = (vm_with empty_vm (sample_list [NIL_VAL]))\<lparr>vm_stack := [OBJ_VAL 16, TRUE_VAL]\<rparr>"

definition append_native :: b_obj_native where
  "append_native = \<lparr>n_type = TYPE_FUNCTION, n_name = ''append'', n_function = ''native_method_list'' @ ''append''\<rparr>"


section \<open>Conversions that an instance overrides\<close>

text \<open>The class of the instance has the method \<open>@override\<close>, a closure without parameters whose name is interned.\<close>

definition overridden :: "b_vm \<Rightarrow> b_value \<Rightarrow> string \<Rightarrow> addr \<Rightarrow> bool" where
  "overridden vm v override c =
     (\<exists>a i k name fn. v = OBJ_VAL a \<and> addr_ok a \<and> vm_heap vm a = Some (OInstance i) \<and>
        vm_heap vm (i_klass i) = Some (OClass k) \<and>
        copy_string (vm_hs vm) (cstr (CHR 0x40 # override)) = Inr (vm_hs vm, name) \<and>
        table_get (vm_heap vm) (k_methods k) (OBJ_VAL name) = Inr (Some (OBJ_VAL c)) \<and>
        addr_ok c \<and> can_call vm c fn \<and> f_type fn \<noteq> TYPE_PRIVATE \<and> \<not> f_is_variadic fn \<and> f_arity fn = 0)"

lemma vm_with_same: "vm_with vm (vm_hs vm) = vm"
  by (simp add: vm_with_def vm_hs_def new_addrs_def)

lemma override_call:
  assumes "overridden vm v override c" and "vm_stack vm = base @ [callee, v]" and "length base + 2 \<le> STACK_MAX"
  shows "METHOD_OVERRIDE natives override (length override) k vm 1 =
     Inr (vm\<lparr>vm_stack := base @ [TRUE_VAL, v], vm_frame_count := Suc (vm_frame_count vm),
             vm_frames := called_frames vm c (Suc (length base))\<rparr>, False)"
proof -
  from assms(1) obtain a i kl name fn where o: "v = OBJ_VAL a" "addr_ok a" "vm_heap vm a = Some (OInstance i)"
      "vm_heap vm (i_klass i) = Some (OClass kl)"
      "copy_string (vm_hs vm) (cstr (CHR 0x40 # override)) = Inr (vm_hs vm, name)"
      "table_get (vm_heap vm) (k_methods kl) (OBJ_VAL name) = Inr (Some (OBJ_VAL c))"
      "addr_ok c" "can_call vm c fn" "f_type fn \<noteq> TYPE_PRIVATE" "\<not> f_is_variadic fn" "f_arity fn = int 0"
    by (auto simp: overridden_def)
  have st: "vm_stack vm = (base @ [callee]) @ v # []" using assms(2) by simp
  have call: "call vm c 0 = Inr (vm\<lparr>vm_frame_count := Suc (vm_frame_count vm), vm_frames := called_frames vm c (Suc (length base))\<rparr>, True)"
    using call_fixed [OF o(8,10,11) st] assms(2,3) by simp
  from o(8) obtain cl where cl: "vm_heap vm c = Some (OClosure cl)" "function_at (vm_heap vm) (c_function cl) = Inr fn"
    by (auto simp: can_call_def closure_at_def split: option.splits b_obj.splits)
  have "take (length override + 1) (cstr (CHR 0x40 # override)) = cstr (CHR 0x40 # override)" by (simp add: cstr_def)
  then show ?thesis
    using o cl call assms(2)
    by (simp add: METHOD_OVERRIDE_def native_args_def is_obj_type_def AS_OBJ_OBJ_VAL instance_at_def vm_with_same
        invoke_from_class_def class_at_def get_method_type_def class_depth_def set_result_def)
qed

lemma function_bound:
  assumes "map_of (function_table nan) name = None" and "map_of override_table name = Some f"
  shows "builtins re nan other (Suc fuel) (''native_fn_'' @ name) vm n = f (builtins re nan other fuel) vm n"
proof -
  have "map_of (builtin_methods re fuel) (''native_fn_'' @ name) = None"
    unfolding builtin_methods_def map_of_append map_add_def
    by (subst with_prefix_None, simp)+ simp
  then show ?thesis
    unfolding builtins.simps by (simp only: with_prefix_Some assms option.case)
qed

lemma to_string_bound:
  "builtins re nan other (Suc fuel) ''native_fn_to_string'' vm n = native_to_string (builtins re nan other fuel) vm n"
  using function_bound [of nan "''to_string''" native_to_string re other fuel vm n]
  by (simp add: function_table_def override_table_def)

lemma return_from_override:
  assumes "vm_frames vm' = called_frames vm c (Suc (length base))" and "vm_frame_count vm' = Suc (vm_frame_count vm)"
    and "vm_frame_count vm < length (vm_frames vm)" and "0 < vm_frame_count vm" and "vm_open_up_values vm' = None"
    and "vm_stack vm' = (base @ [w]) @ locals @ [result]" and "length base + 2 \<le> STACK_MAX"
  shows "op_return vm' (vm_frame_count vm) =
     Inr (Next (vm'\<lparr>vm_stack := base @ [w, result], vm_frame_count := vm_frame_count vm\<rparr>) (vm_frame_count vm - 1))"
proof -
  have "butlast (base @ w # locals @ [result]) = (base @ [w]) @ locals" by (simp add: butlast_append)
  then show ?thesis
    using assms by (cases vm') (simp add: op_return_def pop_def frame_at_def called_frames_def close_up_values.simps push_def)
qed

text \<open>
  C19: A class may override \<open>to_string\<close> with a method \<open>@to_string\<close>. The call then leaves \<open>true\<close> in the slot of
  the called function and runs the method in a frame that starts one slot above it; when the method
  returns, its result is put above the \<open>true\<close>: the stack is one slot higher than after every other call.
\<close>

theorem override_leaves_slot:
  assumes "overridden vm v ''to_string'' c" and "vm_stack vm = base @ [callee, v]" and "length base + 2 \<le> STACK_MAX"
    and "n_function native = ''native_fn_to_string''" and "0 < vm_frame_count vm"
  shows "\<exists>vm'. call_native_method (builtins re nan other (Suc fuel)) vm native 1 = Inr (vm', True) \<and>
           vm_stack vm' = base @ [TRUE_VAL, v] \<and> vm_frame_count vm' = Suc (vm_frame_count vm) \<and>
           cf_closure (vm_frames vm' ! vm_frame_count vm) = c \<and>
           (\<forall>ret locals result. vm_stack ret = base @ [TRUE_VAL, v] @ locals @ [result] \<and>
              vm_frames ret = vm_frames vm' \<and> vm_frame_count ret = vm_frame_count vm' \<and> vm_open_up_values ret = None \<longrightarrow>
              op_return ret (vm_frame_count vm) =
                Inr (Next (ret\<lparr>vm_stack := base @ [TRUE_VAL, result], vm_frame_count := vm_frame_count vm\<rparr>) (vm_frame_count vm - 1)))"
proof -
  let ?vm = "vm\<lparr>vm_stack := base @ [TRUE_VAL, v], vm_frame_count := Suc (vm_frame_count vm),
                vm_frames := called_frames vm c (Suc (length base))\<rparr>"
  have r: "vm_frame_count vm < length (vm_frames vm)" using assms(1) by (auto simp: overridden_def can_call_def)
  have "builtins re nan other (Suc fuel) ''native_fn_to_string'' vm 1 = native_to_string (builtins re nan other fuel) vm 1"
    by (rule to_string_bound)
  also have "\<dots> = Inr (?vm, False)"
    using override_call [OF assms(1-3)] assms(2) by (simp add: native_to_string_def counted_native_def numeral_eq_Suc)
  finally have "call_native_method (builtins re nan other (Suc fuel)) vm native 1 = Inr (?vm, True)"
    by (simp add: call_native_method_def assms(4))
  then show ?thesis
    using return_from_override [of _ vm c base TRUE_VAL] r assms(3,5) by (simp add: called_frames_def)
qed

text \<open>A machine with an instance whose class overrides \<open>to_string\<close>.\<close>

definition override_heap :: "b_obj_string \<Rightarrow> b_table \<Rightarrow> heap" where
  "override_heap s t =
     [16 \<mapsto> OString s, 64 \<mapsto> OFunction (variadic_func\<lparr>f_is_variadic := False, f_arity := 0\<rparr>),
      96 \<mapsto> OClosure \<lparr>c_up_value_count = 0, c_function = 64, c_up_values = []\<rparr>,
      128 \<mapsto> OClass \<lparr>k_initializer = EMPTY_VAL, k_properties = init_table, k_static_properties = init_table,
                   k_methods = t, k_name = 16, k_superclass = None\<rparr>,
      160 \<mapsto> OInstance \<lparr>i_properties = init_table, i_klass = 128\<rparr>]"

definition override_vm :: "b_obj_string \<Rightarrow> b_table \<Rightarrow> b_table \<Rightarrow> b_vm" where
  "override_vm s t strings =
     empty_vm\<lparr>vm_heap := override_heap s t, vm_next := 192, vm_strings := strings,
              vm_stack := [NIL_VAL, OBJ_VAL 160], vm_frame_count := 1\<rparr>"

lemma small_addrs: "addr_ok 16" "addr_ok 96" "addr_ok 160"
  by (simp_all add: addr_ok_def val_consts)

lemma first_string:
  obtains s hs where "copy_string no_strings cs = Inr (hs, 16)" and "hs_heap hs = [16 \<mapsto> OString s]" and "s_chars s = cs"
    and "strings_inv hs" and "interned hs 16"
proof -
  have room: "fresh_for no_strings (Suc 7)" "tbl_room (hs_strings no_strings) (Suc 7)"
    using no_strings_ready by simp_all
  from copy_string_run [OF no_strings_ready(1) room] obtain hs a where
    c: "copy_string no_strings cs = Inr (hs, a)" "string_copied no_strings cs hs a" by blast
  then have t: "text_at hs a = Some cs" by (simp add: string_copied_def)
  then obtain s where s: "hs_heap hs a = Some (OString s)" "s_chars s = cs"
    by (auto simp: text_at_def string_at_def split: option.splits b_obj.splits)
  have "dom (hs_heap hs) = {16}"
    using copy_string_dom [OF c(1)] s(1) by (auto simp: no_strings_def)
  moreover from this have "a = 16" using s(1) by auto
  ultimately have "hs_heap hs = [16 \<mapsto> OString s]" using s(1) by (auto simp: fun_eq_iff dom_def)
  then show thesis using that c s \<open>a = 16\<close> by (simp add: string_copied_def)
qed

lemma override_method:
  obtains t where "table_get (override_heap s t) t (OBJ_VAL 16) = Inr (Some (OBJ_VAL 96))"
proof -
  let ?k = "OBJ_VAL 16"
  have k: "key_ok ?k" "\<not> IS_NIL ?k" using obj_not_singleton [OF IS_OBJ_OBJ_VAL [of 16]] by simp_all
  from table_set_correct [OF tbl_inv_init k(1), of "override_heap s init_table" "OBJ_VAL 96"] obtain t where
    t: "tbl_inv (override_heap s init_table) t" "tbl_map t = [?k \<mapsto> OBJ_VAL 96]"
    by (auto simp: init_table_def [THEN arg_cong, of t_count])
  have h: "hash_value (override_heap s u) ?k = s_hash s" for u
    by (rule hash_string_key) (simp_all add: AS_OBJ_OBJ_VAL small_addrs string_at_def override_heap_def)
  have "e_key e = ?k" if "e \<in> set (t_entries t)" "live e" for e
    using live_tbl_map [OF that] t(2) by (auto split: if_splits)
  then have "tbl_inv (override_heap s t) t" using t(1) h by (intro tbl_inv_hash_on [OF _ t(1)]) auto
  from that table_get_correct [OF this k(1)] k(2) t(2) show thesis by auto
qed

definition to_string_native :: b_obj_native where
  "to_string_native = \<lparr>n_type = TYPE_FUNCTION, n_name = ''to_string'', n_function = ''native_fn_to_string''\<rparr>"

theorem override_leaves_slot_witness:
  "\<exists>s t strings. \<forall>re nan other.
     \<exists>vm'. call_native_method (builtins re nan other 1) (override_vm s t strings) to_string_native 1 = Inr (vm', True) \<and>
       vm_stack vm' = [TRUE_VAL, OBJ_VAL 160] \<and> vm_frame_count vm' = 2"
proof -
  obtain s hs where c: "hs_heap hs = [16 \<mapsto> OString s]" "s_chars s = cstr (CHR 0x40 # ''to_string'')" "strings_inv hs" "interned hs 16"
    by (rule first_string [of "cstr (CHR 0x40 # ''to_string'')"])
  obtain t where t: "table_get (override_heap s t) t (OBJ_VAL 16) = Inr (Some (OBJ_VAL 96))" by (rule override_method)
  let ?vm = "override_vm s t (hs_strings hs)" and ?fn = "variadic_func\<lparr>f_is_variadic := False, f_arity := 0\<rparr>"
  obtain k where k: "override_heap s t 128 = Some (OClass k)" "k_methods k = t" by (simp add: override_heap_def)
  have "\<And>a u. string_at (hs_heap hs) a = Some u \<Longrightarrow> string_at (hs_heap (vm_hs ?vm)) a = Some u"
    by (auto simp: c(1) override_vm_def override_heap_def string_at_def split: if_splits)
  moreover have "hs_strings (vm_hs ?vm) = hs_strings hs" by (simp add: override_vm_def vm_hs_def)
  ultimately have "strings_inv (vm_hs ?vm)" using strings_inv_keep [OF c(3)] by blast
  moreover have "interned (vm_hs ?vm) 16" using c(4) by (simp add: interned_def override_vm_def vm_hs_def)
  moreover have "text_at (vm_hs ?vm) 16 = Some (s_chars s)"
    by (simp add: text_at_def string_at_def override_vm_def override_heap_def)
  ultimately have "copy_string (vm_hs ?vm) (cstr (CHR 0x40 # ''to_string'')) = Inr (vm_hs ?vm, 16)"
    using copy_string_found [OF _ _ _ small_addrs(1)] c(2) by simp
  moreover have "can_call ?vm 96 ?fn"
    by (simp add: can_call_def closure_at_def function_at_def override_vm_def override_heap_def empty_vm_def FRAMES_MAX_def)
  moreover have "vm_heap ?vm 160 = Some (OInstance \<lparr>i_properties = init_table, i_klass = 128\<rparr>)"
    "vm_heap ?vm = override_heap s t"
    by (simp_all add: override_vm_def override_heap_def)
  ultimately have o: "overridden ?vm (OBJ_VAL 160) ''to_string'' 96"
    unfolding overridden_def using small_addrs t k
    by (intro exI [of _ 160] exI [of _ "\<lparr>i_properties = init_table, i_klass = 128\<rparr>"] exI [of _ k] exI [of _ 16] exI [of _ ?fn]) (simp add: variadic_func_def)
  have "vm_stack ?vm = [] @ [NIL_VAL, OBJ_VAL 160]" "n_function to_string_native = ''native_fn_to_string''"
    and f: "vm_frame_count ?vm = 1" by (simp_all add: override_vm_def to_string_native_def)
  then have "\<exists>vm'. call_native_method (builtins re nan other 1) ?vm to_string_native 1 = Inr (vm', True) \<and>
       vm_stack vm' = [TRUE_VAL, OBJ_VAL 160] \<and> vm_frame_count vm' = 2" for re nan other
    using override_leaves_slot [OF o, of "[]" NIL_VAL to_string_native re nan other 0]
    unfolding f by (auto simp: STACK_MAX_def FRAMES_MAX_def)
  then show ?thesis by blast
qed

end
