(* ===== verification/Native_Text.thy ===== *)
theory Native_Text
  imports Native_Functions String_Correct
begin

text \<open>
  Round trips of the builtin functions between numbers and text: \<open>chr\<close> and \<open>ord\<close>, \<open>bin\<close> and \<open>to_number\<close>; and
  \<open>abs\<close> on fractions.
\<close>

section \<open>Characters and code points\<close>

lemma decode_loop_append: "decode_loop bs i n v = Inr w \<Longrightarrow> decode_loop (bs @ ys) i n v = Inr w"
  by (induction n arbitrary: i v) (auto simp: byte_at_def nth_append bindR_Inr_iff Let_def split: if_splits)

lemma utf8_decode_append: "utf8_decode bs n = Inr w \<Longrightarrow> utf8_decode (bs @ ys) n = Inr w"
  by (auto simp: utf8_decode_def byte_at_def nth_append bindR_Inr_iff decode_loop_append Let_def split: if_splits)

lemma negative_char:
  fixes y :: byte
  assumes "\<not> y \<le> 0x7f"
  shows "sint y < 1"
proof -
  have "128 \<le> uint y" using assms by (simp add: word_le_def)
  moreover have "uint y < 256" using uint_lt2p [of y] by simp
  ultimately have "(uint y - 128) mod 256 = uint y - 128" by (intro mod_pos_pos_trivial) simp_all
  moreover have "uint y + 128 = uint y - 128 + 256" by simp
  ultimately have "(uint y + 128) mod 256 = uint y - 128" by (simp only: mod_add_self2)
  then show ?thesis using \<open>uint y < 256\<close> by (simp add: sint_uint signed_take_bit_eq_take_bit_shift take_bit_eq_mod)
qed

text \<open>A character outside ASCII starts with a byte above 127; no byte of a character is zero.\<close>

lemma encode_bytes:
  assumes "code_point code" and "code \<noteq> 0"
  obtains y ys where "utf8_encode code = y # ys" "0 \<notin> set (y # ys)" "y AND 0xC0 \<noteq> 0x80"
    "ys \<noteq> [] \<longleftrightarrow> 0x7F < uint code" "ys \<noteq> [] \<Longrightarrow> sint y < 1" "length ys \<le> 2 \<longleftrightarrow> uint code \<le> 0xFFFF"
proof -
  have cont: "cont_byte c \<noteq> 0" for c
  proof
    assume "cont_byte c = 0"
    with cont_byte_tests(1) [of c] show False by simp
  qed
  from encode_leads [OF assms(1)] have l: "hd (utf8_encode code) AND 0xC0 \<noteq> 0x80" by (auto simp: is_lead_def)
  have lead: "sint y < 1 \<and> y \<noteq> 0" if "\<not> y \<le> 0x7f" for y :: byte
    using negative_char [OF that] that by auto
  from assms(1) show thesis
  proof (cases rule: encode_form)
    case one
    define y :: byte where "y = ucast (code AND 0x7F)"
    have "uint y = uint code" using one(1) by (simp add: y_def uint_ucast_bits)
    then have "y \<noteq> 0" using assms(2) by (metis uint_0_iff)
    with one l that [of y "[]"] show thesis by (simp add: y_def)
  next
    case (two y)
    with lead [OF lead_class_ascii(1)] l cont that show thesis by simp
  next
    case (three y)
    with lead [OF lead_class_ascii(2)] l cont that show thesis by simp
  next
    case (four y)
    with lead [OF lead_class_ascii(3)] l cont that show thesis by simp
  qed
qed

text \<open>
  C20: The character of a code point, and the code point of the character: \<open>ord\<close> is the inverse of \<open>chr\<close> for
  code points up to 0xFFFF. A character that \<open>chr\<close> makes of a greater code point has four bytes, and \<open>ord\<close>
  rejects it as a string.
\<close>

theorem ord_chr:
  assumes "strings_inv hs" and "fresh_for hs (Suc n)" and "tbl_room (hs_strings hs) (Suc m)" and "0 < c" and "c \<le> 0x10FFFF"
  shows "\<exists>hs' a. native_chr hs [number_val c] = Inr (hs', OBJ_VAL a) \<and> text_at hs' a = Some (utf8_encode (word_of_int c)) \<and>
           native_ord hs' [OBJ_VAL a] =
             (if c \<le> 0xFFFF then Inr (hs', number_val c) else Inl (Thrown ''ord() expects character as argument, string given''))"
proof -
  let ?code = "word_of_int c :: uint32"
  have u: "uint ?code = c" using assms(4,5) by (simp add: unsigned_of_int take_bit_int_eq_self)
  then have cp: "code_point ?code" "?code \<noteq> 0" using assms(4,5) by (auto simp: code_point_def word_le_def)
  from encode_bytes [OF cp] obtain y ys where
    e: "utf8_encode ?code = y # ys" "0 \<notin> set (y # ys)" "y AND 0xC0 \<noteq> 0x80"
      "ys \<noteq> [] \<longleftrightarrow> 0x7F < c" "ys \<noteq> [] \<Longrightarrow> sint y < 1" "length ys \<le> 2 \<longleftrightarrow> c \<le> 0xFFFF"
    unfolding u by blast
  from copy_string_run [OF assms(1-3)] obtain hs' a where
    s: "copy_string hs (y # ys) = Inr (hs', a)" "string_copied hs (y # ys) hs' a" by blast
  then have "plain_string hs' a (y # ys)" using e(2) by (intro interned_plain) (auto simp: string_copied_def)
  then obtain s where p: "string_obj hs' a = Inr s" "hs_heap hs' a = Some (OString s)" "s_chars s = y # ys"
    "s_length s = length (y # ys)" "addr_ok a" "text_at hs' a = Some (y # ys)" by (rule plain_stringE)
  have d: "utf8_decode (block s) (of_nat (s_length s)) = Inr c"
    using utf8_decode_append [OF decode_encode [OF cp(1)], of "[0]"] p(3,4) by (simp add: u e(1) block_def)
  have "int_range c" using assms(4,5) by (simp add: int_range_def)
  then have "native_chr hs [number_val c] = Inr (hs', OBJ_VAL a)"
    using s(1) e(1,2) by (simp add: native_chr_def enforce_defs ret_obj_def c_string_plain)
  moreover have "native_ord hs' [OBJ_VAL a] =
      (if c \<le> 0xFFFF then Inr (hs', number_val c) else Inl (Thrown ''ord() expects character as argument, string given''))"
    using p d e(3-6)
    by (cases ys) (auto simp: native_ord_def enforce_defs arg_string_def AS_OBJ_OBJ_VAL IS_STRING_def is_obj_type_def first_char_def block_def Let_def)
  ultimately show ?thesis using p(6) e(1) by auto
qed

theorem ord_chr_witness:
  "(\<exists>hs' a. native_chr no_strings [number_val 0x20AC] = Inr (hs', OBJ_VAL a) \<and>
      native_ord hs' [OBJ_VAL a] = Inr (hs', number_val 0x20AC)) \<and>
   (\<exists>hs' a. native_chr no_strings [number_val 0x1F600] = Inr (hs', OBJ_VAL a) \<and>
      native_ord hs' [OBJ_VAL a] = Inl (Thrown ''ord() expects character as argument, string given''))"
proof -
  have room: "fresh_for no_strings (Suc 7)" "tbl_room (hs_strings no_strings) (Suc 7)"
    using no_strings_ready by simp_all
  show ?thesis
    using ord_chr [OF no_strings_ready(1) room, of "0x20AC"] ord_chr [OF no_strings_ready(1) room, of "0x1F600"]
    by auto
qed

section \<open>Numbers as text\<close>

lemma bin_digits_step: "2 \<le> n \<Longrightarrow> bin_digits n = bin_digits (n div 2) @ [if odd n then CHR ''1'' else CHR ''0'']"
  by (subst bin_digits.simps) (auto simp: bin_digits.simps [of "n mod 2"] odd_iff_mod_2_eq_one)

lemma bin_digits_small: "bin_digits 0 = ''0''" "bin_digits (Suc 0) = ''1''"
  by (simp_all add: bin_digits.simps)

lemma bin_chars: "digit_value (CHR ''0'') = Some 0" "digit_value (CHR ''1'') = Some 1"
  by (simp_all add: digit_value_def between_def)

lemma bin_digits_value:
  "bin_digits n \<noteq> [] \<and> set (bin_digits n) \<subseteq> {CHR ''0'', CHR ''1''} \<and> digits_value 2 (bin_digits n) = n"
proof (induction n rule: less_induct)
  case (less n)
  show ?case
  proof (cases "n < 2")
    case True
    then have "n = 0 \<or> n = Suc 0" by linarith
    then show ?thesis by (auto simp: bin_digits_small digits_value_def bin_chars)
  next
    case False
    then have "bin_digits (n div 2) \<noteq> [] \<and> set (bin_digits (n div 2)) \<subseteq> {CHR ''0'', CHR ''1''} \<and> digits_value 2 (bin_digits (n div 2)) = n div 2"
      by (intro less.IH) simp
    moreover have "n div 2 * 2 + (if odd n then 1 else 0) = n"
      by (cases "odd n") (simp_all add: mult.commute odd_two_times_div_two_succ)
    ultimately show ?thesis
      using False by (cases "odd n") (simp_all add: bin_digits_step digits_value_def bin_chars)
  qed
qed

text \<open>Reading binary digits: right when a character follows them, behind the block when none does.\<close>

lemma strtol_bits:
  assumes "ds \<noteq> []" and "set ds \<subseteq> {CHR ''0'', CHR ''1''}"
  shows "strtol_block (cstr ds) 2 = Inl OutOfBounds"
    and "strtol_block (cstr ds @ [0]) 2 = Inr (min (2 ^ 63 - 1) (int (digits_value 2 ds)))"
proof -
  have "byte_char 48 = CHR ''0''" "byte_char 49 = CHR ''1''" by code_simp+
  then have chars: "map byte_char (cstr ds) = ds" using assms(2) by (induction ds) (auto simp: cstr_def)
  obtain d ds' where d: "ds = d # ds'" "d = CHR ''0'' \<or> d = CHR ''1''" using assms by (cases ds) auto
  have skip: "dropWhile is_space (ds @ xs) = ds @ xs" "take_sign (ds @ xs) = (False, ds @ xs)" for xs
    using d by (auto simp: is_space_def between_def take_sign_def)
  have dig: "\<forall>c \<in> set ds. is_digit_of 2 c" "\<not> is_digit_of 2 (CHR 0x00)"
    using assms(2) by (auto simp: is_digit_of_def bin_chars) (simp add: digit_value_def between_def)
  show "strtol_block (cstr ds) 2 = Inl OutOfBounds"
    using skip [of "[]"] dig by (simp add: strtol_block_def chars)
  have z: "byte_char 0 = CHR 0x00" by (simp add: byte_char_def char_of_def)
  have "takeWhile (is_digit_of 2) (ds @ [CHR 0x00]) = ds" "dropWhile (is_digit_of 2) (ds @ [CHR 0x00]) = [CHR 0x00]"
    using dig by (simp_all add: takeWhile_append2 dropWhile_append2)
  then show "strtol_block (cstr ds @ [0]) 2 = Inr (min (2 ^ 63 - 1) (int (digits_value 2 ds)))"
    using skip [of "[CHR 0x00]"] dig(2) by (simp add: strtol_block_def strtol_def chars z Let_def)
qed

lemma double_of_long_int: "\<bar>n\<bar> < 2 ^ 53 \<Longrightarrow> double_of_long n = double_of_int n"
  using dbl_round_exact [of n 1] by (simp add: double_of_long_def double_of_int_def [of 0] del: power_numeral)

lemma text_to_number_bits:
  assumes "ds \<noteq> []" and "set ds \<subseteq> {CHR ''0'', CHR ''1''}" and "digits_value 2 ds = nat \<bar>n\<bar>" and "\<bar>n\<bar> < 2 ^ 53"
  shows "text_to_number (cstr (''0b'' @ ds)) = Inl OutOfBounds"
    and "text_to_number (cstr (''-0b'' @ ds)) = Inr (number_val (- \<bar>n\<bar>))"
proof -
  have "0 < length ds" using assms(1) by simp
  then show "text_to_number (cstr (''0b'' @ ds)) = Inl OutOfBounds"
    using strtol_bits(1) [OF assms(1,2)] by (simp add: text_to_number_def cstr_def Let_def)
  have "take (Suc (length ds)) (cstr ds @ [0]) = cstr ds @ [0]" by (simp add: cstr_def)
  moreover have "\<not> 2 ^ 63 \<le> - \<bar>n\<bar>" by simp
  moreover have "double_of_long (- \<bar>n\<bar>) = double_of_int (- \<bar>n\<bar>)" using assms(4) by (intro double_of_long_int) simp
  ultimately show "text_to_number (cstr (''-0b'' @ ds)) = Inr (number_val (- \<bar>n\<bar>))"
    using strtol_bits(2) [OF assms(1,2)] assms(1,3,4)
    by (simp add: text_to_number_def cstr_def Let_def number_val_def)
qed

lemma c_string_end: "0 \<notin> set cs \<Longrightarrow> c_string (cs @ [0]) = cs"
  by (induction cs) (auto simp: c_string_def)

lemma value_to_string_cut:
  assumes "text_at hs a = Some t" and "addr_ok a"
  shows "value_to_string (nesting hs) (hs_heap hs) (OBJ_VAL a) = Inr (c_string t)"
proof -
  from assms(1) obtain s where s: "hs_heap hs a = Some (OString s)" "s_chars s = t"
    by (auto simp: text_at_def string_at_def split: option.splits b_obj.splits)
  then show ?thesis
    using assms(2) obj_not_singleton [OF IS_OBJ_OBJ_VAL [of a]] by (simp add: nesting_def AS_OBJ_OBJ_VAL)
qed

text \<open>
  C21: The text that \<open>bin\<close> makes of a number, given to \<open>to_number\<close>: a negative number is read back, but for
  zero and every positive number the digits are copied to a block without a terminating zero, and
  \<open>strtoll\<close> reads behind the block.
\<close>

theorem to_number_bin:
  assumes "strings_inv hs" and "fresh_for hs (Suc n)" and "tbl_room (hs_strings hs) (Suc m)" and "\<bar>x\<bar> < 2 ^ 53"
  shows "\<exists>hs' v. digits_value_of ''bin'' bin_to_string hs [number_val x] = Inr (hs', v) \<and>
           number_value hs' [v] = (if x < 0 then Inr (hs', number_val x) else Inl OutOfBounds)"
proof -
  let ?ds = "bin_digits (nat \<bar>x\<bar>)"
  define t where "t = cstr ((if x < 0 then ''-'' else []) @ ''0b'' @ ?ds)"
  have ds: "?ds \<noteq> []" "set ?ds \<subseteq> {CHR ''0'', CHR ''1''}" "digits_value 2 ?ds = nat \<bar>x\<bar>" using bin_digits_value by auto
  have z: "0 \<notin> set t" using ds(2) by (auto simp: t_def cstr_def)
  from copy_string_run [OF assms(1-3)] obtain hs' a where
    s: "copy_string hs (t @ [0]) = Inr (hs', a)" "string_copied hs (t @ [0]) hs' a" by blast
  have "value_to_number (number_val x) = double_of_int x"
    by (simp add: number_val_def number_to_value_def value_to_number_def)
  moreover have num: "IS_NUMBER (number_val x)"
    unfolding number_val_def number_to_value_def by (rule IS_NUMBER_exp, rule dbl_trunc_exp, rule dbl_trunc_of_int [OF assms(4)])
  ultimately have l: "as_long (number_val x) = Inr x" using dbl_trunc_of_int [OF assms(4)] assms(4) by (auto simp: as_long_def)
  have b: "digits_value_of ''bin'' bin_to_string hs [number_val x] = Inr (hs', OBJ_VAL a)"
    using s(1) l num by (simp add: digits_value_of_def enforce_defs bin_to_string_def ret_obj_def t_def)
  have "text_at hs' a = Some (t @ [0])" "addr_ok a" using s(2) by (simp_all add: string_copied_def)
  from value_to_string_cut [OF this] have "value_to_string (nesting hs') (hs_heap hs') (OBJ_VAL a) = Inr t"
    by (simp only: c_string_end [OF z])
  then have "number_value hs' [OBJ_VAL a] = bindR (text_to_number t) (\<lambda>v. Inr (hs', v))"
    using obj_not_singleton [OF IS_OBJ_OBJ_VAL [of a]] by (simp add: number_value_def c_string_plain [OF z])
  then show ?thesis
    using b text_to_number_bits [OF ds assms(4)] by (cases "x < 0") (auto simp: t_def)
qed

theorem to_number_bin_witness:
  "(\<exists>hs' v. digits_value_of ''bin'' bin_to_string no_strings [number_val (-5)] = Inr (hs', v) \<and>
      number_value hs' [v] = Inr (hs', number_val (-5))) \<and>
   (\<exists>hs' v. digits_value_of ''bin'' bin_to_string no_strings [number_val 5] = Inr (hs', v) \<and>
      number_value hs' [v] = Inl OutOfBounds)"
proof -
  have room: "fresh_for no_strings (Suc 7)" "tbl_room (hs_strings no_strings) (Suc 7)"
    using no_strings_ready by simp_all
  show ?thesis
    using to_number_bin [OF no_strings_ready(1) room, of "-5"] to_number_bin [OF no_strings_ready(1) room, of 5] by auto
qed

section \<open>Absolute values\<close>

text \<open>Every number above minus one is returned as it is: minus one half is its own absolute value.\<close>

lemma abs_keeps_fraction: "abs_value hs [0xBFE0000000000000] = Inr (hs, 0xBFE0000000000000)"
proof -
  have "ilog2 (Suc 0) = 0" by (subst ilog2.simps) simp
  then have "double_of_int (-1) = 0xBFF0000000000000" by (simp add: double_of_int_def dbl_pack_def)
  then have "IS_NUMBER 0xBFE0000000000000" "dbl_gt (value_to_number 0xBFE0000000000000) (double_of_int (-1))"
    by (simp_all add: IS_NUMBER_def val_consts value_to_number_def dbl_gt_def dbl_is_nan_def dbl_exp_def dbl_key_def dbl_sign_def)
  then show ?thesis by (simp add: abs_value_def enforce_defs)
qed

end
