(* ===== verification/Compiler_Names.thy ===== *)
theory Compiler_Names
  imports Compiler_Emit
begin

text \<open>
  Names in the compiler: a name of a function that is declared in a function around it is resolved to
  an up-value, and the chain of up-values leads to the innermost variable with that name.
\<close>

text \<open>The last local with a name.\<close>

lemma resolve_loop_iff:
  "resolve_loop name ls n = (i, u) \<longleftrightarrow>
     (if \<exists>k < n. lo_name (ls ! k) = name
      then \<exists>k < n. i = int k \<and> lo_name (ls ! k) = name \<and> (\<forall>j. k < j \<and> j < n \<longrightarrow> lo_name (ls ! j) \<noteq> name) \<and> u = (lo_depth (ls ! k) = -1)
      else i = -1 \<and> \<not> u)"
proof (induction n)
  case (Suc n)
  show ?case
  proof (cases "lo_name (ls ! n) = name")
    case True
    then show ?thesis by (auto simp: less_Suc_eq)
  next
    case False
    then have "(\<exists>k < Suc n. lo_name (ls ! k) = name) = (\<exists>k < n. lo_name (ls ! k) = name)" by (auto simp: less_Suc_eq)
    with False show ?thesis unfolding resolve_loop.simps using Suc by (auto simp: less_Suc_eq)
  qed
qed auto

definition last_local :: "string \<Rightarrow> b_compiler \<Rightarrow> nat option" where
  "last_local name c =
     (case resolve_loop name (cp_locals c) (length (cp_locals c)) of (i, _) \<Rightarrow> if i = -1 then None else Some (nat i))"

text \<open>The variable a name means in the functions around: how many functions out, and which of its locals.\<close>

fun binding :: "string \<Rightarrow> b_compiler list \<Rightarrow> (nat \<times> nat) option" where
  "binding name [] = None"
| "binding name (e # es) =
     (case last_local name e of
        Some k \<Rightarrow> Some (0, k)
      | None \<Rightarrow> map_option (\<lambda>(d, k). (Suc d, k)) (binding name es))"

text \<open>Where the chain of up-values from an up-value of the first function ends.\<close>

fun denotes :: "b_compiler list \<Rightarrow> nat \<Rightarrow> (nat \<times> nat) option" where
  "denotes [] i = None"
| "denotes (c # cs) i =
     (if i < length (cp_up_values c)
      then if up_is_local (cp_up_values c ! i) then Some (0, unat (up_index (cp_up_values c ! i)))
           else map_option (\<lambda>(d, k). (Suc d, k)) (denotes cs (unat (up_index (cp_up_values c ! i))))
      else None)"

section \<open>What resolving keeps\<close>

text \<open>The function object of a compiler counts its up-values, and different compilers have different ones.\<close>

definition counted :: "b_vm \<Rightarrow> b_compiler \<Rightarrow> bool" where
  "counted vm c = (\<exists>fn. vm_heap vm (cp_function c) = Some (OFunction fn) \<and> f_up_value_count fn = length (cp_up_values c))"

definition chain_inv :: "b_vm \<Rightarrow> b_compiler list \<Rightarrow> bool" where
  "chain_inv vm cs = (distinct (map cp_function cs) \<and> (\<forall>c \<in> set cs. counted vm c))"

text \<open>A compiler may get one more up-value and captured locals; old up-values keep their place.\<close>

definition kept :: "b_compiler \<Rightarrow> b_compiler \<Rightarrow> bool" where
  "kept c c' =
     (cp_function c' = cp_function c \<and> map lo_name (cp_locals c') = map lo_name (cp_locals c) \<and>
      (cp_up_values c' = cp_up_values c \<or> (\<exists>u. cp_up_values c' = cp_up_values c @ [u])))"

definition resolved :: "b_parser \<Rightarrow> b_compiler list \<Rightarrow> b_parser \<Rightarrow> b_compiler list \<Rightarrow> bool" where
  "resolved p cs p' cs' =
     (chain_inv (ps_vm p') cs' \<and> list_all2 kept cs cs' \<and>
      (\<forall>a. a \<notin> cp_function ` set cs \<longrightarrow> vm_heap (ps_vm p') a = vm_heap (ps_vm p) a))"

lemma kept_refl: "kept c c"
  by (simp add: kept_def)

lemma list_all2_kept_refl: "list_all2 kept cs cs"
  by (simp add: list.rel_refl kept_refl)

lemma kept_functions: "list_all2 kept cs cs' \<Longrightarrow> map cp_function cs' = map cp_function cs"
  by (induction rule: list_all2_induct) (auto simp: kept_def)

lemma counted_frame: "counted vm c \<Longrightarrow> vm_heap vm' (cp_function c) = vm_heap vm (cp_function c) \<Longrightarrow> counted vm' c"
  by (simp add: counted_def)

lemma chain_inv_frame:
  assumes "chain_inv vm cs" and "x \<notin> cp_function ` set cs" and "\<And>a. a \<noteq> x \<Longrightarrow> vm_heap vm' a = vm_heap vm a"
  shows "chain_inv vm' cs"
proof -
  have "counted vm' c" if "c \<in> set cs" for c
  proof (rule counted_frame)
    show "counted vm c" using that assms(1) by (simp add: chain_inv_def)
    show "vm_heap vm' (cp_function c) = vm_heap vm (cp_function c)" using that assms(2) by (intro assms(3)) auto
  qed
  then show ?thesis using assms(1) by (simp add: chain_inv_def)
qed

section \<open>Resolving a name\<close>

lemma resolve_local_result:
  "\<exists>q. resolve_local c name p = Inr (q, case last_local name c of None \<Rightarrow> -1 | Some k \<Rightarrow> int k) \<and> ps_vm q = ps_vm p \<and>
     (\<forall>k. last_local name c = Some k \<longrightarrow> k < length (cp_locals c) \<and> lo_name (cp_locals c ! k) = name)"
proof -
  obtain i u where iu: "resolve_loop name (cp_locals c) (length (cp_locals c)) = (i, u)" by fastforce
  then have "i = (case last_local name c of None \<Rightarrow> -1 | Some k \<Rightarrow> int k)"
    "\<forall>k. last_local name c = Some k \<longrightarrow> k < length (cp_locals c) \<and> lo_name (cp_locals c ! k) = name"
    using resolve_loop_iff [of name "cp_locals c" "length (cp_locals c)" i u] by (auto simp: last_local_def split: if_splits)
  then show ?thesis using iu by (auto simp: resolve_local_def error_def error_at_def)
qed

lemma find_up_value_Some:
  "find_up_value us ix l n = Some i \<Longrightarrow> n \<le> i \<and> i < n + length us \<and> up_index (us ! (i - n)) = ix \<and> up_is_local (us ! (i - n)) = l"
proof (induction us arbitrary: n)
  case (Cons u us)
  then show ?case by (fastforce simp: nth_Cons' split: if_splits)
qed simp

lemma add_up_value_result:
  assumes "counted (ps_vm p) c" and "length (cp_up_values c) < UINT8_COUNT"
  shows "\<exists>q c' i. add_up_value c ix l p = Inr (q, c', int i) \<and> kept c c' \<and> counted (ps_vm q) c' \<and> i < length (cp_up_values c') \<and>
           up_index (cp_up_values c' ! i) = ix \<and> up_is_local (cp_up_values c' ! i) = l \<and>
           (\<forall>a. a \<noteq> cp_function c \<longrightarrow> vm_heap (ps_vm q) a = vm_heap (ps_vm p) a)"
proof (cases "find_up_value (cp_up_values c) ix l 0")
  case (Some i)
  then show ?thesis using find_up_value_Some [OF Some] assms by (auto simp: add_up_value_def kept_refl)
next
  case None
  from assms(1) obtain fn where fn: "vm_heap (ps_vm p) (cp_function c) = Some (OFunction fn)"
    "f_up_value_count fn = length (cp_up_values c)" by (auto simp: counted_def)
  let ?c = "c\<lparr>cp_up_values := cp_up_values c @ [\<lparr>up_index = ix, up_is_local = l\<rparr>]\<rparr>"
  let ?q = "p\<lparr>ps_vm := vm_put (ps_vm p) (cp_function c) (OFunction (fn\<lparr>f_up_value_count := f_up_value_count fn + 1\<rparr>))\<rparr>"
  have "add_up_value c ix l p = Inr (?q, ?c, int (length (cp_up_values c)))"
    using None assms(2) fn by (simp add: add_up_value_def upd_function_at_def function_at_def)
  moreover have "kept c ?c" "counted (ps_vm ?q) ?c" using fn(2) by (simp_all add: kept_def counted_def vm_put_def)
  ultimately show ?thesis by (fastforce simp: vm_put_def)
qed

lemma denotes_bound: "denotes (c # cs) i = Some x \<Longrightarrow> i < length (cp_up_values c)"
  by (auto split: if_splits)

text \<open>A result is right when the up-value leads to the variable that the name means.\<close>

definition right_up_value :: "(nat \<times> nat) option \<Rightarrow> b_compiler list \<Rightarrow> b_compiler list \<Rightarrow> int \<Rightarrow> bool" where
  "right_up_value bound cs cs' i =
     (case bound of
        None \<Rightarrow> i = -1 \<and> cs' = cs
      | Some (d, k) \<Rightarrow> 0 \<le> i \<and> denotes cs' (nat i) = Some (d, k) \<and> lo_is_captured (cp_locals (cs' ! Suc d) ! k))"

lemma unat_word_of_nat: "k < 65536 \<Longrightarrow> unat (word_of_int (int k) :: uint16) = k"
  by (simp add: unat_of_nat take_bit_nat_eq_self flip: of_nat_def)

definition small_chain :: "b_compiler list \<Rightarrow> bool" where
  "small_chain cs = (\<forall>c \<in> set cs. length (cp_up_values c) < UINT8_COUNT \<and> length (cp_locals c) \<le> UINT8_COUNT)"

lemma resolve_up_value_found:
  assumes "chain_inv (ps_vm p) (c # e # cs)" and "small_chain (c # e # cs)" and "last_local name e = Some k"
  shows "\<exists>p' cs' i. resolve_up_value name (c # e # cs) p = Inr (p', cs', i) \<and>
           right_up_value (Some (0, k)) (c # e # cs) cs' i \<and> resolved p (c # e # cs) p' cs'"
proof -
  from resolve_local_result [of e name p] assms(3) obtain q where
    q: "resolve_local e name p = Inr (q, int k)" "ps_vm q = ps_vm p" "k < length (cp_locals e)" by auto
  let ?e = "e\<lparr>cp_locals := (cp_locals e)[k := (cp_locals e ! k)\<lparr>lo_is_captured := True\<rparr>]\<rparr>"
  from add_up_value_result [of q c "word_of_int (int k)" True] assms(1,2) q(2) obtain r c' i where
    r: "add_up_value c (word_of_int (int k)) True q = Inr (r, c', int i)" "kept c c'" "counted (ps_vm r) c'"
      "i < length (cp_up_values c')" "up_index (cp_up_values c' ! i) = word_of_int (int k)" "up_is_local (cp_up_values c' ! i)"
      "\<And>a. a \<noteq> cp_function c \<Longrightarrow> vm_heap (ps_vm r) a = vm_heap (ps_vm p) a"
    by (auto simp: chain_inv_def small_chain_def)
  have "k < 65536" using q(3) assms(2) by (simp add: small_chain_def UINT8_COUNT_def)
  then have right: "right_up_value (Some (0, k)) (c # e # cs) (c' # ?e # cs) (int i)"
    using r(4-6) q(3) unat_word_of_nat [of k] by (simp add: right_up_value_def)
  have fns: "cp_function c' = cp_function c" "cp_function ?e = cp_function e" using r(2) by (simp_all add: kept_def)
  have "chain_inv (ps_vm p) (e # cs)" "cp_function c \<notin> cp_function ` set (e # cs)" using assms(1) by (simp_all add: chain_inv_def)
  then have "chain_inv (ps_vm r) (e # cs)" using r(7) by (rule chain_inv_frame)
  then have "chain_inv (ps_vm r) (c' # ?e # cs)" using assms(1) r(3) fns by (simp add: chain_inv_def counted_def)
  moreover have "kept e ?e" using q(3) by (simp add: kept_def map_update list_update_same_conv)
  ultimately have "resolved p (c # e # cs) r (c' # ?e # cs)"
    using r(2,7) list_all2_kept_refl by (simp add: resolved_def)
  then show ?thesis using q(1) r(1) right by auto
qed

lemma resolve_up_value_result:
  "chain_inv (ps_vm p) (c # cs) \<Longrightarrow> small_chain (c # cs) \<Longrightarrow>
     \<exists>p' cs' i. resolve_up_value name (c # cs) p = Inr (p', cs', i) \<and>
       right_up_value (binding name cs) (c # cs) cs' i \<and> resolved p (c # cs) p' cs'"
proof (induction cs arbitrary: c p)
  case Nil
  then show ?case by (simp add: right_up_value_def resolved_def kept_refl)
next
  case (Cons e cs)
  show ?case
  proof (cases "last_local name e")
    case (Some k)
    then show ?thesis using resolve_up_value_found [OF Cons.prems Some] by simp
  next
    case None
    from resolve_local_result [of e name p] None obtain q where
      q: "resolve_local e name p = Inr (q, -1)" "ps_vm q = ps_vm p" by auto
    have "chain_inv (ps_vm q) (e # cs)" "small_chain (e # cs)" using Cons.prems q(2) by (auto simp: chain_inv_def small_chain_def)
    from Cons.IH [OF this] obtain r es j where
      r: "resolve_up_value name (e # cs) q = Inr (r, es, j)" "right_up_value (binding name cs) (e # cs) es j" "resolved q (e # cs) r es" by blast
    have fns: "map cp_function es = map cp_function (e # cs)" using r(3) kept_functions unfolding resolved_def by blast
    have c: "cp_function c \<notin> cp_function ` set (e # cs)" "counted (ps_vm r) c"
      using Cons.prems(1) r(3) q(2) by (auto simp: chain_inv_def resolved_def intro!: counted_frame [of "ps_vm p"])
    show ?thesis
    proof (cases "binding name cs")
      case None
      then have "resolve_up_value name (c # e # cs) p = Inr (r, c # e # cs, -1)" "es = e # cs"
        using q(1) r(1,2) by (simp_all add: right_up_value_def)
      moreover have "resolved p (c # e # cs) r (c # e # cs)"
        using r(3) c q(2) \<open>es = e # cs\<close> by (auto simp: resolved_def chain_inv_def kept_refl list_all2_kept_refl)
      ultimately show ?thesis using \<open>last_local name e = None\<close> None by (auto simp: right_up_value_def)
    next
      case (Some x)
      then obtain d k where dk: "binding name cs = Some (d, k)" by (cases x) simp
      then have j: "0 \<le> j" "denotes es (nat j) = Some (d, k)" "lo_is_captured (cp_locals (es ! Suc d) ! k)"
        using r(2) by (simp_all add: right_up_value_def)
      obtain e' es' where es: "es = e' # es'" "kept e e'" using r(3) by (auto simp: resolved_def list_all2_Cons1)
      have "length (cp_up_values e') \<le> UINT8_COUNT" using es(2) Cons.prems(2) by (auto simp: kept_def small_chain_def)
      moreover have "nat j < length (cp_up_values e')" using j(2) denotes_bound unfolding es(1) by blast
      ultimately have w: "unat (word_of_int j :: uint16) = nat j"
        using j(1) unat_word_of_nat [of "nat j"] by (simp add: UINT8_COUNT_def)
      from add_up_value_result [OF c(2), of "word_of_int j" False] Cons.prems(2) obtain s c' i where
        s: "add_up_value c (word_of_int j) False r = Inr (s, c', int i)" "kept c c'" "counted (ps_vm s) c'"
          "i < length (cp_up_values c')" "up_index (cp_up_values c' ! i) = word_of_int j" "\<not> up_is_local (cp_up_values c' ! i)"
          "\<And>a. a \<noteq> cp_function c \<Longrightarrow> vm_heap (ps_vm s) a = vm_heap (ps_vm r) a"
        by (auto simp: small_chain_def)
      have "resolve_up_value name (c # e # cs) p = Inr (s, c' # es, int i)" using q(1) r(1) s(1) j(1) by auto
      moreover have "right_up_value (binding name (e # cs)) (c # e # cs) (c' # es) (int i)"
        using \<open>last_local name e = None\<close> dk s(4-6) j(2,3) w by (simp add: right_up_value_def)
      moreover have "resolved p (c # e # cs) s (c' # es)"
      proof -
        have fn: "cp_function c \<notin> cp_function ` set es" using c(1) fns by (metis set_map)
        have "chain_inv (ps_vm s) es"
          by (rule chain_inv_frame [OF _ fn s(7)]) (use r(3) in \<open>simp_all add: resolved_def\<close>)
        moreover have "cp_function c' \<notin> cp_function ` set es" using fn s(2) by (simp add: kept_def)
        ultimately show ?thesis using r(3) s(2,3,7) q(2) by (auto simp: resolved_def chain_inv_def)
      qed
      ultimately show ?thesis by blast
    qed
  qed
qed

text \<open>
  C7: Lexical scope of captured names: when no function of the chain is full, resolving a name that is
  not a local of the current function always returns. If a function around declares the name, the
  up-value it returns leads, through the up-values of the functions between, to the last variable of
  that name in the innermost such function, and this variable is marked as captured; otherwise nothing
  changes and the result is -1. No compiler loses an up-value or a local, each function object counts
  its up-values as before, and no other object changes.
\<close>

theorem resolve_up_value_lexical:
  assumes "chain_inv (ps_vm p) (c # cs)" and "small_chain (c # cs)"
  shows "\<exists>p' cs' i. resolve_up_value name (c # cs) p = Inr (p', cs', i) \<and>
           (case binding name cs of
              None \<Rightarrow> i = -1 \<and> cs' = c # cs
            | Some (d, k) \<Rightarrow> 0 \<le> i \<and> denotes cs' (nat i) = Some (d, k) \<and> lo_is_captured (cp_locals (cs' ! Suc d) ! k)) \<and>
           chain_inv (ps_vm p') cs' \<and> list_all2 kept (c # cs) cs' \<and>
           (\<forall>a. a \<notin> cp_function ` set (c # cs) \<longrightarrow> vm_heap (ps_vm p') a = vm_heap (ps_vm p) a)"
  using resolve_up_value_result [OF assms, of name] unfolding right_up_value_def resolved_def .

definition nest_compiler :: "addr \<Rightarrow> string list \<Rightarrow> b_compiler" where
  "nest_compiler a names =
     \<lparr>cp_function = a, cp_type = TYPE_FUNCTION, cp_locals = map (\<lambda>x. \<lparr>lo_name = x, lo_depth = 0, lo_is_captured = False\<rparr>) names,
      cp_up_values = [], cp_scope_depth = 1, cp_handler_count = 0\<rparr>"

definition nest_parser :: b_parser where
  "nest_parser =
     new_parser (empty_vm\<lparr>vm_heap := \<lambda>a. if a \<in> {32, 64, 96}
       then Some (OFunction \<lparr>f_type = TYPE_FUNCTION, f_arity = 0, f_up_value_count = 0, f_is_variadic = False, f_blob = init_blob,
              f_name = None, f_module = None\<rparr>) else None\<rparr>) [] 0 []"

text \<open>A function in a function in a function: \<open>x\<close> of the outermost is found two functions out.\<close>

theorem resolve_up_value_lexical_witness:
  "\<exists>p' cs' i. resolve_up_value ''x'' [nest_compiler 96 [], nest_compiler 64 [''y''], nest_compiler 32 [''x'', ''x'']] nest_parser =
     Inr (p', cs', i) \<and> denotes cs' (nat i) = Some (1, 1)"
proof -
  let ?cs = "[nest_compiler 64 [''y''], nest_compiler 32 [''x'', ''x'']]"
  have "chain_inv (ps_vm nest_parser) (nest_compiler 96 [] # ?cs)" "small_chain (nest_compiler 96 [] # ?cs)"
    by (simp_all add: chain_inv_def counted_def small_chain_def nest_compiler_def nest_parser_def new_parser_def UINT8_COUNT_def)
  from resolve_up_value_lexical [OF this, of "''x''"] have
    "\<exists>p' cs' i. resolve_up_value ''x'' (nest_compiler 96 [] # ?cs) nest_parser = Inr (p', cs', i) \<and>
       (case binding ''x'' ?cs of None \<Rightarrow> i = -1 \<and> cs' = nest_compiler 96 [] # ?cs
        | Some (d, k) \<Rightarrow> 0 \<le> i \<and> denotes cs' (nat i) = Some (d, k) \<and> lo_is_captured (cp_locals (cs' ! Suc d) ! k))" by blast
  moreover have "binding ''x'' ?cs = Some (1, 1)" by (simp add: last_local_def nest_compiler_def eval_nat_numeral)
  ultimately show ?thesis by auto
qed

end
