(* ===== verification/Compiler_Table.thy ===== *)
theory Compiler_Table
  imports Expr_Run
begin

text \<open>
  The table of parse rules has one hole: the loop over infix operators calls the function of every
  token whose precedence is high enough, and \<open>~\<close> has a precedence but no such function.
\<close>

lemma symbol_hole: "PREC_NONE < pr_precedence (symbol_rule s) \<and> pr_infix (symbol_rule s) = None \<longleftrightarrow> s = TILDE_TOKEN"
  by (cases s) (simp_all add: rule_defs)

lemma keyword_hole: "PREC_NONE < pr_precedence (keyword_rule k) \<Longrightarrow> pr_infix (keyword_rule k) \<noteq> None"
  by (cases k) (simp_all add: rule_defs)

lemma infix_hole: "PREC_NONE < pr_precedence (get_rule t) \<and> pr_infix (get_rule t) = None \<longleftrightarrow> t = Symbol TILDE_TOKEN"
  using symbol_hole keyword_hole by (cases t) (auto simp: rule_defs)

text \<open>
  C10: The parser calls a null pointer on an operand followed by \<open>~\<close>, as in \<open>1 ~ 2\<close>, instead of
  reporting an error; \<open>~\<close> is the only token with a precedence and no infix function.
\<close>

theorem tilde_calls_null:
  assumes "fits n (ELit t)" and "tokens p (t # u # v # ts)" and "tk_type u = Symbol TILDE_TOKEN" and "n \<le> PREC_UNARY"
    and "ready p" and "\<not> vm_is_repl (ps_vm p)" and "2 \<le> N"
    and "int (const_count p + length (econsts (sc_source (ps_scanner p)) (ELit t))) \<le> UINT16_MAX"
  shows "parse N fs (Parse_Precedence n) p = Inl NullPointer \<and>
           (\<forall>ty. PREC_NONE < pr_precedence (get_rule ty) \<and> pr_infix (get_rule ty) = None \<longleftrightarrow> ty = Symbol TILDE_TOKEN)"
proof -
  from assms(7) obtain M where N: "N = Suc (Suc M)" by (metis One_nat_def Suc_1 Suc_le_D Suc_le_mono)
  let ?cx = "context_of (Suc M) fs" and ?ca = "n \<le> PREC_ASSIGNMENT"
  let ?round = "infix_round ?cx n ?ca"
  have "can_parse n p (ELit t) u (v # ts)" using assms by (simp add: can_parse_def)
  from parse_literal [OF this, of ?cx ?ca] obtain p' where
    p': "seqR [advance_p, prefix_part ?cx ?ca] p = Inr p'" "parsed p (ELit t) p' (u # v # ts)" by blast
  have tk: "tokens p' (u # v # ts)" using p'(2) by (simp add: parsed_def)
  have cur: "ps_current p' = u" using tk tokens_current by auto
  obtain s where s: "advance_p p' = Inr (at_token p' s v u)" using advance_tokens [OF tk] by blast
  have crash: "?round p' = Inl NullPointer"
    using assms(3,4) s by (simp add: infix_round_def cur ignore_whitespace_none)
  from advance_tokens [OF assms(2)] obtain s' where q: "advance_p p = Inr (at_token p s' u t)" by blast
  obtain f where f: "pr_prefix (get_rule (tk_type t)) = Some f" using hd_toks_prefix [OF assms(1)] by auto
  have nl: "tk_type (ps_current p) \<noteq> Symbol NEWLINE_TOKEN"
    using hd_toks_not_newline [OF assms(1)] assms(2) by (auto simp: tokens_def)
  have "prefix_part ?cx ?ca (at_token p s' u t) = Inr p'" using p'(1) q by (simp add: bindR_Inr_iff)
  then have "parse N fs (Parse_Precedence n) p = Inl NullPointer"
    using assms(6) q f crash nl
    by (simp add: N parse_Suc run_call_def parse_precedence_def repl_at_end_def ignore_whitespace_none do_parse_precedence_def
        prefix_part_def context_of_def del: parse.simps)
  then show ?thesis using infix_hole by blast
qed

theorem tilde_calls_null_witness:
  "\<forall>fs. \<exists>p. advance_p (parser_on ''1~2'') = Inr p \<and> parse 2 fs (Parse_Precedence PREC_ASSIGNMENT) p = Inl NullPointer"
proof
  fix fs
  let ?t = "sample_token REG_NUMBER_TOKEN 0 1" and ?u = "sample_token (Symbol TILDE_TOKEN) 1 1"
    and ?v = "sample_token REG_NUMBER_TOKEN 2 1" and ?e = "sample_token EOF_TOKEN 3 0"
  have scan: "scan_tokens 4 (init_scanner ''1~2'') = Inr (?t # ?u # ?v # [?e])" by code_simp
  obtain p where p: "tokens p (?t # ?u # ?v # [?e])" "ready p" "\<not> vm_is_repl (ps_vm p)" "const_count p = 0"
    "sc_source (ps_scanner p) = ''1~2''" "advance_p (parser_on ''1~2'') = Inr p"
    by (rule parser_on_ready [OF _ scan]) (auto simp: sample_token_def)
  have e: "fits PREC_ASSIGNMENT (ELit ?t)" "tk_type ?u = Symbol TILDE_TOKEN" "PREC_ASSIGNMENT \<le> PREC_UNARY" "2 \<le> (2::nat)"
    "int (const_count p + length (econsts (sc_source (ps_scanner p)) (ELit ?t))) \<le> UINT16_MAX"
    using p(4) by (simp_all add: sample_token_def UINT16_MAX_def)
  have "parse 2 fs (Parse_Precedence PREC_ASSIGNMENT) p = Inl NullPointer"
    using tilde_calls_null [OF e(1) p(1) e(2,3) p(2,3) e(4,5), of fs] by blast
  then show "\<exists>p. advance_p (parser_on ''1~2'') = Inr p \<and> parse 2 fs (Parse_Precedence PREC_ASSIGNMENT) p = Inl NullPointer"
    using p(6) by blast
qed

end
