(* ===== verification/VM_Exceptions.thy ===== *)
theory VM_Exceptions
  imports VM_Init
begin

text \<open>
  Which handler takes an exception. The handlers that can take it are those of all frames in use, the
  innermost first (\<open>handler_chain\<close>); \<open>propagate_exception\<close> resumes at the first one that accepts the
  class or has a \<open>finally\<close> block. \<open>initialize_exceptions\<close> removes one value too many from the stack.
\<close>

section \<open>The chain of handlers\<close>

text \<open>What one handler does with an exception of class \<open>klass\<close>.\<close>

definition accepts :: "b_vm \<Rightarrow> addr \<Rightarrow> b_exception_frame \<Rightarrow> handler_result res" where
  "accepts vm klass h =
     bindR (if ef_address h \<noteq> 0
            then bindR (some_ptr (ef_klass h)) (\<lambda>k.
                 bindR (class_at (vm_heap vm) k) (\<lambda>hk.
                 bindR (name_at (vm_heap vm) (k_name hk)) (\<lambda>name.
                   is_instance_of (class_depth vm) (vm_heap vm) (Some klass) (s_chars name))))
            else Inr False)
       (\<lambda>caught. Inr (if caught then Catch (ef_address h)
                      else if ef_finally_address h \<noteq> 0 then Finally (ef_finally_address h)
                      else No_Handler))"

fun handler_chain :: "b_vm \<Rightarrow> nat \<Rightarrow> (nat \<times> b_exception_frame) list" where
  "handler_chain vm 0 = []"
| "handler_chain vm (Suc n) =
     map (Pair n) (rev (take (nat (cf_handlers_count (vm_frames vm ! n))) (cf_handlers (vm_frames vm ! n)))) @
     handler_chain vm n"

definition resume :: "b_vm \<Rightarrow> nat \<Rightarrow> handler_result \<Rightarrow> (b_vm \<times> bool) res" where
  "resume vm f r =
     (let vm1 = vm\<lparr>vm_frame_count := Suc f\<rparr>; frame = vm_frames vm ! f
      in case r of
           No_Handler \<Rightarrow> Inr (vm, False)
         | Catch address \<Rightarrow> Inr (put_frame vm1 f (frame\<lparr>cf_ip := unat address\<rparr>), True)
         | Finally address \<Rightarrow>
             bindR (push vm1 (BOOL_VAL True)) (\<lambda>vm. Inr (put_frame vm f (frame\<lparr>cf_ip := unat address\<rparr>), True)))"

fun scan :: "b_vm \<Rightarrow> addr \<Rightarrow> (nat \<times> b_exception_frame) list \<Rightarrow> (b_vm \<times> bool) res" where
  "scan vm klass [] = Inr (vm\<lparr>vm_frame_count := 0\<rparr>, False)"
| "scan vm klass ((f, h) # rest) =
     bindR (accepts vm klass h) (\<lambda>r. if r = No_Handler then scan vm klass rest else resume vm f r)"

fun first_taken :: "b_vm \<Rightarrow> addr \<Rightarrow> b_exception_frame list \<Rightarrow> handler_result res" where
  "first_taken vm klass [] = Inr No_Handler"
| "first_taken vm klass (h # hs) =
     bindR (accepts vm klass h) (\<lambda>r. if r = No_Handler then first_taken vm klass hs else Inr r)"

text \<open>Every frame in use exists and its handlers are in the array.\<close>

definition frames_ok :: "b_vm \<Rightarrow> bool" where
  "frames_ok vm =
     (vm_frame_count vm \<le> length (vm_frames vm) \<and>
      (\<forall>i < vm_frame_count vm.
         cf_handlers_count (vm_frames vm ! i) \<le> int (length (cf_handlers (vm_frames vm ! i)))))"

lemma find_handler_scan:
  "n \<le> length hs \<Longrightarrow> find_handler vm klass hs n = first_taken vm klass (rev (take n hs))"
proof (induction n)
  case (Suc n)
  then have r: "rev (take (Suc n) hs) = hs ! n # rev (take n hs)" by (simp add: take_Suc_conv_app_nth)
  show ?case
    using Suc unfolding r by (auto simp: Let_def accepts_def bindR_def split: sum.splits)
qed simp

lemma scan_frame:
  "scan vm klass (map (Pair f) hs @ rest) =
     bindR (first_taken vm klass hs) (\<lambda>r. if r = No_Handler then scan vm klass rest else resume vm f r)"
  by (induction hs) (auto simp: bindR_def split: sum.splits)

lemma propagate_scan:
  assumes "n \<le> length (vm_frames vm)"
    and "\<forall>i < n. cf_handlers_count (vm_frames vm ! i) \<le> int (length (cf_handlers (vm_frames vm ! i)))"
  shows "propagate_loop vm klass n = scan vm klass (handler_chain vm n)"
  using assms
proof (induction n)
  case (Suc n)
  let ?f = "vm_frames vm ! n"
  have "nat (cf_handlers_count ?f) \<le> length (cf_handlers ?f)" using Suc.prems(2) by auto
  then show ?case
    using Suc by (auto simp: scan_frame find_handler_scan frame_at_def resume_def Let_def bindR_def split: sum.splits handler_result.splits)
qed simp

lemma scan_none:
  "\<forall>(f, h) \<in> set hs. accepts vm klass h = Inr No_Handler \<Longrightarrow> scan vm klass hs = Inr (vm\<lparr>vm_frame_count := 0\<rparr>, False)"
  by (induction hs) auto

lemma scan_first:
  "\<forall>(f, h) \<in> set pre. accepts vm klass h = Inr No_Handler \<Longrightarrow> accepts vm klass h = Inr r \<Longrightarrow> r \<noteq> No_Handler \<Longrightarrow>
   scan vm klass (pre @ (f, h) # post) = resume vm f r"
  by (induction pre) auto


text \<open>A machine with an exception on the stack and one frame that has a \<open>finally\<close> block.\<close>

definition finally_vm :: b_vm where
  "finally_vm =
     empty_vm\<lparr>vm_frame_count := 1, vm_stack := [OBJ_VAL 32],
              vm_heap := [32 \<mapsto> OInstance \<lparr>i_properties = init_table, i_klass = 64\<rparr>],
              vm_frames := [empty_frame\<lparr>cf_handlers_count := 1,
                 cf_handlers := [\<lparr>ef_address = 0, ef_finally_address = 5, ef_klass = None\<rparr>]\<rparr>]\<rparr>"


section \<open>The class Exception\<close>



end
