(* ===== verification/VM_Upvalues.thy ===== *)
theory VM_Upvalues
  imports VM_Init
begin

text \<open>
  Captured variables. The open up-values form a list in the heap, linked through \<open>next\<close> and ordered by
  descending stack slot (\<open>open_inv\<close>). Capturing keeps the list in order and gives each slot one
  up-value; closing copies the value of each slot that goes away into its up-value, so that a captured
  variable has the same value before and after the function that owned it returns.
\<close>

section \<open>The list of open up-values\<close>

fun uv_path :: "heap \<Rightarrow> addr option \<Rightarrow> (addr \<times> nat) list \<Rightarrow> addr option \<Rightarrow> bool" where
  "uv_path hp p [] q = (p = q)"
| "uv_path hp p ((a, s) # us) q =
     (p = Some a \<and> (\<exists>u. hp a = Some (OUpValue u) \<and> uv_location u = Some s \<and> uv_path hp (uv_next u) us q))"

definition open_inv :: "b_vm \<Rightarrow> (addr \<times> nat) list \<Rightarrow> bool" where
  "open_inv vm us =
     (uv_path (vm_heap vm) (vm_open_up_values vm) us None \<and> sorted_wrt (>) (map snd us) \<and>
      (\<forall>(a, s) \<in> set us. s < length (vm_stack vm)) \<and> length us \<le> length (vm_objects vm))"

lemma uv_path_append: "uv_path hp p (us @ vs) r \<longleftrightarrow> (\<exists>q. uv_path hp p us q \<and> uv_path hp q vs r)"
  by (induction us arbitrary: p) (auto, blast+)

lemma uv_path_update: "b \<notin> fst ` set us \<Longrightarrow> uv_path (hp(b := x)) p us q = uv_path hp p us q"
  by (induction us arbitrary: p) auto

lemma uv_path_at:
  "uv_path hp p us q \<Longrightarrow> (a, s) \<in> set us \<Longrightarrow> \<exists>u. hp a = Some (OUpValue u) \<and> uv_location u = Some s"
  by (induction us arbitrary: p) auto

lemma uv_path_slot:
  "uv_path hp p us q \<Longrightarrow> (a, s) \<in> set us \<Longrightarrow> (a, t) \<in> set us \<Longrightarrow> s = t"
  by (metis b_obj.inject(7) option.inject uv_path_at)

text \<open>Since an up-value has one slot and the slots descend, no address is in the list twice.\<close>

lemma uv_path_tl_notin:
  assumes "uv_path hp p ((a, s) # us) q" and "sorted_wrt (>) (map snd ((a, s) # us))"
  shows "a \<notin> fst ` set us"
proof
  assume "a \<in> fst ` set us"
  then obtain t where t: "(a, t) \<in> set us" by auto
  then have "s = t" using uv_path_slot [OF assms(1), of a s t] by simp
  moreover have "t < s" using assms(2) t by force
  ultimately show False by simp
qed

section \<open>Closing\<close>

definition closes :: "nat \<Rightarrow> addr \<times> nat \<Rightarrow> bool" where
  "closes stop = (\<lambda>(a, s). stop \<le> s)"

lemma close_up_values_list:
  assumes "uv_path (vm_heap vm) (vm_open_up_values vm) us None" and "sorted_wrt (>) (map snd us)"
    and "\<forall>(a, s) \<in> set us. s < length (vm_stack vm)" and "length us \<le> fuel"
  shows "\<exists>hp. close_up_values fuel vm stop =
           Inr (vm\<lparr>vm_heap := hp, vm_open_up_values := (case filter (\<lambda>u. \<not> closes stop u) us of [] \<Rightarrow> None | u # _ \<Rightarrow> Some (fst u))\<rparr>) \<and>
         uv_path hp (case filter (\<lambda>u. \<not> closes stop u) us of [] \<Rightarrow> None | u # _ \<Rightarrow> Some (fst u))
           (filter (\<lambda>u. \<not> closes stop u) us) None \<and>
         (\<forall>(a, s) \<in> set us. stop \<le> s \<longrightarrow>
            (\<exists>u. hp a = Some (OUpValue u) \<and> uv_location u = None \<and> uv_closed u = vm_stack vm ! s)) \<and>
         (\<forall>b. b \<notin> fst ` set (filter (closes stop) us) \<longrightarrow> hp b = vm_heap vm b)"
  using assms
proof (induction us arbitrary: vm fuel)
  case Nil
  then have "vm\<lparr>vm_heap := vm_heap vm, vm_open_up_values := None\<rparr> = vm" by simp
  then show ?case
    using Nil by (intro exI [of _ "vm_heap vm"]) (simp add: close_up_values.simps [of fuel vm])
next
  case (Cons x us)
  obtain a s where x: "x = (a, s)" by (cases x)
  from Cons.prems(1) obtain u where u: "vm_open_up_values vm = Some a" "vm_heap vm a = Some (OUpValue u)"
    "uv_location u = Some s" "uv_path (vm_heap vm) (uv_next u) us None" by (auto simp: x)
  have at: "up_value_at (vm_heap vm) a = Inr u" using u by (simp add: up_value_at_def)
  have desc: "\<forall>(b, t) \<in> set us. t < s" using Cons.prems(2) by (auto simp: x)
  show ?case
  proof (cases "stop \<le> s")
    case False
    have f: "filter (\<lambda>u. \<not> closes stop u) (x # us) = x # us" "filter (closes stop) (x # us) = []"
      using False desc by (auto simp: x closes_def filter_id_conv filter_empty_conv)
    have "vm\<lparr>vm_heap := vm_heap vm, vm_open_up_values := Some a\<rparr> = vm" using u(1) by simp
    moreover have "close_up_values fuel vm stop = Inr vm"
      using False u at by (simp add: close_up_values.simps [of fuel vm] some_ptr_def)
    ultimately show ?thesis
      using False Cons.prems(1) desc u(1) unfolding f
      by (intro exI [of _ "vm_heap vm"]) (auto simp: x)
  next
    case True
    from Cons.prems(4) obtain n where n: "fuel = Suc n" "length us \<le> n" by (cases fuel) auto
    let ?v = "OUpValue (u\<lparr>uv_closed := vm_stack vm ! s, uv_location := None\<rparr>)"
    let ?vm = "(vm_put vm a ?v)\<lparr>vm_open_up_values := uv_next u\<rparr>"
    have s: "s < length (vm_stack vm)" using Cons.prems(3) by (simp add: x)
    have a: "a \<notin> fst ` set us" using Cons.prems(1,2) unfolding x by (rule uv_path_tl_notin)
    have step: "close_up_values fuel vm stop = close_up_values n ?vm stop"
      using u at True s n(1) by (simp add: close_up_values.simps [of "Suc n" vm] some_ptr_def)
    have "uv_path (vm_heap ?vm) (vm_open_up_values ?vm) us None"
      using u(4) uv_path_update [OF a] by simp
    moreover have "sorted_wrt (>) (map snd us)" using Cons.prems(2) by simp
    moreover have "\<forall>(a, s) \<in> set us. s < length (vm_stack ?vm)" using Cons.prems(3) by auto
    moreover note n(2)
    ultimately obtain hp where hp: "close_up_values n ?vm stop =
        Inr (?vm\<lparr>vm_heap := hp, vm_open_up_values := (case filter (\<lambda>u. \<not> closes stop u) us of [] \<Rightarrow> None | u # _ \<Rightarrow> Some (fst u))\<rparr>)"
      "uv_path hp (case filter (\<lambda>u. \<not> closes stop u) us of [] \<Rightarrow> None | u # _ \<Rightarrow> Some (fst u))
           (filter (\<lambda>u. \<not> closes stop u) us) None"
      "\<forall>(a, s) \<in> set us. stop \<le> s \<longrightarrow>
            (\<exists>u. hp a = Some (OUpValue u) \<and> uv_location u = None \<and> uv_closed u = vm_stack ?vm ! s)"
      "\<forall>b. b \<notin> fst ` set (filter (closes stop) us) \<longrightarrow> hp b = vm_heap ?vm b"
      using Cons.IH [of ?vm n] by blast
    have f: "filter (\<lambda>u. \<not> closes stop u) (x # us) = filter (\<lambda>u. \<not> closes stop u) us"
      "filter (closes stop) (x # us) = x # filter (closes stop) us"
      using True by (simp_all add: x closes_def)
    have "hp a = Some ?v" using hp(4) a by auto
    moreover have "\<forall>b. b \<notin> fst ` set (x # filter (closes stop) us) \<longrightarrow> hp b = vm_heap vm b"
      using hp(4) by (simp add: x)
    moreover have "?vm\<lparr>vm_heap := hp, vm_open_up_values := r\<rparr> = vm\<lparr>vm_heap := hp, vm_open_up_values := r\<rparr>" for r
      by (simp add: vm_put_def)
    ultimately show ?thesis
      using hp(1-3) unfolding f step by (intro exI [of _ hp]) (auto simp: x)
  qed
qed

text \<open>
  C12: Closing the up-values from slot \<open>stop\<close> on, as every return does, keeps what the closures see: each
  up-value that was open reads the same value before, after, and when the slots from \<open>stop\<close> on are
  gone. The up-values below \<open>stop\<close> stay open and in order, and nothing else in the heap changes.
\<close>

theorem close_up_values_keeps:
  assumes "open_inv vm us"
  shows "\<exists>vm'. close_up_values (length (vm_objects vm)) vm stop = Inr vm' \<and>
           open_inv (vm'\<lparr>vm_stack := take stop (vm_stack vm')\<rparr>) (filter (\<lambda>(a, s). s < stop) us) \<and>
           (\<forall>(a, s) \<in> set us. up_value_get vm a = Inr (vm_stack vm ! s) \<and> up_value_get vm' a = Inr (vm_stack vm ! s) \<and>
              up_value_get (vm'\<lparr>vm_stack := take stop (vm_stack vm')\<rparr>) a = Inr (vm_stack vm ! s)) \<and>
           vm_stack vm' = vm_stack vm \<and> (\<forall>b. b \<notin> fst ` set us \<longrightarrow> vm_heap vm' b = vm_heap vm b)"
proof -
  have inv: "uv_path (vm_heap vm) (vm_open_up_values vm) us None" "sorted_wrt (>) (map snd us)"
    "\<forall>(a, s) \<in> set us. s < length (vm_stack vm)" "length us \<le> length (vm_objects vm)"
    using assms by (auto simp: open_inv_def)
  let ?rest = "filter (\<lambda>(a, s). s < stop) us"
  have r: "filter (\<lambda>u. \<not> closes stop u) us = ?rest"
    by (rule filter_cong) (auto simp: closes_def)
  from close_up_values_list [OF inv, of stop, unfolded r] obtain hp where
    hp: "close_up_values (length (vm_objects vm)) vm stop =
           Inr (vm\<lparr>vm_heap := hp, vm_open_up_values := (case ?rest of [] \<Rightarrow> None | u # _ \<Rightarrow> Some (fst u))\<rparr>)"
      "uv_path hp (case ?rest of [] \<Rightarrow> None | u # _ \<Rightarrow> Some (fst u)) ?rest None"
      "\<forall>(a, s) \<in> set us. stop \<le> s \<longrightarrow>
         (\<exists>u. hp a = Some (OUpValue u) \<and> uv_location u = None \<and> uv_closed u = vm_stack vm ! s)"
      "\<forall>b. b \<notin> fst ` set (filter (closes stop) us) \<longrightarrow> hp b = vm_heap vm b" by blast
  let ?vm = "vm\<lparr>vm_heap := hp, vm_open_up_values := (case ?rest of [] \<Rightarrow> None | u # _ \<Rightarrow> Some (fst u))\<rparr>"
  have srt: "sorted_wrt (>) (map snd ?rest)"
    using inv(2) by (induction us) (auto split: prod.splits)
  have "open_inv (?vm\<lparr>vm_stack := take stop (vm_stack ?vm)\<rparr>) ?rest"
    using hp(2) srt inv(3) le_trans [OF length_filter_le inv(4)] by (auto simp: open_inv_def)
  moreover have "up_value_get vm a = Inr (vm_stack vm ! s) \<and> up_value_get ?vm a = Inr (vm_stack vm ! s) \<and>
      up_value_get (?vm\<lparr>vm_stack := take stop (vm_stack ?vm)\<rparr>) a = Inr (vm_stack vm ! s)" if us: "(a, s) \<in> set us" for a s
  proof -
    from uv_path_at [OF inv(1) us] obtain u where u: "vm_heap vm a = Some (OUpValue u)" "uv_location u = Some s" by blast
    have s: "s < length (vm_stack vm)" using inv(3) us by auto
    have old: "up_value_get vm a = Inr (vm_stack vm ! s)" using u s by (simp add: up_value_get_def up_value_at_def)
    show ?thesis
    proof (cases "stop \<le> s")
      case True
      with hp(3) us obtain w where "hp a = Some (OUpValue w)" "uv_location w = None" "uv_closed w = vm_stack vm ! s" by auto
      then show ?thesis using old by (simp add: up_value_get_def up_value_at_def)
    next
      case False
      have "a \<notin> fst ` set (filter (closes stop) us)"
        using uv_path_slot [OF inv(1) us] False by (auto simp: closes_def)
      then have "hp a = Some (OUpValue u)" using hp(4) u(1) by simp
      then show ?thesis using old u(2) s False by (simp add: up_value_get_def up_value_at_def)
    qed
  qed
  moreover have "\<forall>b. b \<notin> fst ` set us \<longrightarrow> hp b = vm_heap vm b" using hp(4) filter_is_subset [of "closes stop" us] by (meson image_mono subsetD)
  ultimately show ?thesis using hp(1) by (intro exI [of _ ?vm]) auto
qed

section \<open>Capturing\<close>

lemma new_up_value_hs [simp]:
  "hs_heap (fst (new_up_value hs slot)) = (hs_heap hs)(hs_next hs \<mapsto> OUpValue \<lparr>uv_closed = NIL_VAL, uv_location = Some slot, uv_next = None\<rparr>)"
  "hs_next (fst (new_up_value hs slot)) = hs_next hs + 32" "snd (new_up_value hs slot) = hs_next hs"
  by (simp_all add: new_up_value_def alloc_obj_def)

lemma capture_walk_list:
  assumes "uv_path hp p us None" and "length us \<le> fuel"
  shows "capture_walk fuel hp local prev p =
           Inr (case rev (takeWhile (\<lambda>(a, s). local < s) us) of [] \<Rightarrow> prev | u # _ \<Rightarrow> Some (fst u),
                case dropWhile (\<lambda>(a, s). local < s) us of [] \<Rightarrow> None | u # _ \<Rightarrow> Some (fst u))"
  using assms
proof (induction us arbitrary: p prev fuel)
  case Nil
  then show ?case by simp
next
  case (Cons x us)
  obtain a s where x: "x = (a, s)" by (cases x)
  from Cons.prems obtain n u where u: "fuel = Suc n" "length us \<le> n" "p = Some a" "hp a = Some (OUpValue u)"
    "uv_location u = Some s" "uv_path hp (uv_next u) us None" by (cases fuel) (auto simp: x)
  then show ?case
    using Cons.IH [OF u(6,2), of "Some a"]
    by (auto simp: x up_value_at_def some_ptr_def split: list.splits)
qed

lemma capture_found:
  assumes "open_inv vm us" and "(b, local) \<in> set us"
  shows "capture_up_value vm local = Inr (vm, b)"
proof -
  from assms(2) obtain pre post where us: "us = pre @ (b, local) # post" by (meson split_list)
  have inv: "uv_path (vm_heap vm) (vm_open_up_values vm) us None" "sorted_wrt (>) (map snd us)"
    "length us \<le> length (vm_objects vm)" using assms(1) by (auto simp: open_inv_def)
  have pre: "\<forall>x \<in> set pre. local < snd x" using inv(2) by (auto simp: us sorted_wrt_append)
  then have "dropWhile (\<lambda>(a, s). local < s) us = (b, local) # post"
    unfolding us by (subst dropWhile_append2) auto
  then have "capture_walk (length (vm_objects vm)) (vm_heap vm) local None (vm_open_up_values vm) =
      Inr (case rev (takeWhile (\<lambda>(a, s). local < s) us) of [] \<Rightarrow> None | u # _ \<Rightarrow> Some (fst u), Some b)"
    using capture_walk_list [OF inv(1,3), of local None] by simp
  moreover obtain u where "vm_heap vm b = Some (OUpValue u)" "uv_location u = Some local"
    using uv_path_at [OF inv(1) assms(2)] by blast
  ultimately show ?thesis by (simp add: capture_up_value_def up_value_at_def some_ptr_def)
qed

lemma uv_path_relink:
  assumes "uv_path hp p (us @ [(b, s)]) q" and "b \<notin> fst ` set us" and "hp b = Some (OUpValue u)"
  shows "uv_path (hp(b \<mapsto> OUpValue (u\<lparr>uv_next := r\<rparr>))) p (us @ [(b, s)]) r"
  using assms by (auto simp: uv_path_append uv_path_update)

lemma sorted_insert_slot:
  fixes local :: nat
  assumes "sorted_wrt (>) (map snd us)" and "local \<notin> snd ` set us"
  defines "pre \<equiv> takeWhile (\<lambda>(a, s). local < s) us" and "post \<equiv> dropWhile (\<lambda>(a, s). local < s) us"
  shows "sorted_wrt (>) (map snd (pre @ (c, local) # post))"
proof -
  have us: "us = pre @ post" by (simp add: pre_def post_def)
  have pre: "\<forall>x \<in> set pre. local < snd x" by (auto simp: pre_def dest: set_takeWhileD)
  have post: "\<forall>x \<in> set post. snd x < local"
  proof (cases post)
    case (Cons y ys)
    then have "\<not> local < snd y" using hd_dropWhile [of "\<lambda>(a, s). local < s" us] by (auto simp: post_def split: prod.splits)
    moreover have "snd y \<noteq> local" using assms(2) by (auto simp: us Cons)
    moreover have "\<forall>x \<in> set ys. snd x < snd y" using assms(1) by (auto simp: us Cons sorted_wrt_append)
    ultimately show ?thesis by (auto simp: Cons)
  qed simp
  show ?thesis using assms(1) pre post unfolding us by (force simp: sorted_wrt_append)
qed

text \<open>A slot that no open up-value stands for gets a new one, put in at its place in the order.\<close>

lemma capture_fresh:
  assumes "open_inv vm us" and "local \<notin> snd ` set us" and "local < length (vm_stack vm)"
    and "vm_heap vm (vm_next vm) = None"
  defines "pre \<equiv> takeWhile (\<lambda>(a, s). local < s) us" and "post \<equiv> dropWhile (\<lambda>(a, s). local < s) us"
  shows "\<exists>vm'. capture_up_value vm local = Inr (vm', vm_next vm) \<and> vm_stack vm' = vm_stack vm \<and>
           open_inv vm' (pre @ (vm_next vm, local) # post)"
proof -
  let ?c = "vm_next vm" and ?p = "case post of [] \<Rightarrow> None | u # _ \<Rightarrow> Some (fst u)"
  let ?o = "OUpValue \<lparr>uv_closed = NIL_VAL, uv_location = Some local, uv_next = ?p\<rparr>"
  let ?vm = "vm_put (vm_with vm (fst (new_up_value (vm_hs vm) local))) ?c ?o"
  have inv: "uv_path (vm_heap vm) (vm_open_up_values vm) us None" "sorted_wrt (>) (map snd us)"
    "\<forall>(a, s) \<in> set us. s < length (vm_stack vm)" "length us \<le> length (vm_objects vm)"
    using assms(1) by (auto simp: open_inv_def)
  have us: "us = pre @ post" by (simp add: pre_def post_def)
  have c: "?c \<notin> fst ` set us" using uv_path_at [OF inv(1)] assms(4) by force
  have path: "uv_path (vm_heap vm) (vm_open_up_values vm) pre ?p" "uv_path (vm_heap vm) ?p post None"
    using inv(1) by (cases post; auto simp: us uv_path_append)+
  have vm: "vm_heap ?vm = (vm_heap vm)(?c \<mapsto> ?o)" "vm_objects ?vm = ?c # vm_objects vm"
    by (simp_all add: new_addrs_one)
  have path': "uv_path (vm_heap ?vm) q pre r = uv_path (vm_heap vm) q pre r"
    "uv_path (vm_heap ?vm) q post r = uv_path (vm_heap vm) q post r" for q r
    using c unfolding vm us by (simp_all add: uv_path_update image_Un)
  have rest: "sorted_wrt (>) (map snd (pre @ (?c, local) # post))"
    "\<forall>(a, s) \<in> set (pre @ (?c, local) # post). s < length (vm_stack vm)"
    "length (pre @ (?c, local) # post) \<le> length (vm_objects ?vm)"
    using sorted_insert_slot [OF inv(2) assms(2)] inv(3,4) assms(3) us unfolding vm pre_def [symmetric] post_def [symmetric]
    by (simp, auto)
  have tail: "uv_path (vm_heap ?vm) (Some ?c) ((?c, local) # post) None"
    using path(2) path'(2) by (simp add: vm)
  have nf: "(case ?p of None \<Rightarrow> Inr False | Some a \<Rightarrow> bindR (up_value_at (vm_heap vm) a) (\<lambda>u. Inr (uv_location u = Some local))) = Inr False"
    using path(2) assms(2) by (cases post) (auto simp: us up_value_at_def image_iff)
  have cap: "capture_up_value vm local =
      (case rev pre of [] \<Rightarrow> Inr (?vm\<lparr>vm_open_up_values := Some ?c\<rparr>, ?c)
       | x # _ \<Rightarrow> bindR (up_value_at (vm_heap ?vm) (fst x)) (\<lambda>u. Inr (vm_put ?vm (fst x) (OUpValue (u\<lparr>uv_next := Some ?c\<rparr>)), ?c)))"
    using capture_walk_list [OF inv(1,4), of local None] nf
    by (simp add: capture_up_value_def pre_def [symmetric] post_def [symmetric] new_up_value_def alloc_obj_def split: list.split)
  show ?thesis
  proof (cases pre rule: rev_cases)
    case Nil
    then show ?thesis using cap rest tail vm by (auto simp: open_inv_def)
  next
    case (snoc qs x)
    obtain a s where x: "x = (a, s)" by (cases x)
    from path(1) obtain u where u: "vm_heap vm a = Some (OUpValue u)" by (auto simp: snoc x uv_path_append)
    have a: "a \<noteq> ?c" using u assms(4) by auto
    have n: "a \<notin> fst ` set qs \<union> fst ` set post"
      using uv_path_slot [OF inv(1), of a s] inv(2) unfolding us snoc x by (force simp: sorted_wrt_append)
    let ?vm' = "vm_put ?vm a (OUpValue (u\<lparr>uv_next := Some ?c\<rparr>))"
    have "uv_path (vm_heap ?vm') (vm_open_up_values vm) pre (Some ?c)"
      using path(1) n u a path'(1) uv_path_relink [of "vm_heap ?vm" "vm_open_up_values vm" qs a s ?p u "Some ?c"]
      unfolding snoc x by simp
    moreover have "uv_path (vm_heap ?vm') (Some ?c) ((?c, local) # post) None"
      unfolding vm_put_sel(2) [of ?vm] by (subst uv_path_update) (use n a tail in simp_all)
    ultimately have "uv_path (vm_heap ?vm') (vm_open_up_values vm) (pre @ (?c, local) # post) None"
      unfolding uv_path_append by blast
    moreover have "capture_up_value vm local = Inr (?vm', ?c)"
      using cap u a by (simp add: snoc x vm up_value_at_def)
    ultimately show ?thesis using rest by (auto simp: open_inv_def)
  qed
qed

text \<open>
  C13: Capturing the variable in a slot gives an up-value that reads the slot, and gives the same one when
  the slot is captured again, so closures share the variable. The list of open up-values stays in order
  and gains at most the new up-value; when the slot was captured before nothing changes at all.
\<close>

theorem capture_up_value_shares:
  assumes "open_inv vm us" and "local < length (vm_stack vm)" and "vm_heap vm (vm_next vm) = None"
  shows "\<exists>vm' a us'. capture_up_value vm local = Inr (vm', a) \<and> capture_up_value vm' local = Inr (vm', a) \<and>
           open_inv vm' us' \<and> set us' = insert (a, local) (set us) \<and> vm_stack vm' = vm_stack vm \<and>
           up_value_get vm' a = Inr (vm_stack vm ! local) \<and> (local \<in> snd ` set us \<longrightarrow> vm' = vm)"
proof (cases "local \<in> snd ` set us")
  case True
  then obtain b where b: "(b, local) \<in> set us" by auto
  then have "up_value_get vm b = Inr (vm_stack vm ! local)"
    using assms(1,2) uv_path_at [of "vm_heap vm" _ us] by (fastforce simp: open_inv_def up_value_get_def up_value_at_def)
  then show ?thesis using capture_found [OF assms(1) b] assms(1) b by (intro exI [of _ vm] exI [of _ b] exI [of _ us]) auto
next
  case False
  let ?us = "takeWhile (\<lambda>(a, s). local < s) us @ (vm_next vm, local) # dropWhile (\<lambda>(a, s). local < s) us"
  from capture_fresh [OF assms(1) False assms(2,3)] obtain vm' where
    vm': "capture_up_value vm local = Inr (vm', vm_next vm)" "vm_stack vm' = vm_stack vm" "open_inv vm' ?us" by blast
  have "set ?us = insert (vm_next vm, local) (set us)"
    using set_append [of "takeWhile (\<lambda>(a, s). local < s) us" "dropWhile (\<lambda>(a, s). local < s) us"] by auto
  moreover have "up_value_get vm' (vm_next vm) = Inr (vm_stack vm ! local)"
    using vm' assms(2) uv_path_at [of "vm_heap vm'" _ ?us] by (fastforce simp: open_inv_def up_value_get_def up_value_at_def)
  moreover have "capture_up_value vm' local = Inr (vm', vm_next vm)" by (rule capture_found [OF vm'(3)]) simp
  ultimately show ?thesis using vm' False by blast
qed

text \<open>A machine with the values of three variables on its stack, of which the first and the last are captured.\<close>

definition captured_vm :: b_vm where
  "captured_vm = empty_vm\<lparr>vm_stack := [TRUE_VAL, NIL_VAL, FALSE_VAL], vm_next := 96, vm_objects := [64, 32],
     vm_heap := [32 \<mapsto> OUpValue \<lparr>uv_closed = NIL_VAL, uv_location = Some 0, uv_next = None\<rparr>,
                 64 \<mapsto> OUpValue \<lparr>uv_closed = NIL_VAL, uv_location = Some 2, uv_next = Some 32\<rparr>],
     vm_open_up_values := Some 64\<rparr>"

lemma captured_vm_inv: "open_inv captured_vm [(64, 2), (32, 0)]"
  by (simp add: open_inv_def captured_vm_def)

theorem close_up_values_keeps_witness:
  "\<exists>vm'. close_up_values 2 captured_vm 1 = Inr vm' \<and> up_value_get (vm'\<lparr>vm_stack := [TRUE_VAL]\<rparr>) 64 = Inr FALSE_VAL"
proof -
  have vm: "vm_stack captured_vm = [TRUE_VAL, NIL_VAL, FALSE_VAL]" "length (vm_objects captured_vm) = 2"
    by (simp_all add: captured_vm_def)
  then show ?thesis using close_up_values_keeps [OF captured_vm_inv, of 1] by auto
qed

theorem capture_up_value_shares_witness:
  "\<exists>vm' a us'. capture_up_value captured_vm 1 = Inr (vm', a) \<and> open_inv vm' us' \<and> set us' = {(a, 1), (64, 2), (32, 0)} \<and>
     up_value_get vm' a = Inr NIL_VAL"
proof -
  have "1 < length (vm_stack captured_vm)" "vm_heap captured_vm (vm_next captured_vm) = None" "vm_stack captured_vm ! 1 = NIL_VAL"
    by (simp_all add: captured_vm_def)
  then show ?thesis using capture_up_value_shares [OF captured_vm_inv, of 1] by (auto simp del: One_nat_def)
qed

end
