(* ===== verification/VM_Index_Correct.thy ===== *)
theory VM_Index_Correct
  imports VM_Init List_Correct
begin

text \<open>
  Properties of the operators of \<open>VM_Index\<close>: integer division and remainder against the division of
  the integers, and writing to a list by index.
\<close>

section \<open>Division and remainder of integers\<close>

lemma dbl_key_of_int:
  assumes "\<bar>n\<bar> < 2 ^ 53"
  shows "dbl_key (double_of_int n) = 0 \<longleftrightarrow> n = 0" and "dbl_key (double_of_int n) < 0 \<longleftrightarrow> n < 0"
proof -
  have z: "dbl_key (double_of_int 0) = 0" by (simp add: double_of_int_def dbl_key_def)
  show 0: "dbl_key (double_of_int n) = 0 \<longleftrightarrow> n = 0"
  proof
    assume k: "dbl_key (double_of_int n) = 0"
    then have "double_of_int n = 0 \<or> double_of_int n = 0x8000000000000000" by (simp add: dbl_key_0)
    then have "dbl_is_zero (double_of_int n)" by (auto simp: dbl_is_zero_def dbl_exp_def dbl_frac_def)
    then show "n = 0" by (simp add: of_int_fields(4) [OF assms])
  qed (use z in simp)
  show "dbl_key (double_of_int n) < 0 \<longleftrightarrow> n < 0"
    using 0 of_int_fields(2) [OF assms] by (auto simp: dbl_key_def split: if_splits)
qed

lemma dbl_key_zero [simp]: "dbl_key 0 = 0"
  by (simp add: dbl_key_def)

lemma not_nan_zero [simp]: "\<not> dbl_is_nan 0"
  by (simp add: dbl_is_nan_def dbl_exp_def)

lemma dbl_lt_0_of_int: "\<bar>n\<bar> < 2 ^ 53 \<Longrightarrow> dbl_lt (double_of_int n) 0 \<longleftrightarrow> n < 0"
  by (simp add: dbl_lt_def dbl_gt_def dbl_key_of_int of_int_finite)

lemma dbl_eq_of_int:
  assumes "\<bar>m\<bar> < 2 ^ 53" and "\<bar>n\<bar> < 2 ^ 53"
  shows "dbl_eq (double_of_int m) (double_of_int n) \<longleftrightarrow> m = n"
proof
  assume "dbl_eq (double_of_int m) (double_of_int n)"
  then have k: "dbl_key (double_of_int m) = dbl_key (double_of_int n)" by (simp add: dbl_eq_def)
  show "m = n"
  proof (cases "m = 0")
    case True
    then have "dbl_key (double_of_int n) = 0" using k dbl_key_of_int(1) [OF assms(1)] by simp
    then show ?thesis using True dbl_key_of_int(1) [OF assms(2)] by simp
  next
    case False
    then have "dbl_key (double_of_int m) \<noteq> 0" using dbl_key_of_int(1) [OF assms(1)] by simp
    from dbl_key_inj [OF k this] show ?thesis using double_of_int_inj [OF assms] by simp
  qed
qed (use assms in \<open>simp add: dbl_eq_def of_int_finite\<close>)

lemma dbl_zero_key: "dbl_key (dbl_zero s) = 0" "\<not> dbl_is_nan (dbl_zero s)"
proof -
  have "dbl_zero s = (if s then 0x8000000000000000 else 0)" by (simp add: dbl_zero_def dbl_pack_def)
  then show "dbl_key (dbl_zero s) = 0" "\<not> dbl_is_nan (dbl_zero s)"
    by (simp_all add: dbl_key_0 dbl_is_nan_def dbl_exp_def)
qed

text \<open>The product of integers compared with an integer, also when it is a zero of either sign.\<close>

lemma dbl_eq_mul_int:
  assumes "\<bar>d\<bar> < 2 ^ 53" and "\<bar>b\<bar> < 2 ^ 53" and "\<bar>d * b\<bar> < 2 ^ 53" and "\<bar>a\<bar> < 2 ^ 53"
  shows "dbl_eq (dbl_mul nan (double_of_int d) (double_of_int b)) (double_of_int a) \<longleftrightarrow> d * b = a"
proof (cases "d = 0 \<or> b = 0")
  case True
  then have "\<exists>s. dbl_mul nan (double_of_int d) (double_of_int b) = dbl_zero s"
    using assms(1,2) by (auto simp: dbl_mul_def Let_def of_int_finite of_int_fields)
  then show ?thesis
    using True dbl_key_of_int(1) [OF assms(4)] of_int_finite [OF assms(4)]
    by (auto simp: dbl_eq_def dbl_zero_key)
next
  case False
  then show ?thesis
    using dbl_mul_int [OF assms(1-3)] dbl_eq_of_int [OF assms(3,4)] by simp
qed

lemma trunc_div:
  fixes a b :: int
  assumes "b \<noteq> 0"
  defines "d \<equiv> sgn a * sgn b * (\<bar>a\<bar> div \<bar>b\<bar>)"
  shows "\<bar>d\<bar> \<le> \<bar>a\<bar>" and "\<bar>d * b\<bar> \<le> \<bar>a\<bar>"
    and "a div b = (if (a < 0) \<noteq> (b < 0) \<and> d * b \<noteq> a then d - 1 else d)"
proof -
  let ?q = "\<bar>a\<bar> div \<bar>b\<bar>"
  have q: "0 \<le> ?q" "?q \<le> \<bar>a\<bar>"
    using assms(1) div_le_dividend [of "nat \<bar>a\<bar>" "nat \<bar>b\<bar>"]
    by (simp_all add: pos_imp_zdiv_nonneg_iff flip: nat_div_distrib)
  have m: "?q * \<bar>b\<bar> + \<bar>a\<bar> mod \<bar>b\<bar> = \<bar>a\<bar>" "0 \<le> \<bar>a\<bar> mod \<bar>b\<bar>" "\<bar>a\<bar> mod \<bar>b\<bar> < \<bar>b\<bar>"
    using assms(1) by auto
  show "\<bar>d\<bar> \<le> \<bar>a\<bar>" using q assms(1) by (auto simp: d_def abs_mult sgn_if)
  have db: "d * b = sgn a * (?q * \<bar>b\<bar>)" using assms(1) by (auto simp: d_def sgn_if abs_if)
  moreover have "0 \<le> ?q * \<bar>b\<bar>" "?q * \<bar>b\<bar> \<le> \<bar>a\<bar>" using q(1) m(1,2) by (simp, linarith)
  ultimately show "\<bar>d * b\<bar> \<le> \<bar>a\<bar>" by (auto simp: sgn_if)
  show "a div b = (if (a < 0) \<noteq> (b < 0) \<and> d * b \<noteq> a then d - 1 else d)"
  proof (cases "(a < 0) = (b < 0)")
    case True
    then show ?thesis using assms(1) by (auto simp: d_def sgn_if div_minus_minus abs_if)
  next
    case False
    then have "a div b = - (\<bar>a\<bar> div \<bar>b\<bar>) - (if \<bar>a\<bar> mod \<bar>b\<bar> = 0 then 0 else 1)"
      using assms(1) by (auto simp: abs_if zdiv_zminus1_eq_if zdiv_zminus2_eq_if)
    moreover have "d * b = a \<longleftrightarrow> \<bar>a\<bar> mod \<bar>b\<bar> = 0"
    proof (cases "a = 0")
      case False
      have "a = sgn a * \<bar>a\<bar>" by (rule sgn_mult_abs [symmetric])
      then have "d * b = a \<longleftrightarrow> sgn a * (?q * \<bar>b\<bar>) = sgn a * \<bar>a\<bar>" unfolding db by metis
      also have "\<dots> \<longleftrightarrow> ?q * \<bar>b\<bar> = \<bar>a\<bar>" using False by (metis mult_cancel_left sgn_0_0)
      also have "\<dots> \<longleftrightarrow> \<bar>a\<bar> mod \<bar>b\<bar> = 0" using m(1) by arith
      finally show ?thesis .
    qed (simp add: d_def)
    moreover have "d = - ?q"
      using False assms(1) by (cases "a = 0") (auto simp: d_def sgn_if)
    ultimately show ?thesis using False by (simp split: if_splits)
  qed
qed


lemma floor_div_int:
  assumes "\<bar>a\<bar> < 2 ^ 31" and "\<bar>b\<bar> < 2 ^ 31" and "b \<noteq> 0"
  defines "d \<equiv> sgn a * sgn b * (\<bar>a\<bar> div \<bar>b\<bar>)"
  shows "floor_div nan (double_of_int a) (double_of_int b) =
           Inr (if d * b = a \<and> (a < 0) \<noteq> (b < 0) then d - 1 else d)"
proof -
  note t = trunc_div(1,2) [OF assms(3), of a, folded d_def]
  have i: "int_of_double (double_of_int a) = Inr a" "int_of_double (double_of_int b) = Inr b"
    using assms(1,2) by (simp_all add: double_int_roundtrip)
  have dr: "- (2 ^ 31) \<le> d" "d < 2 ^ 31" using t(1) assms(1) by linarith+
  then have c: "c_int_div a b = Inr d"
    using assms(3) by (simp add: c_int_div_def c_int_def flip: d_def)
  have e: "dbl_eq (dbl_mul nan (double_of_int d) (double_of_int b)) (double_of_int a) \<longleftrightarrow> d * b = a"
    using assms(1,2) t by (intro dbl_eq_mul_int) simp_all
  have s: "dbl_lt (double_of_int a) 0 \<longleftrightarrow> a < 0" "dbl_lt (double_of_int b) 0 \<longleftrightarrow> b < 0"
    using assms(1,2) by (simp_all add: dbl_lt_0_of_int)
  show ?thesis
    using t(1) assms(1) by (auto simp: floor_div_def i c e s c_int_def)
qed

text \<open>
  C24: For integers the operator \<open>//\<close> gives the floor of the quotient exactly when the operands have
  the same sign; with different signs it is always wrong, because \<open>floor_div\<close> lowers the truncated
  quotient when the division is exact instead of when it is not.
\<close>

theorem floor_div_correct:
  assumes "\<bar>a\<bar> < 2 ^ 31" and "\<bar>b\<bar> < 2 ^ 31" and "b \<noteq> 0"
  shows "floor_div nan (double_of_int a) (double_of_int b) = Inr (a div b) \<longleftrightarrow> (a < 0) = (b < 0)"
  using trunc_div(3) [OF assms(3), of a] by (auto simp: floor_div_int [OF assms])

theorem floor_div_correct_witness:
  "floor_div 0 (double_of_int 7) (double_of_int 2) = Inr (7 div 2) \<and>
   floor_div 0 (double_of_int (-6)) (double_of_int 2) \<noteq> Inr (-6 div 2)"
  using floor_div_correct [of 7 2 0] floor_div_correct [of "-6" 2 0] by simp

lemma nat_abs_mod: "nat \<bar>a\<bar> mod nat \<bar>b\<bar> = nat (\<bar>a\<bar> mod \<bar>b\<bar>)" for a b :: int
  by (simp add: nat_mod_distrib)

lemma dbl_fmod_int:
  assumes "\<bar>a\<bar> < 2 ^ 53" and "\<bar>b\<bar> < 2 ^ 53" and "b \<noteq> 0"
  defines "m \<equiv> \<bar>a\<bar> mod \<bar>b\<bar>"
  shows "dbl_fmod nan (double_of_int a) (double_of_int b) =
           (if m = 0 then dbl_zero (a < 0) else double_of_int (if a < 0 then - m else m))"
proof -
  have m: "0 \<le> m" "m < 2 ^ 53" using assms(2,3) pos_mod_bound [of "\<bar>b\<bar>" "\<bar>a\<bar>"] unfolding m_def by (simp, linarith)
  have e: "dbl_mag (double_of_int a) mod dbl_mag (double_of_int b) = nat m * 2 ^ 1074"
    using assms(1,2) by (simp only: of_int_fields mult_mod_left [symmetric] nat_abs_mod m_def)
  have r: "dbl_round (a < 0) (nat m * 2 ^ 1074) 1 = double_of_int (if a < 0 then - m else m)" if "m \<noteq> 0"
    using dbl_round_exact [of "if a < 0 then - m else m" 1] that m by (auto simp del: power_numeral split: if_splits)
  have z: "nat m * 2 ^ 1074 = 0 \<longleftrightarrow> m = 0" using m(1) by (simp only: mult_is_0 nat_eq_iff) simp
  show ?thesis
    unfolding dbl_fmod_def Let_def e z
    using r by (simp add: of_int_finite [OF assms(1)] of_int_finite [OF assms(2)] of_int_fields(2) [OF assms(1)]
      of_int_fields(4) [OF assms(2)] assms(3) del: power_numeral)
qed

text \<open>
  C25: For integers the operator \<open>%\<close> is the remainder that has the sign of the divisor; a zero may be
  the negative zero, which compares equal to zero.
\<close>

theorem modulo_correct:
  assumes "\<bar>a\<bar> < 2 ^ 52" and "\<bar>b\<bar> < 2 ^ 52" and "b \<noteq> 0"
  shows "dbl_eq (modulo nan (double_of_int a) (double_of_int b)) (double_of_int (a mod b)) \<and>
         (a mod b \<noteq> 0 \<longrightarrow> modulo nan (double_of_int a) (double_of_int b) = double_of_int (a mod b))"
proof -
  define m where "m = \<bar>a\<bar> mod \<bar>b\<bar>"
  define r where "r = (if a < 0 then - m else m)"
  have m: "0 \<le> m" "m < \<bar>b\<bar>" using assms(3) by (simp_all add: m_def)
  have f: "dbl_fmod nan (double_of_int a) (double_of_int b) = (if m = 0 then dbl_zero (a < 0) else double_of_int r)"
    using dbl_fmod_int [of a b nan] assms by (simp add: m_def r_def)
  have ne: "a mod b \<noteq> b"
    using assms(3) by (metis less_irrefl linorder_neqE neg_mod_bound pos_mod_bound)
  have mod: "a mod b = (if m = 0 then 0 else if (a < 0) = (b < 0) then r else r + b)"
    unfolding m_def r_def using assms(3) ne
    by (auto simp: abs_if zmod_zminus1_eq_if zmod_zminus2_eq_if split: if_splits)
  have r: "\<bar>r\<bar> < 2 ^ 53" "\<bar>b\<bar> < 2 ^ 53" "\<bar>r + b\<bar> < 2 ^ 53" "\<bar>a mod b\<bar> < 2 ^ 53"
    using m assms(2) mod by (auto simp: r_def abs_if split: if_splits)
  show ?thesis
  proof (cases "m = 0")
    case True
    then show ?thesis
      using mod by (simp add: modulo_def f dbl_eq_def dbl_zero_key dbl_key_of_int of_int_finite)
  next
    case False
    have z: "\<not> dbl_eq (double_of_int r) 0"
      using dbl_key_of_int(1) [OF r(1)] False m by (auto simp: dbl_eq_def r_def)
    have s: "dbl_lt (double_of_int r) 0 \<longleftrightarrow> a < 0" "dbl_lt (double_of_int b) 0 \<longleftrightarrow> b < 0"
      using r(1,2) False m by (auto simp: dbl_lt_0_of_int r_def)
    have "modulo nan (double_of_int a) (double_of_int b) = double_of_int (a mod b)"
      using False z s r by (simp add: modulo_def f mod dbl_add_int)
    then show ?thesis using r(4) by (simp add: dbl_eq_def of_int_finite)
  qed
qed

theorem modulo_correct_witness:
  "modulo 0 (double_of_int (-7)) (double_of_int 2) = double_of_int 1"
  using modulo_correct [of "-7" 2 0] by simp

section \<open>Writing to a list\<close>

lemma varr_set:
  assumes "varr_inv l" and "i < va_count l"
  shows "varr_inv (l\<lparr>va_values := (va_values l)[i := Some v]\<rparr>)"
    and "varr_list (l\<lparr>va_values := (va_values l)[i := Some v]\<rparr>) = (varr_list l)[i := v]"
    and "cell_set (va_values l) (int i) v = Inr ((va_values l)[i := Some v])"
proof -
  note h = varr_invD [OF assms(1)]
  let ?l = "l\<lparr>va_values := (va_values l)[i := Some v]\<rparr>"
  have "cells_hold ((va_values l)[i := Some v]) ((varr_list l)[i := v])"
    using h assms(2) cells_hold_nth [OF h(4)] by (auto simp: cells_hold_iff nth_list_update)
  then show "varr_inv ?l" "varr_list ?l = (varr_list l)[i := v]"
    using varr_invI [of ?l "(varr_list l)[i := v]"] h by auto
  show "cell_set (va_values l) (int i) v = Inr ((va_values l)[i := Some v])"
    using h assms(2) by (simp add: cell_set_def)
qed

lemma pop_set_stack:
  assumes "vm_stack vm = st @ [x, y, z]" and "length st + 3 \<le> STACK_MAX"
  shows "pop_set vm v = Inr (vm\<lparr>vm_stack := st @ [v]\<rparr>)"
  using assms by (simp add: pop_set_def pop_n_def push_def)

text \<open>
  C23: Writing a list by index. Inside the list, counting from the end for negative indices, the element
  is replaced, the value stays on the stack and no other object changes. An index below \<open>-n\<close> and above
  \<open>-2n\<close> passes the guard and writes in front of the block. Every other index throws.
\<close>

theorem list_set_index_correct:
  assumes c: "list_contents (vm_hs vm) a = Some xs" and i: "int_range i"
    and st: "vm_stack vm = st @ [OBJ_VAL a, number_val i, v]" "length st + 3 \<le> STACK_MAX"
  defines "n \<equiv> int (length xs)"
  shows "(- n \<le> i \<and> i < n \<longrightarrow>
            (\<exists>vm'. list_set_index vm a (number_val i) v = Inr (vm', True) \<and>
               list_contents (vm_hs vm') a = Some (xs[nat (if i < 0 then n + i else i) := v]) \<and>
               vm_stack vm' = st @ [v] \<and> only_changes {a} (vm_hs vm) (vm_hs vm'))) \<and>
         (- (2 * n) < i \<and> i < - n \<longrightarrow> list_set_index vm a (number_val i) v = Inl OutOfBounds) \<and>
         (n \<le> i \<or> i \<le> - (2 * n) \<longrightarrow>
            list_set_index vm a (number_val i) v = pop_throw vm 3 ''lists index %d out of range'')"
proof -
  from c obtain l where l: "list_at (vm_hs vm) a = Inr l" "varr_inv l" "varr_list l = xs" "va_count l = length xs"
    "int (length xs) \<le> 2 ^ 31" by (rule list_contentsE)
  define p where "p = (if i < 0 then n + i else i)"
  have u: "list_set_index vm a (number_val i) v =
             (if p < n \<and> - n < p
              then bindR (cell_set (va_values l) p v) (\<lambda>cells.
                     bindR (pop_set (vm_put vm a (OList (l\<lparr>va_values := cells\<rparr>))) v) (\<lambda>vm. Inr (vm, True)))
              else pop_throw vm 3 ''lists index %d out of range'')"
    using i l by (simp add: list_set_index_def Let_def p_def n_def)
  have "\<exists>vm'. list_set_index vm a (number_val i) v = Inr (vm', True) \<and>
          list_contents (vm_hs vm') a = Some (xs[nat p := v]) \<and>
          vm_stack vm' = st @ [v] \<and> only_changes {a} (vm_hs vm) (vm_hs vm')" if "- n \<le> i" "i < n"
  proof -
    have p: "0 \<le> p" "p < n" using that by (auto simp: p_def)
    let ?l = "l\<lparr>va_values := (va_values l)[nat p := Some v]\<rparr>"
    have w: "varr_inv ?l" "varr_list ?l = xs[nat p := v]" "cell_set (va_values l) p v = Inr ((va_values l)[nat p := Some v])"
      using varr_set [OF l(2), of "nat p" v] p l by (auto simp: n_def)
    show ?thesis
      using p w l list_contents_put [OF w(1), of "vm_hs vm" a] pop_set_stack [of "vm_put vm a (OList ?l)" st] st
      by (auto simp: u only_changes_def vm_hs_def put_obj_def vm_put_def)
  qed
  moreover have "list_set_index vm a (number_val i) v = Inl OutOfBounds" if "- (2 * n) < i" "i < - n"
    using that by (simp add: u p_def cell_set_def n_def)
  moreover have "list_set_index vm a (number_val i) v = pop_throw vm 3 ''lists index %d out of range''"
    if "n \<le> i \<or> i \<le> - (2 * n)"
    using that by (auto simp: u p_def n_def)
  ultimately show ?thesis by (auto simp: p_def)
qed

text \<open>A machine about to assign \<open>true\<close> to an index of a list of two.\<close>

definition index_vm :: "int \<Rightarrow> b_vm" where
  "index_vm i =
     empty_vm\<lparr>vm_heap := hs_heap (sample_list [NIL_VAL, NIL_VAL]), vm_stack := [OBJ_VAL 16, number_val i, TRUE_VAL]\<rparr>"

lemma index_vm_contents: "list_contents (vm_hs (index_vm i)) 16 = Some [NIL_VAL, NIL_VAL]"
  using sample_list_contents [of "[NIL_VAL, NIL_VAL]"] by (simp add: list_contents_def vm_hs_def index_vm_def)

lemma index_vm_stack: "vm_stack (index_vm i) = [] @ [OBJ_VAL 16, number_val i, TRUE_VAL]"
  by (simp add: index_vm_def)

theorem list_set_index_correct_witness:
  "(\<exists>vm'. list_set_index (index_vm (-1)) 16 (number_val (-1)) TRUE_VAL = Inr (vm', True) \<and>
      list_contents (vm_hs vm') 16 = Some [NIL_VAL, TRUE_VAL] \<and> vm_stack vm' = [TRUE_VAL]) \<and>
   list_set_index (index_vm (-3)) 16 (number_val (-3)) TRUE_VAL = Inl OutOfBounds"
  using list_set_index_correct [OF index_vm_contents _ index_vm_stack, of "-1"]
    list_set_index_correct [OF index_vm_contents _ index_vm_stack, of "-3"]
  by (simp add: int_range_def STACK_MAX_def FRAMES_MAX_def) blast

end
