(* ===== verification/Dict_Correct.thy ===== *)
theory Dict_Correct
  imports Dict_Methods List_Correct Table_Props "HOL-Library.AList"
begin

text \<open>
  A well-formed dictionary stands for an association list in insertion order (\<open>dict_contents\<close>), and
  its methods implement the operations of the library theory of association lists: setting is
  \<open>AList.update\<close>, removing \<open>AList.delete\<close>. Extending a dictionary by one that shares a key with it
  breaks the correspondence of names and items, and a loop over the result never ends.
\<close>

section \<open>Well-formed dictionaries\<close>

definition dict_wf :: "heap \<Rightarrow> b_obj_dict \<Rightarrow> bool" where
  "dict_wf hp d =
     (varr_inv (d_names d) \<and> tbl_inv hp (d_items d) \<and> distinct (varr_list (d_names d)) \<and>
      set (varr_list (d_names d)) = dom (tbl_map (d_items d)) \<and>
      (\<forall>k \<in> dom (tbl_map (d_items d)). tbl_key k))"

definition dict_alist :: "b_obj_dict \<Rightarrow> (b_value \<times> b_value) list" where
  "dict_alist d = map (\<lambda>k. (k, the (tbl_map (d_items d) k))) (varr_list (d_names d))"

definition dict_contents :: "hstate \<Rightarrow> addr \<Rightarrow> (b_value \<times> b_value) list option" where
  "dict_contents hs a =
     (case hs_heap hs a of
        Some (ODict d) \<Rightarrow> if dict_wf (hs_heap hs) d then Some (dict_alist d) else None
      | _ \<Rightarrow> None)"

text \<open>Space for \<open>n\<close> more insertions, and a cell behind the last name.\<close>

definition dict_room :: "hstate \<Rightarrow> addr \<Rightarrow> nat \<Rightarrow> bool" where
  "dict_room hs a n = (case hs_heap hs a of Some (ODict d) \<Rightarrow> tbl_room (d_items d) n | _ \<Rightarrow> False)"

definition names_roomy :: "hstate \<Rightarrow> addr \<Rightarrow> bool" where
  "names_roomy hs a =
     (case hs_heap hs a of Some (ODict d) \<Rightarrow> va_count (d_names d) < va_capacity (d_names d) | _ \<Rightarrow> False)"

text \<open>The keys the methods accept.\<close>

definition dict_key :: "hstate \<Rightarrow> b_value \<Rightarrow> bool" where
  "dict_key hs k =
     (tbl_key k \<and> \<not> IS_LIST (hs_heap hs) k \<and> \<not> IS_DICT (hs_heap hs) k \<and> \<not> IS_FILE (hs_heap hs) k)"

lemma dict_contentsE:
  assumes "dict_contents hs a = Some al"
  obtains d where "hs_heap hs a = Some (ODict d)" and "dict_at hs a = Inr d"
    and "dict_wf (hs_heap hs) d" and "dict_alist d = al"
  using assms that
  by (auto simp: dict_contents_def at_iffs split: option.splits b_obj.splits if_splits)

lemma dict_wfD:
  assumes "dict_wf hp d"
  shows "varr_inv (d_names d)" and "tbl_inv hp (d_items d)" and "distinct (varr_list (d_names d))"
    and "set (varr_list (d_names d)) = dom (tbl_map (d_items d))"
    and "k \<in> dom (tbl_map (d_items d)) \<Longrightarrow> tbl_key k"
  using assms by (auto simp: dict_wf_def)

lemma dict_alist_keys [simp]: "map fst (dict_alist d) = varr_list (d_names d)"
  by (simp add: dict_alist_def comp_def)

lemma map_of_keys: "map_of (map (\<lambda>k. (k, f k)) ks) k = (if k \<in> set ks then Some (f k) else None)"
  by (induction ks) auto

lemma dict_alist_map: "dict_wf hp d \<Longrightarrow> map_of (dict_alist d) = tbl_map (d_items d)"
  by (auto simp: dict_alist_def map_of_keys dict_wf_def fun_eq_iff domIff)

text \<open>Names and items determine the list: the way to show what an operation did.\<close>

lemma dict_alist_eqI:
  assumes "varr_list (d_names d) = map fst al" and "distinct (map fst al)"
    and "tbl_map (d_items d) = map_of al"
  shows "dict_alist d = al"
proof -
  have "dict_alist d = map (\<lambda>p. (fst p, the (map_of al (fst p)))) al"
    using assms by (simp add: dict_alist_def comp_def)
  also have "\<dots> = al" by (rule map_idI) (use assms(2) in \<open>auto simp: map_of_is_SomeI\<close>)
  finally show ?thesis .
qed

section \<open>Hashes do not see dictionaries\<close>

lemma hash_value_dict:
  assumes "hp a = Some (ODict d)"
  shows "hash_value (hp(a \<mapsto> ODict d')) = hash_value hp"
proof
  fix v
  have "string_at (hp(a \<mapsto> ODict d')) c = string_at hp c" for c
    using assms by (simp add: string_at_def)
  then have "hash_object (hp(a \<mapsto> ODict d')) c = hash_object hp c" for c
    using assms by (auto simp: hash_object_def split: option.splits b_obj.splits)
  then show "hash_value (hp(a \<mapsto> ODict d')) v = hash_value hp v" by (simp add: hash_value_def)
qed

lemma tbl_inv_hash:
  assumes "hash_value hp = hash_value hp'"
  shows "tbl_inv hp t = tbl_inv hp' t"
  using assms by (simp add: tbl_inv_def slots_wf_def reached_def probe_def)

lemma dict_wf_hash: "hash_value hp = hash_value hp' \<Longrightarrow> dict_wf hp d = dict_wf hp' d"
  by (simp add: dict_wf_def tbl_inv_hash [of hp hp'])

lemma dict_contents_put:
  assumes "hs_heap hs a = Some (ODict d)" and "dict_wf (hs_heap hs) d'"
  shows "dict_contents (put_obj hs a (ODict d')) a = Some (dict_alist d')"
proof -
  have "hash_value ((hs_heap hs)(a \<mapsto> ODict d')) = hash_value (hs_heap hs)"
    by (rule hash_value_dict) (rule assms(1))
  from dict_wf_hash [OF this, of d'] assms(2) show ?thesis by (simp add: dict_contents_def)
qed

lemma dict_keyD [simp]: "dict_key hs k \<Longrightarrow> tbl_key k" "dict_key hs k \<Longrightarrow> key_ok k"
  by (simp_all add: dict_key_def tbl_key_def)

lemma valid_dict_key [simp]:
  "dict_key hs k \<Longrightarrow> ENFORCE_VALID_DICT_KEY hs name 0 (k # args) r = r"
  by (simp add: ENFORCE_VALID_DICT_KEY_def EXCLUDE_ARG_TYPE_def dict_key_def)

lemma dict_lookup:
  assumes "dict_wf hp d" and "tbl_key k"
  shows "table_get hp (d_items d) k = Inr (map_of (dict_alist d) k)"
  using tbl.kfind_law [OF dict_wfD(2) [OF assms(1)] assms(2)] dict_alist_map [OF assms(1)] by simp

section \<open>Adding and setting\<close>

lemma dict_add_entry_correct:
  assumes wf: "dict_wf hp d" and k: "tbl_key k" and room: "tbl_room (d_items d) (Suc n)"
    and new: "map_of (dict_alist d) k = None"
  shows "\<exists>d'. dict_add_entry hp d k v = Inr d' \<and> dict_wf hp d' \<and>
           dict_alist d' = AList.update k v (dict_alist d) \<and> tbl_room (d_items d') n"
proof -
  note w = dict_wfD [OF wf]
  from write_value_arr_correct [OF w(1), of k] obtain names where
    names: "write_value_arr (d_names d) k = Inr names" "varr_inv names"
    "varr_list names = varr_list (d_names d) @ [k]" by blast
  from tbl.kset_law [OF w(2) k room, of v] obtain items b where
    items: "table_set hp (d_items d) k v = Inr (items, b)" "tbl_inv hp items"
    "tbl_map items = (tbl_map (d_items d))(k \<mapsto> v)" "tbl_room items n" by blast
  let ?d = "\<lparr>d_names = names, d_items = items\<rparr>"
  have nk: "k \<notin> set (varr_list (d_names d))" using new w(4) dict_alist_map [OF wf] by auto
  then have "dict_wf hp ?d" using w names items k by (auto simp: dict_wf_def)
  moreover have "dict_alist ?d = AList.update k v (dict_alist d)"
    using names items nk w(3) dict_alist_map [OF wf]
    by (intro dict_alist_eqI) (simp_all add: update_keys update_conv')
  ultimately show ?thesis using names items by (auto simp: dict_add_entry_def)
qed

lemma dict_set_entry_correct:
  assumes wf: "dict_wf hp d" and k: "tbl_key k" and room: "tbl_room (d_items d) (Suc n)"
    and old: "map_of (dict_alist d) k \<noteq> None"
  shows "\<exists>d'. dict_set_entry hp d k v = Inr (d', False) \<and> dict_wf hp d' \<and>
           dict_alist d' = AList.update k v (dict_alist d) \<and> tbl_room (d_items d') n"
proof -
  note w = dict_wfD [OF wf]
  from tbl.kset_law [OF w(2) k room, of v] obtain items where
    items: "table_set hp (d_items d) k v = Inr (items, False)" "tbl_inv hp items"
    "tbl_map items = (tbl_map (d_items d))(k \<mapsto> v)" "tbl_room items n"
    using old dict_alist_map [OF wf] by auto
  let ?d = "\<lparr>d_names = d_names d, d_items = items\<rparr>"
  have nk: "k \<in> set (varr_list (d_names d))" using old w(4) dict_alist_map [OF wf] by auto
  moreover have "values_equal k k" using k values_equal_key_ok [of k k] by (simp add: tbl_key_def)
  ultimately have "\<exists>n \<in> set (varr_list (d_names d)). values_equal n k" by blast
  then have "dict_set_entry hp d k v = Inr (?d, False)"
    using w(1) items by (simp add: dict_set_entry_def)
  moreover have "dict_wf hp ?d" using w items k nk by (auto simp: dict_wf_def)
  moreover have "dict_alist ?d = AList.update k v (dict_alist d)"
    using items nk w(3) dict_alist_map [OF wf]
    by (intro dict_alist_eqI) (simp_all add: update_keys update_conv')
  ultimately show ?thesis using items by auto
qed

lemma dict_set_result:
  assumes c: "dict_contents hs a = Some al" and k: "dict_key hs k" and room: "dict_room hs a (Suc n)"
  shows "\<exists>hs'. dict_set hs a [k, v] = Inr (hs', EMPTY_VAL) \<and>
           dict_contents hs' a = Some (AList.update k v al) \<and> only_changes {a} hs hs' \<and> dict_room hs' a n"
proof -
  from c obtain d where d: "hs_heap hs a = Some (ODict d)" "dict_at hs a = Inr d"
    "dict_wf (hs_heap hs) d" "dict_alist d = al" by (rule dict_contentsE)
  from room d have r: "tbl_room (d_items d) (Suc n)" by (simp add: dict_room_def)
  note tk = dict_keyD(1) [OF k]
  have "\<exists>d'. (case map_of al k of
                 None \<Rightarrow> dict_add_entry (hs_heap hs) d k v
               | Some _ \<Rightarrow> bindR (dict_set_entry (hs_heap hs) d k v) (\<lambda>(dict', _). Inr dict')) = Inr d' \<and>
            dict_wf (hs_heap hs) d' \<and> dict_alist d' = AList.update k v al \<and> tbl_room (d_items d') n"
    using dict_add_entry_correct [OF d(3) tk r, of v] dict_set_entry_correct [OF d(3) tk r, of v] d(4)
    by (cases "map_of al k") auto
  then obtain d' where d': "dict_set hs a [k, v] = Inr (put_obj hs a (ODict d'), EMPTY_VAL)"
    "dict_wf (hs_heap hs) d'" "dict_alist d' = AList.update k v al" "tbl_room (d_items d') n"
    using k d dict_lookup [OF d(3) tk]
    by (auto simp: dict_set_def enforce_defs cong: option.case_cong)
  with dict_contents_put [OF d(1) d'(2)] show ?thesis by (auto simp: dict_room_def)
qed

text \<open>
  C34: Setting a key of a dictionary is the update of an association list: a key that is present
  keeps its place and gets the new value, a new key goes to the end; no other object changes.
\<close>

theorem dict_set_refines:
  assumes "dict_contents hs a = Some al" and "dict_key hs k" and "dict_room hs a (Suc n)"
  shows "\<exists>hs'. dict_set hs a [k, v] = Inr (hs', EMPTY_VAL) \<and>
           dict_contents hs' a = Some (AList.update k v al) \<and> only_changes {a} hs hs'"
  using dict_set_result [OF assms] by blast

text \<open>A dictionary at address 16 of an otherwise empty heap.\<close>

definition sample_dict :: hstate where
  "sample_dict = \<lparr>hs_heap = [16 \<mapsto> ODict empty_dict], hs_next = 64, hs_strings = init_table\<rparr>"

lemma empty_dict_wf [simp]: "dict_wf hp empty_dict" "dict_alist empty_dict = []"
  by (simp_all add: dict_wf_def dict_alist_def empty_dict_def)

lemma sample_dict_contents [simp]: "dict_contents sample_dict 16 = Some []"
  by (simp add: dict_contents_def sample_dict_def)

lemma sample_dict_room [simp]: "n \<le> 2 ^ 28 \<Longrightarrow> dict_room sample_dict 16 n"
  by (simp add: dict_room_def sample_dict_def empty_dict_def)

lemma bool_dict_key [simp]: "dict_key hs TRUE_VAL" "dict_key hs FALSE_VAL"
  by (simp_all add: dict_key_def is_obj_type_def IS_LIST_def IS_DICT_def IS_FILE_def IS_OBJ_def val_consts)
    (simp_all add: tbl_key_def key_ok_def NEG_ZERO_def val_tests val_consts)

theorem dict_set_refines_witness:
  "\<exists>hs'. dict_set sample_dict 16 [TRUE_VAL, NIL_VAL] = Inr (hs', EMPTY_VAL) \<and>
     dict_contents hs' 16 = Some [(TRUE_VAL, NIL_VAL)]"
  using dict_set_refines [of sample_dict 16 "[]" TRUE_VAL 0 NIL_VAL] by auto

section \<open>Looking up, adding once and removing\<close>

lemma update_new: "k \<notin> fst ` set al \<Longrightarrow> AList.update k v al = al @ [(k, v)]"
  by (induction al) auto

text \<open>
  Lookup, membership and \<open>add\<close> follow the association list: \<open>get\<close> returns the value of the
  key, or the default when one is given, or nil; \<open>contains\<close> tells whether the key is there; \<open>add\<close>
  throws exactly when the key is present and appends it otherwise.
\<close>

lemma dict_lookup_add_correct:
  assumes "dict_contents hs a = Some al" and "dict_key hs k" and "dict_room hs a (Suc n)"
  shows "dict_get hs a [k] = Inr (hs, case map_of al k of None \<Rightarrow> NIL_VAL | Some v \<Rightarrow> v) \<and>
         dict_get hs a [k, w] = Inr (hs, case map_of al k of None \<Rightarrow> w | Some v \<Rightarrow> v) \<and>
         dict_contains hs a [k] = Inr (hs, BOOL_VAL (k \<in> fst ` set al)) \<and>
         (if k \<in> fst ` set al
          then dict_add hs a [k, w] = Inl (Thrown ''duplicate key %s at add()'')
          else \<exists>hs'. dict_add hs a [k, w] = Inr (hs', EMPTY_VAL) \<and>
                 dict_contents hs' a = Some (al @ [(k, w)]) \<and> only_changes {a} hs hs')"
proof -
  from assms(1) obtain d where d: "hs_heap hs a = Some (ODict d)" "dict_at hs a = Inr d"
    "dict_wf (hs_heap hs) d" "dict_alist d = al" by (rule dict_contentsE)
  note tk = dict_keyD(1) [OF assms(2)]
  note get = dict_lookup [OF d(3) tk, unfolded d(4)]
  have mem: "map_of al k = None \<longleftrightarrow> k \<notin> fst ` set al" by (simp add: map_of_eq_None_iff)
  have "dict_get hs a [k] = Inr (hs, case map_of al k of None \<Rightarrow> NIL_VAL | Some v \<Rightarrow> v)"
    and "dict_get hs a [k, w] = Inr (hs, case map_of al k of None \<Rightarrow> w | Some v \<Rightarrow> v)"
    using assms(2) d(2) get
    by (simp_all add: dict_get_def enforce_defs dict_get_entry_def split: option.splits)
  moreover have "dict_contains hs a [k] = Inr (hs, BOOL_VAL (k \<in> fst ` set al))"
    using assms(2) d(2) get mem by (cases "map_of al k") (auto simp: dict_contains_def enforce_defs)
  moreover have "dict_add hs a [k, w] = Inl (Thrown ''duplicate key %s at add()'')" if "k \<in> fst ` set al"
    using assms(2) d(2) get mem that by (cases "map_of al k") (auto simp: dict_add_def enforce_defs)
  moreover have "\<exists>hs'. dict_add hs a [k, w] = Inr (hs', EMPTY_VAL) \<and>
      dict_contents hs' a = Some (al @ [(k, w)]) \<and> only_changes {a} hs hs'" if nk: "k \<notin> fst ` set al"
  proof -
    from assms(3) d have r: "tbl_room (d_items d) (Suc n)" by (simp add: dict_room_def)
    from dict_add_entry_correct [OF d(3) tk r, of w] obtain d' where
      d': "dict_add_entry (hs_heap hs) d k w = Inr d'" "dict_wf (hs_heap hs) d'"
      "dict_alist d' = al @ [(k, w)]" using mem d(4) nk by (auto simp: update_new)
    then have "dict_add hs a [k, w] = Inr (put_obj hs a (ODict d'), EMPTY_VAL)"
      using assms(2) d(2) get mem nk by (simp add: dict_add_def enforce_defs)
    with dict_contents_put [OF d(1) d'(2)] d'(3) show ?thesis by auto
  qed
  ultimately show ?thesis by presburger
qed

lemma dict_lookup_add_correct_instance:
  "dict_get sample_dict 16 [TRUE_VAL] = Inr (sample_dict, NIL_VAL) \<and>
   (\<exists>hs'. dict_add sample_dict 16 [TRUE_VAL, NIL_VAL] = Inr (hs', EMPTY_VAL) \<and>
      dict_contents hs' 16 = Some [(TRUE_VAL, NIL_VAL)])"
  using dict_lookup_add_correct [of sample_dict 16 "[]" TRUE_VAL 0 NIL_VAL] by auto

lemma index_of_from_split:
  assumes "k \<notin> set xs" and "\<forall>x \<in> set (k # xs). key_ok x"
  shows "index_of_from j (xs @ k # ys) k = int (j + length xs)"
  using assms values_equal_key_ok by (induction xs arbitrary: j) auto

lemma names_remove:
  assumes inv: "varr_inv names" and split: "varr_list names = xs @ k # ys"
  shows "if va_count names < va_capacity names
         then \<exists>cs. shift_down (va_values names) (int (length xs)) (va_count names - length xs) = Inr cs \<and>
                varr_inv (names\<lparr>va_values := cs, va_count := va_count names - 1\<rparr>) \<and>
                varr_list (names\<lparr>va_values := cs, va_count := va_count names - 1\<rparr>) = xs @ ys
         else shift_down (va_values names) (int (length xs)) (va_count names - length xs) = Inl OutOfBounds"
proof -
  have l: "length xs < va_count names" using varr_list_length [OF inv] split by simp
  show ?thesis
    using remove_cells [OF inv l] varr_invD [OF inv] l split
      shift_down_overrun [of "length xs" "va_values names" "va_count names - length xs"] by auto
qed

text \<open>
  C35: Removing a key that is absent returns nil. Removing one that is present returns its value and
  deletes the key from the association list when the array of names has a spare cell; when it is
  full, the loop that closes the gap reads behind the block.
\<close>

theorem dict_remove_refines:
  assumes "dict_contents hs a = Some al" and "dict_key hs k"
  shows "case map_of al k of
           None \<Rightarrow> dict_remove hs a [k] = Inr (hs, NIL_VAL)
         | Some v \<Rightarrow>
             if names_roomy hs a
             then \<exists>hs'. dict_remove hs a [k] = Inr (hs', v) \<and>
                    dict_contents hs' a = Some (AList.delete k al) \<and> only_changes {a} hs hs'
             else dict_remove hs a [k] = Inl OutOfBounds"
proof -
  from assms(1) obtain d where d: "hs_heap hs a = Some (ODict d)" "dict_at hs a = Inr d"
    "dict_wf (hs_heap hs) d" "dict_alist d = al" by (rule dict_contentsE)
  note w = dict_wfD [OF d(3)] and tk = dict_keyD(1) [OF assms(2)]
  note get = dict_lookup [OF d(3) tk, unfolded d(4)]
  show ?thesis
  proof (cases "map_of al k")
    case None
    then show ?thesis using assms(2) d(2) get by (simp add: dict_remove_def enforce_defs)
  next
    case (Some v)
    from tbl.kdel_law [OF w(2) tk] obtain items b where
      items: "table_delete (hs_heap hs) (d_items d) k = Inr (items, b)" "tbl_inv (hs_heap hs) items"
      "tbl_map items = (tbl_map (d_items d))(k := None)" by blast
    let ?names = "d_names d"
    have "k \<in> set (varr_list ?names)" using Some w(4) dict_alist_map [OF d(3)] d(4) by auto
    then obtain xs ys where split: "varr_list ?names = xs @ k # ys" by (auto simp: in_set_conv_decomp)
    have nk: "k \<notin> set xs" "k \<notin> set ys" using w(3) split by auto
    have "\<forall>x \<in> set (k # xs). key_ok x" using w(4,5) split by (auto simp: tbl_key_def)
    from index_of_from_split [OF nk(1) this] have ix: "index_of_from 0 (varr_list ?names) k = int (length xs)"
      by (simp add: split)
    have e: "dict_remove hs a [k] =
      bindR (shift_down (va_values ?names) (int (length xs)) (va_count ?names - length xs))
        (\<lambda>cs. Inr (put_obj hs a (ODict \<lparr>d_names = ?names\<lparr>va_values := cs, va_count := va_count ?names - 1\<rparr>,
                                        d_items = items\<rparr>), v))"
      using assms(2) d(2) get Some items(1) w(1) ix
      by (simp add: dict_remove_def enforce_defs nat_diff_distrib' Let_def)
    note rem = names_remove [OF w(1) split]
    show ?thesis
    proof (cases "va_count ?names < va_capacity ?names")
      case True
      with rem obtain cs where
        cs: "shift_down (va_values ?names) (int (length xs)) (va_count ?names - length xs) = Inr cs"
        "varr_inv (?names\<lparr>va_values := cs, va_count := va_count ?names - 1\<rparr>)"
        "varr_list (?names\<lparr>va_values := cs, va_count := va_count ?names - 1\<rparr>) = xs @ ys" by auto
      let ?d = "\<lparr>d_names = ?names\<lparr>va_values := cs, va_count := va_count ?names - 1\<rparr>, d_items = items\<rparr>"
      have "dict_wf (hs_heap hs) ?d"
        using w cs items split nk by (auto simp: dict_wf_def)
      moreover have "dict_alist ?d = AList.delete k al"
        using cs items split nk w(3) d(4) dict_alist_map [OF d(3)] distinct_delete [of al k] arg_cong [OF d(4), of "map fst"]
        by (intro dict_alist_eqI) (auto simp: delete_keys delete_conv')
      ultimately show ?thesis
        using dict_contents_put [OF d(1)] e cs(1) Some True d(1) by (auto simp: names_roomy_def)
    next
      case False
      then show ?thesis using rem e Some d(1) by (simp add: names_roomy_def)
    qed
  qed
qed

lemma set_witness_state:
  obtains hs where "dict_set sample_dict 16 [TRUE_VAL, NIL_VAL] = Inr (hs, EMPTY_VAL)"
    and "dict_contents hs 16 = Some [(TRUE_VAL, NIL_VAL)]" and "dict_room hs 16 7"
  using dict_set_result [of sample_dict 16 "[]" TRUE_VAL 7 NIL_VAL] by auto

theorem dict_remove_refines_witness:
  "\<exists>hs. dict_contents hs 16 = Some [(TRUE_VAL, NIL_VAL)] \<and>
     dict_remove hs 16 [FALSE_VAL] = Inr (hs, NIL_VAL) \<and>
     (if names_roomy hs 16
      then \<exists>hs'. dict_remove hs 16 [TRUE_VAL] = Inr (hs', NIL_VAL) \<and> dict_contents hs' 16 = Some []
      else dict_remove hs 16 [TRUE_VAL] = Inl OutOfBounds)"
proof -
  obtain hs where hs: "dict_contents hs 16 = Some [(TRUE_VAL, NIL_VAL)]" by (rule set_witness_state)
  from dict_remove_refines [OF hs, of FALSE_VAL] dict_remove_refines [OF hs, of TRUE_VAL] hs
  show ?thesis by (auto split: if_splits)
qed

section \<open>Iteration\<close>

text \<open>A dictionary whose names can be iterated: every name is a key that finds a value.\<close>

definition dict_loopable :: "hstate \<Rightarrow> addr \<Rightarrow> b_value list \<Rightarrow> bool" where
  "dict_loopable hs a ns =
     (\<exists>d. hs_heap hs a = Some (ODict d) \<and> varr_inv (d_names d) \<and> varr_list (d_names d) = ns \<and>
        tbl_inv (hs_heap hs) (d_items d) \<and>
        (\<forall>k \<in> set ns. tbl_key k \<and> \<not> is_false (hs_heap hs) k))"

definition dict_value :: "hstate \<Rightarrow> addr \<Rightarrow> b_value \<Rightarrow> b_value" where
  "dict_value hs a k =
     (case hs_heap hs a of
        Some (ODict d) \<Rightarrow> (case tbl_map (d_items d) k of None \<Rightarrow> NIL_VAL | Some v \<Rightarrow> v)
      | _ \<Rightarrow> NIL_VAL)"

lemma dict_iter_step:
  assumes l: "dict_loopable hs a ns" and k: "k \<in> set ns"
  shows "dict_iter hs a [k] = Inr (hs, dict_value hs a k)"
    and "dict_itern hs a [k] = Inr (hs, next_name k ns)"
    and "\<not> is_false (hs_heap hs) k"
    and "dict_itern hs a [NIL_VAL] = Inr (hs, ns ! 0)"
proof -
  from l obtain d where d: "hs_heap hs a = Some (ODict d)" "varr_inv (d_names d)" "varr_list (d_names d) = ns"
    "tbl_inv (hs_heap hs) (d_items d)" and ks: "\<forall>k \<in> set ns. tbl_key k \<and> \<not> is_false (hs_heap hs) k"
    by (auto simp: dict_loopable_def)
  have at: "dict_at hs a = Inr d" using d(1) by (simp add: at_iffs)
  have tk: "tbl_key k" using ks k by blast
  show "dict_iter hs a [k] = Inr (hs, dict_value hs a k)"
    using tbl.kfind_law [OF d(4) tk] at d(1)
    by (cases "tbl_map (d_items d) k") (simp_all add: dict_iter_def enforce_defs dict_value_def)
  show "dict_itern hs a [k] = Inr (hs, next_name k ns)"
    using tk at d by (simp add: dict_itern_def enforce_defs tbl_key_def)
  show "\<not> is_false (hs_heap hs) k" using ks k by blast
  have "ns \<noteq> []" using k by auto
  then have n: "0 < va_count (d_names d)"
    unfolding d(3) [symmetric] varr_list_length [OF d(2), symmetric] by simp
  then show "dict_itern hs a [NIL_VAL] = Inr (hs, ns ! 0)"
    using at d(3) varr_get [OF d(2) n] by (simp add: dict_itern_def enforce_defs)
qed

text \<open>Behind a first occurrence comes the name that follows it.\<close>

lemma next_name_first:
  assumes "k \<notin> set xs" and "\<forall>x \<in> set (k # xs). key_ok x"
  shows "next_name k (xs @ k # ys) = (case ys of [] \<Rightarrow> NIL_VAL | y # _ \<Rightarrow> y)"
  using assms
proof (induction xs)
  case Nil
  then show ?case by (cases ys) (auto simp: values_equal_key_ok)
next
  case (Cons x xs)
  then have "\<not> values_equal k x" by (auto simp: values_equal_key_ok)
  then have "next_name k (x # xs @ k # ys) = next_name k (xs @ k # ys)" by (cases xs) auto
  with Cons show ?case by simp
qed

lemma for_in_dict:
  assumes l: "dict_loopable hs a (xs @ k # ys)" and "distinct (xs @ k # ys)" and "length ys < fuel"
  shows "for_in fuel (\<lambda>h. dict_itern h a) (\<lambda>h. dict_iter h a) hs k =
         Inr (map (\<lambda>y. (y, dict_value hs a y)) ys)"
  using assms
proof (induction ys arbitrary: xs k fuel)
  case Nil
  then obtain f where f: "fuel = Suc f" by (cases fuel) auto
  have "\<forall>x \<in> set (k # xs). key_ok x" using Nil.prems(1) by (auto simp: dict_loopable_def tbl_key_def)
  with next_name_first [of k xs "[]"] Nil.prems(2) have "next_name k (xs @ [k]) = NIL_VAL" by simp
  with f dict_iter_step [OF Nil.prems(1), of k] show ?case by (simp add: is_false_def)
next
  case (Cons y ys)
  then obtain f where f: "fuel = Suc f" "length ys < f" by (cases fuel) auto
  have "\<forall>x \<in> set (k # xs). key_ok x" using Cons.prems(1) by (auto simp: dict_loopable_def tbl_key_def)
  with next_name_first [of k xs "y # ys"] Cons.prems(2) have "next_name k (xs @ k # y # ys) = y" by simp
  moreover have "for_in f (\<lambda>h. dict_itern h a) (\<lambda>h. dict_iter h a) hs y =
      Inr (map (\<lambda>y. (y, dict_value hs a y)) ys)"
    using Cons.IH [of "xs @ [k]" y f] Cons.prems f(2) by simp
  ultimately show ?case
    using f dict_iter_step [OF Cons.prems(1), of k] dict_iter_step [OF Cons.prems(1), of y] by simp
qed

text \<open>With a repeated name, the step from it leads back behind its first occurrence.\<close>

lemma repeated_name:
  assumes "\<not> distinct ns"
  obtains xs k ys where "ns = xs @ k # ys" and "distinct xs" and "k \<in> set xs"
proof -
  from assms have "\<exists>xs k ys. ns = xs @ k # ys \<and> distinct xs \<and> k \<in> set xs"
  proof (induction ns rule: rev_induct)
    case Nil
    then show ?case by simp
  next
    case (snoc x ns)
    show ?case
    proof (cases "distinct ns")
      case True
      then have "ns @ [x] = ns @ x # [] \<and> distinct ns \<and> x \<in> set ns" using snoc.prems by auto
      then show ?thesis by blast
    next
      case False
      with snoc.IH obtain xs k ys where "ns = xs @ k # ys" "distinct xs" "k \<in> set xs" by blast
      then have "ns @ [x] = xs @ k # (ys @ [x]) \<and> distinct xs \<and> k \<in> set xs" by simp
      then show ?thesis by blast
    qed
  qed
  then show thesis using that by blast
qed

lemma for_in_cycle:
  assumes l: "dict_loopable hs a ns" and S: "S \<subseteq> set ns" and cl: "\<forall>k \<in> S. next_name k ns \<in> S" and k: "k \<in> S"
  shows "for_in fuel (\<lambda>h. dict_itern h a) (\<lambda>h. dict_iter h a) hs k = Inl Divergence"
  using k
proof (induction fuel arbitrary: k)
  case 0
  then show ?case by simp
next
  case (Suc fuel)
  let ?n = "next_name k ns"
  have n: "?n \<in> S" using cl Suc.prems by blast
  then have "?n \<in> set ns" "k \<in> set ns" using S Suc.prems by auto
  with Suc.IH [OF n] dict_iter_step [OF l] show ?case by simp
qed

lemma next_name_closed:
  assumes "ns = xs @ k # ys" and "distinct xs" and "k \<in> set xs" and "\<forall>x \<in> set ns. key_ok x" and "x \<in> set xs"
  shows "next_name x ns \<in> set xs"
proof -
  from assms(5) obtain us vs where xs: "xs = us @ x # vs" by (auto simp: in_set_conv_decomp)
  then have "x \<notin> set us" using assms(2) by auto
  with next_name_first [of x us "vs @ k # ys"] assms xs
  have "next_name x ns = (case vs @ k # ys of [] \<Rightarrow> NIL_VAL | y # _ \<Rightarrow> y)" by auto
  with assms(3) xs show ?thesis by (cases vs) auto
qed

lemma for_in_repeated:
  assumes l: "dict_loopable hs a ns" and r: "\<not> distinct ns"
  shows "for_in fuel (\<lambda>h. dict_itern h a) (\<lambda>h. dict_iter h a) hs NIL_VAL = Inl Divergence"
proof (cases fuel)
  case (Suc f)
  from r obtain xs k ys where s: "ns = xs @ k # ys" "distinct xs" "k \<in> set xs" by (rule repeated_name)
  have "\<forall>x \<in> set ns. key_ok x" using l by (auto simp: dict_loopable_def tbl_key_def)
  with next_name_closed [OF s] have cl: "\<forall>x \<in> set xs. next_name x ns \<in> set xs" by blast
  have h: "ns ! 0 \<in> set xs" "ns ! 0 \<in> set ns" using s by (cases xs; auto)+
  have "set xs \<subseteq> set ns" using s(1) by auto
  from for_in_cycle [OF l this cl h(1), of f] dict_iter_step [OF l h(2)] Suc show ?thesis by simp
qed simp



section \<open>Extending\<close>

definition dict_names_ok :: "hstate \<Rightarrow> addr \<Rightarrow> b_obj_dict \<Rightarrow> bool" where
  "dict_names_ok hs a d = (hs_heap hs a = Some (ODict d) \<and> varr_inv (d_names d))"

lemma write_name_correct:
  assumes "dict_names_ok hs a d"
  shows "\<exists>d'. write_name hs a v = Inr (put_obj hs a (ODict d')) \<and> d_items d' = d_items d \<and>
           dict_names_ok (put_obj hs a (ODict d')) a d' \<and>
           varr_list (d_names d') = varr_list (d_names d) @ [v]"
proof -
  from write_value_arr_correct [of "d_names d" v] assms obtain ns where
    "write_value_arr (d_names d) v = Inr ns" "varr_inv ns" "varr_list ns = varr_list (d_names d) @ [v]"
    by (auto simp: dict_names_ok_def)
  then show ?thesis
    using assms by (intro exI [of _ "d\<lparr>d_names := ns\<rparr>"])
      (simp add: write_name_def dict_names_ok_def at_iffs [THEN iffD2])
qed

lemma dict_names_ok_at: "dict_names_ok hs a d \<Longrightarrow> dict_at hs a = Inr d"
  by (simp add: dict_names_ok_def at_iffs)

lemma extend_names_correct:
  assumes "a \<noteq> b" and "dict_names_ok hs b e" and "dict_names_ok hs a d"
    and "i \<le> va_count (d_names e)" and "va_count (d_names e) - i < fuel"
  shows "\<exists>d'. extend_names fuel hs a b i = Inr (put_obj hs a (ODict d')) \<and> d_items d' = d_items d \<and>
           varr_inv (d_names d') \<and>
           varr_list (d_names d') = varr_list (d_names d) @ drop i (varr_list (d_names e))"
  using assms
proof (induction fuel arbitrary: hs d i)
  case 0
  then show ?case by simp
next
  case (Suc fuel)
  have inv: "varr_inv (d_names e)" using Suc.prems(2) by (simp add: dict_names_ok_def)
  show ?case
  proof (cases "i < va_count (d_names e)")
    case False
    have "put_obj hs a (ODict d) = hs"
      using Suc.prems(3) by (simp add: dict_names_ok_def put_obj_def map_upd_triv)
    then show ?thesis
      using False Suc.prems inv by (intro exI [of _ d]) (simp add: dict_names_ok_at, simp add: dict_names_ok_def)
  next
    case True
    let ?v = "varr_list (d_names e) ! i"
    note g = varr_get [OF inv True]
    from write_name_correct [OF Suc.prems(3), of ?v] obtain d1 where
      d1: "write_name hs a ?v = Inr (put_obj hs a (ODict d1))" "d_items d1 = d_items d"
      "dict_names_ok (put_obj hs a (ODict d1)) a d1" "varr_list (d_names d1) = varr_list (d_names d) @ [?v]" by blast
    have "dict_names_ok (put_obj hs a (ODict d1)) b e"
      using Suc.prems(1,2) by (simp add: dict_names_ok_def)
    moreover have "i + 1 \<le> va_count (d_names e)" "va_count (d_names e) - (i + 1) < fuel"
      using True Suc.prems(5) by linarith+
    ultimately obtain d2 where
      d2: "extend_names fuel (put_obj hs a (ODict d1)) a b (i + 1) = Inr (put_obj hs a (ODict d2))"
      "d_items d2 = d_items d1" "varr_inv (d_names d2)"
      "varr_list (d_names d2) = varr_list (d_names d1) @ drop (i + 1) (varr_list (d_names e))"
      using Suc.IH [OF Suc.prems(1) _ d1(3)] by force
    have "drop i (varr_list (d_names e)) = ?v # drop (i + 1) (varr_list (d_names e))"
      using True varr_list_length [OF inv] by (simp add: Cons_nth_drop_Suc)
    with True g d1 d2 dict_names_ok_at [OF Suc.prems(2)] show ?thesis
      by (intro exI [of _ d2]) (simp del: cell_get_nat)
  qed
qed

lemma extend_names_self:
  assumes "dict_names_ok hs a d" and "i < va_count (d_names d)"
  shows "extend_names fuel hs a a i = Inl Divergence"
  using assms
proof (induction fuel arbitrary: hs d i)
  case 0
  then show ?case by simp
next
  case (Suc fuel)
  have inv: "varr_inv (d_names d)" using Suc.prems by (simp add: dict_names_ok_def)
  note g = varr_get [OF inv Suc.prems(2)]
  from write_name_correct [OF Suc.prems(1), of "varr_list (d_names d) ! i"] obtain d1 where
    d1: "write_name hs a (varr_list (d_names d) ! i) = Inr (put_obj hs a (ODict d1))"
    "dict_names_ok (put_obj hs a (ODict d1)) a d1"
    "varr_list (d_names d1) = varr_list (d_names d) @ [varr_list (d_names d) ! i]" by blast
  have "varr_inv (d_names d1)" using d1(2) by (simp add: dict_names_ok_def)
  then have "i + 1 < va_count (d_names d1)"
    using d1(3) Suc.prems(2) varr_list_length [OF inv] varr_list_length [of "d_names d1"] by simp
  from Suc.IH [OF d1(2) this] show ?case
    using Suc.prems(2) g d1(1) dict_names_ok_at [OF Suc.prems(1)] by (simp del: cell_get_nat)
qed

lemma dict_wf_names_ok: "hs_heap hs a = Some (ODict d) \<Longrightarrow> dict_wf (hs_heap hs) d \<Longrightarrow> dict_names_ok hs a d"
  by (simp add: dict_names_ok_def dict_wf_def)

lemma dict_extend_result:
  assumes a: "hs_heap hs a = Some (ODict d)" "dict_wf (hs_heap hs) d"
    and b: "hs_heap hs b = Some (ODict e)" "dict_wf (hs_heap hs) e"
    and ab: "a \<noteq> b" "addr_ok b" and fuel: "va_count (d_names e) < fuel"
    and room: "tbl_room (d_items d) (live_count (t_entries (d_items e)))"
  shows "\<exists>d'. dict_extend fuel hs a [OBJ_VAL b] = Inr (put_obj hs a (ODict d'), EMPTY_VAL) \<and>
           varr_inv (d_names d') \<and>
           varr_list (d_names d') = varr_list (d_names d) @ varr_list (d_names e) \<and>
           tbl_inv (hs_heap hs) (d_items d') \<and>
           tbl_map (d_items d') = tbl_map (d_items d) ++ tbl_map (d_items e)"
proof -
  from extend_names_correct [OF ab(1) dict_wf_names_ok [OF b] dict_wf_names_ok [OF a], of 0 fuel] fuel
  obtain d1 where d1: "extend_names fuel hs a b 0 = Inr (put_obj hs a (ODict d1))" "d_items d1 = d_items d"
    "varr_inv (d_names d1)" "varr_list (d_names d1) = varr_list (d_names d) @ varr_list (d_names e)" by auto
  have h: "hash_value ((hs_heap hs)(a \<mapsto> ODict d1)) = hash_value (hs_heap hs)"
    by (rule hash_value_dict) (rule a(1))
  note inv = dict_wfD(2) [OF b(2), folded tbl_inv_hash [OF h]] dict_wfD(2) [OF a(2), folded tbl_inv_hash [OF h]]
  from table_add_all_correct [OF inv room] obtain items where
    items: "table_add_all ((hs_heap hs)(a \<mapsto> ODict d1)) (d_items e) (d_items d) = Inr items"
    "tbl_inv (hs_heap hs) items" "tbl_map items = tbl_map (d_items d) ++ tbl_map (d_items e)"
    unfolding tbl_inv_hash [OF h] by blast
  have "dict_at (put_obj hs a (ODict d1)) b = Inr e" using ab(1) b(1) by (simp add: at_iffs)
  then have "dict_extend fuel hs a [OBJ_VAL b] = Inr (put_obj hs a (ODict (d1\<lparr>d_items := items\<rparr>)), EMPTY_VAL)"
    using b(1) ab(2) d1 items(1)
    by (simp add: dict_extend_def enforce_defs IS_DICT_def is_obj_type_def AS_OBJ_OBJ_VAL)
  with d1 items show ?thesis by (intro exI [of _ "d1\<lparr>d_items := items\<rparr>"]) simp
qed

lemma dict_live_count:
  assumes "dict_wf hp d"
  shows "live_count (t_entries (d_items d)) = length (dict_alist d)"
proof -
  note w = dict_wfD [OF assms]
  let ?ps = "live_pairs (t_entries (d_items d))"
  have "dom (map_of ?ps) = set (varr_list (d_names d))"
    unfolding map_of_live_pairs w(4) tbl_map_def ..
  then have "set (map fst ?ps) = set (varr_list (d_names d))" by (simp add: dom_map_of_conv_image_fst)
  moreover have "distinct (map fst ?ps)" by (rule distinct_live_pairs) (rule tbl_inv_unique [OF w(2)])
  ultimately have "length (map fst ?ps) = length (varr_list (d_names d))"
    using w(3) by (metis distinct_card)
  then show ?thesis by (simp add: dict_alist_def)
qed



end
