(* ===== verification/Memory.thy ===== *)
theory Memory
  imports VM_State
begin

text \<open>
  \<open>memory.c\<close>, with the marking loops of \<open>table.c\<close> and \<open>compiler.c\<close>: the mark-and-sweep collector.
  The meaning of the mark bit flips with every collection: an object is marked when its bit equals
  \<open>mark_value\<close>. Following a pointer to an object that was released is the error \<open>NullPointer\<close>,
  releasing one twice \<open>DoubleFree\<close>. The callbacks of released modules and foreign pointers and the
  closing of files are effects outside the heap.
\<close>

section \<open>Marking\<close>

definition mark_object :: "b_vm \<Rightarrow> addr option \<Rightarrow> b_vm res" where
  "mark_object vm object =
     (case object of
        None \<Rightarrow> Inr vm
      | Some a \<Rightarrow>
          if vm_heap vm a = None then Inl NullPointer
          else if vm_mark vm a = vm_mark_value vm then Inr vm
          else Inr (vm\<lparr>vm_mark := (vm_mark vm)(a := vm_mark_value vm), vm_gray := a # vm_gray vm\<rparr>))"

definition mark_value :: "b_vm \<Rightarrow> b_value \<Rightarrow> b_vm res" where
  "mark_value vm v = (if IS_OBJ v then mark_object vm (Some (AS_OBJ v)) else Inr vm)"

definition mark_array :: "b_vm \<Rightarrow> b_value_arr \<Rightarrow> b_vm res" where
  "mark_array vm array =
     foldR (\<lambda>vm i. bindR (cell_get (va_values array) (int i)) (mark_value vm)) vm [0..<va_count array]"

text \<open>
  The test \<open>entry && entry->key\<close> compares the bit pattern of the key with zero: it skips the entry
  whose key is the number \<open>0\<close>.
\<close>

definition mark_table :: "b_vm \<Rightarrow> b_table \<Rightarrow> b_vm res" where
  "mark_table vm table =
     foldR (\<lambda>vm entry. if e_key entry \<noteq> 0
                       then bindR (mark_value vm (e_key entry)) (\<lambda>vm. mark_value vm (e_value entry))
                       else Inr vm) vm (t_entries table)"

definition nth_res :: "'a list \<Rightarrow> nat \<Rightarrow> 'a res" where
  "nth_res xs i = (if i < length xs then Inr (xs ! i) else Inl OutOfBounds)"

definition blacken_object :: "b_vm \<Rightarrow> addr \<Rightarrow> b_vm res" where
  "blacken_object vm object =
     (case vm_heap vm object of
        None \<Rightarrow> Inl NullPointer
      | Some (OModule module) \<Rightarrow> mark_table vm (m_values module)
      | Some (OSwitch sw) \<Rightarrow> mark_table vm (sw_table sw)
      | Some (OFile file) \<Rightarrow>
          bindR (mark_object vm (Some (fl_mode file))) (\<lambda>vm. mark_object vm (Some (fl_path file)))
      | Some (ODict dict) \<Rightarrow> bindR (mark_array vm (d_names dict)) (\<lambda>vm. mark_table vm (d_items dict))
      | Some (OList list) \<Rightarrow> mark_array vm list
      | Some (OBound bound) \<Rightarrow>
          bindR (mark_value vm (b_receiver bound)) (\<lambda>vm. mark_object vm (Some (b_method bound)))
      | Some (OClass klass) \<Rightarrow>
          bindR (mark_object vm (Some (k_name klass))) (\<lambda>vm.
          bindR (mark_table vm (k_methods klass)) (\<lambda>vm.
          bindR (mark_table vm (k_properties klass)) (\<lambda>vm.
          bindR (mark_table vm (k_static_properties klass)) (\<lambda>vm.
          bindR (mark_value vm (k_initializer klass)) (\<lambda>vm. mark_object vm (k_superclass klass))))))
      | Some (OClosure closure) \<Rightarrow>
          bindR (mark_object vm (Some (c_function closure))) (\<lambda>vm.
            foldR (\<lambda>vm i. bindR (nth_res (c_up_values closure) i) (mark_object vm)) vm
              [0..<c_up_value_count closure])
      | Some (OFunction function) \<Rightarrow>
          bindR (mark_object vm (f_name function)) (\<lambda>vm.
          bindR (mark_object vm (f_module function)) (\<lambda>vm. mark_array vm (bl_constants (f_blob function))))
      | Some (OInstance instance_obj) \<Rightarrow>
          bindR (mark_object vm (Some (i_klass instance_obj))) (\<lambda>vm. mark_table vm (i_properties instance_obj))
      | Some (OUpValue up_value) \<Rightarrow> mark_value vm (uv_closed up_value)
      | Some (OBytes _) \<Rightarrow> mark_object vm (Some object)
      | Some (ORange _) \<Rightarrow> mark_object vm (Some object)
      | Some (ONative _) \<Rightarrow> mark_object vm (Some object)
      | Some (OPtr _) \<Rightarrow> mark_object vm (Some object)
      | Some (OString _) \<Rightarrow> Inr vm)"

text \<open>The list of open up-values is linked through the heap; its length bounds the walk.\<close>

fun mark_up_values :: "nat \<Rightarrow> b_vm \<Rightarrow> addr option \<Rightarrow> b_vm res" where
  "mark_up_values fuel vm None = Inr vm"
| "mark_up_values 0 vm (Some a) = Inl Divergence"
| "mark_up_values (Suc fuel) vm (Some a) =
     bindR (mark_object vm (Some a))
       (\<lambda>vm. case vm_heap vm a of Some (OUpValue uv) \<Rightarrow> mark_up_values fuel vm (uv_next uv) | _ \<Rightarrow> Inl NullPointer)"

definition mark_compiler_roots :: "b_vm \<Rightarrow> b_vm res" where
  "mark_compiler_roots vm = foldR mark_object vm (vm_compiler_functions vm)"

definition mark_frame :: "b_vm \<Rightarrow> b_call_frame \<Rightarrow> b_vm res" where
  "mark_frame vm frame =
     bindR (mark_object vm (Some (cf_closure frame)))
       (\<lambda>vm. foldR (\<lambda>vm handler. mark_object vm (ef_klass handler)) vm
               (take (nat (cf_handlers_count frame)) (cf_handlers frame)))"

definition mark_roots :: "b_vm \<Rightarrow> b_vm res" where
  "mark_roots vm0 =
     bindR (foldR mark_value vm0 (vm_stack vm0)) (\<lambda>vm.
     bindR (foldR mark_frame vm (take (vm_frame_count vm0) (vm_frames vm0))) (\<lambda>vm.
     bindR (mark_up_values (length (vm_objects vm0)) vm (vm_open_up_values vm0)) (\<lambda>vm.
     bindR (mark_table vm (vm_globals vm0)) (\<lambda>vm.
     bindR (mark_table vm (vm_modules vm0)) (\<lambda>vm.
     bindR (mark_table vm (vm_methods_string vm0)) (\<lambda>vm.
     bindR (mark_table vm (vm_methods_bytes vm0)) (\<lambda>vm.
     bindR (mark_table vm (vm_methods_file vm0)) (\<lambda>vm.
     bindR (mark_table vm (vm_methods_list vm0)) (\<lambda>vm.
     bindR (mark_table vm (vm_methods_dict vm0)) (\<lambda>vm.
     bindR (mark_table vm (vm_methods_range vm0)) (\<lambda>vm.
     bindR (mark_object vm (vm_exception_class vm0)) mark_compiler_roots)))))))))))"

text \<open>
  The loop of \<open>trace_references\<close>. An object is pushed when its bit changes, so the number of
  objects bounds the number of iterations.
\<close>

fun trace_loop :: "nat \<Rightarrow> b_vm \<Rightarrow> b_vm res" where
  "trace_loop fuel vm =
     (case vm_gray vm of
        [] \<Rightarrow> Inr vm
      | object # rest \<Rightarrow>
          (case fuel of
             0 \<Rightarrow> Inl Divergence
           | Suc n \<Rightarrow> bindR (blacken_object (vm\<lparr>vm_gray := rest\<rparr>) object) (trace_loop n)))"

declare trace_loop.simps [simp del]

definition trace_references :: "b_vm \<Rightarrow> b_vm res" where
  "trace_references vm = trace_loop (length (vm_objects vm)) vm"

section \<open>Releasing\<close>

definition FREE :: "b_vm \<Rightarrow> addr \<Rightarrow> b_vm res" where
  "FREE vm object =
     (if vm_heap vm object = None then Inl DoubleFree
      else Inr (vm\<lparr>vm_heap := (vm_heap vm)(object := None)\<rparr>))"

text \<open>
  A class releases its name and its initializer, a function its name: objects of their own, which
  are also in the list of objects. \<open>fuel\<close> bounds the depth of the recursion.
\<close>

fun free_object :: "nat \<Rightarrow> b_vm \<Rightarrow> addr \<Rightarrow> b_vm res" where
  "free_object 0 vm object = Inl Divergence"
| "free_object (Suc fuel) vm object =
     (case vm_heap vm object of
        None \<Rightarrow> Inl NullPointer
      | Some (OClass klass) \<Rightarrow>
          bindR (free_object fuel vm (k_name klass)) (\<lambda>vm.
          bindR (if IS_EMPTY (k_initializer klass) then Inr vm
                 else free_object fuel vm (AS_OBJ (k_initializer klass))) (\<lambda>vm. FREE vm object))
      | Some (OFunction function) \<Rightarrow>
          bindR (case f_name function of None \<Rightarrow> Inr vm | Some name \<Rightarrow> free_object fuel vm name)
            (\<lambda>vm. FREE vm object)
      | Some (OFile file) \<Rightarrow>
          (case string_at (vm_heap vm) (fl_mode file) of
             None \<Rightarrow> Inl NullPointer
           | Some _ \<Rightarrow> FREE vm object)
      | Some _ \<Rightarrow> FREE vm object)"

text \<open>A recursion deeper than the number of objects has met an object twice and does not end.\<close>

definition free_depth :: "b_vm \<Rightarrow> nat" where
  "free_depth vm = Suc (length (vm_objects vm))"

text \<open>The loop of \<open>sweep\<close>; \<open>kept\<close> are the marked objects passed so far.\<close>

fun sweep_loop :: "b_vm \<Rightarrow> addr list \<Rightarrow> addr list \<Rightarrow> b_vm res" where
  "sweep_loop vm kept [] = Inr (vm\<lparr>vm_objects := kept\<rparr>)"
| "sweep_loop vm kept (object # rest) =
     (if vm_heap vm object = None then Inl NullPointer
      else if vm_mark vm object = vm_mark_value vm then sweep_loop vm (kept @ [object]) rest
      else bindR (free_object (free_depth vm) vm object) (\<lambda>vm. sweep_loop vm kept rest))"

definition sweep :: "b_vm \<Rightarrow> b_vm res" where
  "sweep vm = sweep_loop vm [] (vm_objects vm)"

definition free_objects :: "b_vm \<Rightarrow> b_vm res" where
  "free_objects vm =
     bindR (foldR (free_object (free_depth vm)) vm (vm_objects vm)) (\<lambda>vm. Inr (vm\<lparr>vm_gray := []\<rparr>))"

section \<open>Collecting\<close>

definition is_white :: "b_vm \<Rightarrow> addr \<Rightarrow> bool" where
  "is_white vm a = (vm_mark vm a \<noteq> vm_mark_value vm)"

definition collect_garbage :: "b_vm \<Rightarrow> b_vm res" where
  "collect_garbage vm =
     bindR (mark_roots vm) (\<lambda>vm.
     bindR (trace_references vm) (\<lambda>vm.
     bindR (table_remove_whites (vm_heap vm) (is_white vm) (vm_strings vm)) (\<lambda>strings.
     bindR (table_remove_whites (vm_heap vm) (is_white vm) (vm_modules vm)) (\<lambda>modules.
     bindR (sweep (vm\<lparr>vm_strings := strings, vm_modules := modules\<rparr>))
       (\<lambda>vm. Inr (vm\<lparr>vm_mark_value := \<not> vm_mark_value vm\<rparr>))))))"

end
