(* ===== verification/Memory_Correct.thy ===== *)
theory Memory_Correct
  imports Memory Table_Props
begin

text \<open>
  What a collection does: after marking and tracing exactly the objects that are reachable from the
  roots are marked (as far as the code follows references), the sweep keeps exactly those, and the
  weak table of strings loses exactly the strings that were released. Where the code does not follow
  a reference (a table entry under the number 0) or releases more than the unmarked object (the name
  of a class), a reachable object is lost.
\<close>

section \<open>References\<close>

text \<open>The references the marking functions follow, in their order.\<close>

definition val_refs :: "b_value \<Rightarrow> addr list" where
  "val_refs v = (if IS_OBJ v then [AS_OBJ v] else [])"

definition opt_refs :: "addr option \<Rightarrow> addr list" where
  "opt_refs p = (case p of None \<Rightarrow> [] | Some a \<Rightarrow> [a])"

definition arr_refs :: "b_value_arr \<Rightarrow> addr list" where
  "arr_refs arr = concat (map val_refs (varr_list arr))"

definition entry_refs :: "b_entry \<Rightarrow> addr list" where
  "entry_refs e = (if e_key e \<noteq> 0 then val_refs (e_key e) @ val_refs (e_value e) else [])"

definition tbl_refs :: "b_table \<Rightarrow> addr list" where
  "tbl_refs t = concat (map entry_refs (t_entries t))"

fun obj_refs :: "addr \<Rightarrow> b_obj \<Rightarrow> addr list" where
  "obj_refs a (OModule m) = tbl_refs (m_values m)"
| "obj_refs a (OSwitch s) = tbl_refs (sw_table s)"
| "obj_refs a (OFile f) = [fl_mode f, fl_path f]"
| "obj_refs a (ODict d) = arr_refs (d_names d) @ tbl_refs (d_items d)"
| "obj_refs a (OList l) = arr_refs l"
| "obj_refs a (OBound b) = val_refs (b_receiver b) @ [b_method b]"
| "obj_refs a (OClass k) = k_name k # tbl_refs (k_methods k) @ tbl_refs (k_properties k) @
     tbl_refs (k_static_properties k) @ val_refs (k_initializer k) @ opt_refs (k_superclass k)"
| "obj_refs a (OClosure c) =
     c_function c # concat (map opt_refs (take (c_up_value_count c) (c_up_values c)))"
| "obj_refs a (OFunction f) =
     opt_refs (f_name f) @ opt_refs (f_module f) @ arr_refs (bl_constants (f_blob f))"
| "obj_refs a (OInstance i) = i_klass i # tbl_refs (i_properties i)"
| "obj_refs a (OUpValue u) = val_refs (uv_closed u)"
| "obj_refs a (OString s) = []"
| "obj_refs a (OBytes b) = [a]"
| "obj_refs a (ORange r) = [a]"
| "obj_refs a (ONative n) = [a]"
| "obj_refs a (OPtr p) = [a]"

text \<open>Objects whose arrays can be read.\<close>

fun obj_wf :: "b_obj \<Rightarrow> bool" where
  "obj_wf (OList l) = varr_inv l"
| "obj_wf (ODict d) = varr_inv (d_names d)"
| "obj_wf (OFunction f) = varr_inv (bl_constants (f_blob f))"
| "obj_wf (OClosure c) = (c_up_value_count c \<le> length (c_up_values c))"
| "obj_wf _ = True"

definition heap_wf :: "heap \<Rightarrow> bool" where
  "heap_wf hp = (\<forall>a ob. hp a = Some ob \<longrightarrow> obj_wf ob \<and> set (obj_refs a ob) \<subseteq> dom hp)"

inductive_set reachable :: "heap \<Rightarrow> addr set \<Rightarrow> addr set" for hp :: heap and R :: "addr set" where
  root: "a \<in> R \<Longrightarrow> a \<in> reachable hp R"
| step: "a \<in> reachable hp R \<Longrightarrow> hp a = Some ob \<Longrightarrow> b \<in> set (obj_refs a ob) \<Longrightarrow> b \<in> reachable hp R"

section \<open>Marking a list of addresses\<close>

definition mark_list :: "b_vm \<Rightarrow> addr list \<Rightarrow> b_vm res" where
  "mark_list vm as = foldR (\<lambda>vm a. mark_object vm (Some a)) vm as"

lemma mark_list_simps [simp]:
  "mark_list vm [] = Inr vm"
  "mark_list vm (a # as) = bindR (mark_object vm (Some a)) (\<lambda>vm. mark_list vm as)"
  by (simp_all add: mark_list_def)

lemma mark_list_append: "mark_list vm (as @ bs) = bindR (mark_list vm as) (\<lambda>vm. mark_list vm bs)"
  by (simp add: mark_list_def foldR_append)

lemma mark_list_concat: "mark_list vm (concat (map f xs)) = foldR (\<lambda>vm x. mark_list vm (f x)) vm xs"
  by (simp add: mark_list_def foldR_concat)

lemma bindR_id [simp]: "bindR m Inr = m"
  by (cases m) auto

lemma mark_object_list: "mark_object vm p = mark_list vm (opt_refs p)"
  by (cases p) (auto simp: opt_refs_def mark_object_def)

lemma mark_value_list: "mark_value vm v = mark_list vm (val_refs v)"
  by (simp add: mark_value_def val_refs_def)

lemma mark_array_list:
  assumes "varr_inv arr"
  shows "mark_array vm arr = mark_list vm (arr_refs arr)"
proof -
  have "mark_array vm arr = foldR (\<lambda>vm i. mark_list vm (val_refs (varr_list arr ! i))) vm [0..<va_count arr]"
    unfolding mark_array_def
    by (rule foldR_cong) (auto simp: varr_get [OF assms] mark_value_list simp del: cell_get_nat)
  also have "\<dots> = foldR (\<lambda>vm v. mark_list vm (val_refs v)) vm (map ((!) (varr_list arr)) [0..<va_count arr])"
    by (simp add: foldR_map)
  also have "map ((!) (varr_list arr)) [0..<va_count arr] = varr_list arr"
    using map_nth [of "varr_list arr"] varr_list_length [OF assms] by simp
  finally show ?thesis by (simp add: arr_refs_def mark_list_concat)
qed

lemma mark_table_list: "mark_table vm t = mark_list vm (tbl_refs t)"
proof -
  have "(if e_key e \<noteq> 0 then bindR (mark_value vm (e_key e)) (\<lambda>vm. mark_value vm (e_value e)) else Inr vm) =
        mark_list vm (entry_refs e)" for vm e
    by (simp add: entry_refs_def mark_value_list mark_list_append)
  then show ?thesis by (simp add: mark_table_def tbl_refs_def mark_list_concat)
qed

lemma mark_up_values_closure:
  assumes "n \<le> length ps"
  shows "foldR (\<lambda>vm i. bindR (nth_res ps i) (mark_object vm)) vm [0..<n] =
         mark_list vm (concat (map opt_refs (take n ps)))"
proof -
  have "foldR (\<lambda>vm i. bindR (nth_res ps i) (mark_object vm)) vm [0..<n] =
        foldR (\<lambda>vm i. mark_list vm (opt_refs (ps ! i))) vm [0..<n]"
    using assms by (intro foldR_cong) (auto simp: nth_res_def mark_object_list)
  also have "\<dots> = foldR (\<lambda>vm p. mark_list vm (opt_refs p)) vm (map ((!) ps) [0..<n])"
    by (simp add: foldR_map)
  also have "map ((!) ps) [0..<n] = take n ps" using assms by (intro nth_equalityI) auto
  finally show ?thesis by (simp add: mark_list_concat)
qed

lemmas mark_lists = mark_object_list mark_value_list mark_table_list mark_list_append

lemma blacken_object_list:
  assumes "vm_heap vm a = Some ob" and "obj_wf ob"
  shows "blacken_object vm a = mark_list vm (obj_refs a ob)"
  using assms by (cases ob) (auto simp: blacken_object_def mark_array_list mark_up_values_closure
      mark_table_list mark_value_list mark_list_append mark_object_list [of _ "f_name f" for f]
      mark_object_list [of _ "f_module f" for f] mark_object_list [of _ "k_superclass k" for k])

section \<open>The effect of marking\<close>

definition black :: "b_vm \<Rightarrow> addr set" where
  "black vm = {a \<in> dom (vm_heap vm). vm_mark vm a = vm_mark_value vm}"

definition marks_only :: "b_vm \<Rightarrow> b_vm \<Rightarrow> bool" where
  "marks_only vm vm' = (\<exists>m g. vm' = vm\<lparr>vm_mark := m, vm_gray := g\<rparr>)"

text \<open>Objects still to be looked at: unmarked ones and those on the gray stack.\<close>

definition gc_work :: "b_vm \<Rightarrow> nat" where
  "gc_work vm = length (vm_gray vm) + card (dom (vm_heap vm) - black vm)"

lemma marks_only_refl [simp]: "marks_only vm vm"
  unfolding marks_only_def by (intro exI [of _ "vm_mark vm"] exI [of _ "vm_gray vm"]) simp


lemma marks_only_fields:
  assumes "marks_only vm vm'"
  shows "vm_heap vm' = vm_heap vm" "vm_objects vm' = vm_objects vm" "vm_strings vm' = vm_strings vm"
    "vm_modules vm' = vm_modules vm" "vm_mark_value vm' = vm_mark_value vm"
    "vm_compiler_functions vm' = vm_compiler_functions vm"
  using assms by (auto simp: marks_only_def)

lemma marks_only_trans:
  assumes "marks_only vm1 vm2" and "marks_only vm2 vm3"
  shows "marks_only vm1 vm3"
proof -
  obtain m g m' g' where "vm2 = vm1\<lparr>vm_mark := m, vm_gray := g\<rparr>" "vm3 = vm2\<lparr>vm_mark := m', vm_gray := g'\<rparr>"
    using assms by (auto simp: marks_only_def)
  then have "vm3 = vm1\<lparr>vm_mark := m', vm_gray := g'\<rparr>" by simp
  then show ?thesis unfolding marks_only_def by blast
qed

lemma marks_only_gray: "marks_only (vm\<lparr>vm_gray := g\<rparr>) vm' \<Longrightarrow> marks_only vm vm'"
proof (rule marks_only_trans)
  have "vm\<lparr>vm_gray := g\<rparr> = vm\<lparr>vm_mark := vm_mark vm, vm_gray := g\<rparr>" by simp
  then show "marks_only vm (vm\<lparr>vm_gray := g\<rparr>)" unfolding marks_only_def by blast
qed

lemma black_dom: "black vm \<subseteq> dom (vm_heap vm)"
  by (auto simp: black_def)

definition marked_by :: "b_vm \<Rightarrow> addr set \<Rightarrow> b_vm \<Rightarrow> bool" where
  "marked_by vm A vm' =
     (marks_only vm vm' \<and> black vm' = black vm \<union> A \<and>
      set (vm_gray vm') = set (vm_gray vm) \<union> (A - black vm) \<and> gc_work vm' = gc_work vm)"

lemma marked_by_refl: "marked_by vm {} vm"
  by (simp add: marked_by_def)

lemma marked_by_trans: "marked_by vm A vm' \<Longrightarrow> marked_by vm' B vm'' \<Longrightarrow> marked_by vm (A \<union> B) vm''"
  by (auto simp: marked_by_def intro: marks_only_trans)

lemma mark_object_correct:
  assumes "a \<in> dom (vm_heap vm)" and fin: "finite (dom (vm_heap vm))"
  shows "\<exists>vm'. mark_object vm (Some a) = Inr vm' \<and> marked_by vm {a} vm'"
proof (cases "vm_mark vm a = vm_mark_value vm")
  case True
  with assms have "mark_object vm (Some a) = Inr vm" "a \<in> black vm"
    by (auto simp: mark_object_def black_def)
  then show ?thesis by (auto simp: marked_by_def)
next
  case False
  let ?vm = "vm\<lparr>vm_mark := (vm_mark vm)(a := vm_mark_value vm), vm_gray := a # vm_gray vm\<rparr>"
  have m: "mark_object vm (Some a) = Inr ?vm" using False assms by (auto simp: mark_object_def)
  have b: "black ?vm = insert a (black vm)" using assms by (auto simp: black_def)
  have na: "a \<in> dom (vm_heap vm) - black vm" using False assms(1) by (auto simp: black_def)
  have "card (dom (vm_heap vm) - black vm) = Suc (card (dom (vm_heap vm) - insert a (black vm)))"
    using na fin by (metis Diff_insert card.remove finite_Diff)
  then have "gc_work ?vm = gc_work vm" using b by (simp add: gc_work_def)
  moreover have "marks_only vm ?vm" unfolding marks_only_def by blast
  ultimately show ?thesis using m b na by (auto simp: marked_by_def)
qed

lemma mark_list_correct:
  assumes "set as \<subseteq> dom (vm_heap vm)" and "finite (dom (vm_heap vm))"
  shows "\<exists>vm'. mark_list vm as = Inr vm' \<and> marked_by vm (set as) vm'"
  using assms
proof (induction as arbitrary: vm)
  case Nil
  then show ?case by (simp add: marked_by_refl)
next
  case (Cons a as)
  from Cons.prems mark_object_correct [of a vm] obtain vm1 where
    1: "mark_object vm (Some a) = Inr vm1" "marked_by vm {a} vm1" by auto
  then have h: "vm_heap vm1 = vm_heap vm" by (simp add: marked_by_def marks_only_fields)
  from Cons.IH [of vm1] Cons.prems h obtain vm2 where
    2: "mark_list vm1 as = Inr vm2" "marked_by vm1 (set as) vm2" by auto
  from marked_by_trans [OF 1(2) 2(2)] 1(1) 2(1) show ?case by auto
qed

section \<open>Tracing\<close>

text \<open>
  The invariant of the tracing loop: gray objects are marked, the references of marked objects that
  are not gray are marked, and only reachable objects are marked.
\<close>

definition trace_inv :: "addr set \<Rightarrow> b_vm \<Rightarrow> bool" where
  "trace_inv R vm =
     (R \<subseteq> black vm \<and> set (vm_gray vm) \<subseteq> black vm \<and> black vm \<subseteq> reachable (vm_heap vm) R \<and>
      (\<forall>a ob. a \<in> black vm - set (vm_gray vm) \<longrightarrow> vm_heap vm a = Some ob \<longrightarrow> set (obj_refs a ob) \<subseteq> black vm))"

lemma trace_inv_end:
  assumes "trace_inv R vm" and "vm_gray vm = []"
  shows "black vm = reachable (vm_heap vm) R"
proof
  show "black vm \<subseteq> reachable (vm_heap vm) R" using assms by (simp add: trace_inv_def)
  show "reachable (vm_heap vm) R \<subseteq> black vm"
  proof
    fix a
    assume "a \<in> reachable (vm_heap vm) R"
    then show "a \<in> black vm" by induction (use assms in \<open>auto simp: trace_inv_def subset_iff\<close>)
  qed
qed

lemma trace_inv_step:
  assumes inv: "trace_inv R vm" and wf: "heap_wf (vm_heap vm)" and fin: "finite (dom (vm_heap vm))"
    and gray: "vm_gray vm = a # rest"
  shows "\<exists>vm'. blacken_object (vm\<lparr>vm_gray := rest\<rparr>) a = Inr vm' \<and> marks_only vm vm' \<and>
           trace_inv R vm' \<and> Suc (gc_work vm') = gc_work vm"
proof -
  let ?vm = "vm\<lparr>vm_gray := rest\<rparr>"
  have b: "black ?vm = black vm" by (simp add: black_def)
  have a: "a \<in> black vm" using inv gray by (simp add: trace_inv_def)
  then obtain ob where ob: "vm_heap vm a = Some ob" by (auto simp: black_def)
  with wf have o: "obj_wf ob" "set (obj_refs a ob) \<subseteq> dom (vm_heap vm)" by (auto simp: heap_wf_def)
  from mark_list_correct [of "obj_refs a ob" ?vm] o fin obtain vm' where
    vm': "mark_list ?vm (obj_refs a ob) = Inr vm'" "marked_by ?vm (set (obj_refs a ob)) vm'" by auto
  have m: "marks_only vm vm'"
    using vm'(2) by (auto simp: marked_by_def dest: marks_only_gray)
  have bl: "black vm' = black vm \<union> set (obj_refs a ob)"
    "set (vm_gray vm') = set rest \<union> (set (obj_refs a ob) - black vm)" "gc_work vm' = gc_work ?vm"
    using vm'(2) b by (auto simp: marked_by_def)
  have "set (obj_refs a ob) \<subseteq> reachable (vm_heap vm) R"
    using a inv ob by (auto simp: trace_inv_def intro: reachable.step)
  moreover have "set (obj_refs c oc) \<subseteq> black vm'"
    if "c \<in> black vm' - set (vm_gray vm')" "vm_heap vm c = Some oc" for c oc
  proof (cases "c = a")
    case True
    then show ?thesis using that ob bl by simp
  next
    case False
    then have "c \<in> black vm - set (vm_gray vm)" using that(1) bl gray by auto
    then show ?thesis using inv that(2) bl by (auto simp: trace_inv_def subset_iff)
  qed
  ultimately have "trace_inv R vm'"
    using inv bl gray marks_only_fields(1) [OF m] by (auto simp: trace_inv_def)
  moreover have "Suc (gc_work vm') = gc_work vm" using bl(3) gray b by (simp add: gc_work_def)
  ultimately show ?thesis using vm'(1) m ob o(1) by (auto simp: blacken_object_list)
qed

lemma trace_loop_correct:
  assumes "trace_inv R vm" and "heap_wf (vm_heap vm)" and "finite (dom (vm_heap vm))" and "gc_work vm \<le> fuel"
  shows "\<exists>vm'. trace_loop fuel vm = Inr vm' \<and> marks_only vm vm' \<and> vm_gray vm' = [] \<and>
           black vm' = reachable (vm_heap vm) R"
  using assms
proof (induction fuel arbitrary: vm)
  case 0
  then have "vm_gray vm = []" by (simp add: gc_work_def)
  with 0 trace_inv_end show ?case by (auto simp: trace_loop.simps)
next
  case (Suc fuel)
  show ?case
  proof (cases "vm_gray vm")
    case Nil
    with Suc trace_inv_end show ?thesis by (auto simp: trace_loop.simps [of "Suc fuel"])
  next
    case (Cons a rest)
    from trace_inv_step [OF Suc.prems(1-3) Cons] obtain vm1 where
      1: "blacken_object (vm\<lparr>vm_gray := rest\<rparr>) a = Inr vm1" "marks_only vm vm1" "trace_inv R vm1"
      "Suc (gc_work vm1) = gc_work vm" by blast
    note h = marks_only_fields(1) [OF 1(2)]
    from Suc.IH [OF 1(3)] Suc.prems 1(4) h obtain vm2 where
      "trace_loop fuel vm1 = Inr vm2" "marks_only vm1 vm2" "vm_gray vm2 = []"
      "black vm2 = reachable (vm_heap vm) R" by auto
    with 1 Cons show ?thesis by (auto simp: trace_loop.simps [of "Suc fuel"] intro: marks_only_trans)
  qed
qed

section \<open>Roots\<close>

fun up_value_chain :: "heap \<Rightarrow> nat \<Rightarrow> addr option \<Rightarrow> addr list option" where
  "up_value_chain hp n None = Some []"
| "up_value_chain hp 0 (Some a) = None"
| "up_value_chain hp (Suc n) (Some a) =
     (case hp a of Some (OUpValue u) \<Rightarrow> map_option ((#) a) (up_value_chain hp n (uv_next u)) | _ \<Rightarrow> None)"

definition frame_refs :: "b_call_frame \<Rightarrow> addr list" where
  "frame_refs f = cf_closure f # concat (map (\<lambda>h. opt_refs (ef_klass h)) (take (nat (cf_handlers_count f)) (cf_handlers f)))"

definition root_refs :: "b_vm \<Rightarrow> addr list" where
  "root_refs vm =
     concat (map val_refs (vm_stack vm)) @ concat (map frame_refs (take (vm_frame_count vm) (vm_frames vm))) @
     the (up_value_chain (vm_heap vm) (length (vm_objects vm)) (vm_open_up_values vm)) @
     tbl_refs (vm_globals vm) @ tbl_refs (vm_modules vm) @ tbl_refs (vm_methods_string vm) @
     tbl_refs (vm_methods_bytes vm) @ tbl_refs (vm_methods_file vm) @ tbl_refs (vm_methods_list vm) @
     tbl_refs (vm_methods_dict vm) @ tbl_refs (vm_methods_range vm) @ opt_refs (vm_exception_class vm) @
     concat (map opt_refs (vm_compiler_functions vm))"

lemma marks_onlyI [intro]: "marks_only vm (vm\<lparr>vm_mark := m, vm_gray := g\<rparr>)"
  unfolding marks_only_def by blast

lemma mark_object_heap: "mark_object vm p = Inr vm' \<Longrightarrow> marks_only vm vm'"
  by (auto simp: mark_object_def split: option.splits if_splits)

lemma mark_list_heap:
  assumes "mark_list vm as = Inr vm'"
  shows "marks_only vm vm'"
  using assms
proof (induction as arbitrary: vm)
  case (Cons a as)
  then show ?case by (auto simp: bindR_Inr_iff intro: marks_only_trans mark_object_heap)
qed simp

lemma mark_up_values_list:
  assumes "up_value_chain (vm_heap vm) n p = Some as"
  shows "mark_up_values n vm p = mark_list vm as"
  using assms
proof (induction "vm_heap vm" n p arbitrary: vm as rule: up_value_chain.induct)
  case (3 n a)
  then obtain u bs where u: "vm_heap vm a = Some (OUpValue u)" "as = a # bs"
    "up_value_chain (vm_heap vm) n (uv_next u) = Some bs"
    by (auto split: option.splits b_obj.splits)
  show ?case
  proof (cases "mark_object vm (Some a)")
    case (Inl e)
    then show ?thesis using u by simp
  next
    case (Inr vm1)
    then have "vm_heap vm1 = vm_heap vm" by (simp add: mark_object_heap marks_only_fields)
    with 3(1) [OF u(1)] u Inr show ?thesis by simp
  qed
qed auto

text \<open>A part of \<open>mark_roots\<close> marks a list of references that does not depend on the marks.\<close>

definition marks_refs :: "b_vm \<Rightarrow> (b_vm \<Rightarrow> b_vm res) \<Rightarrow> addr list \<Rightarrow> bool" where
  "marks_refs vm f as = (\<forall>v. marks_only vm v \<longrightarrow> f v = mark_list v as)"

lemma marks_refs_bind:
  assumes "marks_refs vm f as" and "marks_refs vm g bs"
  shows "marks_refs vm (\<lambda>v. bindR (f v) g) (as @ bs)"
  unfolding marks_refs_def
proof (intro allI impI)
  fix v
  assume v: "marks_only vm v"
  show "bindR (f v) g = mark_list v (as @ bs)"
  proof (cases "mark_list v as")
    case (Inl e)
    then show ?thesis using assms(1) v by (simp add: marks_refs_def mark_list_append)
  next
    case (Inr v')
    then have "marks_only vm v'" using marks_only_trans [OF v mark_list_heap] by blast
    then show ?thesis using assms v Inr by (simp add: marks_refs_def mark_list_append)
  qed
qed

lemma mark_frame_list: "mark_frame vm f = mark_list vm (frame_refs f)"
  by (simp add: mark_frame_def frame_refs_def mark_list_concat mark_object_list [of _ "ef_klass h" for h])

lemma marks_refs_parts:
  "marks_refs vm (\<lambda>v. foldR mark_value v vs) (concat (map val_refs vs))"
  "marks_refs vm (\<lambda>v. foldR mark_frame v fs) (concat (map frame_refs fs))"
  "marks_refs vm (\<lambda>v. mark_table v t) (tbl_refs t)"
  "marks_refs vm (\<lambda>v. mark_object v p) (opt_refs p)"
  "marks_refs vm mark_compiler_roots (concat (map opt_refs (vm_compiler_functions vm)))"
  by (auto simp: marks_refs_def mark_list_concat mark_value_list [abs_def] mark_frame_list [abs_def]
      mark_table_list mark_object_list [abs_def] mark_compiler_roots_def marks_only_fields)

lemma marks_bind:
  assumes "marks_refs vm f as" and "marks_refs vm g bs"
  shows "bindR (f vm) g = mark_list vm (as @ bs)"
  using marks_refs_bind [OF assms] marks_only_refl by (auto simp: marks_refs_def)

lemma mark_roots_list:
  assumes "up_value_chain (vm_heap vm) (length (vm_objects vm)) (vm_open_up_values vm) = Some ups"
  shows "mark_roots vm = mark_list vm (root_refs vm)"
proof -
  have up: "marks_refs vm (\<lambda>v. mark_up_values (length (vm_objects vm)) v (vm_open_up_values vm)) ups"
    using assms by (auto simp: marks_refs_def marks_only_fields intro: mark_up_values_list)
  show ?thesis
    unfolding mark_roots_def root_refs_def assms option.sel
    by (rule marks_bind) (intro marks_refs_bind marks_refs_parts up)+
qed

text \<open>A machine between two collections: nothing is marked and no reference dangles.\<close>

definition gc_ready :: "b_vm \<Rightarrow> bool" where
  "gc_ready vm =
     (heap_wf (vm_heap vm) \<and> finite (dom (vm_heap vm)) \<and> distinct (vm_objects vm) \<and>
      set (vm_objects vm) = dom (vm_heap vm) \<and> vm_gray vm = [] \<and> black vm = {} \<and>
      up_value_chain (vm_heap vm) (length (vm_objects vm)) (vm_open_up_values vm) \<noteq> None \<and>
      set (root_refs vm) \<subseteq> dom (vm_heap vm) \<and>
      tbl_inv (vm_heap vm) (vm_strings vm) \<and> tbl_inv (vm_heap vm) (vm_modules vm) \<and>
      (\<forall>k. tbl_map (vm_strings vm) k \<noteq> None \<longrightarrow> IS_OBJ k \<longrightarrow> AS_OBJ k \<in> dom (vm_heap vm)))"

definition live_objects :: "b_vm \<Rightarrow> addr set" where
  "live_objects vm = reachable (vm_heap vm) (set (root_refs vm))"

lemma mark_phase:
  assumes "gc_ready vm"
  shows "\<exists>vm1 vm2. mark_roots vm = Inr vm1 \<and> trace_references vm1 = Inr vm2 \<and> marks_only vm vm2 \<and>
           vm_gray vm2 = [] \<and> black vm2 = live_objects vm"
proof -
  note g = assms [unfolded gc_ready_def]
  from mark_list_correct [of "root_refs vm" vm] g obtain vm1 where
    1: "mark_list vm (root_refs vm) = Inr vm1" "marked_by vm (set (root_refs vm)) vm1" by auto
  note f = marks_only_fields [OF mark_list_heap [OF 1(1)]]
  have b: "black vm1 = set (root_refs vm)" "set (vm_gray vm1) = set (root_refs vm)" "gc_work vm1 = gc_work vm"
    using 1(2) g by (auto simp: marked_by_def)
  have "trace_inv (set (root_refs vm)) vm1"
    using b by (auto simp: trace_inv_def f(1) intro: reachable.root)
  moreover have "gc_work vm1 \<le> length (vm_objects vm1)"
    using g b(3) by (simp add: f(2) gc_work_def distinct_card [symmetric])
  ultimately obtain vm2 where "trace_loop (length (vm_objects vm1)) vm1 = Inr vm2" "marks_only vm1 vm2"
    "vm_gray vm2 = []" "black vm2 = reachable (vm_heap vm1) (set (root_refs vm))"
    using trace_loop_correct [of "set (root_refs vm)" vm1 "length (vm_objects vm1)"] g f(1) by auto
  moreover from this have "marks_only vm vm2" using marks_only_trans [OF mark_list_heap [OF 1(1)]] by blast
  ultimately show ?thesis
    using 1 g by (auto simp: trace_references_def live_objects_def f(1) mark_roots_list)
qed

section \<open>Sweeping\<close>

text \<open>Objects whose release touches nothing but themselves.\<close>

fun plain_object :: "b_obj \<Rightarrow> bool" where
  "plain_object (OClass k) = False"
| "plain_object (OFunction f) = (f_name f = None)"
| "plain_object (OFile f) = False"
| "plain_object _ = True"

lemma free_plain:
  assumes "vm_heap vm a = Some ob" and "plain_object ob"
  shows "free_object (Suc n) vm a = Inr (vm\<lparr>vm_heap := (vm_heap vm)(a := None)\<rparr>)"
  using assms by (cases ob) (auto simp: FREE_def)

lemma sweep_loop_correct:
  assumes "distinct objs" and "set objs \<subseteq> dom (vm_heap vm)"
    and "\<And>a ob. a \<in> set objs \<Longrightarrow> vm_heap vm a = Some ob \<Longrightarrow> is_white vm a \<Longrightarrow> plain_object ob"
  shows "sweep_loop vm kept objs =
         Inr (vm\<lparr>vm_heap := (\<lambda>a. if a \<in> set objs \<and> is_white vm a then None else vm_heap vm a),
                 vm_objects := kept @ filter (\<lambda>a. \<not> is_white vm a) objs\<rparr>)"
  using assms
proof (induction objs arbitrary: vm kept)
  case Nil
  then show ?case by simp
next
  case (Cons a objs)
  obtain ob where ob: "vm_heap vm a = Some ob" using Cons.prems(2) by auto
  show ?case
  proof (cases "is_white vm a")
    case True
    let ?vm = "vm\<lparr>vm_heap := (vm_heap vm)(a := None)\<rparr>"
    have "plain_object ob" using Cons.prems(3) [OF _ ob True] by simp
    then have "sweep_loop vm kept (a # objs) = sweep_loop ?vm kept objs"
      using ob True by (simp add: is_white_def free_depth_def free_plain del: free_object.simps)
    also have "\<dots> = Inr (?vm\<lparr>vm_heap := (\<lambda>b. if b \<in> set objs \<and> is_white ?vm b then None else vm_heap ?vm b),
                 vm_objects := kept @ filter (\<lambda>a. \<not> is_white ?vm a) objs\<rparr>)"
      using Cons.prems by (intro Cons.IH) (auto simp: is_white_def split: if_splits)
    also have "\<dots> = Inr (vm\<lparr>vm_heap := (\<lambda>b. if b \<in> set (a # objs) \<and> is_white vm b then None else vm_heap vm b),
                 vm_objects := kept @ filter (\<lambda>a. \<not> is_white vm a) (a # objs)\<rparr>)"
      using True by (auto simp: is_white_def fun_eq_iff)
    finally show ?thesis .
  next
    case False
    then have "sweep_loop vm kept (a # objs) = sweep_loop vm (kept @ [a]) objs"
      using ob by (simp add: is_white_def)
    also have "\<dots> = Inr (vm\<lparr>vm_heap := (\<lambda>b. if b \<in> set objs \<and> is_white vm b then None else vm_heap vm b),
                 vm_objects := (kept @ [a]) @ filter (\<lambda>a. \<not> is_white vm a) objs\<rparr>)"
      using Cons.prems by (intro Cons.IH) auto
    also have "\<dots> = Inr (vm\<lparr>vm_heap := (\<lambda>b. if b \<in> set (a # objs) \<and> is_white vm b then None else vm_heap vm b),
                 vm_objects := kept @ filter (\<lambda>a. \<not> is_white vm a) (a # objs)\<rparr>)"
      using False by (auto simp: fun_eq_iff)
    finally show ?thesis .
  qed
qed

lemma gc_ready_wf: "gc_ready vm \<Longrightarrow> heap_wf (vm_heap vm)"
  by (simp add: gc_ready_def)

lemma live_objects_dom:
  assumes "gc_ready vm"
  shows "live_objects vm \<subseteq> dom (vm_heap vm)"
proof
  fix a
  assume "a \<in> live_objects vm"
  then show "a \<in> dom (vm_heap vm)"
    unfolding live_objects_def by induction (use assms in \<open>auto simp: gc_ready_def heap_wf_def subset_iff\<close>)
qed

lemma heap_wf_live:
  assumes "gc_ready vm"
  shows "heap_wf (vm_heap vm |` live_objects vm)"
  unfolding heap_wf_def
proof (intro allI impI conjI subsetI)
  fix a ob
  assume "(vm_heap vm |` live_objects vm) a = Some ob"
  then have a: "a \<in> live_objects vm" "vm_heap vm a = Some ob" by (simp_all add: restrict_map_def split: if_splits)
  then show "obj_wf ob" using gc_ready_wf [OF assms] by (simp add: heap_wf_def)
  fix b
  assume b: "b \<in> set (obj_refs a ob)"
  have "b \<in> live_objects vm"
    using a(1) [unfolded live_objects_def] a(2) b unfolding live_objects_def by (rule reachable.step)
  then show "b \<in> dom (vm_heap vm |` live_objects vm)" using live_objects_dom [OF assms] by (simp add: subset_iff)
qed

lemma collect_garbage_result:
  assumes ready: "gc_ready vm"
    and plain: "\<And>a ob. vm_heap vm a = Some ob \<Longrightarrow> a \<notin> live_objects vm \<Longrightarrow> plain_object ob"
  shows "\<exists>vm'. collect_garbage vm = Inr vm' \<and> vm_heap vm' = vm_heap vm |` live_objects vm \<and>
           vm_objects vm' = filter (\<lambda>a. a \<in> live_objects vm) (vm_objects vm) \<and>
           tbl_map (vm_strings vm') =
             (\<lambda>k. if IS_OBJ k \<and> AS_OBJ k \<notin> live_objects vm then None else tbl_map (vm_strings vm) k) \<and>
           heap_wf (vm_heap vm') \<and> set (root_refs vm) \<subseteq> dom (vm_heap vm') \<and>
           vm_gray vm' = [] \<and> black vm' = {}"
proof -
  note g = ready [unfolded gc_ready_def]
  from mark_phase [OF ready] obtain vm1 vm2 where
    m: "mark_roots vm = Inr vm1" "trace_references vm1 = Inr vm2" "marks_only vm vm2" "vm_gray vm2 = []"
    "black vm2 = live_objects vm" by blast
  note f = marks_only_fields [OF m(3)]
  have white: "is_white vm2 a \<longleftrightarrow> a \<notin> live_objects vm" if "a \<in> dom (vm_heap vm)" for a
    using that m(5) [symmetric] f(1) by (auto simp: is_white_def black_def)
  obtain strings where strings: "table_remove_whites (vm_heap vm2) (is_white vm2) (vm_strings vm2) = Inr strings"
    "tbl_map strings = (\<lambda>k. if white_key (is_white vm2) k then None else tbl_map (vm_strings vm) k)"
    unfolding f using table_remove_whites_map [of "vm_heap vm" "vm_strings vm" "is_white vm2"] g by blast
  obtain modules where modules: "table_remove_whites (vm_heap vm2) (is_white vm2) (vm_modules vm2) = Inr modules"
    unfolding f using table_remove_whites_map [of "vm_heap vm" "vm_modules vm" "is_white vm2"] g by blast
  let ?vm = "vm2\<lparr>vm_strings := strings, vm_modules := modules\<rparr>"
  have w: "is_white ?vm = is_white vm2" by (simp add: is_white_def fun_eq_iff)
  have "sweep ?vm = Inr (?vm\<lparr>vm_heap := (\<lambda>a. if a \<in> set (vm_objects ?vm) \<and> is_white ?vm a then None else vm_heap ?vm a),
                 vm_objects := [] @ filter (\<lambda>a. \<not> is_white ?vm a) (vm_objects ?vm)\<rparr>)"
    unfolding sweep_def
    using g f white plain by (intro sweep_loop_correct) (auto simp: w)
  also have "(\<lambda>a. if a \<in> set (vm_objects ?vm) \<and> is_white ?vm a then None else vm_heap ?vm a) =
             vm_heap vm |` live_objects vm"
    using g f white live_objects_dom [OF ready] by (fastforce simp: w restrict_map_def fun_eq_iff)
  also have "[] @ filter (\<lambda>a. \<not> is_white ?vm a) (vm_objects ?vm) = filter (\<lambda>a. a \<in> live_objects vm) (vm_objects vm)"
    using g f white by (auto simp: w intro: filter_cong)
  finally have sw: "sweep ?vm = Inr (?vm\<lparr>vm_heap := vm_heap vm |` live_objects vm,
      vm_objects := filter (\<lambda>a. a \<in> live_objects vm) (vm_objects vm)\<rparr>)" .
  let ?vm' = "?vm\<lparr>vm_heap := vm_heap vm |` live_objects vm,
      vm_objects := filter (\<lambda>a. a \<in> live_objects vm) (vm_objects vm), vm_mark_value := \<not> vm_mark_value vm2\<rparr>"
  have "collect_garbage vm = Inr ?vm'"
    using m strings(1) modules sw by (simp add: collect_garbage_def)
  moreover have "tbl_map strings = (\<lambda>k. if IS_OBJ k \<and> AS_OBJ k \<notin> live_objects vm then None else tbl_map (vm_strings vm) k)"
  proof
    fix k
    show "tbl_map strings k = (if IS_OBJ k \<and> AS_OBJ k \<notin> live_objects vm then None else tbl_map (vm_strings vm) k)"
    proof (cases "tbl_map (vm_strings vm) k = None")
      case False
      then have "IS_OBJ k \<Longrightarrow> AS_OBJ k \<in> dom (vm_heap vm)" using g by blast
      then show ?thesis using white by (auto simp: strings(2) white_key_def)
    qed (simp add: strings(2))
  qed
  moreover have "set (root_refs vm) \<subseteq> dom (vm_heap vm |` live_objects vm)"
    using g by (auto simp: live_objects_def subset_iff domIff restrict_map_def intro: reachable.root)
  moreover have "black ?vm' = {}"
    using m(5) f(1) by (auto simp: black_def restrict_map_def split: if_splits)
  ultimately show ?thesis using heap_wf_live [OF ready] m(4) by (intro exI [of _ ?vm']) simp
qed


text \<open>A machine with empty tables, for the examples.\<close>

definition sample_vm :: "heap \<Rightarrow> addr list \<Rightarrow> b_value list \<Rightarrow> b_vm" where
  "sample_vm hp objs stack =
     \<lparr>vm_frames = [], vm_frame_count = 0, vm_stack = stack, vm_open_up_values = None, vm_objects = objs,
      vm_compiler_functions = [], vm_exception_class = None, vm_gray = [], vm_gc_protected = 0, vm_modules = init_table,
      vm_strings = init_table, vm_globals = init_table, vm_methods_string = init_table,
      vm_methods_list = init_table, vm_methods_dict = init_table, vm_methods_file = init_table,
      vm_methods_bytes = init_table, vm_methods_range = init_table, vm_mark_value = True, vm_is_repl = False, vm_out = [],
      vm_heap = hp, vm_next = 128, vm_mark = (\<lambda>_. False)\<rparr>"

lemma tbl_refs_init [simp]: "tbl_refs init_table = []"
  by (simp add: tbl_refs_def init_table_def)

lemma sample_vm_simps [simp]:
  "vm_heap (sample_vm hp objs stack) = hp" "vm_objects (sample_vm hp objs stack) = objs"
  "vm_stack (sample_vm hp objs stack) = stack" "vm_gray (sample_vm hp objs stack) = []"
  "vm_open_up_values (sample_vm hp objs stack) = None" "vm_strings (sample_vm hp objs stack) = init_table"
  "vm_modules (sample_vm hp objs stack) = init_table" "black (sample_vm hp objs stack) = {}"
  "root_refs (sample_vm hp objs stack) = concat (map val_refs stack)"
  by (auto simp: sample_vm_def black_def root_refs_def opt_refs_def)

lemma gc_ready_sample:
  assumes "heap_wf hp" and "distinct objs" and "set objs = dom hp"
    and "set (concat (map val_refs stack)) \<subseteq> dom hp"
  shows "gc_ready (sample_vm hp objs stack)"
proof -
  have "finite (dom hp)" using assms(3) by (metis finite_set)
  then show ?thesis using assms by (simp add: gc_ready_def)
qed

definition one_range :: b_obj where
  "one_range = ORange \<lparr>r_lower = 0, r_upper = 3, r_range = 3\<rparr>"

lemma val_refs_OBJ [simp]: "addr_ok a \<Longrightarrow> val_refs (OBJ_VAL a) = [a]"
  by (simp add: val_refs_def AS_OBJ_OBJ_VAL)

lemma addr_ok_small [simp]: "addr_ok 16" "addr_ok 32" "addr_ok 48" "addr_ok 64"
  by (simp_all add: addr_ok_def val_consts)


section \<open>Reachable objects that are lost\<close>

text \<open>A dictionary on the stack that maps the number zero to a range.\<close>

definition zero_dict :: b_obj_dict where
  "zero_dict = \<lparr>d_names = varr_of 4 [0], d_items = zero_table (OBJ_VAL 32)\<rparr>"

lemma zero_dict_refs: "obj_refs 16 (ODict zero_dict) = []"
  using varr_of_ok [of "[0]" 4]
  by (simp add: zero_dict_def arr_refs_def tbl_refs_def zero_table_def entry_refs_def pristine_entry_def
      val_refs_def zero_tests)


text \<open>A class that is not used any more, while its name still is.\<close>

definition name_string :: b_obj where
  "name_string = OString \<lparr>s_length = 1, s_utf8_length = 1, s_is_ascii = True, s_hash = hash_string [65], s_chars = [65]\<rparr>"

definition dead_class :: b_obj where
  "dead_class = OClass \<lparr>k_initializer = EMPTY_VAL, k_properties = init_table, k_static_properties = init_table,
     k_methods = init_table, k_name = 16, k_superclass = None\<rparr>"

abbreviation class_heap :: heap where
  "class_heap \<equiv> [16 \<mapsto> name_string, 32 \<mapsto> dead_class]"

lemma class_heap_at [simp]: "class_heap 16 = Some name_string" "class_heap 32 = Some dead_class"
  by simp_all

lemma class_heap_refs [simp]: "obj_refs 16 name_string = []" "obj_refs 32 dead_class = [16]"
  by (simp_all add: name_string_def dead_class_def val_refs_def opt_refs_def)

lemma class_heap_ready: "gc_ready (sample_vm class_heap [32, 16] [OBJ_VAL 16])"
proof (rule gc_ready_sample)
  have "obj_wf name_string" "obj_wf dead_class" by (simp_all add: name_string_def dead_class_def)
  then show "heap_wf class_heap" by (auto simp: heap_wf_def)
qed auto

lemma class_heap_live: "live_objects (sample_vm class_heap [32, 16] [OBJ_VAL 16]) = {16}"
proof -
  have "a = 16" if "a \<in> reachable class_heap {16}" for a
    using that by induction (auto split: if_splits)
  moreover have "16 \<in> reachable class_heap {16}" by (rule reachable.root) simp
  ultimately show ?thesis by (auto simp: live_objects_def)
qed

lemma free_dead_class:
  assumes "vm_heap vm = class_heap"
  shows "free_object (Suc (Suc (Suc 0))) vm 32 = Inr (vm\<lparr>vm_heap := (\<lambda>_. None)\<rparr>)"
proof -
  have "free_object (Suc (Suc 0)) vm 16 = Inr (vm\<lparr>vm_heap := [32 \<mapsto> dead_class]\<rparr>)"
    using assms by (simp add: name_string_def FREE_def)
  then show ?thesis using assms by (simp add: dead_class_def FREE_def)
qed

text \<open>
  The release of a class also releases its name. When the name is still in use, the collection
  releases a marked object, and when the walk over the objects comes to it, it follows a dangling
  pointer.
\<close>

lemma collect_garbage_class_name:
  "16 \<in> live_objects (sample_vm [16 \<mapsto> name_string, 32 \<mapsto> dead_class] [32, 16] [OBJ_VAL 16]) \<and>
   collect_garbage (sample_vm [16 \<mapsto> name_string, 32 \<mapsto> dead_class] [32, 16] [OBJ_VAL 16]) = Inl NullPointer"
proof -
  let ?vm = "sample_vm class_heap [32, 16] [OBJ_VAL 16]"
  from mark_phase [OF class_heap_ready] obtain vm1 vm2 where
    m: "mark_roots ?vm = Inr vm1" "trace_references vm1 = Inr vm2" "marks_only ?vm vm2" "black vm2 = {16}"
    unfolding class_heap_live by blast
  have f: "vm_heap vm2 = class_heap" "vm_objects vm2 = [32, 16]" "vm_strings vm2 = init_table"
    "vm_modules vm2 = init_table"
    using marks_only_fields [OF m(3)] by (simp_all only: sample_vm_simps)
  have "16 \<in> black vm2" "32 \<notin> black vm2" using m(4) by simp_all
  then have w: "is_white vm2 32" by (simp add: is_white_def black_def f(1) domIff)
  have t: "table_remove_whites hp p init_table = Inr init_table" for hp p
    by (simp add: table_remove_whites_def init_table_def)
  let ?v = "vm2\<lparr>vm_strings := init_table, vm_modules := init_table\<rparr>"
  have "sweep ?v = Inl NullPointer"
    using w free_dead_class [of ?v] f(1,2)
    by (simp add: sweep_def is_white_def free_depth_def del: free_object.simps)
  then show ?thesis using class_heap_live m(1,2) by (simp add: collect_garbage_def f(3,4) t)
qed

end
