(* ===== verification/Spec2Isabelle.thy ===== *)
theory Spec2Isabelle
  imports Code_Scan Base64_Correct Native_Correct Native_Text String_Correct Compiler_Props Compiler_Names Compiler_Table VM_Exceptions VM_Call_Correct VM_Upvalues VM_Index_Correct Value_Props Range_Methods Sort Bytes_Correct Dict_Correct List_Correct Table_Props Scanner_Correct Util_UTF8
    Memory_Correct
begin

text \<open>
  Blade is a scripting language implemented in C (\<open>src/src\<close>): a scanner and a single-pass compiler
  turn a source file into bytecode, and a stack machine with a mark-and-sweep collector runs it.
  This development models the implementation from the scanner to the collector, operation by
  operation, and proves what its parts promise to each other.

  \<^bold>\<open>Parts and theories.\<close>

  \<^item> Values (\<open>value.h\<close>, \<open>value.c\<close>). A value is one 64-bit word (NaN boxing): \<open>Object_Types\<close> has the tags
    and conversions, \<open>Value\<close> equality, hashing and type names, \<open>Double\<close> and \<open>Double_Arith\<close> the IEEE
    binary64 arithmetic the sources use (on bit patterns, rounding to nearest) and the text of
    \<open>%.16g\<close>. \<open>Value_Arr\<close> has the growable arrays of values and the bytecode container of \<open>blob.c\<close>.
  \<^item> Objects (\<open>object.h\<close>, \<open>object.c\<close>). \<open>Object_Types\<close> has a record for each object type; the heap is
    a map from addresses to objects. \<open>Heap_State\<close> has the constructors, \<open>Strings\<close> the interned
    strings, \<open>Printing\<close> the conversion of values to text and printing.
  \<^item> The hash table (\<open>table.c\<close>). \<open>Table\<close> has open addressing with tombstones as in the source.
    \<open>Store_Spec\<close> states the contract of a store as a locale, and \<open>Table_Correct\<close> interprets it on the
    table; \<open>Table_Props\<close> has the properties.
  \<^item> The methods of the builtin types (\<open>list.c\<close>, \<open>dict.c\<close>, \<open>bytes.c\<close>, \<open>range.c\<close>, \<open>bstring.c\<close>):
    \<open>List_Methods\<close>, \<open>Dict_Methods\<close>, \<open>Bytes_Methods\<close>, \<open>Range_Methods\<close>, \<open>String_Methods\<close>, with \<open>List_Correct\<close>,
    \<open>Dict_Correct\<close>, \<open>Bytes_Correct\<close>, \<open>String_Correct\<close> and \<open>Sort\<close>. \<open>Strtod\<close> has the number functions of the C
    library. \<open>Iteration\<close> has the protocol of the \<open>for\<close> statement as a locale over its two methods,
    interpreted for lists and byte arrays.
  \<^item> The garbage collector (\<open>memory.c\<close>): \<open>Memory\<close> and \<open>Memory_Correct\<close>.
  \<^item> The scanner (\<open>scanner.c\<close>): \<open>Scanner\<close> and \<open>Scanner_Correct\<close>; UTF-8 (\<open>util.c\<close>): \<open>Util_UTF8\<close>.
  \<^item> The compiler (\<open>compiler.c\<close>): \<open>Compiler_State\<close> has the parser and the stack of compilers as records,
    errors, code emission, scopes and the resolution of names; \<open>Compiler_Expr\<close> and \<open>Compiler_Literals\<close>
    the table of parse rules and the productions of expressions; \<open>Compiler_Stmt\<close> and \<open>Compiler\<close> functions,
    classes, statements, imports and \<open>compile\<close>. \<open>Pathinfo\<close> has the search for imported files
    (\<open>pathinfo.c\<close>). \<open>Compiler_Emit\<close> has the lemmas on emission and on the tokens ahead,
    \<open>Compiler_Expr_Correct\<close> the code the parser emits for an operator expression, and \<open>Expr_Run\<close> that the
    machine computes the value of the expression from this code. \<open>Compiler_Props\<close> shows where jumps and
    \<open>continue\<close> lead, \<open>Compiler_Names\<close> that captured names follow lexical scope, \<open>Compiler_Table\<close> the hole in
    the table of parse rules.
  \<^item> The machine (\<open>vm.h\<close>, \<open>vm.c\<close>): \<open>VM_State\<close> has \<open>struct s_vm\<close> as a record; \<open>VM_Core\<close> the stack,
    exceptions and up-values; \<open>VM_Call\<close> calls and method lookup; \<open>VM_Index\<close> the operators on
    containers; \<open>VM_Instr\<close> and \<open>VM_Run\<close> the instructions (\<open>Opcodes\<close>) and the loop of \<open>run\<close>; \<open>VM_Init\<close>
    the start of the machine. \<open>VM_Exceptions\<close> shows which handler an exception reaches,
    \<open>VM_Call_Correct\<close> the frame a call sets up, \<open>VM_Upvalues\<close> that captured variables are shared and
    survive their function, \<open>VM_Index_Correct\<close> arithmetic and assignment by index, \<open>Value_Props\<close> that
    the tags of values exclude each other.

  \<^item> The builtin functions (\<open>native.h\<close>, \<open>native.c\<close>): \<open>Native_Functions\<close> has the calling convention and a
    definition for each function, \<open>Builtin\<close> the binding of the names that \<open>init_vm\<close> registers to the
    definitions of functions and methods. \<open>Native_Correct\<close> has the convention as a locale, interpreted on
    the table of methods, and the stack after a call; \<open>Native_Text\<close> the round trips between numbers and text.
    \<open>Base64\<close> and \<open>Base64_Correct\<close> have the native module of \<open>standard/base64.c\<close> and its round trip.
  \<^item> The disassembler (\<open>debug.c\<close>): \<open>Debug\<close>. \<open>Code_Scan\<close> compares its lengths of instructions with those of
    the compiler, and shows what the compiler's search for the placeholders of \<open>break\<close> finds.

  \<^bold>\<open>Conventions.\<close> A C function that changes state takes and returns it. What can go wrong is a value
  of type \<open>'a res\<close>: an access outside a block, an indeterminate or dangling value, a bad conversion,
  an overflow, a loop that does not end, or a Blade exception. A block of memory is the list of its
  cells, with \<open>None\<close> for a cell never written, so that the capacity of an array is visible and an
  access behind it is an error. Addresses come from a counter that is never reused.

  \<^bold>\<open>Fuel.\<close> Loops of the sources that may not end have a fuel argument and give \<open>Divergence\<close> without
  it: probing of the hash table is bounded by the capacity, tracing by the number of objects times
  the references, walks along superclasses, up-values and nested containers by the number of
  objects; \<open>run\<close> has one unit for each instruction. \<open>parse\<close> takes one unit for each level of nested
  calls of \<open>parse_precedence\<close>, \<open>statement\<close> and \<open>declaration\<close>: the size of an expression is enough.

  \<^bold>\<open>Parameters.\<close> Native functions (to be instantiated with \<open>builtins\<close>), the loaders of native modules, \<open>pow\<close> and the bit pattern of the NaN
  that arithmetic produces are fields of the record \<open>platform\<close>; the files that exist, their text and the
  directories of the program are a parameter of the compiler; the PCRE2 library is the record \<open>regex\<close>; the compiler is an argument of
  \<open>interpret_module\<close>, to be instantiated with \<open>compile\<close>.

  \<^bold>\<open>Not modelled.\<close> The string method \<open>matches\<close>, the builtin functions \<open>time\<close>, \<open>microtime\<close>, \<open>rand\<close>
  and \<open>id\<close>, files, module loading, the command line, the standard modules but \<open>base64\<close>, and the packages.
  Exception messages are kept as their format strings. The count of allocated bytes that decides
  when a collection starts is left out, so the operations of the other theories do not collect;
  the collector is a separate operation on the machine.
\<close>

end
